(* ===== verification/Webos_Prelude.thy ===== *)
theory Webos_Prelude
  imports Main "HOL-Library.Word" "HOL-Library.Sublist"
begin

text \<open>
  Shared vocabulary of the development: bytes, C strings and arrays, error numbers, and the
  generic list lemmas the component theories use.

  \<^item> A byte (\<open>uint8_t\<close>, \<open>char\<close>) is a HOL \<^typ>\<open>char\<close>, an 8-bit value; \<open>of_char\<close> reads it as a
    number in \<open>0..255\<close>, the way an \<open>unsigned char\<close> is read.
  \<^item> A NUL-terminated string is the list of its bytes before the terminator, so it holds no NUL;
    \<open>c_at s i\<close> reads byte \<open>i\<close> of it and gives NUL at the terminator.
  \<^item> A C array is a list of the array's declared size.  \<open>memcpy\<close> is the C copy into an array at an
    offset; a copy that runs past the end would make the list longer than the array, so an
    invariant that fixes the length of an array also states that no copy overruns it.
  \<^item> A pointer with a length is a \<^typ>\<open>char list option\<close> (\<open>None\<close> for \<open>NULL\<close>) and a \<^typ>\<open>nat\<close>.
  \<^item> Return codes are integers: 0 or a count on success, a negated error number on failure.
    The numbers are those of the C library Zephyr builds with (lib/libc/minimal errno.h).
\<close>

named_theorems errno_simps \<open>values of the error numbers\<close>
named_theorems cstring_simps \<open>evaluation of C string functions\<close>

type_synonym byte = char
type_synonym u32 = "32 word"

definition UINT32_MAX :: u32 where "UINT32_MAX = 0xffffffff"

section \<open>Error numbers\<close>

definition EPERM :: int where [errno_simps]: "EPERM = 1"
definition ENOENT :: int where [errno_simps]: "ENOENT = 2"
definition EIO :: int where [errno_simps]: "EIO = 5"
definition EAGAIN :: int where [errno_simps]: "EAGAIN = 11"
definition ENOMEM :: int where [errno_simps]: "ENOMEM = 12"
definition EACCES :: int where [errno_simps]: "EACCES = 13"
definition EFAULT :: int where [errno_simps]: "EFAULT = 14"
definition EBUSY :: int where [errno_simps]: "EBUSY = 16"
definition EEXIST :: int where [errno_simps]: "EEXIST = 17"
definition ENODEV :: int where [errno_simps]: "ENODEV = 19"
definition ENOTDIR :: int where [errno_simps]: "ENOTDIR = 20"
definition EISDIR :: int where [errno_simps]: "EISDIR = 21"
definition EINVAL :: int where [errno_simps]: "EINVAL = 22"
definition EFBIG :: int where [errno_simps]: "EFBIG = 27"
definition ENOSPC :: int where [errno_simps]: "ENOSPC = 28"
definition EBADMSG :: int where [errno_simps]: "EBADMSG = 77"
definition ENAMETOOLONG :: int where [errno_simps]: "ENAMETOOLONG = 91"
definition ENOBUFS :: int where [errno_simps]: "ENOBUFS = 105"
definition ECONNRESET :: int where [errno_simps]: "ECONNRESET = 104"
definition ECONNREFUSED :: int where [errno_simps]: "ECONNREFUSED = 111"
definition ECONNABORTED :: int where [errno_simps]: "ECONNABORTED = 113"
definition ENETUNREACH :: int where [errno_simps]: "ENETUNREACH = 114"
definition ENETDOWN :: int where [errno_simps]: "ENETDOWN = 115"
definition ETIMEDOUT :: int where [errno_simps]: "ETIMEDOUT = 116"
definition EPROTONOSUPPORT :: int where [errno_simps]: "EPROTONOSUPPORT = 123"
definition EMSGSIZE :: int where [errno_simps]: "EMSGSIZE = 122"
definition ENOTSUP :: int where [errno_simps]: "ENOTSUP = 134"
definition ECANCELED :: int where [errno_simps]: "ECANCELED = 140"

section \<open>Arrays and buffers\<close>

definition memcpy :: "'a list \<Rightarrow> nat \<Rightarrow> 'a list \<Rightarrow> 'a list" where
  "memcpy dst off src = take off dst @ src @ drop (off + length src) dst"

definition bytes_of :: "byte list option \<Rightarrow> nat \<Rightarrow> byte list" where
  "bytes_of p n = (case p of None \<Rightarrow> [] | Some d \<Rightarrow> take n d)"

definition lastn :: "nat \<Rightarrow> 'a list \<Rightarrow> 'a list" where
  "lastn n xs = drop (length xs - n) xs"

lemma length_memcpy [simp]:
  "off + length src \<le> length dst \<Longrightarrow> length (memcpy dst off src) = length dst"
  by (simp add: memcpy_def)

lemma memcpy_Nil [simp]: "memcpy dst off [] = dst"
  by (simp add: memcpy_def)

lemma nth_memcpy:
  assumes "off + length src \<le> length dst" and "i < length dst"
  shows "memcpy dst off src ! i =
    (if off \<le> i \<and> i < off + length src then src ! (i - off) else dst ! i)"
  using assms by (auto simp: memcpy_def nth_append)

lemma take_memcpy:
  "off \<le> length dst \<Longrightarrow> take (off + length src) (memcpy dst off src) = take off dst @ src"
  by (simp add: memcpy_def)

lemma take_memcpy_0 [simp]: "take (length src) (memcpy dst 0 src) = src"
  by (simp add: memcpy_def)

lemma memcpy_append:
  "off + length xs + length ys \<le> length d \<Longrightarrow>
    memcpy (memcpy d off xs) (off + length xs) ys = memcpy d off (xs @ ys)"
  by (simp add: memcpy_def ac_simps)

lemma memcpy_terminate:
  "n = off + length src \<Longrightarrow> n < length dst \<Longrightarrow> (memcpy dst off src)[n := x] = memcpy dst off (src @ [x])"
  by (simp add: memcpy_def list_update_append Cons_nth_drop_Suc [symmetric])

lemma length_bytes_of [simp]: "length (bytes_of p n) \<le> n"
  by (simp add: bytes_of_def split: option.split)

lemma bytes_of_Some [simp]: "bytes_of (Some d) (length d) = d"
  by (simp add: bytes_of_def)

lemma lastn_all [simp]: "length xs \<le> n \<Longrightarrow> lastn n xs = xs"
  by (simp add: lastn_def)

lemma length_lastn [simp]: "length (lastn n xs) = min n (length xs)"
  by (simp add: lastn_def)

lemma lastn_append: "lastn n (xs @ ys) = lastn (n - length ys) xs @ lastn n ys"
  by (cases "length ys \<le> n") (simp_all add: lastn_def)

lemma lastn_lastn [simp]: "lastn n (lastn n xs) = lastn n xs"
  by (simp add: lastn_def)

lemma lastn_lastn_append [simp]: "lastn n (lastn n xs @ ys) = lastn n (xs @ ys)"
proof (cases "length xs \<le> n")
  case False
  then show ?thesis
    by (cases "length ys \<le> n") (simp_all add: lastn_def add.commute)
qed simp

lemma suffix_lastn: "suffix (lastn n xs) xs"
  by (simp add: lastn_def suffix_drop)

section \<open>C strings\<close>

abbreviation NUL :: byte where "NUL \<equiv> CHR 0x00"

abbreviation byte_val :: "byte \<Rightarrow> nat" where "byte_val c \<equiv> of_char c"

definition c_at :: "string \<Rightarrow> nat \<Rightarrow> byte" where
  [cstring_simps]: "c_at s i = (if i < length s then s ! i else NUL)"

text \<open>
  \<open>strncmp\<close> stops at the terminator of either string; its sign is the sign of the difference of
  the first unequal bytes, read as \<open>unsigned char\<close>.
\<close>

fun strncmp :: "string \<Rightarrow> string \<Rightarrow> nat \<Rightarrow> int" where
  "strncmp s t 0 = 0"
| "strncmp [] [] (Suc n) = 0"
| "strncmp [] (y # ys) (Suc n) = - int (byte_val y)"
| "strncmp (x # xs) [] (Suc n) = int (byte_val x)"
| "strncmp (x # xs) (y # ys) (Suc n) =
     (if x = y then strncmp xs ys n else int (byte_val x) - int (byte_val y))"

fun strcmp :: "string \<Rightarrow> string \<Rightarrow> int" where
  "strcmp [] [] = 0"
| "strcmp [] (y # ys) = - int (byte_val y)"
| "strcmp (x # xs) [] = int (byte_val x)"
| "strcmp (x # xs) (y # ys) =
     (if x = y then strcmp xs ys else int (byte_val x) - int (byte_val y))"

text \<open>The search functions return the rest of the string from the match on, as the pointer does.\<close>

fun strstr :: "string \<Rightarrow> string \<Rightarrow> string option" where
  "strstr [] needle = (if needle = [] then Some [] else None)"
| "strstr (x # xs) needle =
     (if prefix needle (x # xs) then Some (x # xs) else strstr xs needle)"

definition no_nul :: "string \<Rightarrow> bool" where
  "no_nul s \<longleftrightarrow> NUL \<notin> set s"

lemma byte_val_0_iff [simp]: "byte_val c = 0 \<longleftrightarrow> c = NUL"
  using of_char_eq_iff [of c NUL, where ?'a = nat] by simp

lemma byte_val_pos_iff [simp]: "0 < byte_val c \<longleftrightarrow> c \<noteq> NUL"
  using byte_val_0_iff [of c] by linarith

lemma byte_val_less: "byte_val b < 256"
  using of_char_mod_256 [of b, where 'a = nat] mod_less_divisor [of 256 "byte_val b"] by simp

lemma strcmp_eq_0_iff: "no_nul s \<Longrightarrow> no_nul t \<Longrightarrow> strcmp s t = 0 \<longleftrightarrow> s = t"
  by (induction s t rule: strcmp.induct) (auto simp: no_nul_def)

end
