(* ===== verification/Adb_Wire.thy ===== *)
theory Adb_Wire
  imports Webos_Prelude
begin

text \<open>
  The ADB packet format of lib/adb/adb_protocol.c: a 24-byte little-endian header (command, two
  arguments, payload length, payload checksum, magic) followed by the payload.  Also here: the
  build configuration of lib/adb/Kconfig, over which every theorem about the router is stated.
\<close>

unbundle bit_operations_syntax

section \<open>Build configuration\<close>

record kconfig =
  WEBOS_ADB_USB :: bool
  WEBOS_ADB_ALLOW_NO_AUTH :: bool
  WEBOS_ADB_MAX_PAYLOAD :: nat
  WEBOS_ADB_USB_TRANSFER_SIZE :: nat
  WEBOS_ADB_USB_TX_QUEUE_DEPTH :: nat
  WEBOS_ADB_TX_PAYLOAD_SIZE :: nat
  WEBOS_ADB_CONTROL_QUEUE_DEPTH :: nat
  WEBOS_ADB_CONTROL_PAYLOAD_SIZE :: nat
  WEBOS_ADB_MAX_STREAMS :: nat
  WEBOS_ADB_SHELL :: bool
  WEBOS_ADB_SHELL_COMMAND_SIZE :: nat
  WEBOS_ADB_SHELL_OUTPUT_SIZE :: nat
  WEBOS_ADB_SHELL_INPUT_SIZE :: nat
  WEBOS_ADB_SHELL_MAX_STREAMS :: nat
  WEBOS_ADB_LOGCAT :: bool
  WEBOS_ADB_LOGCAT_BUFFER_SIZE :: nat
  WEBOS_ADB_SYNC :: bool
  WEBOS_ADB_SYNC_PATH_MAX :: nat
  WEBOS_ADB_SYNC_DATA_MAX :: nat
  WEBOS_ADB_REBOOT :: bool

text \<open>The ranges Kconfig enforces.\<close>

definition kconfig_ok :: "kconfig \<Rightarrow> bool" where
  "kconfig_ok c \<longleftrightarrow>
     256 \<le> WEBOS_ADB_MAX_PAYLOAD c \<and> WEBOS_ADB_MAX_PAYLOAD c \<le> 16384 \<and>
     64 \<le> WEBOS_ADB_USB_TRANSFER_SIZE c \<and> WEBOS_ADB_USB_TRANSFER_SIZE c \<le> 4096 \<and>
     2 \<le> WEBOS_ADB_USB_TX_QUEUE_DEPTH c \<and> WEBOS_ADB_USB_TX_QUEUE_DEPTH c \<le> 16 \<and>
     64 \<le> WEBOS_ADB_TX_PAYLOAD_SIZE c \<and> WEBOS_ADB_TX_PAYLOAD_SIZE c \<le> WEBOS_ADB_MAX_PAYLOAD c \<and>
     2 \<le> WEBOS_ADB_CONTROL_QUEUE_DEPTH c \<and> WEBOS_ADB_CONTROL_QUEUE_DEPTH c \<le> 16 \<and>
     104 \<le> WEBOS_ADB_CONTROL_PAYLOAD_SIZE c \<and> WEBOS_ADB_CONTROL_PAYLOAD_SIZE c \<le> 512 \<and>
     1 \<le> WEBOS_ADB_MAX_STREAMS c \<and> WEBOS_ADB_MAX_STREAMS c \<le> 8 \<and>
     32 \<le> WEBOS_ADB_SHELL_COMMAND_SIZE c \<and> WEBOS_ADB_SHELL_COMMAND_SIZE c \<le> 1024 \<and>
     128 \<le> WEBOS_ADB_SHELL_OUTPUT_SIZE c \<and> WEBOS_ADB_SHELL_OUTPUT_SIZE c \<le> 4096 \<and>
     WEBOS_ADB_SHELL_COMMAND_SIZE c \<le> WEBOS_ADB_SHELL_INPUT_SIZE c \<and> WEBOS_ADB_SHELL_INPUT_SIZE c \<le> 16384 \<and>
     1 \<le> WEBOS_ADB_SHELL_MAX_STREAMS c \<and> WEBOS_ADB_SHELL_MAX_STREAMS c \<le> 4 \<and>
     512 \<le> WEBOS_ADB_LOGCAT_BUFFER_SIZE c \<and> WEBOS_ADB_LOGCAT_BUFFER_SIZE c \<le> 16384 \<and>
     64 \<le> WEBOS_ADB_SYNC_PATH_MAX c \<and> WEBOS_ADB_SYNC_PATH_MAX c \<le> 512 \<and>
     4096 \<le> WEBOS_ADB_SYNC_DATA_MAX c \<and> WEBOS_ADB_SYNC_DATA_MAX c \<le> 65536"

text \<open>The defaults, with the features app/prj.conf turns on.\<close>

definition default_kconfig :: kconfig where
  "default_kconfig =
     \<lparr>WEBOS_ADB_USB = True, WEBOS_ADB_ALLOW_NO_AUTH = True, WEBOS_ADB_MAX_PAYLOAD = 4096,
      WEBOS_ADB_USB_TRANSFER_SIZE = 512, WEBOS_ADB_USB_TX_QUEUE_DEPTH = 6,
      WEBOS_ADB_TX_PAYLOAD_SIZE = 512, WEBOS_ADB_CONTROL_QUEUE_DEPTH = 4,
      WEBOS_ADB_CONTROL_PAYLOAD_SIZE = 128, WEBOS_ADB_MAX_STREAMS = 2,
      WEBOS_ADB_SHELL = True, WEBOS_ADB_SHELL_COMMAND_SIZE = 256,
      WEBOS_ADB_SHELL_OUTPUT_SIZE = 512, WEBOS_ADB_SHELL_INPUT_SIZE = 4096,
      WEBOS_ADB_SHELL_MAX_STREAMS = 1, WEBOS_ADB_LOGCAT = True, WEBOS_ADB_LOGCAT_BUFFER_SIZE = 4096,
      WEBOS_ADB_SYNC = True, WEBOS_ADB_SYNC_PATH_MAX = 128, WEBOS_ADB_SYNC_DATA_MAX = 65536,
      WEBOS_ADB_REBOOT = True\<rparr>"

section \<open>Constants\<close>

definition ADB_COMMAND_CNXN :: u32 where "ADB_COMMAND_CNXN = 0x4e584e43"
definition ADB_COMMAND_OPEN :: u32 where "ADB_COMMAND_OPEN = 0x4e45504f"
definition ADB_COMMAND_OKAY :: u32 where "ADB_COMMAND_OKAY = 0x59414b4f"
definition ADB_COMMAND_CLSE :: u32 where "ADB_COMMAND_CLSE = 0x45534c43"
definition ADB_COMMAND_WRTE :: u32 where "ADB_COMMAND_WRTE = 0x45545257"
definition ADB_VERSION :: u32 where "ADB_VERSION = 0x01000000"
definition ADB_VERSION_NO_CHECKSUM :: u32 where "ADB_VERSION_NO_CHECKSUM = 0x01000001"

lemmas adb_command_defs =
  ADB_COMMAND_CNXN_def ADB_COMMAND_OPEN_def ADB_COMMAND_OKAY_def ADB_COMMAND_CLSE_def
  ADB_COMMAND_WRTE_def

definition WEBOS_ADB_HEADER_SIZE :: nat where "WEBOS_ADB_HEADER_SIZE = 24"


definition device_banner :: string where
  "device_banner =
     ''device::ro.product.name=webos;ro.product.model=WebOS_ESP32-S3;'' @
     ''ro.product.device=webos_esp32s3;features=''"

section \<open>Little-endian words (Zephyr sys/byteorder.h)\<close>

definition sys_put_le32 :: "u32 \<Rightarrow> byte list" where
  "sys_put_le32 w =
     [char_of (unat w), char_of (unat w div 256), char_of (unat w div 65536),
      char_of (unat w div 16777216)]"

definition sys_get_le32 :: "byte list \<Rightarrow> u32" where
  "sys_get_le32 bs =
     word_of_nat (byte_val (bs ! 0) + 256 * byte_val (bs ! 1) + 65536 * byte_val (bs ! 2) +
       16777216 * byte_val (bs ! 3))"

lemma length_put_le32 [simp]: "length (sys_put_le32 w) = 4"
  by (simp add: sys_put_le32_def)

lemma base256_digits:
  fixes n :: nat
  assumes "n < 4294967296"
  shows "n mod 256 + 256 * (n div 256 mod 256) + 65536 * (n div 65536 mod 256) +
    16777216 * (n div 16777216 mod 256) = n"
proof -
  define a where "a = n div 256"
  define b where "b = a div 256"
  define c where "c = b div 256"
  have digits: "n div 65536 = b" "n div 16777216 = c" "c mod 256 = c"
    using assms by (simp_all add: a_def b_def c_def div_mult2_eq [symmetric])
  have "n = 256 * a + n mod 256" "a = 256 * b + a mod 256" "b = 256 * c + b mod 256"
    by (simp_all add: a_def b_def c_def)
  then show ?thesis unfolding a_def [symmetric] digits by linarith
qed

lemma get_put_le32 [simp]: "sys_get_le32 (sys_put_le32 w @ rest) = w"
proof -
  have w: "unat w < 4294967296" using unsigned_less [of w] by simp
  then have "unat w div 16777216 mod 256 = unat w div 16777216" by simp
  with base256_digits [OF w] show ?thesis
    by (simp add: sys_get_le32_def sys_put_le32_def del: of_nat_add of_nat_mult of_nat_numeral)
qed

section \<open>Messages\<close>

record adb_message =
  m_command :: u32
  m_arg0 :: u32
  m_arg1 :: u32
  m_data_length :: u32
  m_data_check :: u32
  m_magic :: u32

text \<open>\<open>memset(0)\<close> of a message.\<close>

definition adb_message_zero :: adb_message where
  "adb_message_zero =
     \<lparr>m_command = 0, m_arg0 = 0, m_arg1 = 0, m_data_length = 0, m_data_check = 0, m_magic = 0\<rparr>"

definition adb_checksum :: "byte list \<Rightarrow> u32" where
  "adb_checksum data = foldl (\<lambda>sum b. sum + of_char b) 0 data"

definition encode_message :: "u32 \<Rightarrow> u32 \<Rightarrow> u32 \<Rightarrow> byte list \<Rightarrow> byte list" where
  "encode_message command arg0 arg1 payload =
     sys_put_le32 command @ sys_put_le32 arg0 @ sys_put_le32 arg1 @
     sys_put_le32 (word_of_nat (length payload)) @ sys_put_le32 (adb_checksum payload) @
     sys_put_le32 (command XOR UINT32_MAX)"

text \<open>The six reads at the start of \<open>decode_header\<close>.\<close>

definition decode_message :: "byte list \<Rightarrow> adb_message" where
  "decode_message header =
     \<lparr>m_command = sys_get_le32 header,
      m_arg0 = sys_get_le32 (drop 4 header),
      m_arg1 = sys_get_le32 (drop 8 header),
      m_data_length = sys_get_le32 (drop 12 header),
      m_data_check = sys_get_le32 (drop 16 header),
      m_magic = sys_get_le32 (drop 20 header)\<rparr>"

definition validate_message :: "kconfig \<Rightarrow> adb_message \<Rightarrow> int" where
  "validate_message c message =
     (if m_magic message \<noteq> m_command message XOR UINT32_MAX then - EBADMSG
      else if WEBOS_ADB_MAX_PAYLOAD c < unat (m_data_length message) then - EMSGSIZE
      else 0)"

section \<open>Checksums and the header round trip\<close>

lemma foldl_plus_sum_list: "foldl (\<lambda>s b. s + g b) a xs = (a :: 'a :: monoid_add) + sum_list (map g xs)"
  by (induction xs arbitrary: a) (simp_all add: add.assoc)

lemma adb_checksum_sum: "adb_checksum data = sum_list (map of_char data)"
  by (simp only: adb_checksum_def foldl_plus_sum_list add_0_left)

lemma checksum_Nil [simp]: "adb_checksum [] = 0"
  by (simp add: adb_checksum_def)

lemma checksum_append: "adb_checksum (xs @ ys) = adb_checksum xs + adb_checksum ys"
  by (simp add: adb_checksum_sum)

lemma length_encode_message [simp]: "length (encode_message cmd a0 a1 payload) = 24"
  by (simp add: encode_message_def)

lemma decode_encode_message:
  "decode_message (encode_message cmd a0 a1 payload) =
     \<lparr>m_command = cmd, m_arg0 = a0, m_arg1 = a1, m_data_length = word_of_nat (length payload),
      m_data_check = adb_checksum payload, m_magic = cmd XOR UINT32_MAX\<rparr>"
proof -
  have "sys_get_le32 (sys_put_le32 w) = w" for w using get_put_le32 [of w "[]"] by simp
  then show ?thesis
    by (simp only: decode_message_def encode_message_def drop_append length_put_le32 get_put_le32)
      simp
qed

end
