(* ===== verification/Bounded_Fifo.thy ===== *)
theory Bounded_Fifo
  imports Webos_Prelude
begin

text \<open>
  The contract of a first-in first-out queue in a fixed array, addressed by a head index and a
  count: the ADB control queue and the USB transmit queue are such queues.
\<close>

section \<open>Array queues\<close>

text \<open>The \<open>count\<close> entries of a circular array from \<open>head\<close> on, oldest first.\<close>

definition fifo_entries :: "'a list \<Rightarrow> nat \<Rightarrow> nat \<Rightarrow> 'a list" where
  "fifo_entries q head count = map (\<lambda>k. q ! ((head + k) mod length q)) [0..<count]"

lemma length_fifo_entries [simp]: "length (fifo_entries q head count) = count"
  by (simp add: fifo_entries_def)

lemma fifo_entries_0 [simp]: "fifo_entries q head 0 = []"
  by (simp add: fifo_entries_def)

lemma fifo_entries_put:
  assumes "count < length q"
  shows "fifo_entries (q[(head + count) mod length q := e]) head (Suc count) =
    fifo_entries q head count @ [e]"
proof -
  have "(head + count) mod length q \<noteq> (head + k) mod length q" if "k < count" for k
    using that assms mod_eq_dvd_iff_nat [of "head + k" "head + count" "length q"]
    by (auto dest: dvd_imp_le)
  moreover have "(head + count) mod length q < length q" using assms by (intro mod_less_divisor) linarith
  ultimately show ?thesis by (simp add: fifo_entries_def)
qed

lemma fifo_entries_drop:
  "0 < count \<Longrightarrow>
    fifo_entries q head count =
      q ! (head mod length q) # fifo_entries q ((head + 1) mod length q) (count - 1)"
proof -
  assume "0 < count"
  then obtain n where "count = Suc n" by (cases count) auto
  then show ?thesis
    by (simp add: fifo_entries_def upt_conv_Cons map_Suc_upt [symmetric] mod_add_left_eq add.assoc
        del: upt_Suc map_Suc_upt)
qed

section \<open>The contract\<close>

locale bounded_fifo =
  fixes inv :: "'q \<Rightarrow> bool" and capacity :: "'q \<Rightarrow> nat" and contents :: "'q \<Rightarrow> 'e list"
    and fits :: "'q \<Rightarrow> 'e \<Rightarrow> bool" and enq :: "'e \<Rightarrow> 'q \<Rightarrow> 'q" and deq :: "'q \<Rightarrow> 'q"
  assumes bounded: "inv q \<Longrightarrow> length (contents q) \<le> capacity q"
    and enq: "inv q \<Longrightarrow> length (contents q) < capacity q \<Longrightarrow> fits q e \<Longrightarrow>
      inv (enq e q) \<and> contents (enq e q) = contents q @ [e] \<and> capacity (enq e q) = capacity q"
    and deq: "inv q \<Longrightarrow> contents q \<noteq> [] \<Longrightarrow>
      inv (deq q) \<and> contents (deq q) = tl (contents q) \<and> capacity (deq q) = capacity q"
begin

text \<open>Taking n entries removes exactly the n oldest ones, and makes room for n new ones.\<close>

lemma deqs: "inv q \<Longrightarrow> n \<le> length (contents q) \<Longrightarrow>
    inv ((deq ^^ n) q) \<and> contents ((deq ^^ n) q) = drop n (contents q) \<and>
    capacity ((deq ^^ n) q) = capacity q"
proof (induction n)
  case (Suc n)
  then have IH: "inv ((deq ^^ n) q)" "contents ((deq ^^ n) q) = drop n (contents q)"
    "capacity ((deq ^^ n) q) = capacity q" by auto
  have "drop n (contents q) \<noteq> []" using Suc.prems by simp
  then show ?case using deq [OF IH(1)] IH by (simp add: drop_Suc tl_drop)
qed simp

lemma enq_deq_commute:
  "inv q \<Longrightarrow> contents q \<noteq> [] \<Longrightarrow> length (contents q) < capacity q \<Longrightarrow> fits q e \<Longrightarrow>
    contents (deq (enq e q)) = tl (contents q) @ [e]"
  using enq [of q e] deq [of "enq e q"] by simp

end

end
