(* ===== verification/Adb_Link.thy ===== *)
theory Adb_Link
  imports Adb_Wire Bounded_Fifo
begin

text \<open>
  The state of the ADB router (the file-scope variables of lib/adb/adb_protocol.c) and its lower
  half: handing one packet to the transport, and the bounded queue that keeps the control packets
  (CNXN, OKAY, CLSE) the transport has no room for.
\<close>

section \<open>State\<close>

text \<open>The three tables of service callbacks (adb_service.h).\<close>

datatype service = Shell_service | Logcat_service | Sync_service

definition service_enabled :: "kconfig \<Rightarrow> service \<Rightarrow> bool" where
  "service_enabled c v =
     (case v of
        Shell_service \<Rightarrow> WEBOS_ADB_SHELL c
      | Logcat_service \<Rightarrow> WEBOS_ADB_LOGCAT c
      | Sync_service \<Rightarrow> WEBOS_ADB_SYNC c)"

record adb_control_packet =
  c_command :: u32
  c_arg0 :: u32
  c_arg1 :: u32
  c_payload_len :: nat
  c_payload :: "byte list"

record webos_adb_stream =
  used :: bool
  tx_pending :: bool
  awaiting_ack :: bool
  close_pending :: bool
  local_id :: u32
  remote_id :: u32
  generation :: u32
  ops :: "service option"
  tx_len :: nat
  tx_data :: "byte list"

record adb_rx_state =
  header :: "byte list"
  payload :: "byte list option"
  payload_checksum :: u32
  header_used :: nat
  payload_used :: nat
  message :: adb_message

text \<open>
  The transport is a function from the header and payload of a packet and the transport's own state
  to a return code and that state.  \<open>svc\<close> is the state of the services, \<open>link\<close> that of
  the transport, and \<open>heap_allocs\<close> counts the calls of \<open>k_malloc\<close>, whose success is decided by
  the environment.
\<close>

type_synonym 't webos_adb_send_fn = "byte list \<Rightarrow> byte list \<Rightarrow> 't \<Rightarrow> int \<times> 't"

record ('s, 't) adb =
  rx :: adb_rx_state
  streams :: "webos_adb_stream list"
  control_queue :: "adb_control_packet list"
  control_head :: nat
  control_tail :: nat
  control_count :: nat
  transport_send :: "'t webos_adb_send_fn option"
  next_local_id :: u32
  next_stream_generation :: u32
  negotiated_payload :: nat
  online :: bool
  dispatching :: bool
  reboot_scheduled :: bool
  heap_allocs :: nat
  svc :: 's
  link :: 't

text \<open>
  What the router calls and does not define: the outcome of the n-th allocation of a size, the
  result of scheduling the reboot work item, the reset of the USB queues, and the services' close
  callback (which changes nothing but the services' own state).
\<close>

record ('s, 't) adb_env =
  conf :: kconfig
  k_malloc_ok :: "nat \<Rightarrow> nat \<Rightarrow> bool"
  k_work_reschedule :: "'t \<Rightarrow> int"
  webos_adb_usb_reset_tx :: "'t \<Rightarrow> 't"
  service_close :: "service \<Rightarrow> nat \<Rightarrow> 's \<Rightarrow> 's"

definition control_packet_zero :: "kconfig \<Rightarrow> adb_control_packet" where
  "control_packet_zero c =
     \<lparr>c_command = 0, c_arg0 = 0, c_arg1 = 0, c_payload_len = 0,
      c_payload = replicate (WEBOS_ADB_CONTROL_PAYLOAD_SIZE c) NUL\<rparr>"

definition stream_zero :: "kconfig \<Rightarrow> webos_adb_stream" where
  "stream_zero c =
     \<lparr>used = False, tx_pending = False, awaiting_ack = False, close_pending = False,
      local_id = 0, remote_id = 0, generation = 0, ops = None, tx_len = 0,
      tx_data = replicate (WEBOS_ADB_TX_PAYLOAD_SIZE c) NUL\<rparr>"

definition rx_zero :: adb_rx_state where
  "rx_zero =
     \<lparr>header = replicate WEBOS_ADB_HEADER_SIZE NUL, payload = None, payload_checksum = 0,
      header_used = 0, payload_used = 0, message = adb_message_zero\<rparr>"

text \<open>The initial values of the variables, with the services and the transport in given states.\<close>

definition adb_boot :: "kconfig \<Rightarrow> 's \<Rightarrow> 't \<Rightarrow> ('s, 't) adb" where
  "adb_boot c s l =
     \<lparr>rx = rx_zero, streams = replicate (WEBOS_ADB_MAX_STREAMS c) (stream_zero c),
      control_queue = replicate (WEBOS_ADB_CONTROL_QUEUE_DEPTH c) (control_packet_zero c),
      control_head = 0, control_tail = 0, control_count = 0, transport_send = None,
      next_local_id = 1, next_stream_generation = 1,
      negotiated_payload = WEBOS_ADB_MAX_PAYLOAD c, online = False, dispatching = False,
      reboot_scheduled = False, heap_allocs = 0, svc = s, link = l\<rparr>"

section \<open>Operations\<close>

definition send_packet_raw ::
    "u32 \<Rightarrow> u32 \<Rightarrow> u32 \<Rightarrow> byte list \<Rightarrow> ('s, 't) adb \<Rightarrow> int \<times> ('s, 't) adb" where
  "send_packet_raw command arg0 arg1 data st =
     (case transport_send st of
        None \<Rightarrow> (- ENODEV, st)
      | Some send \<Rightarrow>
          let (ret, l) = send (encode_message command arg0 arg1 data) data (link st)
          in (ret, st\<lparr>link := l\<rparr>))"

definition flow_control_error :: "int \<Rightarrow> bool" where
  "flow_control_error ret \<longleftrightarrow> ret = - ENOSPC \<or> ret = - EBUSY"

text \<open>The slot \<open>enqueue_control\<close> fills.\<close>

definition control_fill :: "u32 \<Rightarrow> u32 \<Rightarrow> u32 \<Rightarrow> byte list \<Rightarrow> adb_control_packet \<Rightarrow> adb_control_packet" where
  "control_fill command arg0 arg1 data packet =
     packet\<lparr>c_command := command, c_arg0 := arg0, c_arg1 := arg1, c_payload_len := length data,
       c_payload := if length data \<noteq> 0 then memcpy (c_payload packet) 0 data else c_payload packet\<rparr>"

definition control_put :: "u32 \<Rightarrow> u32 \<Rightarrow> u32 \<Rightarrow> byte list \<Rightarrow> ('s, 't) adb \<Rightarrow> ('s, 't) adb" where
  "control_put command arg0 arg1 data st =
     st\<lparr>control_queue := (control_queue st)
          [control_tail st :=
             control_fill command arg0 arg1 data (control_queue st ! control_tail st)],
        control_tail := (control_tail st + 1) mod length (control_queue st),
        control_count := control_count st + 1\<rparr>"

definition enqueue_control ::
    "('s, 't, 'z) adb_env_scheme \<Rightarrow> u32 \<Rightarrow> u32 \<Rightarrow> u32 \<Rightarrow> byte list \<Rightarrow> ('s, 't) adb \<Rightarrow>
     int \<times> ('s, 't) adb" where
  "enqueue_control E command arg0 arg1 data st =
     (if WEBOS_ADB_CONTROL_PAYLOAD_SIZE (conf E) < length data then (- EMSGSIZE, st)
      else if control_count st = length (control_queue st) then (- ENOBUFS, st)
      else (0, control_put command arg0 arg1 data st))"

definition send_control ::
    "('s, 't, 'z) adb_env_scheme \<Rightarrow> u32 \<Rightarrow> u32 \<Rightarrow> u32 \<Rightarrow> byte list \<Rightarrow> ('s, 't) adb \<Rightarrow>
     int \<times> ('s, 't) adb" where
  "send_control E command arg0 arg1 data st =
     (if control_count st \<noteq> 0 then enqueue_control E command arg0 arg1 data st
      else let (ret, st) = send_packet_raw command arg0 arg1 data st
           in if flow_control_error ret then enqueue_control E command arg0 arg1 data st
              else (ret, st))"

text \<open>The removal of the packet at the head that a successful send in \<open>pump_controls\<close> makes.\<close>

definition control_drop :: "('s, 't) adb \<Rightarrow> ('s, 't) adb" where
  "control_drop st =
     st\<lparr>control_head := (control_head st + 1) mod length (control_queue st),
        control_count := control_count st - 1\<rparr>"

definition send_head :: "('s, 't) adb \<Rightarrow> int \<times> ('s, 't) adb" where
  "send_head st =
     (let packet = control_queue st ! control_head st
      in send_packet_raw (c_command packet) (c_arg0 packet) (c_arg1 packet)
           (take (c_payload_len packet) (c_payload packet)) st)"

lemma send_packet_raw_frame:
  "\<exists>l. snd (send_packet_raw command arg0 arg1 data st) = st\<lparr>link := l\<rparr>"
  by (cases "transport_send st")
    (auto simp: send_packet_raw_def split: prod.splits intro: exI [of _ "link st"])

text \<open>
  The transport state moves only by sends and by the reset of the transport's queues; \<open>moved\<close> says
  that of an operation of the router.
\<close>

inductive link_run :: "('t \<Rightarrow> 't) \<Rightarrow> 't webos_adb_send_fn option \<Rightarrow> 't \<Rightarrow> 't \<Rightarrow> bool" for reset_tx send where
  stay: "link_run reset_tx send l l"
| sent: "link_run reset_tx send l l' \<Longrightarrow> send = Some f \<Longrightarrow> link_run reset_tx send l (snd (f hdr data l'))"
| cleared: "link_run reset_tx send l l' \<Longrightarrow> link_run reset_tx send l (reset_tx l')"

lemma link_run_trans: "link_run r f l' l'' \<Longrightarrow> link_run r f l l' \<Longrightarrow> link_run r f l l''"
  by (induction rule: link_run.induct) (auto intro: link_run.intros)

lemma link_run_invariant:
  "link_run reset_tx send l l' \<Longrightarrow> (\<And>f hdr data l. send = Some f \<Longrightarrow> Q l \<Longrightarrow> Q (snd (f hdr data l))) \<Longrightarrow>
    (\<And>l. Q l \<Longrightarrow> Q (reset_tx l)) \<Longrightarrow> Q l \<Longrightarrow> Q l'"
  by (induction rule: link_run.induct) auto

definition moved :: "('s, 't, 'z) adb_env_scheme \<Rightarrow> ('s, 't) adb \<Rightarrow> ('s, 't) adb \<Rightarrow> bool" where
  "moved E st st' \<longleftrightarrow>
     transport_send st' = transport_send st \<and> link_run (webos_adb_usb_reset_tx E) (transport_send st) (link st) (link st')"

lemma moved_refl [simp]: "moved E st st"
  by (simp add: moved_def link_run.stay)

lemma moved_trans: "moved E st st' \<Longrightarrow> moved E st' st'' \<Longrightarrow> moved E st st''"
  by (auto simp: moved_def intro: link_run_trans)

lemma moved_same: "transport_send st' = transport_send st \<Longrightarrow> link st' = link st \<Longrightarrow> moved E st st'"
  by (simp add: moved_def link_run.stay)

lemma moved_simps [simp]:
  "moved E st (st'\<lparr>svc := s\<rparr>) = moved E st st'" "moved E st (st'\<lparr>streams := ss\<rparr>) = moved E st st'"
  "moved E st (st'\<lparr>rx := r\<rparr>) = moved E st st'" "moved E st (st'\<lparr>dispatching := b\<rparr>) = moved E st st'"
  "moved E st (st'\<lparr>online := b\<rparr>) = moved E st st'" "moved E st (control_put cmd a0 a1 data st') = moved E st st'"
  "moved E st (control_drop st') = moved E st st'" "moved E st (st'\<lparr>heap_allocs := n\<rparr>) = moved E st st'"
  "moved E st (st'\<lparr>reboot_scheduled := b\<rparr>) = moved E st st'"
  by (simp_all add: moved_def control_put_def control_drop_def)

lemma send_packet_raw_moved: "moved E st (snd (send_packet_raw cmd a0 a1 data st))"
proof (cases "transport_send st")
  case (Some f)
  obtain ret l where "f (encode_message cmd a0 a1 data) data (link st) = (ret, l)" by fastforce
  then show ?thesis using link_run.sent [OF link_run.stay Some, of _ "link st" "encode_message cmd a0 a1 data" data]
    by (simp add: send_packet_raw_def moved_def Some)
qed (simp add: send_packet_raw_def)

lemma send_control_moved: "moved E st (snd (send_control E cmd a0 a1 data st))"
proof -
  obtain ret st1 where "send_packet_raw cmd a0 a1 data st = (ret, st1)" by fastforce
  then show ?thesis using send_packet_raw_moved [of E st cmd a0 a1 data]
    by (auto simp: send_control_def enqueue_control_def)
qed

function (sequential) pump_controls :: "('s, 't) adb \<Rightarrow> int \<times> ('s, 't) adb" where
  "pump_controls st =
     (if control_count st = 0 then (0, st)
      else let (ret, st1) = send_head st
           in if ret \<noteq> 0 then (ret, st1) else pump_controls (control_drop st1))"
  by pat_completeness auto

termination
proof (relation "measure control_count")
  fix st :: "('s, 't) adb" and p ret st1
  assume nonempty: "control_count st \<noteq> 0" and p: "p = send_head st" "(ret, st1) = p" "\<not> ret \<noteq> 0"
  obtain l where "st1 = st\<lparr>link := l\<rparr>"
    using p send_packet_raw_frame unfolding send_head_def Let_def by (metis snd_conv)
  with nonempty show "(control_drop st1, st) \<in> measure control_count"
    by (simp add: control_drop_def)
qed simp

declare pump_controls.simps [simp del]

lemma pump_controls_moved: "moved E st (snd (pump_controls st))"
proof (induction st rule: pump_controls.induct)
  case (1 st)
  obtain ret st1 where head: "send_head st = (ret, st1)" by fastforce
  then have "moved E st st1" using send_packet_raw_moved [of E st] by (metis send_head_def snd_conv)
  then show ?case using 1 [OF _ head [symmetric] refl] head moved_trans [of E st "control_drop st1"]
    by (subst pump_controls.simps) auto
qed

definition send_connect :: "('s, 't, 'z) adb_env_scheme \<Rightarrow> ('s, 't) adb \<Rightarrow> int \<times> ('s, 't) adb" where
  "send_connect E st =
     send_control E ADB_COMMAND_CNXN ADB_VERSION (word_of_nat (WEBOS_ADB_MAX_PAYLOAD (conf E)))
       device_banner st"

definition send_ready ::
    "('s, 't, 'z) adb_env_scheme \<Rightarrow> u32 \<Rightarrow> u32 \<Rightarrow> ('s, 't) adb \<Rightarrow> int \<times> ('s, 't) adb" where
  "send_ready E lid rid st = send_control E ADB_COMMAND_OKAY lid rid [] st"

definition send_close ::
    "('s, 't, 'z) adb_env_scheme \<Rightarrow> u32 \<Rightarrow> u32 \<Rightarrow> ('s, 't) adb \<Rightarrow> int \<times> ('s, 't) adb" where
  "send_close E lid rid st = send_control E ADB_COMMAND_CLSE lid rid [] st"

section \<open>The control queue is a bounded FIFO\<close>

type_synonym control_entry = "u32 \<times> u32 \<times> u32 \<times> byte list"

definition control_entry :: "adb_control_packet \<Rightarrow> control_entry" where
  "control_entry p = (c_command p, c_arg0 p, c_arg1 p, take (c_payload_len p) (c_payload p))"

definition control_packets :: "('s, 't) adb \<Rightarrow> control_entry list" where
  "control_packets st = map control_entry (fifo_entries (control_queue st) (control_head st) (control_count st))"

definition control_packet_ok :: "kconfig \<Rightarrow> adb_control_packet \<Rightarrow> bool" where
  "control_packet_ok c p \<longleftrightarrow>
     length (c_payload p) = WEBOS_ADB_CONTROL_PAYLOAD_SIZE c \<and> c_payload_len p \<le> length (c_payload p)"

definition control_ok :: "kconfig \<Rightarrow> ('s, 't) adb \<Rightarrow> bool" where
  "control_ok c st \<longleftrightarrow>
     0 < length (control_queue st) \<and> length (control_queue st) = WEBOS_ADB_CONTROL_QUEUE_DEPTH c \<and>
     control_head st < length (control_queue st) \<and>
     control_tail st = (control_head st + control_count st) mod length (control_queue st) \<and>
     control_count st \<le> length (control_queue st) \<and> list_all (control_packet_ok c) (control_queue st)"

lemma length_control_packets [simp]: "length (control_packets st) = control_count st"
  by (simp add: control_packets_def)

lemma control_packets_cong:
  "control_queue st' = control_queue st \<Longrightarrow> control_head st' = control_head st \<Longrightarrow>
    control_count st' = control_count st \<Longrightarrow> control_packets st' = control_packets st"
  by (simp add: control_packets_def)

lemma control_ok_cong:
  "control_queue st' = control_queue st \<Longrightarrow> control_head st' = control_head st \<Longrightarrow>
    control_tail st' = control_tail st \<Longrightarrow> control_count st' = control_count st \<Longrightarrow>
    control_ok c st' = control_ok c st"
  by (simp add: control_ok_def)

lemma control_fill_ok:
  "control_packet_ok c p \<Longrightarrow> length data \<le> WEBOS_ADB_CONTROL_PAYLOAD_SIZE c \<Longrightarrow>
    control_packet_ok c (control_fill cmd a0 a1 data p) \<and>
    control_entry (control_fill cmd a0 a1 data p) = (cmd, a0, a1, data)"
  by (auto simp: control_packet_ok_def control_entry_def control_fill_def take_memcpy_0 length_memcpy)

lemma control_put_fifo:
  assumes ok: "control_ok c st" and room: "control_count st < length (control_queue st)"
    and small: "length data \<le> WEBOS_ADB_CONTROL_PAYLOAD_SIZE c"
  shows "control_ok c (control_put cmd a0 a1 data st) \<and>
    control_packets (control_put cmd a0 a1 data st) = control_packets st @ [(cmd, a0, a1, data)]"
proof -
  define q where "q = control_queue st"
  define t where "t = control_tail st"
  define p where "p = control_fill cmd a0 a1 data (q ! t)"
  have t: "t = (control_head st + control_count st) mod length q" and q: "list_all (control_packet_ok c) q"
    and room': "control_count st < length q"
    using ok room by (auto simp: control_ok_def q_def t_def)
  then have "t < length q" by (metis mod_less_divisor not_less0 gr0I)
  with q have "control_packet_ok c (q ! t)" by (simp add: list_all_length)
  from control_fill_ok [OF this small, of cmd a0 a1]
  have p: "control_packet_ok c p" "control_entry p = (cmd, a0, a1, data)" by (simp_all add: p_def)
  have "list_all (control_packet_ok c) (q[t := p])"
    using q p(1) set_update_subset_insert [of q t p] by (auto simp: list_all_iff)
  moreover have "(t + 1) mod length q = (control_head st + (control_count st + 1)) mod length q"
    by (simp add: t mod_simps)
  moreover have "control_put cmd a0 a1 data st =
      st\<lparr>control_queue := q[t := p], control_tail := (t + 1) mod length q,
         control_count := control_count st + 1\<rparr>"
    by (simp add: control_put_def q_def t_def p_def)
  ultimately show ?thesis
    using ok room' p(2) fifo_entries_put [OF room', of "control_head st" p]
    by (simp add: control_ok_def control_packets_def q_def [symmetric] t)
qed

lemma control_drop_fifo:
  assumes ok: "control_ok c st" and nonempty: "control_count st \<noteq> 0"
  shows "control_ok c (control_drop st) \<and>
    control_packets st = control_entry (control_queue st ! control_head st) # control_packets (control_drop st)"
proof -
  define n where "n = length (control_queue st)"
  have "((control_head st + 1) mod n + (control_count st - 1)) mod n =
      (control_head st + 1 + (control_count st - 1)) mod n"
    by (simp only: mod_add_left_eq)
  also have "control_head st + 1 + (control_count st - 1) = control_head st + control_count st"
    using nonempty by simp
  finally show ?thesis
    using ok nonempty fifo_entries_drop [of "control_count st" "control_queue st" "control_head st"]
    by (auto simp: control_ok_def control_packets_def control_drop_def n_def)
qed

interpretation control_fifo: bounded_fifo "control_ok c" "\<lambda>st :: ('s, 't) adb. length (control_queue st)"
  control_packets "\<lambda>st (cmd, a0, a1, data). length data \<le> WEBOS_ADB_CONTROL_PAYLOAD_SIZE c"
  "\<lambda>(cmd, a0, a1, data). control_put cmd a0 a1 data" control_drop
  for c
proof unfold_locales
  fix q :: "('s, 't) adb" and e :: control_entry
  obtain cmd a0 a1 data where e: "e = (cmd, a0, a1, data)" by (cases e)
  assume ok: "control_ok c q"
  then show "length (control_packets q) \<le> length (control_queue q)" by (simp add: control_ok_def)
  show "control_ok c (control_drop q) \<and> control_packets (control_drop q) = tl (control_packets q) \<and>
      length (control_queue (control_drop q)) = length (control_queue q)" if "control_packets q \<noteq> []"
  proof -
    have "control_count q \<noteq> 0" using that by (metis length_0_conv length_control_packets)
    from control_drop_fifo [OF ok this] show ?thesis by (auto simp: control_drop_def)
  qed
  assume "length (control_packets q) < length (control_queue q)"
    and "case e of (cmd, a0, a1, data) \<Rightarrow> length data \<le> WEBOS_ADB_CONTROL_PAYLOAD_SIZE c"
  with control_put_fifo [OF ok, of data cmd a0 a1]
  show "control_ok c ((case e of (cmd, a0, a1, data) \<Rightarrow> control_put cmd a0 a1 data) q) \<and>
      control_packets ((case e of (cmd, a0, a1, data) \<Rightarrow> control_put cmd a0 a1 data) q) =
        control_packets q @ [e] \<and>
      length (control_queue ((case e of (cmd, a0, a1, data) \<Rightarrow> control_put cmd a0 a1 data) q)) =
        length (control_queue q)"
    by (simp add: e control_put_def)
qed

section \<open>What the operations change\<close>

text \<open>The fields that sending leaves alone: all but the control queue and the transport's state.\<close>

definition control_frame :: "('s, 't) adb \<Rightarrow> ('s, 't) adb \<Rightarrow> bool" where
  "control_frame st st' \<longleftrightarrow>
     rx st' = rx st \<and> streams st' = streams st \<and> transport_send st' = transport_send st \<and>
     next_local_id st' = next_local_id st \<and> next_stream_generation st' = next_stream_generation st \<and>
     negotiated_payload st' = negotiated_payload st \<and> online st' = online st \<and>
     dispatching st' = dispatching st \<and> reboot_scheduled st' = reboot_scheduled st \<and>
     heap_allocs st' = heap_allocs st \<and> svc st' = svc st"

lemma control_frame_refl [simp]: "control_frame st st"
  by (simp add: control_frame_def)

lemma control_frame_trans: "control_frame st st' \<Longrightarrow> control_frame st' st'' \<Longrightarrow> control_frame st st''"
  by (simp add: control_frame_def)

lemma control_frame_updates [simp]:
  "control_frame st (st\<lparr>link := l\<rparr>)" "control_frame st (control_put cmd a0 a1 data st)"
  "control_frame st (control_drop st)"
  by (simp_all add: control_frame_def control_put_def control_drop_def)

lemma send_packet_raw_cases:
  obtains ret l where "send_packet_raw cmd a0 a1 data st = (ret, st\<lparr>link := l\<rparr>)"
  using send_packet_raw_frame [of cmd a0 a1 data st] by (metis prod.collapse)

lemma send_head_cases: obtains ret l where "send_head st = (ret, st\<lparr>link := l\<rparr>)"
  unfolding send_head_def Let_def by (rule send_packet_raw_cases)

lemma enqueue_control_cases:
  assumes "enqueue_control E cmd a0 a1 data st = (ret, st')"
  obtains "ret \<noteq> 0" "st' = st"
  | "ret = 0" "st' = control_put cmd a0 a1 data st" "control_count st \<noteq> length (control_queue st)"
    "length data \<le> WEBOS_ADB_CONTROL_PAYLOAD_SIZE (conf E)"
  using assms by (auto simp: enqueue_control_def errno_simps split: if_splits)

lemma send_control_cases:
  assumes "send_control E cmd a0 a1 data st = (ret, st')"
  obtains (refused) l where "ret \<noteq> 0" "st' = st\<lparr>link := l\<rparr>"
    "l = link st \<or> (\<exists>r. r \<noteq> 0 \<and> send_packet_raw cmd a0 a1 data st = (r, st\<lparr>link := l\<rparr>))"
  | (sent) l where "control_count st = 0" "send_packet_raw cmd a0 a1 data st = (0, st\<lparr>link := l\<rparr>)"
    "ret = 0" "st' = st\<lparr>link := l\<rparr>"
  | (queued) l where "ret = 0" "control_count st \<noteq> length (control_queue st)"
    "l = link st \<or> (\<exists>r. r \<noteq> 0 \<and> send_packet_raw cmd a0 a1 data st = (r, st\<lparr>link := l\<rparr>))"
    "st' = control_put cmd a0 a1 data (st\<lparr>link := l\<rparr>)"
    "length data \<le> WEBOS_ADB_CONTROL_PAYLOAD_SIZE (conf E)"
proof (cases "control_count st = 0")
  case False
  with assms have "enqueue_control E cmd a0 a1 data st = (ret, st')" by (simp add: send_control_def)
  then show ?thesis
    by (rule enqueue_control_cases) (use False refused [of "link st"] queued [of "link st"] in simp_all)
next
  case True
  obtain r l where raw: "send_packet_raw cmd a0 a1 data st = (r, st\<lparr>link := l\<rparr>)"
    by (rule send_packet_raw_cases)
  show ?thesis
  proof (cases "flow_control_error r")
    case False
    with assms True raw have "ret = r" "st' = st\<lparr>link := l\<rparr>" by (simp_all add: send_control_def)
    then show ?thesis using True raw sent [of l] refused [of l] by (cases "r = 0") auto
  next
    case flow: True
    then have nonzero: "r \<noteq> 0" by (auto simp: flow_control_error_def errno_simps)
    from flow assms True raw have "enqueue_control E cmd a0 a1 data (st\<lparr>link := l\<rparr>) = (ret, st')"
      by (simp add: send_control_def)
    then show ?thesis
      by (rule enqueue_control_cases) (use raw nonzero refused [of l] queued [of l] in auto)
  qed
qed

lemma send_control_frame: "control_frame st (snd (send_control E cmd a0 a1 data st))"
proof -
  obtain ret st' where send: "send_control E cmd a0 a1 data st = (ret, st')" by fastforce
  then have "control_frame st st'"
    by (rule send_control_cases)
      (auto intro: control_frame_trans [OF control_frame_updates(1) control_frame_updates(2)])
  then show ?thesis by (simp add: send)
qed

lemma control_ok_link [simp]: "control_ok c (st\<lparr>link := l\<rparr>) = control_ok c st"
  by (simp add: control_ok_def)

lemma control_packets_link [simp]: "control_packets (st\<lparr>link := l\<rparr>) = control_packets st"
  by (simp add: control_packets_def)

lemma send_control_ok:
  assumes "control_ok (conf E) st"
  shows "control_ok (conf E) (snd (send_control E cmd a0 a1 data st))"
proof -
  obtain ret st' where send: "send_control E cmd a0 a1 data st = (ret, st')" by fastforce
  then have "control_ok (conf E) st'"
  proof (rule send_control_cases)
    fix l assume *: "control_count st \<noteq> length (control_queue st)"
      "length data \<le> WEBOS_ADB_CONTROL_PAYLOAD_SIZE (conf E)"
      "st' = control_put cmd a0 a1 data (st\<lparr>link := l\<rparr>)"
    have "control_count st < length (control_queue st)" using *(1) assms by (simp add: control_ok_def)
    with * control_put_fifo [of "conf E" "st\<lparr>link := l\<rparr>" data cmd a0 a1] assms show ?thesis by simp
  qed (use assms in simp_all)
  then show ?thesis by (simp add: send)
qed

lemma pump_controls_induct [case_names empty refused sent]:
  assumes empty: "\<And>st. control_count st = 0 \<Longrightarrow> P st (0, st)"
    and refused: "\<And>st ret l. control_count st \<noteq> 0 \<Longrightarrow> send_head st = (ret, st\<lparr>link := l\<rparr>) \<Longrightarrow> ret \<noteq> 0 \<Longrightarrow>
      P st (ret, st\<lparr>link := l\<rparr>)"
    and sent: "\<And>st l res. control_count st \<noteq> 0 \<Longrightarrow> send_head st = (0, st\<lparr>link := l\<rparr>) \<Longrightarrow>
      P (control_drop (st\<lparr>link := l\<rparr>)) res \<Longrightarrow> P st res"
  shows "P st (pump_controls st)"
proof (induction st rule: pump_controls.induct)
  case (1 st)
  obtain ret l where head: "send_head st = (ret, st\<lparr>link := l\<rparr>)" by (rule send_head_cases)
  show ?case
    using 1 head empty refused sent [of st l "pump_controls (control_drop (st\<lparr>link := l\<rparr>))"]
    by (subst pump_controls.simps) auto
qed

lemma pump_controls_frame: "control_frame st (snd (pump_controls st))"
  by (induction st rule: pump_controls_induct)
    (auto intro: control_frame_trans [OF control_frame_updates(1)]
      control_frame_trans [OF control_frame_updates(3)])

lemma pump_controls_ok: "control_ok c st \<Longrightarrow> control_ok c (snd (pump_controls st))"
proof (induction st rule: pump_controls_induct)
  case (sent st l res)
  then show ?case using control_drop_fifo [of c "st\<lparr>link := l\<rparr>"] by simp
qed simp_all

section \<open>Control packets are neither lost, duplicated nor reordered\<close>

text \<open>
  Any transport, with the list of the packets it accepted kept beside its state; and a run of the
  operations on the queue, in any order, with the transport changing between them, which also
  returns the packets that \<open>send_control\<close> accepted.
\<close>

definition recorded :: "'t webos_adb_send_fn \<Rightarrow> ((byte list \<times> byte list) list \<times> 't) webos_adb_send_fn" where
  "recorded send hdr data l =
     (let (ret, t) = send hdr data (snd l)
      in (ret, if ret = 0 then fst l @ [(hdr, data)] else fst l, t))"

definition sent_packets :: "('s, (byte list \<times> byte list) list \<times> 't) adb \<Rightarrow> (byte list \<times> byte list) list" where
  "sent_packets st = fst (link st)"

definition wire :: "control_entry \<Rightarrow> byte list \<times> byte list" where
  "wire e = (case e of (cmd, a0, a1, data) \<Rightarrow> (encode_message cmd a0 a1 data, data))"

datatype 't control_op = Send u32 u32 u32 "byte list" | Pump | Transport "'t \<Rightarrow> 't"

fun control_step ::
    "('s, (byte list \<times> byte list) list \<times> 't, 'z) adb_env_scheme \<Rightarrow> 't control_op \<Rightarrow>
     ('s, (byte list \<times> byte list) list \<times> 't) adb \<Rightarrow>
     control_entry list \<times> ('s, (byte list \<times> byte list) list \<times> 't) adb" where
  "control_step E (Send cmd a0 a1 data) st =
     (let (ret, st) = send_control E cmd a0 a1 data st
      in (if ret = 0 then [(cmd, a0, a1, data)] else [], st))"
| "control_step E Pump st = ([], snd (pump_controls st))"
| "control_step E (Transport f) st = ([], st\<lparr>link := (fst (link st), f (snd (link st)))\<rparr>)"

fun control_run where
  "control_run E [] st = ([], st)"
| "control_run E (x # xs) st =
     (let (e, st) = control_step E x st; (es, st) = control_run E xs st in (e @ es, st))"

lemma recorded_send:
  "transport_send st = Some (recorded send) \<Longrightarrow> send_packet_raw cmd a0 a1 data st = (ret, st\<lparr>link := l\<rparr>) \<Longrightarrow>
    fst l = (if ret = 0 then sent_packets st @ [wire (cmd, a0, a1, data)] else sent_packets st)"
proof -
  assume *: "transport_send st = Some (recorded send)" "send_packet_raw cmd a0 a1 data st = (ret, st\<lparr>link := l\<rparr>)"
  then have "recorded send (encode_message cmd a0 a1 data) data (link st) = (ret, link (st\<lparr>link := l\<rparr>))"
    by (auto simp: send_packet_raw_def split: prod.splits dest: arg_cong [of _ _ link])
  then show ?thesis
    by (auto simp: recorded_def sent_packets_def wire_def split: prod.splits if_splits)
qed

lemma pump_controls_sent:
  "transport_send st = Some (recorded send) \<Longrightarrow> control_ok c st \<Longrightarrow>
    sent_packets (snd (pump_controls st)) @ map wire (control_packets (snd (pump_controls st))) =
      sent_packets st @ map wire (control_packets st)"
proof (induction st rule: pump_controls_induct)
  case (refused st ret l)
  then show ?case using recorded_send [of st send _ _ _ _ ret l]
    by (auto simp: send_head_def Let_def sent_packets_def)
next
  case (sent st l res)
  define p where "p = control_queue st ! control_head st"
  have drop: "control_ok c (control_drop (st\<lparr>link := l\<rparr>))"
    "control_packets st = control_entry p # control_packets (control_drop (st\<lparr>link := l\<rparr>))"
    using control_drop_fifo [of c "st\<lparr>link := l\<rparr>"] sent by (simp_all add: p_def)
  have "fst l = sent_packets st @ [wire (control_entry p)]"
    using recorded_send [OF sent.prems(1), of _ _ _ _ 0 l] sent(2)
    by (simp add: send_head_def Let_def p_def control_entry_def)
  then show ?case using sent.IH drop sent.prems
    by (simp add: control_drop_def) (simp add: sent_packets_def)
qed simp

lemma control_step_sent:
  assumes rec: "transport_send st = Some (recorded send)" and ok: "control_ok (conf E) st"
    and step: "control_step E x st = (es, st')"
  shows "sent_packets st' @ map wire (control_packets st') =
      sent_packets st @ map wire (control_packets st @ es)"
proof (cases x)
  case (Send cmd a0 a1 data)
  obtain ret where send: "send_control E cmd a0 a1 data st = (ret, st')"
    and es: "es = (if ret = 0 then [(cmd, a0, a1, data)] else [])"
    using step Send by (auto split: prod.splits)
  have log: "fst l = sent_packets st"
    if "l = link st \<or> (\<exists>r. r \<noteq> 0 \<and> send_packet_raw cmd a0 a1 data st = (r, st\<lparr>link := l\<rparr>))" for l
    using that recorded_send [OF rec, of cmd a0 a1 data _ l] by (auto simp: sent_packets_def)
  show ?thesis
    using send
  proof (cases rule: send_control_cases)
    case (refused l)
    then show ?thesis using log [of l] es by (simp add: sent_packets_def)
  next
    case (sent l)
    then show ?thesis using recorded_send [OF rec sent(2)] es
      by (simp add: sent_packets_def control_packets_def)
  next
    case (queued l)
    have "control_count st < length (control_queue st)" using queued ok by (simp add: control_ok_def)
    then show ?thesis
      using queued es log [of l] ok control_put_fifo [of "conf E" "st\<lparr>link := l\<rparr>" data cmd a0 a1]
      by (simp add: sent_packets_def control_put_def)
  qed
next
  case Pump
  then show ?thesis using step pump_controls_sent [OF rec ok] by auto
next
  case (Transport f)
  then show ?thesis using step by (auto simp: sent_packets_def)
qed

lemma control_step_keeps:
  assumes "control_step E x st = (es, st')" "control_ok (conf E) st"
  shows "transport_send st' = transport_send st \<and> control_ok (conf E) st'"
proof (cases x)
  case (Send cmd a0 a1 data)
  then show ?thesis
    using assms send_control_frame [of st E cmd a0 a1 data] send_control_ok [of E st cmd a0 a1 data]
    by (auto simp: control_frame_def split: prod.splits)
next
  case Pump
  then show ?thesis using assms pump_controls_frame [of st] pump_controls_ok [of "conf E" st]
    by (auto simp: control_frame_def)
next
  case (Transport f)
  then show ?thesis using assms by auto
qed

text \<open>
  C7: Over any run of sends, pumps and transport events, and for any transport, the packets the
  transport accepted followed by the packets still queued are the ones accepted or queued at the
  start followed by exactly those for which \<open>send_control\<close> returned 0, in the order of the calls.
  So no control packet is lost, duplicated or overtaken by a later one.
\<close>

theorem control_packets_in_order:
  assumes "transport_send st = Some (recorded send)" "control_ok (conf E) st"
    and "control_run E xs st = (es, st')"
  shows "sent_packets st' @ map wire (control_packets st') =
    sent_packets st @ map wire (control_packets st @ es)"
  using assms
proof (induction xs arbitrary: st es)
  case (Cons x xs)
  obtain e st1 where step: "control_step E x st = (e, st1)" by fastforce
  obtain es1 where run: "control_run E xs st1 = (es1, st')" and es: "es = e @ es1"
    using Cons.prems(3) step by (auto split: prod.splits)
  show ?case
    using Cons.IH [OF _ _ run] control_step_keeps [OF step Cons.prems(2)] Cons.prems(1)
      control_step_sent [OF Cons.prems(1,2) step] by (simp add: es)
qed simp

text \<open>A transport that is full until it is switched on, and the default configuration.\<close>

definition switched_send :: "bool webos_adb_send_fn" where
  "switched_send hdr data on = (if on then 0 else - ENOSPC, on)"

definition sample_env :: "(unit, (byte list \<times> byte list) list \<times> bool) adb_env" where
  "sample_env =
     \<lparr>conf = default_kconfig, k_malloc_ok = (\<lambda>_ _. True), k_work_reschedule = (\<lambda>_. 0),
      webos_adb_usb_reset_tx = id, service_close = (\<lambda>_ _ s. s)\<rparr>"

definition sample_link :: "(unit, (byte list \<times> byte list) list \<times> bool) adb" where
  "sample_link = (adb_boot default_kconfig () ([], False))\<lparr>transport_send := Some (recorded switched_send)\<rparr>"

definition sample_run :: "bool control_op list" where
  "sample_run =
     [Send ADB_COMMAND_OKAY 1 7 [], Send ADB_COMMAND_CLSE 1 7 [], Transport (\<lambda>_. True), Pump]"

lemma sample_link_ok: "control_ok default_kconfig sample_link"
  by (simp add: control_ok_def sample_link_def adb_boot_def default_kconfig_def list_all_length
      control_packet_ok_def control_packet_zero_def)

lemmas sample_simps =
  sample_run_def sample_link_def sample_env_def adb_boot_def default_kconfig_def switched_send_def
  recorded_def send_control_def send_packet_raw_def enqueue_control_def control_put_def
  control_fill_def flow_control_error_def control_drop_def send_head_def errno_simps

lemma sample_run_result:
  "\<exists>st. control_run sample_env sample_run sample_link =
     ([(ADB_COMMAND_OKAY, 1, 7, []), (ADB_COMMAND_CLSE, 1, 7, [])], st) \<and> control_count st = 0"
  by (simp add: sample_simps pump_controls.simps)

theorem control_packets_in_order_witness:
  "sent_packets (snd (control_run sample_env sample_run sample_link)) =
     map wire [(ADB_COMMAND_OKAY, 1, 7, []), (ADB_COMMAND_CLSE, 1, 7, [])]"
proof -
  obtain st where run: "control_run sample_env sample_run sample_link =
      ([(ADB_COMMAND_OKAY, 1, 7, []), (ADB_COMMAND_CLSE, 1, 7, [])], st)" "control_count st = 0"
    using sample_run_result by blast
  have "transport_send sample_link = Some (recorded switched_send)" "conf sample_env = default_kconfig"
    "sent_packets sample_link = []" "control_packets sample_link = []"
    by (simp_all add: sample_link_def sample_env_def sent_packets_def adb_boot_def control_packets_def)
  then show ?thesis
    using control_packets_in_order [OF _ _ run(1), of switched_send] sample_link_ok run
    by (simp add: control_packets_def)
qed

end
