(* ===== verification/Adb_Stream.thy ===== *)
theory Adb_Stream
  imports Adb_Link
begin

text \<open>
  The stream table of lib/adb/adb_protocol.c: identifiers, allocation and release, the one-packet
  transmit slot of each stream with its stop-and-wait acknowledgement, and the deferred close.
  A stream pointer is the index of its slot; a pointer that may be NULL is an optional index.
\<close>

section \<open>Identifiers and slots\<close>

text \<open>\<open>next++\<close> on a 32-bit counter that skips 0.\<close>

definition next_id :: "u32 \<Rightarrow> u32" where
  "next_id n = (if n + 1 = 0 then 1 else n + 1)"

definition allocate_local_id :: "('s, 't) adb \<Rightarrow> u32 \<times> ('s, 't) adb" where
  "allocate_local_id st = (next_local_id st, st\<lparr>next_local_id := next_id (next_local_id st)\<rparr>)"

definition find_stream :: "u32 \<Rightarrow> u32 \<Rightarrow> ('s, 't) adb \<Rightarrow> nat option" where
  "find_stream lid rid st =
     find (\<lambda>i. used (streams st ! i) \<and> local_id (streams st ! i) = lid \<and> remote_id (streams st ! i) = rid)
       [0..<length (streams st)]"

definition update_stream :: "nat \<Rightarrow> (webos_adb_stream \<Rightarrow> webos_adb_stream) \<Rightarrow> ('s, 't) adb \<Rightarrow> ('s, 't) adb" where
  "update_stream i f st = st\<lparr>streams := (streams st)[i := f (streams st ! i)]\<rparr>"

definition allocate_stream ::
    "('s, 't, 'z) adb_env_scheme \<Rightarrow> u32 \<Rightarrow> service \<Rightarrow> ('s, 't) adb \<Rightarrow> nat option \<times> ('s, 't) adb" where
  "allocate_stream E rid service st =
     (case find (\<lambda>i. \<not> used (streams st ! i)) [0..<length (streams st)] of
        None \<Rightarrow> (None, st)
      | Some i \<Rightarrow>
          let (lid, st) = allocate_local_id st;
              gen = next_stream_generation st
          in (Some i,
              (update_stream i
                 (\<lambda>_. (stream_zero (conf E))\<lparr>used := True, local_id := lid, remote_id := rid,
                    generation := gen, ops := Some service\<rparr>) st)
                \<lparr>next_stream_generation := next_id gen\<rparr>))"

definition release_stream :: "('s, 't, 'z) adb_env_scheme \<Rightarrow> nat \<Rightarrow> ('s, 't) adb \<Rightarrow> ('s, 't) adb" where
  "release_stream E i st =
     (if \<not> used (streams st ! i) then st
      else let st = (case ops (streams st ! i) of
                       None \<Rightarrow> st
                     | Some service \<Rightarrow> st\<lparr>svc := service_close E service i (svc st)\<rparr>)
           in update_stream i (\<lambda>_. stream_zero (conf E)) st)"

definition close_all_streams :: "('s, 't, 'z) adb_env_scheme \<Rightarrow> ('s, 't) adb \<Rightarrow> ('s, 't) adb" where
  "close_all_streams E st = fold (release_stream E) [0..<length (streams st)] st"

section \<open>Transmission\<close>

text \<open>The two halves of \<open>flush_stream\<close>: the pending WRTE, then the deferred CLSE.\<close>

definition flush_write :: "nat \<Rightarrow> ('s, 't) adb \<Rightarrow> int \<times> ('s, 't) adb" where
  "flush_write i st =
     (let s = streams st ! i in
      if tx_pending s \<and> \<not> awaiting_ack s then
        if control_count st \<noteq> 0 then (- ENOSPC, st)
        else let (ret, st) = send_packet_raw ADB_COMMAND_WRTE (local_id s) (remote_id s)
                               (take (tx_len s) (tx_data s)) st
             in if ret \<noteq> 0 then (ret, st)
                else (0, update_stream i (\<lambda>s. s\<lparr>tx_pending := False, awaiting_ack := True\<rparr>) st)
      else (0, st))"

definition flush_close :: "('s, 't, 'z) adb_env_scheme \<Rightarrow> nat \<Rightarrow> ('s, 't) adb \<Rightarrow> int \<times> ('s, 't) adb" where
  "flush_close E i st =
     (let s = streams st ! i in
      if close_pending s \<and> \<not> tx_pending s \<and> \<not> awaiting_ack s then
        let (ret, st) = send_close E (local_id s) (remote_id s) st
        in if ret \<noteq> 0 then (ret, st) else (0, release_stream E i st)
      else (0, st))"

definition flush_stream :: "('s, 't, 'z) adb_env_scheme \<Rightarrow> nat \<Rightarrow> ('s, 't) adb \<Rightarrow> int \<times> ('s, 't) adb" where
  "flush_stream E i st =
     (let (ret, st) = flush_write i st
      in if ret \<noteq> 0 then (ret, st) else flush_close E i st)"

definition webos_adb_stream_max_payload :: "('s, 't, 'z) adb_env_scheme \<Rightarrow> ('s, 't) adb \<Rightarrow> nat" where
  "webos_adb_stream_max_payload E st =
     (let capacity = min (negotiated_payload st) (WEBOS_ADB_TX_PAYLOAD_SIZE (conf E))
      in if WEBOS_ADB_USB (conf E) then min capacity (WEBOS_ADB_USB_TRANSFER_SIZE (conf E))
         else capacity)"

text \<open>The copy into the transmit slot.\<close>

definition fill_slot :: "byte list \<Rightarrow> webos_adb_stream \<Rightarrow> webos_adb_stream" where
  "fill_slot bytes s =
     s\<lparr>tx_data := if length bytes \<noteq> 0 then memcpy (tx_data s) 0 bytes else tx_data s,
       tx_len := length bytes, tx_pending := True\<rparr>"

text \<open>The three refusals of \<open>stream_write_locked\<close>, and the attempt to send at once.\<close>

definition write_check ::
    "('s, 't, 'z) adb_env_scheme \<Rightarrow> nat \<Rightarrow> u32 \<Rightarrow> byte list option \<Rightarrow> nat \<Rightarrow> ('s, 't) adb \<Rightarrow> int" where
  "write_check E i gen data len st =
     (let s = streams st ! i in
      if \<not> used s \<or> (gen \<noteq> 0 \<and> generation s \<noteq> gen) \<or> (data = None \<and> len \<noteq> 0) then - EINVAL
      else if webos_adb_stream_max_payload E st < len then - EMSGSIZE
      else if tx_pending s \<or> awaiting_ack s then - EBUSY
      else 0)"

definition transmit_slot :: "('s, 't, 'z) adb_env_scheme \<Rightarrow> nat \<Rightarrow> ('s, 't) adb \<Rightarrow> int \<times> ('s, 't) adb" where
  "transmit_slot E i st =
     (if \<not> dispatching st then
        let (ret, st) = flush_stream E i st in
        if ret = - ENOSPC \<or> ret = - EBUSY then (0, st)
        else if ret \<noteq> 0 then (ret, update_stream i (\<lambda>s. s\<lparr>tx_pending := False, tx_len := 0\<rparr>) st)
        else (ret, st)
      else (0, st))"

definition stream_write_locked ::
    "('s, 't, 'z) adb_env_scheme \<Rightarrow> nat option \<Rightarrow> u32 \<Rightarrow> byte list option \<Rightarrow> nat \<Rightarrow> ('s, 't) adb \<Rightarrow>
     int \<times> ('s, 't) adb" where
  "stream_write_locked E stream gen data len st =
     (case stream of
        None \<Rightarrow> (- EINVAL, st)
      | Some i \<Rightarrow>
          if write_check E i gen data len st \<noteq> 0 then (write_check E i gen data len st, st)
          else transmit_slot E i (update_stream i (fill_slot (bytes_of data len)) st))"

definition webos_adb_stream_write ::
    "('s, 't, 'z) adb_env_scheme \<Rightarrow> nat option \<Rightarrow> byte list option \<Rightarrow> nat \<Rightarrow> ('s, 't) adb \<Rightarrow>
     int \<times> ('s, 't) adb" where
  "webos_adb_stream_write E stream data len st = stream_write_locked E stream 0 data len st"

definition webos_adb_stream_write_generation ::
    "('s, 't, 'z) adb_env_scheme \<Rightarrow> nat option \<Rightarrow> u32 \<Rightarrow> byte list option \<Rightarrow> nat \<Rightarrow> ('s, 't) adb \<Rightarrow>
     int \<times> ('s, 't) adb" where
  "webos_adb_stream_write_generation E stream gen data len st =
     stream_write_locked E stream gen data len st"

definition webos_adb_stream_generation :: "nat option \<Rightarrow> ('s, 't) adb \<Rightarrow> u32" where
  "webos_adb_stream_generation stream st =
     (case stream of None \<Rightarrow> 0 | Some i \<Rightarrow> generation (streams st ! i))"

definition stream_close_locked ::
    "('s, 't, 'z) adb_env_scheme \<Rightarrow> nat option \<Rightarrow> u32 \<Rightarrow> ('s, 't) adb \<Rightarrow> ('s, 't) adb" where
  "stream_close_locked E stream gen st =
     (case stream of
        None \<Rightarrow> st
      | Some i \<Rightarrow>
          if used (streams st ! i) \<and> (gen = 0 \<or> generation (streams st ! i) = gen) then
            let st = update_stream i (\<lambda>s. s\<lparr>close_pending := True\<rparr>) st
            in if \<not> dispatching st then snd (flush_stream E i st) else st
          else st)"

definition webos_adb_stream_close ::
    "('s, 't, 'z) adb_env_scheme \<Rightarrow> nat option \<Rightarrow> ('s, 't) adb \<Rightarrow> ('s, 't) adb" where
  "webos_adb_stream_close E stream st = stream_close_locked E stream 0 st"

definition webos_adb_stream_close_generation ::
    "('s, 't, 'z) adb_env_scheme \<Rightarrow> nat option \<Rightarrow> u32 \<Rightarrow> ('s, 't) adb \<Rightarrow> ('s, 't) adb" where
  "webos_adb_stream_close_generation E stream gen st = stream_close_locked E stream gen st"

section \<open>Invariant\<close>

text \<open>
  A slot of the stream table: its buffer has the configured size and its content fits both the
  buffer and the negotiated payload; a packet is never both waiting to be sent and waiting for its
  acknowledgement; a used slot has a service and non-zero identifiers, and a free slot is all zero.
\<close>

definition stream_ok :: "kconfig \<Rightarrow> nat \<Rightarrow> webos_adb_stream \<Rightarrow> bool" where
  "stream_ok c cap s \<longleftrightarrow>
     length (tx_data s) = WEBOS_ADB_TX_PAYLOAD_SIZE c \<and> tx_len s \<le> cap \<and>
     \<not> (tx_pending s \<and> awaiting_ack s) \<and>
     (if used s then (\<exists>v. ops s = Some v \<and> service_enabled c v) \<and> local_id s \<noteq> 0 \<and> remote_id s \<noteq> 0 \<and> generation s \<noteq> 0
      else s = stream_zero c)"

definition core_ok :: "('s, 't, 'z) adb_env_scheme \<Rightarrow> ('s, 't) adb \<Rightarrow> bool" where
  "core_ok E st \<longleftrightarrow>
     control_ok (conf E) st \<and> length (streams st) = WEBOS_ADB_MAX_STREAMS (conf E) \<and>
     list_all (stream_ok (conf E) (webos_adb_stream_max_payload E st)) (streams st) \<and>
     next_local_id st \<noteq> 0 \<and> next_stream_generation st \<noteq> 0 \<and>
     negotiated_payload st \<le> WEBOS_ADB_MAX_PAYLOAD (conf E) \<and>
     (\<not> online st \<longrightarrow> list_all (\<lambda>s. \<not> used s) (streams st))"

text \<open>
  What every operation on the streams does: it keeps the invariant, together with a property of the
  services' state, and it leaves alone the parser, the transport function, the dispatch flag, the
  negotiated payload, the connection flag and the number of slots.
\<close>

definition keeps :: "('s, 't, 'z) adb_env_scheme \<Rightarrow> ('s \<Rightarrow> bool) \<Rightarrow> ('s, 't) adb \<Rightarrow> ('s, 't) adb \<Rightarrow> bool" where
  "keeps E P st st' \<longleftrightarrow>
     (core_ok E st \<and> P (svc st) \<longrightarrow> core_ok E st' \<and> P (svc st')) \<and> rx st' = rx st \<and> moved E st st' \<and>
     dispatching st' = dispatching st \<and> length (streams st') = length (streams st) \<and>
     negotiated_payload st' = negotiated_payload st \<and> online st' = online st"

lemma keeps_refl [simp]: "keeps E P st st"
  by (simp add: keeps_def)

lemma keeps_trans: "keeps E P st st' \<Longrightarrow> keeps E P st' st'' \<Longrightarrow> keeps E P st st''"
  using moved_trans by (auto simp: keeps_def)

lemma keeps_core: "keeps E P st st' \<Longrightarrow> core_ok E st \<Longrightarrow> P (svc st) \<Longrightarrow> core_ok E st' \<and> P (svc st')"
  by (simp add: keeps_def)

lemma keeps_length: "keeps E P st st' \<Longrightarrow> length (streams st') = length (streams st)"
  by (simp add: keeps_def)

lemma max_payload_cong:
  "negotiated_payload st' = negotiated_payload st \<Longrightarrow>
    webos_adb_stream_max_payload E st' = webos_adb_stream_max_payload E st"
  by (simp add: webos_adb_stream_max_payload_def)

lemma max_payload_le: "webos_adb_stream_max_payload E st \<le> WEBOS_ADB_TX_PAYLOAD_SIZE (conf E)"
  by (auto simp: webos_adb_stream_max_payload_def Let_def min_le_iff_disj)

lemma keeps_control_frame:
  "control_frame st st' \<Longrightarrow> moved E st st' \<Longrightarrow> (control_ok (conf E) st \<Longrightarrow> control_ok (conf E) st') \<Longrightarrow> keeps E P st st'"
  by (auto simp: keeps_def core_ok_def control_frame_def max_payload_cong [of st' st])

lemma keeps_send_control: "send_control E cmd a0 a1 data st = (ret, st') \<Longrightarrow> keeps E P st st'"
  using send_control_frame [of st E cmd a0 a1 data] send_control_ok [of E st cmd a0 a1 data]
    send_control_moved [of E st cmd a0 a1 data]
  by (intro keeps_control_frame) auto

lemma keeps_send_packet_raw: "send_packet_raw cmd a0 a1 data st = (ret, st') \<Longrightarrow> keeps E P st st'"
  using send_packet_raw_frame [of cmd a0 a1 data st] send_packet_raw_moved [of E st cmd a0 a1 data]
  by (intro keeps_control_frame) auto

lemma keeps_pump: "pump_controls st = (ret, st') \<Longrightarrow> keeps E P st st'"
  using pump_controls_frame [of st] pump_controls_ok [of "conf E" st] pump_controls_moved [of E st]
  by (intro keeps_control_frame) auto

lemma core_ok_simps [simp]:
  "core_ok E (st\<lparr>svc := s\<rparr>) = core_ok E st" "core_ok E (st\<lparr>heap_allocs := n\<rparr>) = core_ok E st"
  "core_ok E (st\<lparr>rx := r\<rparr>) = core_ok E st" "core_ok E (st\<lparr>dispatching := b\<rparr>) = core_ok E st"
  "core_ok E (st\<lparr>reboot_scheduled := b\<rparr>) = core_ok E st" "core_ok E (st\<lparr>link := l\<rparr>) = core_ok E st"
  by (simp_all add: core_ok_def control_ok_def webos_adb_stream_max_payload_def)

lemma core_stream: "core_ok E st \<Longrightarrow> i < length (streams st) \<Longrightarrow>
    stream_ok (conf E) (webos_adb_stream_max_payload E st) (streams st ! i)"
  by (simp add: core_ok_def list_all_length)

lemma list_all_update: "list_all P xs \<Longrightarrow> P x \<Longrightarrow> list_all P (xs[i := x])"
  using set_update_subset_insert [of xs i x] by (auto simp: list_all_iff)

text \<open>An update of one slot keeps the invariant when the slot stays well formed and is not brought into use.\<close>

lemma keeps_update_stream:
  assumes "\<And>cap s. stream_ok (conf E) cap s \<Longrightarrow> cap = webos_adb_stream_max_payload E st \<Longrightarrow>
      s = streams st ! i \<Longrightarrow> stream_ok (conf E) cap (f s) \<and> (used (f s) \<longrightarrow> used s)"
    and "i < length (streams st)"
  shows "keeps E P st (update_stream i f st)"
proof -
  have "core_ok E (update_stream i f st)" if ok: "core_ok E st"
  proof -
    have "stream_ok (conf E) (webos_adb_stream_max_payload E st) (f (streams st ! i))"
      and f: "used (f (streams st ! i)) \<longrightarrow> used (streams st ! i)"
      using assms core_stream [OF ok assms(2)] by blast+
    moreover have "\<not> online st \<longrightarrow> list_all (\<lambda>s. \<not> used s) ((streams st)[i := f (streams st ! i)])"
      using f ok assms(2) by (auto simp: core_ok_def intro!: list_all_update) (simp add: list_all_length)
    ultimately show ?thesis using ok
      by (simp add: core_ok_def control_ok_def update_stream_def webos_adb_stream_max_payload_def list_all_update)
  qed
  then show ?thesis by (simp add: keeps_def update_stream_def)
qed

lemma stream_ok_zero [simp]: "stream_ok c cap (stream_zero c)"
  by (simp add: stream_ok_def stream_zero_def)

lemma used_stream_zero [simp]: "\<not> used (stream_zero c)"
  by (simp add: stream_zero_def)

lemma keeps_flush_write: "i < length (streams st) \<Longrightarrow> flush_write i st = (ret, st') \<Longrightarrow> keeps E P st st'"
proof -
  assume i: "i < length (streams st)" and flush: "flush_write i st = (ret, st')"
  obtain r l where raw: "send_packet_raw ADB_COMMAND_WRTE (local_id (streams st ! i)) (remote_id (streams st ! i))
      (take (tx_len (streams st ! i)) (tx_data (streams st ! i))) st = (r, st\<lparr>link := l\<rparr>)"
    by (rule send_packet_raw_cases)
  have link: "keeps E P st (st\<lparr>link := l\<rparr>)" by (rule keeps_send_packet_raw [OF raw])
  have "keeps E P (st\<lparr>link := l\<rparr>)
      (update_stream i (\<lambda>s. s\<lparr>tx_pending := False, awaiting_ack := True\<rparr>) (st\<lparr>link := l\<rparr>))"
    if "tx_pending (streams st ! i)"
    using i that by (intro keeps_update_stream) (auto simp: stream_ok_def stream_zero_def split: if_splits)
  with link have "keeps E P st
      (update_stream i (\<lambda>s. s\<lparr>tx_pending := False, awaiting_ack := True\<rparr>) (st\<lparr>link := l\<rparr>))"
    if "tx_pending (streams st ! i)" using that by (blast intro: keeps_trans)
  then show ?thesis using flush link raw
    by (auto simp: flush_write_def Let_def split: if_splits)
qed

text \<open>
  What a service callback may do to its own slot while a packet is dispatched: fill the transmit
  slot if it is free, and ask for the close.
\<close>

definition slot_evolves :: "nat \<Rightarrow> webos_adb_stream \<Rightarrow> webos_adb_stream \<Rightarrow> bool" where
  "slot_evolves cap s s' \<longleftrightarrow>
     used s' = used s \<and> awaiting_ack s' = awaiting_ack s \<and> local_id s' = local_id s \<and>
     remote_id s' = remote_id s \<and> generation s' = generation s \<and> ops s' = ops s \<and>
     length (tx_data s') = length (tx_data s) \<and> (close_pending s \<longrightarrow> close_pending s') \<and>
     (if tx_pending s \<or> awaiting_ack s
      then tx_pending s' = tx_pending s \<and> tx_len s' = tx_len s \<and> tx_data s' = tx_data s
      else tx_len s' \<le> max cap (tx_len s))"

definition service_frame :: "('s, 't, 'z) adb_env_scheme \<Rightarrow> nat \<Rightarrow> ('s, 't) adb \<Rightarrow> ('s, 't) adb \<Rightarrow> bool" where
  "service_frame E i st st' \<longleftrightarrow>
     (\<exists>s' sv n b. st' = st\<lparr>streams := (streams st)[i := s'], svc := sv, heap_allocs := n, reboot_scheduled := b\<rparr> \<and>
        slot_evolves (webos_adb_stream_max_payload E st) (streams st ! i) s')"

lemma slot_evolves_refl [simp]: "slot_evolves cap s s"
  by (simp add: slot_evolves_def)

lemma slot_evolves_trans: "slot_evolves cap s s' \<Longrightarrow> slot_evolves cap s' s'' \<Longrightarrow> slot_evolves cap s s''"
  by (auto simp: slot_evolves_def split: if_splits)

lemma slot_evolves_ok: "stream_ok c cap s \<Longrightarrow> used s \<Longrightarrow> slot_evolves cap s s' \<Longrightarrow> stream_ok c cap s'"
  by (auto simp: stream_ok_def slot_evolves_def split: if_splits)

lemma service_frame_refl [simp]: "service_frame E i st st"
  unfolding service_frame_def
  by (intro exI [of _ "streams st ! i"] exI [of _ "svc st"] exI [of _ "heap_allocs st"] exI [of _ "reboot_scheduled st"])
    simp

lemma service_frame_trans:
  assumes "service_frame E i st st'" "service_frame E i st' st''" "i < length (streams st)"
  shows "service_frame E i st st''"
proof -
  define cap where "cap = webos_adb_stream_max_payload E st"
  obtain s' sv n b where st': "st' = st\<lparr>streams := (streams st)[i := s'], svc := sv, heap_allocs := n, reboot_scheduled := b\<rparr>"
    and s': "slot_evolves cap (streams st ! i) s'"
    using assms(1) unfolding service_frame_def cap_def by blast
  have cap: "webos_adb_stream_max_payload E st' = cap" by (simp add: cap_def st' webos_adb_stream_max_payload_def)
  obtain s'' sv' n' b' where st'': "st'' = st'\<lparr>streams := (streams st')[i := s''], svc := sv', heap_allocs := n', reboot_scheduled := b'\<rparr>"
    and s'': "slot_evolves cap (streams st' ! i) s''"
    using assms(2) unfolding service_frame_def cap by blast
  have "streams st' ! i = s'" using assms(3) by (simp add: st')
  with s' s'' have "slot_evolves cap (streams st ! i) s''" by (metis slot_evolves_trans)
  moreover have "st'' = st\<lparr>streams := (streams st)[i := s''], svc := sv', heap_allocs := n', reboot_scheduled := b'\<rparr>"
    by (simp add: st'' st')
  ultimately show ?thesis unfolding service_frame_def cap_def by blast
qed

lemma service_frame_state:
  "service_frame E i st (st\<lparr>svc := s\<rparr>)" "service_frame E i st (st\<lparr>heap_allocs := n\<rparr>)"
  "service_frame E i st (st\<lparr>reboot_scheduled := b\<rparr>)"
proof -
  have gen: "service_frame E i st (st\<lparr>streams := (streams st)[i := streams st ! i], svc := s, heap_allocs := n, reboot_scheduled := b\<rparr>)"
    for s n b unfolding service_frame_def by (intro exI conjI) (rule refl, simp)
  from gen [of "reboot_scheduled st" "heap_allocs st" s] gen [of "reboot_scheduled st" n "svc st"]
    gen [of b "heap_allocs st" "svc st"]
  show "service_frame E i st (st\<lparr>svc := s\<rparr>)" "service_frame E i st (st\<lparr>heap_allocs := n\<rparr>)"
    "service_frame E i st (st\<lparr>reboot_scheduled := b\<rparr>)" by simp_all
qed

lemma service_frame_update:
  "slot_evolves (webos_adb_stream_max_payload E st) (streams st ! i) (f (streams st ! i)) \<Longrightarrow>
    service_frame E i st (update_stream i f st)"
  unfolding service_frame_def update_stream_def
  by (intro exI [of _ "f (streams st ! i)"] exI [of _ "svc st"] exI [of _ "heap_allocs st"] exI [of _ "reboot_scheduled st"])
    simp

text \<open>While a packet is dispatched, writing and closing only touch the slot.\<close>

lemma write_check_0:
  "write_check E i gen data len st = 0 \<longleftrightarrow>
    used (streams st ! i) \<and> (gen = 0 \<or> generation (streams st ! i) = gen) \<and> (data = None \<longrightarrow> len = 0) \<and>
    len \<le> webos_adb_stream_max_payload E st \<and> \<not> tx_pending (streams st ! i) \<and>
    \<not> awaiting_ack (streams st ! i)"
  by (auto simp: write_check_def Let_def errno_simps)

lemma length_bytes_of_le: "length (bytes_of data len) \<le> len"
  by (simp add: bytes_of_def split: option.splits)

lemma service_frame_write:
  assumes "dispatching st" "stream_write_locked E (Some i) gen data len st = (ret, st')"
    "length (tx_data (streams st ! i)) = WEBOS_ADB_TX_PAYLOAD_SIZE (conf E)"
  shows "service_frame E i st st'"
proof (cases "write_check E i gen data len st = 0")
  case True
  define bs where "bs = bytes_of data len"
  have "length bs \<le> webos_adb_stream_max_payload E st" "length bs \<le> WEBOS_ADB_TX_PAYLOAD_SIZE (conf E)"
    using True max_payload_le [of E st] length_bytes_of_le [of data len]
    unfolding bs_def write_check_0 by linarith+
  then have "slot_evolves (webos_adb_stream_max_payload E st) (streams st ! i) (fill_slot bs (streams st ! i))"
    using True assms(3) by (auto simp: write_check_0 slot_evolves_def fill_slot_def length_memcpy)
  then have "service_frame E i st (update_stream i (fill_slot bs) st)" by (rule service_frame_update)
  then show ?thesis
    using assms(1,2) True by (auto simp: stream_write_locked_def transmit_slot_def update_stream_def bs_def)
qed (use assms in \<open>auto simp: stream_write_locked_def\<close>)

lemma service_frame_close:
  assumes "dispatching st"
  shows "service_frame E i st (stream_close_locked E (Some i) gen st)"
  using assms service_frame_update [of E st i "\<lambda>s. s\<lparr>close_pending := True\<rparr>"]
  by (auto simp: stream_close_locked_def Let_def slot_evolves_def update_stream_def)

lemma keeps_service_frame:
  assumes frame: "service_frame E i st st'" and i: "i < length (streams st)" and "used (streams st ! i)"
    and svc: "P (svc st) \<Longrightarrow> P (svc st')"
  shows "keeps E P st st'"
proof -
  obtain s' sv n b where st': "st' = st\<lparr>streams := (streams st)[i := s'], svc := sv, heap_allocs := n, reboot_scheduled := b\<rparr>"
    and s': "slot_evolves (webos_adb_stream_max_payload E st) (streams st ! i) s'"
    using frame unfolding service_frame_def by blast
  have "keeps E P st (update_stream i (\<lambda>_. s') st)"
    using s' assms(2,3) slot_evolves_ok by (intro keeps_update_stream) (auto simp: slot_evolves_def)
  then show ?thesis using svc by (auto simp: keeps_def st' update_stream_def)
qed

lemma find_index_Some:
  "find P [0..<n] = Some i \<Longrightarrow> i < n \<and> P i"
  by (auto simp: find_Some_iff)

lemma find_stream_Some:
  "find_stream lid rid st = Some i \<Longrightarrow>
    i < length (streams st) \<and> used (streams st ! i) \<and> local_id (streams st ! i) = lid \<and>
    remote_id (streams st ! i) = rid"
  unfolding find_stream_def by (drule find_index_Some) simp

lemma next_id_nonzero [simp]: "next_id n \<noteq> 0"
  by (simp add: next_id_def)

lemma keeps_allocate_local_id:
  "allocate_local_id st = (lid, st') \<Longrightarrow> keeps E P st st' \<and> (core_ok E st \<longrightarrow> lid \<noteq> 0)"
  by (auto simp: allocate_local_id_def keeps_def core_ok_def control_ok_def webos_adb_stream_max_payload_def moved_same)

lemma keeps_allocate_stream:
  assumes alloc: "allocate_stream E rid service st = (Some i, st')" and "rid \<noteq> 0" "online st"
    and "service_enabled (conf E) service"
  shows "keeps E P st st' \<and> i < length (streams st') \<and> used (streams st' ! i)"
proof -
  define s where "s = (stream_zero (conf E))\<lparr>used := True, local_id := next_local_id st, remote_id := rid,
    generation := next_stream_generation st, ops := Some service\<rparr>"
  have i: "i < length (streams st)" and st': "st' = st\<lparr>next_local_id := next_id (next_local_id st),
      streams := (streams st)[i := s], next_stream_generation := next_id (next_stream_generation st)\<rparr>"
    using alloc by (auto simp: allocate_stream_def Let_def allocate_local_id_def update_stream_def s_def
        find_Some_iff split: option.splits)
  have "stream_ok (conf E) cap s" if "core_ok E st" for cap
    using that \<open>rid \<noteq> 0\<close> \<open>service_enabled (conf E) service\<close> by (simp add: s_def stream_ok_def stream_zero_def core_ok_def)
  then have "core_ok E st \<longrightarrow> core_ok E st'"
    using \<open>online st\<close>
    by (auto simp: core_ok_def st' control_ok_def webos_adb_stream_max_payload_def list_all_update)
  then show ?thesis using i by (simp add: keeps_def st' s_def stream_zero_def moved_same)
qed

lemma allocate_stream_None: "allocate_stream E rid service st = (None, st') \<Longrightarrow> st' = st"
  by (auto simp: allocate_stream_def Let_def allocate_local_id_def split: option.splits)

lemma fill_slot_ok:
  assumes "stream_ok c cap s" "used s" "length bytes \<le> cap" "cap \<le> WEBOS_ADB_TX_PAYLOAD_SIZE c" "\<not> awaiting_ack s"
  shows "stream_ok c cap (fill_slot bytes s)"
  using assms by (auto simp: stream_ok_def fill_slot_def length_memcpy)

lemma keeps_drop_slot:
  "i < length (streams st) \<Longrightarrow> keeps E P st (update_stream i (\<lambda>s. s\<lparr>tx_pending := False, tx_len := 0\<rparr>) st)"
  by (intro keeps_update_stream) (auto simp: stream_ok_def stream_zero_def split: if_splits)

section \<open>Closing every stream\<close>

lemma streams_release_stream:
  "streams (release_stream E i st) =
    (if used (streams st ! i) then (streams st)[i := stream_zero (conf E)] else streams st)"
  by (auto simp: release_stream_def Let_def update_stream_def split: option.splits)

lemma release_stream_frame:
  "(release_stream E i st)\<lparr>svc := s, streams := ss\<rparr> = st\<lparr>svc := s, streams := ss\<rparr>"
  by (simp add: release_stream_def Let_def update_stream_def split: option.splits)

lemma release_streams_frame:
  "(fold (release_stream E) js st)\<lparr>svc := s, streams := ss\<rparr> = st\<lparr>svc := s, streams := ss\<rparr>"
  by (induction js arbitrary: st) (simp_all add: release_stream_frame)

lemma streams_release_streams:
  assumes "\<And>i. i < length (streams st) \<Longrightarrow> \<not> used (streams st ! i) \<Longrightarrow> streams st ! i = stream_zero (conf E)"
    and "n \<le> length (streams st)"
  shows "streams (fold (release_stream E) [0..<n] st) =
    replicate n (stream_zero (conf E)) @ drop n (streams st)"
  using assms(2)
proof (induction n)
  case (Suc n)
  define ss where "ss = replicate n (stream_zero (conf E)) @ drop n (streams st)"
  have IH: "streams (fold (release_stream E) [0..<n] st) = ss" using Suc by (simp add: ss_def)
  have nth: "ss ! n = streams st ! n" using Suc.prems by (simp add: ss_def nth_append)
  have "ss[n := stream_zero (conf E)] = replicate (Suc n) (stream_zero (conf E)) @ drop (Suc n) (streams st)"
    using Suc.prems
    by (simp add: ss_def list_update_append Cons_nth_drop_Suc [symmetric] replicate_append_same)
  moreover have "ss[n := stream_zero (conf E)] = ss" if "\<not> used (ss ! n)"
    using that assms(1) [of n] Suc.prems unfolding nth by (metis Suc_le_eq list_update_id nth)
  ultimately show ?case by (simp add: streams_release_stream IH)
qed simp

lemma close_all_streams_eq:
  assumes "core_ok E st"
  shows "\<exists>s. close_all_streams E st =
    st\<lparr>svc := s, streams := replicate (WEBOS_ADB_MAX_STREAMS (conf E)) (stream_zero (conf E))\<rparr>"
proof -
  have "streams st ! i = stream_zero (conf E)" if "i < length (streams st)" "\<not> used (streams st ! i)" for i
    using core_stream [OF assms that(1)] that(2) by (simp add: stream_ok_def)
  from streams_release_streams [OF this, of "length (streams st)"] assms
  have "streams (close_all_streams E st) = replicate (WEBOS_ADB_MAX_STREAMS (conf E)) (stream_zero (conf E))"
    by (simp add: close_all_streams_def core_ok_def)
  moreover have "close_all_streams E st =
      st\<lparr>svc := svc (close_all_streams E st), streams := streams (close_all_streams E st)\<rparr>"
    unfolding close_all_streams_def
    using release_streams_frame [where E = E and st = st and js = "[0..<length (streams st)]"
        and s = "svc (fold (release_stream E) [0..<length (streams st)] st)"
        and ss = "streams (fold (release_stream E) [0..<length (streams st)] st)"] by simp
  ultimately show ?thesis by metis
qed

section \<open>The contract of the close callbacks\<close>

text \<open>
  A property of the services' state that the close callback of every enabled service keeps.  Under
  this contract each operation on a stream keeps the invariant of the table and that property.
\<close>

locale closing_services =
  fixes E :: "('s, 't, 'z) adb_env_scheme" and svc_ok :: "'s \<Rightarrow> bool"
  assumes close_ok: "svc_ok s \<Longrightarrow> service_enabled (conf E) v \<Longrightarrow> svc_ok (service_close E v i s)"
begin

lemma keeps_release_stream:
  assumes i: "i < length (streams st)"
  shows "keeps E svc_ok st (release_stream E i st)"
proof (cases "used (streams st ! i)")
  case True
  have "keeps E svc_ok st (release_stream E i st)" if v: "ops (streams st ! i) = Some v" for v
  proof -
    define st1 where "st1 = st\<lparr>svc := service_close E v i (svc st)\<rparr>"
    have "keeps E svc_ok st1 (update_stream i (\<lambda>_. stream_zero (conf E)) st1)"
      using i by (intro keeps_update_stream) (auto simp: st1_def)
    moreover have "service_enabled (conf E) v" if "core_ok E st"
      using core_stream [OF that i] v True by (auto simp: stream_ok_def)
    then have "keeps E svc_ok st st1" using close_ok by (auto simp: keeps_def st1_def)
    ultimately show ?thesis using True v
      by (auto simp: release_stream_def Let_def st1_def intro: keeps_trans)
  qed
  moreover have "keeps E svc_ok st (update_stream i (\<lambda>_. stream_zero (conf E)) st)"
    using i by (intro keeps_update_stream) auto
  then have "keeps E svc_ok st (release_stream E i st)" if "ops (streams st ! i) = None"
    using True that by (simp add: release_stream_def)
  ultimately show ?thesis by (cases "ops (streams st ! i)") auto
qed (simp add: release_stream_def)

lemma keeps_flush_close: "i < length (streams st) \<Longrightarrow> flush_close E i st = (ret, st') \<Longrightarrow> keeps E svc_ok st st'"
proof -
  assume i: "i < length (streams st)" and flush: "flush_close E i st = (ret, st')"
  obtain r st1 where send: "send_close E (local_id (streams st ! i)) (remote_id (streams st ! i)) st = (r, st1)"
    by fastforce
  have "keeps E svc_ok st st1" using send unfolding send_close_def by (rule keeps_send_control)
  moreover then have "keeps E svc_ok st1 (release_stream E i st1)"
    using i by (intro keeps_release_stream) (simp add: keeps_length)
  ultimately show ?thesis using flush send
    by (auto simp: flush_close_def Let_def split: if_splits intro: keeps_trans)
qed

lemma keeps_flush_stream:
  assumes i: "i < length (streams st)" and flush: "flush_stream E i st = (ret, st')"
  shows "keeps E svc_ok st st'"
proof -
  obtain r st1 where w: "flush_write i st = (r, st1)" by fastforce
  have keeps1: "keeps E svc_ok st st1" by (rule keeps_flush_write [OF i w])
  show ?thesis
  proof (cases "r = 0")
    case True
    then have "flush_close E i st1 = (ret, st')" using flush w by (simp add: flush_stream_def)
    with i keeps1 have "keeps E svc_ok st1 st'" by (intro keeps_flush_close [of i]) (simp_all add: keeps_length)
    with keeps1 show ?thesis by (rule keeps_trans)
  qed (use flush w keeps1 in \<open>simp add: flush_stream_def\<close>)
qed

lemma keeps_transmit_slot:
  assumes i: "i < length (streams st)" and transmit: "transmit_slot E i st = (ret, st')"
  shows "keeps E svc_ok st st'"
proof -
  obtain r st2 where flush: "flush_stream E i st = (r, st2)" by fastforce
  have keeps2: "keeps E svc_ok st st2" by (rule keeps_flush_stream [OF i flush])
  have "keeps E svc_ok st (update_stream i (\<lambda>s. s\<lparr>tx_pending := False, tx_len := 0\<rparr>) st2)"
    using keeps_trans [OF keeps2 keeps_drop_slot] i keeps2 by (simp add: keeps_length)
  with transmit flush keeps2 show ?thesis by (auto simp: transmit_slot_def split: if_splits)
qed

lemma keeps_stream_write:
  assumes i: "i < length (streams st)" and "write": "stream_write_locked E (Some i) gen data len st = (ret, st')"
  shows "keeps E svc_ok st st'"
proof (cases "write_check E i gen data len st = 0")
  case True
  define bs where "bs = bytes_of data len"
  have "length bs \<le> webos_adb_stream_max_payload E st"
    using True length_bytes_of_le [of data len] unfolding bs_def write_check_0 by linarith
  then have keeps1: "keeps E svc_ok st (update_stream i (fill_slot bs) st)"
    using True i max_payload_le [of E st]
    by (intro keeps_update_stream) (auto simp: write_check_0 intro: fill_slot_ok)
  have "keeps E svc_ok (update_stream i (fill_slot bs) st) st'"
    using True "write" i by (intro keeps_transmit_slot [of i]) (simp_all add: stream_write_locked_def bs_def update_stream_def)
  with keeps1 show ?thesis by (rule keeps_trans)
qed (use "write" in \<open>auto simp: stream_write_locked_def\<close>)

lemma keeps_stream_close:
  assumes i: "i < length (streams st)"
  shows "keeps E svc_ok st (stream_close_locked E (Some i) gen st)"
proof -
  define st1 where "st1 = update_stream i (\<lambda>s. s\<lparr>close_pending := True\<rparr>) st"
  obtain r st2 where flush: "flush_stream E i st1 = (r, st2)" by fastforce
  have keeps1: "keeps E svc_ok st st1" if "used (streams st ! i)" unfolding st1_def
    using i that by (intro keeps_update_stream) (auto simp: stream_ok_def)
  have keeps2: "keeps E svc_ok st st2" if "used (streams st ! i)"
    using keeps_trans [OF keeps1 keeps_flush_stream [OF _ flush]] i keeps1 that by (simp add: keeps_length)
  show ?thesis using keeps1 keeps2 flush
    by (auto simp: stream_close_locked_def Let_def st1_def [symmetric])
qed

lemma close_all_streams_svc:
  assumes "core_ok E st" "svc_ok (svc st)"
  shows "svc_ok (svc (close_all_streams E st))"
proof -
  have "core_ok E (fold (release_stream E) js st) \<and> svc_ok (svc (fold (release_stream E) js st))"
    if "set js \<subseteq> {0..<length (streams st)}" for js
    using that assms
  proof (induction js arbitrary: st)
    case (Cons j js)
    have "keeps E svc_ok st (release_stream E j st)" using Cons.prems by (intro keeps_release_stream) simp
    then show ?case
      using Cons.IH [of "release_stream E j st"] Cons.prems keeps_core [of E svc_ok st "release_stream E j st"]
        keeps_length [of E svc_ok st "release_stream E j st"] by simp
  qed simp
  then show ?thesis by (simp add: close_all_streams_def)
qed

end

end
