(* ===== verification/Adb_Callback.thy ===== *)
theory Adb_Callback
  imports Adb_Stream
begin

text \<open>
  What the callbacks of the ADB services share: a change of the services' static variables, and the
  effect of the stream operations when they are called from a callback, while a packet is being
  dispatched.  Then a write only fills the transmit slot and a close is only marked, so no callback
  is entered again.
\<close>

definition on_svc :: "('s \<Rightarrow> 's) \<Rightarrow> ('s, 't) adb \<Rightarrow> ('s, 't) adb" where
  "on_svc f st = st\<lparr>svc := f (svc st)\<rparr>"

text \<open>\<open>k_malloc\<close>: the environment decides whether the next allocation succeeds.\<close>

definition k_malloc :: "('s, 't, 'z) adb_env_scheme \<Rightarrow> nat \<Rightarrow> ('s, 't) adb \<Rightarrow> bool \<times> ('s, 't) adb" where
  "k_malloc E n st = (k_malloc_ok E (heap_allocs st) n, st\<lparr>heap_allocs := heap_allocs st + 1\<rparr>)"

section \<open>Effects during a dispatch\<close>

lemma stream_write_dispatching:
  "dispatching st \<Longrightarrow> stream_write_locked E stream gen data len st = (ret, st') \<Longrightarrow> svc st' = svc st"
  by (auto simp: stream_write_locked_def transmit_slot_def update_stream_def split: option.splits if_splits)

lemma stream_close_dispatching:
  "dispatching st \<Longrightarrow> svc (stream_close_locked E stream gen st) = svc st"
  by (auto simp: stream_close_locked_def Let_def update_stream_def split: option.splits)

text \<open>A stream on which callbacks may be called, with its transmit slot intact.\<close>

definition live :: "('s, 't, 'z) adb_env_scheme \<Rightarrow> nat \<Rightarrow> ('s, 't) adb \<Rightarrow> bool" where
  "live E i st \<longleftrightarrow> dispatching st \<and> i < length (streams st) \<and>
     length (streams st) = WEBOS_ADB_MAX_STREAMS (conf E) \<and> length (tx_data (streams st ! i)) = WEBOS_ADB_TX_PAYLOAD_SIZE (conf E)"

lemma live_frame: "service_frame E i st st' \<Longrightarrow> live E i st \<Longrightarrow> live E i st'"
  by (auto simp: service_frame_def live_def slot_evolves_def)

lemma on_svc_frame: "service_frame E i st (on_svc f st)"
  by (simp add: on_svc_def service_frame_state)

lemma svc_on_svc [simp]: "svc (on_svc f st) = f (svc st)"
  by (simp add: on_svc_def)

lemma live_on_svc [simp]: "live E i (on_svc f st) = live E i st"
  by (simp add: live_def on_svc_def)

lemma live_svc [simp]: "live E i (st\<lparr>svc := s\<rparr>) = live E i st"
  by (simp add: live_def)

lemma frame_trans: "live E i st \<Longrightarrow> service_frame E i st st' \<Longrightarrow> service_frame E i st' st'' \<Longrightarrow> service_frame E i st st''"
  by (rule service_frame_trans) (simp_all add: live_def)

lemma frame_on_svc: "live E i st \<Longrightarrow> service_frame E i (on_svc f st) st' \<Longrightarrow> service_frame E i st st'"
  by (rule frame_trans [OF _ on_svc_frame])

lemma frame_svc: "live E i st \<Longrightarrow> service_frame E i (st\<lparr>svc := s\<rparr>) st' \<Longrightarrow> service_frame E i st st'"
  by (rule frame_trans [OF _ service_frame_state(1)])

lemma write_live:
  assumes "live E i st" "webos_adb_stream_write E (Some i) data len st = (ret, st')"
  shows "service_frame E i st st' \<and> svc st' = svc st"
proof
  show "service_frame E i st st'"
    using assms by (intro service_frame_write [of st E i 0 data len ret]) (simp_all add: live_def webos_adb_stream_write_def)
  show "svc st' = svc st"
    using assms stream_write_dispatching [of st E "Some i" 0 data len ret st']
    by (simp add: live_def webos_adb_stream_write_def)
qed

lemma close_live:
  assumes "live E i st"
  shows "service_frame E i st (webos_adb_stream_close E (Some i) st) \<and> svc (webos_adb_stream_close E (Some i) st) = svc st"
  using assms service_frame_close [of st E i 0] stream_close_dispatching [of st E "Some i" 0]
  by (simp add: live_def webos_adb_stream_close_def)

text \<open>The same for the operations that name a generation.\<close>

lemma write_generation_live:
  assumes "live E i st" "webos_adb_stream_write_generation E (Some i) gen data len st = (ret, st')"
  shows "service_frame E i st st' \<and> svc st' = svc st"
proof
  show "service_frame E i st st'"
    using assms by (intro service_frame_write [of st E i gen data len ret])
      (simp_all add: live_def webos_adb_stream_write_generation_def)
  show "svc st' = svc st"
    using assms stream_write_dispatching [of st E "Some i" gen data len ret st']
    by (simp add: live_def webos_adb_stream_write_generation_def)
qed

lemma close_generation_live:
  assumes "live E i st"
  shows "service_frame E i st (webos_adb_stream_close_generation E (Some i) gen st) \<and>
    svc (webos_adb_stream_close_generation E (Some i) gen st) = svc st"
  using assms service_frame_close [of st E i gen] stream_close_dispatching [of st E "Some i" gen]
  by (simp add: live_def webos_adb_stream_close_generation_def)

lemma malloc_live:
  assumes "live E i st" "k_malloc E n st = (ok, st')"
  shows "service_frame E i st st' \<and> svc st' = svc st"
  using assms service_frame_state(2) [of E i st] by (auto simp: k_malloc_def)

end
