(* ===== verification/Adb_Router.thy ===== *)
theory Adb_Router
  imports Adb_Stream
begin

text \<open>
  The upper half of lib/adb/adb_protocol.c: the handlers of the five commands, the dispatcher, the
  incremental packet parser and the entry points the transport and the services call; with the
  reboot request of adb_reboot.c and the request matcher of adb_logcat.c that the OPEN handler uses.
\<close>

section \<open>Environment\<close>

text \<open>The remaining service callbacks, which may call back into the router.\<close>

record ('s, 't) adb_services = "('s, 't) adb_env" +
  service_open :: "service \<Rightarrow> nat \<Rightarrow> byte list \<Rightarrow> ('s, 't) adb \<Rightarrow> int \<times> ('s, 't) adb"
  service_write ::
    "service \<Rightarrow> nat \<Rightarrow> byte list option \<Rightarrow> nat \<Rightarrow> ('s, 't) adb \<Rightarrow> int \<times> ('s, 't) adb"
  service_tx_ready :: "service \<Rightarrow> nat \<Rightarrow> ('s, 't) adb \<Rightarrow> ('s, 't) adb"

section \<open>Reboot and logcat requests\<close>

definition webos_adb_reboot_request ::
    "('s, 't, 'z) adb_env_scheme \<Rightarrow> byte list option \<Rightarrow> nat \<Rightarrow> ('s, 't) adb \<Rightarrow> int \<times> ('s, 't) adb" where
  "webos_adb_reboot_request E target target_len st =
     (if target = None \<and> target_len \<noteq> 0 then (- EINVAL, st)
      else if target_len \<noteq> 0 then (- ENOTSUP, st)
      else let ret = k_work_reschedule E (link st)
           in if ret < 0 then (ret, st) else (0, st\<lparr>reboot_scheduled := True\<rparr>))"

definition contains_bytes :: "byte list \<Rightarrow> string \<Rightarrow> bool" where
  "contains_bytes data token \<longleftrightarrow>
     length token \<le> length data \<and>
     list_ex (\<lambda>i. take (length token) (drop i data) = token) [0..<Suc (length data - length token)]"

definition webos_adb_logcat_matches :: "kconfig \<Rightarrow> byte list \<Rightarrow> bool" where
  "webos_adb_logcat_matches c suffix_bytes =
     (if suffix_bytes = [] \<or> WEBOS_ADB_SHELL_COMMAND_SIZE c \<le> length suffix_bytes \<or>
         NUL \<in> set suffix_bytes \<or> CHR 0x0A \<in> set suffix_bytes \<or> CHR 0x0D \<in> set suffix_bytes then False
      else if suffix_bytes = ''logcat'' then True
      else if length ''logcat '' < length suffix_bytes \<and> prefix ''logcat '' suffix_bytes then True
      else contains_bytes suffix_bytes ''; exec logcat'')"

section \<open>Handlers\<close>

definition reset_rx :: "('s, 't) adb \<Rightarrow> ('s, 't) adb" where
  "reset_rx st = st\<lparr>rx := rx_zero\<rparr>"

text \<open>The end of \<open>open_stream\<close>: announce the stream and start its first packet.\<close>

definition open_ready ::
    "('s, 't, 'z) adb_env_scheme \<Rightarrow> nat \<Rightarrow> ('s, 't) adb \<Rightarrow> int \<times> ('s, 't) adb" where
  "open_ready E i st =
     (let (ret, st) = send_ready E (local_id (streams st ! i)) (remote_id (streams st ! i)) st;
          (ret, st) = (if ret = 0 then flush_stream E i st else (ret, st))
      in if flow_control_error ret then (0, st)
         else if ret \<noteq> 0 then (ret, release_stream E i st)
         else (ret, st))"

definition open_stream ::
    "('s, 't, 'z) adb_services_scheme \<Rightarrow> byte list \<Rightarrow> u32 \<Rightarrow> string \<Rightarrow> service \<Rightarrow> ('s, 't) adb \<Rightarrow>
     int \<times> ('s, 't) adb" where
  "open_stream E destination rid pfx service st =
     (if length destination < length pfx \<or> take (length pfx) destination \<noteq> pfx then (- ENOENT, st)
      else case allocate_stream E rid service st of
        (None, st) \<Rightarrow> send_close E 0 rid st
      | (Some i, st) \<Rightarrow>
          let (ret, st) = service_open E service i (drop (length pfx) destination) st
          in if ret \<noteq> 0 then send_close E 0 rid (release_stream E i st)
             else open_ready E i st)"

text \<open>
  The routing of an OPEN that passed the checks; the two tracker services only allocate an
  identifier and acknowledge.
\<close>

definition route_open ::
    "('s, 't, 'z) adb_services_scheme \<Rightarrow> byte list \<Rightarrow> u32 \<Rightarrow> ('s, 't) adb \<Rightarrow> int \<times> ('s, 't) adb" where
  "route_open E destination arg0 st =
     (if WEBOS_ADB_LOGCAT (conf E) \<and> length ''shell:'' \<le> length destination \<and>
         webos_adb_logcat_matches (conf E) (drop (length ''shell:'') destination)
      then open_stream E destination arg0 ''shell:'' Logcat_service st
      else
        let (ret, st) = (if WEBOS_ADB_SHELL (conf E)
                         then open_stream E destination arg0 ''shell:'' Shell_service st
                         else (- ENOENT, st))
        in if ret \<noteq> - ENOENT then (ret, st)
           else
             let (ret, st) = (if WEBOS_ADB_SYNC (conf E)
                              then open_stream E destination arg0 ''sync:'' Sync_service st
                              else (- ENOENT, st))
             in if ret \<noteq> - ENOENT then (ret, st) else send_close E 0 arg0 st)"

definition handle_open :: "('s, 't, 'z) adb_services_scheme \<Rightarrow> ('s, 't) adb \<Rightarrow> int \<times> ('s, 't) adb" where
  "handle_open E st =
     (let m = message (rx st); len = unat (m_data_length m) in
      case payload (rx st) of
        None \<Rightarrow> (- EBADMSG, st)
      | Some bytes \<Rightarrow>
          if \<not> online st \<or> m_arg0 m = 0 \<or> m_arg1 m \<noteq> 0 \<or> m_data_length m = 0 \<or>
             bytes ! (len - 1) \<noteq> NUL then (- EBADMSG, st)
          else
            let destination = take (len - 1) bytes in
            if destination = ''track-jdwp'' \<or> destination = ''track-app'' then
              let (lid, st) = allocate_local_id st in send_ready E lid (m_arg0 m) st
            else if WEBOS_ADB_REBOOT (conf E) \<and> prefix ''reboot:'' destination then
              if length destination \<noteq> length ''reboot:'' then send_close E 0 (m_arg0 m) st
              else
                let (lid, st) = allocate_local_id st;
                    (ret, st) = send_ready E lid (m_arg0 m) st
                in if ret = 0 then webos_adb_reboot_request E None 0 st else (ret, st)
            else route_open E destination (m_arg0 m) st)"

definition handle_write :: "('s, 't, 'z) adb_services_scheme \<Rightarrow> ('s, 't) adb \<Rightarrow> int \<times> ('s, 't) adb" where
  "handle_write E st =
     (let m = message (rx st) in
      case find_stream (m_arg1 m) (m_arg0 m) st of
        None \<Rightarrow> send_close E 0 (m_arg0 m) st
      | Some i \<Rightarrow>
          case ops (streams st ! i) of
            None \<Rightarrow> send_close E 0 (m_arg0 m) st
          | Some service \<Rightarrow>
              let (ret, st) = service_write E service i (payload (rx st)) (unat (m_data_length m)) st in
              if ret \<noteq> 0 then
                flush_stream E i
                  (update_stream i
                    (\<lambda>s. s\<lparr>close_pending := True, tx_pending := False, awaiting_ack := False\<rparr>) st)
              else
                let (ret, st) = send_ready E (local_id (streams st ! i)) (remote_id (streams st ! i)) st
                in if ret = 0 then flush_stream E i st else (ret, st))"

definition handle_ready :: "('s, 't, 'z) adb_services_scheme \<Rightarrow> ('s, 't) adb \<Rightarrow> int \<times> ('s, 't) adb" where
  "handle_ready E st =
     (let m = message (rx st) in
      case find_stream (m_arg1 m) (m_arg0 m) st of
        None \<Rightarrow> (0, st)
      | Some i \<Rightarrow>
          if \<not> awaiting_ack (streams st ! i) then (0, st)
          else
            let st = update_stream i (\<lambda>s. s\<lparr>awaiting_ack := False\<rparr>) st;
                st = (case ops (streams st ! i) of
                        None \<Rightarrow> st
                      | Some service \<Rightarrow> service_tx_ready E service i st)
            in if used (streams st ! i) then flush_stream E i st else (0, st))"

definition handle_close :: "('s, 't, 'z) adb_env_scheme \<Rightarrow> ('s, 't) adb \<Rightarrow> int \<times> ('s, 't) adb" where
  "handle_close E st =
     (let m = message (rx st) in
      case find_stream (m_arg1 m) (m_arg0 m) st of
        None \<Rightarrow> (0, st)
      | Some i \<Rightarrow>
          let (ret, st) = send_close E (local_id (streams st ! i)) (remote_id (streams st ! i)) st
          in (ret, release_stream E i st))"

section \<open>Dispatch\<close>

text \<open>The CNXN case: what it resets, and the answer.\<close>

definition connect_reset :: "('s, 't, 'z) adb_env_scheme \<Rightarrow> ('s, 't) adb \<Rightarrow> ('s, 't) adb" where
  "connect_reset E st =
     (let st = close_all_streams E (st\<lparr>online := False\<rparr>);
          st = st\<lparr>control_head := 0, control_tail := 0, control_count := 0, next_local_id := 1\<rparr>;
          st = (if WEBOS_ADB_USB (conf E) then st\<lparr>link := webos_adb_usb_reset_tx E (link st)\<rparr> else st)
      in st\<lparr>negotiated_payload :=
              min (unat (m_arg1 (message (rx st)))) (WEBOS_ADB_MAX_PAYLOAD (conf E))\<rparr>)"

definition handle_connect :: "('s, 't, 'z) adb_env_scheme \<Rightarrow> ('s, 't) adb \<Rightarrow> int \<times> ('s, 't) adb" where
  "handle_connect E st =
     (if \<not> WEBOS_ADB_ALLOW_NO_AUTH (conf E) then (- EACCES, st)
      else let (ret, st) = send_connect E (connect_reset E st)
           in (ret, if ret = 0 then st\<lparr>online := True\<rparr> else st))"

definition dispatch_message :: "('s, 't, 'z) adb_services_scheme \<Rightarrow> ('s, 't) adb \<Rightarrow> int \<times> ('s, 't) adb" where
  "dispatch_message E st =
     (let m = message (rx st) in
      if m_data_check m \<noteq> payload_checksum (rx st) \<and>
         \<not> (m_command m = ADB_COMMAND_CNXN \<and> ADB_VERSION_NO_CHECKSUM \<le> m_arg0 m \<and> m_data_check m = 0)
      then (- EBADMSG, st)
      else if m_command m = ADB_COMMAND_CNXN then handle_connect E st
      else if m_command m = ADB_COMMAND_OPEN then handle_open E st
      else if m_command m = ADB_COMMAND_WRTE then handle_write E st
      else if m_command m = ADB_COMMAND_OKAY then handle_ready E st
      else if m_command m = ADB_COMMAND_CLSE then handle_close E st
      else (- ENOTSUP, st))"

section \<open>The parser\<close>

text \<open>A block from \<open>k_malloc\<close>; its contents are written before they are read.\<close>

definition decode_header :: "('s, 't, 'z) adb_env_scheme \<Rightarrow> ('s, 't) adb \<Rightarrow> int \<times> ('s, 't) adb" where
  "decode_header E st =
     (let m = decode_message (header (rx st));
          st = st\<lparr>rx := (rx st)\<lparr>message := m\<rparr>\<rparr>;
          ret = validate_message (conf E) m;
          len = unat (m_data_length m)
      in if ret \<noteq> 0 \<or> m_data_length m = 0 then (ret, st)
         else
           let ok = k_malloc_ok E (heap_allocs st) len;
               st = st\<lparr>heap_allocs := heap_allocs st + 1\<rparr>
           in if ok then (0, st\<lparr>rx := (rx st)\<lparr>payload := Some (replicate len NUL)\<rparr>\<rparr>)
              else (- ENOMEM, st\<lparr>rx := (rx st)\<lparr>payload := None\<rparr>\<rparr>))"

text \<open>
  One pass of the loop of \<open>protocol_receive_unlocked\<close>: its header half and its payload half.  Each
  either returns from the function (Inl) or goes on with the return code so far, the unread bytes
  and the state (Inr).  After the \<open>continue\<close> of the header half the header is incomplete, so the
  payload half, which follows in the model, does nothing.
\<close>

definition rx_header_step ::
    "('s, 't, 'z) adb_services_scheme \<Rightarrow> int \<Rightarrow> byte list \<Rightarrow> ('s, 't) adb \<Rightarrow>
     (int \<times> ('s, 't) adb) + (int \<times> byte list \<times> ('s, 't) adb)" where
  "rx_header_step E ret data st =
     (if \<not> header_used (rx st) < WEBOS_ADB_HEADER_SIZE then Inr (ret, data, st)
      else
        let count = min (length data) (WEBOS_ADB_HEADER_SIZE - header_used (rx st));
            st = st\<lparr>rx := (rx st)\<lparr>header := memcpy (header (rx st)) (header_used (rx st)) (take count data),
                                 header_used := header_used (rx st) + count\<rparr>\<rparr>;
            data = drop count data
        in if header_used (rx st) \<noteq> WEBOS_ADB_HEADER_SIZE then Inr (ret, data, st)
           else
             let (ret, st) = decode_header E st in
             if ret \<noteq> 0 then Inl (ret, reset_rx st)
             else if m_data_length (message (rx st)) = 0 then
               let (ret, st) = dispatch_message E st; st = reset_rx st
               in if ret \<noteq> 0 then Inl (ret, st) else Inr (ret, data, st)
             else Inr (ret, data, st))"

definition rx_payload_step ::
    "('s, 't, 'z) adb_services_scheme \<Rightarrow> int \<Rightarrow> byte list \<Rightarrow> ('s, 't) adb \<Rightarrow>
     (int \<times> ('s, 't) adb) + (int \<times> byte list \<times> ('s, 't) adb)" where
  "rx_payload_step E ret data st =
     (if \<not> (header_used (rx st) = WEBOS_ADB_HEADER_SIZE \<and> 0 < m_data_length (message (rx st))) then
        Inr (ret, data, st)
      else
        let len = unat (m_data_length (message (rx st)));
            count = min (length data) (len - payload_used (rx st));
            st = st\<lparr>rx := (rx st)
                   \<lparr>payload := map_option (\<lambda>p. memcpy p (payload_used (rx st)) (take count data)) (payload (rx st)),
                    payload_checksum := payload_checksum (rx st) + adb_checksum (take count data),
                    payload_used := payload_used (rx st) + count\<rparr>\<rparr>;
            data = drop count data
        in if payload_used (rx st) = len then
             let (ret, st) = dispatch_message E st; st = reset_rx st
             in if ret \<noteq> 0 then Inl (ret, st) else Inr (ret, data, st)
           else Inr (ret, data, st))"

partial_function (option) receive_loop ::
    "('s, 't, 'z) adb_services_scheme \<Rightarrow> int \<Rightarrow> byte list \<Rightarrow> ('s, 't) adb \<Rightarrow> (int \<times> ('s, 't) adb) option" where
  "receive_loop E ret data st =
     (if data = [] then Some (ret, st)
      else case rx_header_step E ret data st of
        Inl res \<Rightarrow> Some res
      | Inr (ret, data, st) \<Rightarrow>
          (case rx_payload_step E ret data st of
             Inl res \<Rightarrow> Some res
           | Inr (ret, data, st) \<Rightarrow> receive_loop E ret data st))"

definition protocol_receive_unlocked ::
    "('s, 't, 'z) adb_services_scheme \<Rightarrow> byte list option \<Rightarrow> nat \<Rightarrow> ('s, 't) adb \<Rightarrow>
     (int \<times> ('s, 't) adb) option" where
  "protocol_receive_unlocked E data len st =
     (if data = None \<and> len \<noteq> 0 then Some (- EINVAL, st) else receive_loop E 0 (bytes_of data len) st)"

definition webos_adb_protocol_receive ::
    "('s, 't, 'z) adb_services_scheme \<Rightarrow> byte list option \<Rightarrow> nat \<Rightarrow> ('s, 't) adb \<Rightarrow>
     (int \<times> ('s, 't) adb) option" where
  "webos_adb_protocol_receive E data len st =
     map_option (\<lambda>(ret, st). (ret, st\<lparr>dispatching := False\<rparr>))
       (protocol_receive_unlocked E data len (st\<lparr>dispatching := True\<rparr>))"

section \<open>The other entry points\<close>

definition protocol_reset_unlocked :: "('s, 't, 'z) adb_env_scheme \<Rightarrow> ('s, 't) adb \<Rightarrow> ('s, 't) adb" where
  "protocol_reset_unlocked E st =
     (close_all_streams E (reset_rx st))
       \<lparr>next_local_id := 1, control_head := 0, control_tail := 0, control_count := 0,
        negotiated_payload := WEBOS_ADB_MAX_PAYLOAD (conf E), online := False, dispatching := False\<rparr>"

definition webos_adb_protocol_reset :: "('s, 't, 'z) adb_env_scheme \<Rightarrow> ('s, 't) adb \<Rightarrow> ('s, 't) adb" where
  "webos_adb_protocol_reset E st = protocol_reset_unlocked E st"

definition webos_adb_protocol_init ::
    "('s, 't, 'z) adb_env_scheme \<Rightarrow> 't webos_adb_send_fn \<Rightarrow> ('s, 't) adb \<Rightarrow> ('s, 't) adb" where
  "webos_adb_protocol_init E send_fn st = webos_adb_protocol_reset E (st\<lparr>transport_send := Some send_fn\<rparr>)"

text \<open>The loop over the streams, which a flow-control error ends.\<close>

fun flush_ready_streams :: "('s, 't, 'z) adb_env_scheme \<Rightarrow> nat list \<Rightarrow> ('s, 't) adb \<Rightarrow> ('s, 't) adb" where
  "flush_ready_streams E [] st = st"
| "flush_ready_streams E (i # is) st =
     (if used (streams st ! i) \<and> (tx_pending (streams st ! i) \<or> close_pending (streams st ! i)) then
        let (ret, st) = flush_stream E i st
        in if ret = - ENOSPC \<or> ret = - EBUSY then st else flush_ready_streams E is st
      else flush_ready_streams E is st)"

definition webos_adb_protocol_tx_ready :: "('s, 't, 'z) adb_env_scheme \<Rightarrow> ('s, 't) adb \<Rightarrow> ('s, 't) adb" where
  "webos_adb_protocol_tx_ready E st =
     (let (ret, st) = (if online st then pump_controls st else (0, st)) in
      if online st \<and> flow_control_error ret then st
      else if online st \<and> control_count st = 0
        then flush_ready_streams E [0..<length (streams st)] st
      else st)"

end
