(* ===== verification/Adb_Contract.thy ===== *)
theory Adb_Contract
  imports Adb_Router
begin

text \<open>
  The contract between the router and its services, and the proof that under it every handler, and
  so the dispatch of any packet, keeps the invariant of the stream table and the control queue,
  leaves the parser's buffers alone and keeps the services' own invariant.
\<close>

section \<open>The contract of the services\<close>

text \<open>The state in which callbacks run: a packet is being dispatched and the invariants hold.\<close>

definition dispatch_ok :: "('s, 't, 'z) adb_env_scheme \<Rightarrow> ('s \<Rightarrow> bool) \<Rightarrow> ('s, 't) adb \<Rightarrow> bool" where
  "dispatch_ok E P st \<longleftrightarrow> core_ok E st \<and> P (svc st) \<and> dispatching st"

lemma keeps_dispatch_ok: "keeps E P st st' \<Longrightarrow> dispatch_ok E P st \<Longrightarrow> dispatch_ok E P st'"
  by (simp add: keeps_def dispatch_ok_def)

text \<open>
  Each callback of an enabled service, called during a dispatch on its own used stream, keeps the
  services' property and touches nothing of the router but its slot (\<open>service_frame\<close>).
\<close>

locale routed_services = closing_services E svc_ok
  for E :: "('s, 't, 'z) adb_services_scheme" and svc_ok :: "'s \<Rightarrow> bool" +
  assumes open_frame: "dispatch_ok E svc_ok st \<Longrightarrow> i < length (streams st) \<Longrightarrow> used (streams st ! i) \<Longrightarrow>
      service_enabled (conf E) v \<Longrightarrow> service_open E v i suffix_bytes st = (ret, st') \<Longrightarrow>
      service_frame E i st st' \<and> svc_ok (svc st')"
    and write_frame: "dispatch_ok E svc_ok st \<Longrightarrow> i < length (streams st) \<Longrightarrow> used (streams st ! i) \<Longrightarrow>
      service_enabled (conf E) v \<Longrightarrow> service_write E v i data len st = (ret, st') \<Longrightarrow>
      service_frame E i st st' \<and> svc_ok (svc st')"
    and tx_ready_frame: "dispatch_ok E svc_ok st \<Longrightarrow> i < length (streams st) \<Longrightarrow> used (streams st ! i) \<Longrightarrow>
      service_enabled (conf E) v \<Longrightarrow>
      service_frame E i st (service_tx_ready E v i st) \<and> svc_ok (svc (service_tx_ready E v i st))"
begin

lemma keeps_open_ready:
  assumes i: "i < length (streams st)" and "open": "open_ready E i st = (ret, st')"
  shows "keeps E svc_ok st st'"
proof -
  obtain r1 st1 where send: "send_ready E (local_id (streams st ! i)) (remote_id (streams st ! i)) st = (r1, st1)"
    by fastforce
  have k1: "keeps E svc_ok st st1" using send unfolding send_ready_def by (rule keeps_send_control)
  obtain r2 st2 where flush: "(if r1 = 0 then flush_stream E i st1 else (r1, st1)) = (r2, st2)" by fastforce
  have k2: "keeps E svc_ok st1 st2"
  proof (cases "r1 = 0")
    case True
    then show ?thesis using flush i k1 by (intro keeps_flush_stream [of i]) (simp_all add: keeps_length)
  qed (use flush in simp)
  have k3: "keeps E svc_ok st2 (release_stream E i st2)"
    using i k1 k2 by (intro keeps_release_stream) (simp add: keeps_length)
  have "st' = st2 \<or> st' = release_stream E i st2"
    using "open" send flush by (auto simp: open_ready_def split: if_splits)
  then show ?thesis using keeps_trans [OF k1 k2] keeps_trans [OF _ k3] by blast
qed

lemma keeps_open_stream:
  assumes ok: "dispatch_ok E svc_ok st" and "rid \<noteq> 0" "online st" and v: "service_enabled (conf E) v"
    and "open": "open_stream E destination rid pfx v st = (ret, st')"
  shows "keeps E svc_ok st st'"
proof (cases "length destination < length pfx \<or> take (length pfx) destination \<noteq> pfx")
  case True
  with "open" show ?thesis by (simp add: open_stream_def)
next
  case match: False
  obtain r1 st1 where alloc: "allocate_stream E rid v st = (r1, st1)" by fastforce
  show ?thesis
  proof (cases r1)
    case None
    then have "send_close E 0 rid st = (ret, st')"
      using "open" match alloc allocate_stream_None [of E rid v st st1] by (auto simp: open_stream_def)
    then show ?thesis unfolding send_close_def by (rule keeps_send_control)
  next
    case (Some i)
    obtain r2 st2 where sopen: "service_open E v i (drop (length pfx) destination) st1 = (r2, st2)" by fastforce
    have k1: "keeps E svc_ok st st1" and i: "i < length (streams st1)" "used (streams st1 ! i)"
      using keeps_allocate_stream [of E rid v st i st1 svc_ok] alloc Some assms by auto
    have k2: "keeps E svc_ok st1 st2"
      using open_frame [OF keeps_dispatch_ok [OF k1 ok] i v sopen] i by (intro keeps_service_frame) auto
    have i2: "i < length (streams st2)" using i k2 by (simp add: keeps_length)
    have "keeps E svc_ok st2 st'"
    proof (cases "r2 = 0")
      case True
      then have "open_ready E i st2 = (ret, st')" using "open" match alloc Some sopen by (auto simp: open_stream_def)
      then show ?thesis by (rule keeps_open_ready [OF i2])
    next
      case False
      then have "send_close E 0 rid (release_stream E i st2) = (ret, st')"
        using "open" match alloc Some sopen by (auto simp: open_stream_def)
      then have "keeps E svc_ok (release_stream E i st2) st'"
        unfolding send_close_def by (rule keeps_send_control)
      with keeps_release_stream [OF i2] show ?thesis by (rule keeps_trans)
    qed
    with k1 k2 show ?thesis by (blast intro: keeps_trans)
  qed
qed

lemma keeps_route_open:
  assumes ok: "dispatch_ok E svc_ok st" and rid: "rid \<noteq> 0" "online st"
    and route: "route_open E destination rid st = (ret, st')"
  shows "keeps E svc_ok st st'"
proof (cases "WEBOS_ADB_LOGCAT (conf E) \<and> length ''shell:'' \<le> length destination \<and>
    webos_adb_logcat_matches (conf E) (drop (length ''shell:'') destination)")
  case True
  with route have "open_stream E destination rid ''shell:'' Logcat_service st = (ret, st')"
    by (simp add: route_open_def)
  then show ?thesis using True assms by (intro keeps_open_stream) (auto simp: service_enabled_def)
next
  case False
  have step: "keeps E svc_ok s s'"
    if "dispatch_ok E svc_ok s" "online s" "service_enabled (conf E) v \<longleftrightarrow> b"
      "(if b then open_stream E destination rid pfx v s else (- ENOENT, s)) = (r, s')" for s s' b v r pfx
    using that rid keeps_open_stream [of s rid v destination pfx r s'] by (cases b) auto
  obtain r1 st1 where shell: "(if WEBOS_ADB_SHELL (conf E)
      then open_stream E destination rid ''shell:'' Shell_service st else (- ENOENT, st)) = (r1, st1)" by fastforce
  have k1: "keeps E svc_ok st st1"
    using shell ok rid by (intro step [of st Shell_service]) (auto simp: service_enabled_def)
  obtain r2 st2 where sync: "(if WEBOS_ADB_SYNC (conf E)
      then open_stream E destination rid ''sync:'' Sync_service st1 else (- ENOENT, st1)) = (r2, st2)" by fastforce
  have k2: "keeps E svc_ok st1 st2"
    using sync keeps_dispatch_ok [OF k1 ok] rid k1
    by (intro step [of st1 Sync_service]) (auto simp: service_enabled_def keeps_def)
  obtain r3 st3 where close: "send_close E 0 rid st2 = (r3, st3)" by fastforce
  have k3: "keeps E svc_ok st2 st3" using close unfolding send_close_def by (rule keeps_send_control)
  have "route_open E destination rid st =
      (if r1 \<noteq> - ENOENT then (r1, st1) else if r2 \<noteq> - ENOENT then (r2, st2) else (r3, st3))"
    unfolding route_open_def using False by (simp only: if_False shell Let_def split_conv sync close)
  then show ?thesis using route k1 k2 k3 by (auto split: if_splits intro: keeps_trans)
qed

lemma keeps_reboot: "webos_adb_reboot_request E target len st = (ret, st') \<Longrightarrow> keeps E svc_ok st st'"
  by (auto simp: webos_adb_reboot_request_def Let_def keeps_def split: if_splits)

lemma keeps_handle_open:
  assumes ok: "dispatch_ok E svc_ok st" and "open": "handle_open E st = (ret, st')"
  shows "keeps E svc_ok st st'"
proof -
  define m where "m = message (rx st)"
  obtain lid st1 where id: "allocate_local_id st = (lid, st1)" by fastforce
  have k1: "keeps E svc_ok st st1" using keeps_allocate_local_id [OF id] by blast
  obtain r2 st2 where ready: "send_ready E lid (m_arg0 m) st1 = (r2, st2)" by fastforce
  have k2: "keeps E svc_ok st st2"
    using keeps_trans [OF k1 keeps_send_control] ready by (auto simp: send_ready_def)
  obtain r3 st3 where reboot: "webos_adb_reboot_request E None 0 st2 = (r3, st3)" by fastforce
  have k3: "keeps E svc_ok st st3" using keeps_trans [OF k2 keeps_reboot [OF reboot]] .
  have k4: "keeps E svc_ok st st'" if "send_close E 0 (m_arg0 m) st = (ret, st')"
    using that keeps_send_control unfolding send_close_def by blast
  have k5: "keeps E svc_ok st st'" if "m_arg0 m \<noteq> 0" "online st" "route_open E d (m_arg0 m) st = (ret, st')" for d
    using keeps_route_open [OF ok that] .
  show ?thesis
    using "open" k1 k2 k3 k4 k5 unfolding handle_open_def Let_def m_def [symmetric] id split_conv ready reboot
    by (auto split: option.splits if_splits)
qed

lemma stream_service:
  "core_ok E st \<Longrightarrow> i < length (streams st) \<Longrightarrow> used (streams st ! i) \<Longrightarrow>
    \<exists>v. ops (streams st ! i) = Some v \<and> service_enabled (conf E) v"
  using core_stream [of E st i] by (simp add: stream_ok_def)

lemma keeps_fail_stream:
  "i < length (streams st) \<Longrightarrow> used (streams st ! i) \<Longrightarrow> keeps E svc_ok st
    (update_stream i (\<lambda>s. s\<lparr>close_pending := True, tx_pending := False, awaiting_ack := False\<rparr>) st)"
  by (intro keeps_update_stream) (auto simp: stream_ok_def)

lemma service_frame_used:
  "service_frame E i st st' \<Longrightarrow> i < length (streams st) \<Longrightarrow> used (streams st' ! i) = used (streams st ! i)"
  by (auto simp: service_frame_def slot_evolves_def)

lemma keeps_handle_write:
  assumes ok: "dispatch_ok E svc_ok st" and handle: "handle_write E st = (ret, st')"
  shows "keeps E svc_ok st st'"
proof (cases "find_stream (m_arg1 (message (rx st))) (m_arg0 (message (rx st))) st")
  case None
  with handle have "send_close E 0 (m_arg0 (message (rx st))) st = (ret, st')" by (simp add: handle_write_def)
  then show ?thesis unfolding send_close_def by (rule keeps_send_control)
next
  case (Some i)
  note i = find_stream_Some [OF Some]
  obtain v where v: "ops (streams st ! i) = Some v" "service_enabled (conf E) v"
    using stream_service [of st i] ok i by (auto simp: dispatch_ok_def)
  obtain r1 st1 where "write": "service_write E v i (payload (rx st)) (unat (m_data_length (message (rx st)))) st = (r1, st1)"
    by fastforce
  have frame: "service_frame E i st st1 \<and> svc_ok (svc st1)" using write_frame [OF ok _ _ v(2) "write"] i by blast
  have k1: "keeps E svc_ok st st1" using frame i by (intro keeps_service_frame) auto
  have i1: "i < length (streams st1)" "used (streams st1 ! i)"
    using frame i k1 service_frame_used [of i st st1] by (simp_all add: keeps_length)
  have "keeps E svc_ok st1 st'"
  proof (cases "r1 = 0")
    case False
    define st2 where "st2 = update_stream i
      (\<lambda>s. s\<lparr>close_pending := True, tx_pending := False, awaiting_ack := False\<rparr>) st1"
    have k2: "keeps E svc_ok st1 st2" unfolding st2_def by (rule keeps_fail_stream [OF i1])
    have "flush_stream E i st2 = (ret, st')" using handle Some v "write" False by (simp add: handle_write_def st2_def)
    with i1 k2 have "keeps E svc_ok st2 st'" by (intro keeps_flush_stream [of i]) (simp_all add: keeps_length)
    with k2 show ?thesis by (rule keeps_trans)
  next
    case True
    obtain r2 st2 where ready: "send_ready E (local_id (streams st1 ! i)) (remote_id (streams st1 ! i)) st1 = (r2, st2)"
      by fastforce
    have k2: "keeps E svc_ok st1 st2" using ready unfolding send_ready_def by (rule keeps_send_control)
    have res: "(if r2 = 0 then flush_stream E i st2 else (r2, st2)) = (ret, st')"
      using handle Some v "write" True ready by (simp add: handle_write_def)
    have "keeps E svc_ok st2 st'"
    proof (cases "r2 = 0")
      case True
      with res i1 k2 show ?thesis by (intro keeps_flush_stream [of i]) (simp_all add: keeps_length)
    qed (use res in simp)
    with k2 show ?thesis by (rule keeps_trans)
  qed
  with k1 show ?thesis by (rule keeps_trans)
qed

lemma keeps_handle_ready:
  assumes ok: "dispatch_ok E svc_ok st" and handle: "handle_ready E st = (ret, st')"
  shows "keeps E svc_ok st st'"
proof (cases "find_stream (m_arg1 (message (rx st))) (m_arg0 (message (rx st))) st")
  case (Some i)
  note i = find_stream_Some [OF Some]
  obtain v where v: "ops (streams st ! i) = Some v" "service_enabled (conf E) v"
    using stream_service [of st i] ok i by (auto simp: dispatch_ok_def)
  define st1 where "st1 = update_stream i (\<lambda>s. s\<lparr>awaiting_ack := False\<rparr>) st"
  define st2 where "st2 = service_tx_ready E v i st1"
  have k1: "keeps E svc_ok st st1" unfolding st1_def
    using i by (intro keeps_update_stream) (auto simp: stream_ok_def)
  have i1: "i < length (streams st1)" "used (streams st1 ! i)" "ops (streams st1 ! i) = Some v"
    using i v by (simp_all add: st1_def update_stream_def)
  have k2: "keeps E svc_ok st1 st2" unfolding st2_def
    using tx_ready_frame [OF keeps_dispatch_ok [OF k1 ok] i1(1,2) v(2)] i1
    by (intro keeps_service_frame) auto
  have i2: "i < length (streams st2)" using i1 k2 by (simp add: keeps_length)
  have "(ret, st') = (0, st) \<or> (ret, st') = (0, st2) \<or> flush_stream E i st2 = (ret, st')"
    using handle Some i1(3) by (auto simp: handle_ready_def Let_def st1_def [symmetric] st2_def [symmetric] split: if_splits)
  then show ?thesis using k1 k2 keeps_flush_stream [OF i2] by (auto intro: keeps_trans)
qed (use handle in \<open>simp add: handle_ready_def\<close>)

lemma keeps_handle_close:
  assumes handle: "handle_close E st = (ret, st')"
  shows "keeps E svc_ok st st'"
proof (cases "find_stream (m_arg1 (message (rx st))) (m_arg0 (message (rx st))) st")
  case (Some i)
  note i = find_stream_Some [OF Some]
  obtain r1 st1 where close: "send_close E (local_id (streams st ! i)) (remote_id (streams st ! i)) st = (r1, st1)"
    by fastforce
  have k1: "keeps E svc_ok st st1" using close unfolding send_close_def by (rule keeps_send_control)
  have "keeps E svc_ok st1 (release_stream E i st1)" using i k1 by (intro keeps_release_stream) (simp add: keeps_length)
  moreover have "st' = release_stream E i st1" using handle Some close by (simp add: handle_close_def)
  ultimately show ?thesis using k1 by (blast intro: keeps_trans)
qed (use handle in \<open>simp add: handle_close_def\<close>)

end

text \<open>A fresh table and an empty queue satisfy the invariant.\<close>

lemma core_ok_fresh:
  assumes "core_ok E st" "control_queue st' = control_queue st" "control_head st' = 0"
    "control_tail st' = 0" "control_count st' = 0" "next_local_id st' = 1"
    "next_stream_generation st' = next_stream_generation st"
    "negotiated_payload st' \<le> WEBOS_ADB_MAX_PAYLOAD (conf E)"
    "streams st' = replicate (WEBOS_ADB_MAX_STREAMS (conf E)) (stream_zero (conf E))"
  shows "core_ok E st'"
  using assms by (simp add: core_ok_def control_ok_def list_all_length)

lemma release_stream_online: "release_stream E i (st\<lparr>online := b\<rparr>) = (release_stream E i st)\<lparr>online := b\<rparr>"
  by (simp add: release_stream_def Let_def update_stream_def split: option.splits)

lemma close_all_streams_online:
  "close_all_streams E (st\<lparr>online := b\<rparr>) = (close_all_streams E st)\<lparr>online := b\<rparr>"
proof -
  have "fold (release_stream E) js (st\<lparr>online := b\<rparr>) = (fold (release_stream E) js st)\<lparr>online := b\<rparr>" for js
    by (induction js arbitrary: st) (simp_all add: release_stream_online)
  then show ?thesis by (simp add: close_all_streams_def)
qed

lemma core_ok_online: "core_ok E st \<Longrightarrow> core_ok E (st\<lparr>online := True\<rparr>)"
  by (simp add: core_ok_def control_ok_def webos_adb_stream_max_payload_def)

context routed_services
begin

text \<open>What a dispatch leaves behind.\<close>

lemma connect_reset_ok:
  assumes ok: "dispatch_ok E svc_ok st"
  shows "dispatch_ok E svc_ok (connect_reset E st) \<and> rx (connect_reset E st) = rx st \<and> moved E st (connect_reset E st)"
proof -
  obtain s where close: "close_all_streams E st =
      st\<lparr>svc := s, streams := replicate (WEBOS_ADB_MAX_STREAMS (conf E)) (stream_zero (conf E))\<rparr>"
    using close_all_streams_eq ok unfolding dispatch_ok_def by blast
  have fields: "control_queue (connect_reset E st) = control_queue st" "svc (connect_reset E st) = s"
    "dispatching (connect_reset E st) = dispatching st"
    "rx (connect_reset E st) = rx st" "moved E st (connect_reset E st)"
    by (simp_all add: connect_reset_def Let_def close_all_streams_online close moved_def link_run.stay link_run.cleared)
  have "core_ok E (connect_reset E st)"
    by (rule core_ok_fresh [of E st])
      (use ok in \<open>simp_all add: dispatch_ok_def connect_reset_def Let_def close_all_streams_online close\<close>)
  moreover have "svc_ok s" using close_all_streams_svc [of st] ok by (simp add: dispatch_ok_def close)
  ultimately show ?thesis using ok fields by (simp add: dispatch_ok_def)
qed

lemma handle_connect_ok:
  assumes ok: "dispatch_ok E svc_ok st" and handle: "handle_connect E st = (ret, st')"
  shows "dispatch_ok E svc_ok st' \<and> rx st' = rx st \<and> moved E st st'"
proof (cases "WEBOS_ADB_ALLOW_NO_AUTH (conf E)")
  case False
  with handle ok show ?thesis by (simp add: handle_connect_def)
next
  case True
  note st2 = connect_reset_ok [OF ok]
  obtain r st3 where send: "send_connect E (connect_reset E st) = (r, st3)" by fastforce
  have k3: "keeps E svc_ok (connect_reset E st) st3"
    using send unfolding send_connect_def by (rule keeps_send_control)
  then have st3: "dispatch_ok E svc_ok st3" "rx st3 = rx st" "moved E st st3"
    using st2 keeps_dispatch_ok [OF k3] k3 moved_trans [of E st "connect_reset E st" st3] by (simp_all add: keeps_def)
  have "(ret, st') = (r, if r = 0 then st3\<lparr>online := True\<rparr> else st3)"
    using True send handle by (auto simp: handle_connect_def)
  then show ?thesis using st3 core_ok_online [of E st3] by (simp add: dispatch_ok_def)
qed

lemma dispatch_message_ok:
  assumes ok: "dispatch_ok E svc_ok st" and dispatch: "dispatch_message E st = (ret, st')"
  shows "dispatch_ok E svc_ok st' \<and> rx st' = rx st \<and> moved E st st'"
proof -
  have handlers: "dispatch_ok E svc_ok st' \<and> rx st' = rx st \<and> moved E st st'"
    if "keeps E svc_ok st st'"
    using keeps_dispatch_ok [OF that ok] that by (simp add: keeps_def)
  have "st' = st \<or> handle_connect E st = (ret, st') \<or> handle_open E st = (ret, st') \<or>
      handle_write E st = (ret, st') \<or> handle_ready E st = (ret, st') \<or> handle_close E st = (ret, st')"
    using dispatch by (simp add: dispatch_message_def Let_def split: if_splits)
  then show ?thesis
  proof (elim disjE)
    assume "handle_connect E st = (ret, st')"
    then show ?thesis by (rule handle_connect_ok [OF ok])
  next
    assume "handle_open E st = (ret, st')"
    then show ?thesis by (rule handlers [OF keeps_handle_open [OF ok]])
  next
    assume "handle_write E st = (ret, st')"
    then show ?thesis by (rule handlers [OF keeps_handle_write [OF ok]])
  next
    assume "handle_ready E st = (ret, st')"
    then show ?thesis by (rule handlers [OF keeps_handle_ready [OF ok]])
  next
    assume "handle_close E st = (ret, st')"
    then show ?thesis by (rule handlers [OF keeps_handle_close])
  qed (use ok in simp)
qed

end

end
