(* ===== verification/C_Strings.thy ===== *)
theory C_Strings
  imports Webos_Prelude
begin

text \<open>
  The C library functions on strings that the components share: splitting at a character,
  \<open>strtoul\<close> with base 0, and the hexadecimal conversion of \<open>snprintk\<close>.
\<close>

text \<open>The string that an array holds.\<close>

definition c_string :: "byte list \<Rightarrow> string" where
  "c_string bytes = takeWhile (\<lambda>b. b \<noteq> NUL) bytes"

definition tolower :: "byte \<Rightarrow> byte" where
  "tolower c = (if 65 \<le> byte_val c \<and> byte_val c \<le> 90 then char_of (byte_val c + 32) else c)"

section \<open>Splitting\<close>

text \<open>
  \<open>strrchr(s, c)\<close> as the part before the last c and the part after it, and \<open>strchr\<close> likewise for
  the first c.
\<close>

fun split_last :: "byte \<Rightarrow> string \<Rightarrow> (string \<times> string) option" where
  "split_last c [] = None"
| "split_last c (x # xs) =
     (case split_last c xs of
        Some (before, after) \<Rightarrow> Some (x # before, after)
      | None \<Rightarrow> if x = c then Some ([], xs) else None)"

fun split_first :: "byte \<Rightarrow> string \<Rightarrow> (string \<times> string) option" where
  "split_first c [] = None"
| "split_first c (x # xs) =
     (if x = c then Some ([], xs)
      else map_option (\<lambda>(before, after). (x # before, after)) (split_first c xs))"

lemma split_last_None: "split_last c s = None \<longleftrightarrow> c \<notin> set s"
  by (induction s) (auto split: option.splits)

lemma split_last_append: "c \<notin> set after \<Longrightarrow> split_last c (before @ c # after) = Some (before, after)"
  using split_last_None [of c after] by (induction before) auto

lemma split_last_Some: "split_last c s = Some (before, after) \<Longrightarrow> s = before @ c # after \<and> c \<notin> set after"
proof (induction s arbitrary: before)
  case (Cons x xs)
  then show ?case
    using split_last_None [of c xs] by (cases "split_last c xs") (auto split: if_splits)
qed simp

lemma split_first_append: "c \<notin> set before \<Longrightarrow> split_first c (before @ c # after) = Some (before, after)"
  by (induction before) auto

lemma split_first_Some: "split_first c s = Some (before, after) \<Longrightarrow> s = before @ c # after \<and> c \<notin> set before"
  by (induction s arbitrary: before) (auto split: if_splits)

lemma split_first_None: "split_first c s = None \<longleftrightarrow> c \<notin> set s"
  by (induction s) auto

text \<open>The components of a path: the maximal runs between slashes.\<close>

fun components :: "string \<Rightarrow> string list" where
  "components [] = [[]]"
| "components (c # cs) =
     (if c = CHR ''/'' then [] # components cs
      else case components cs of [] \<Rightarrow> [[c]] | x # xs \<Rightarrow> (c # x) # xs)"

lemma components_not_Nil [simp]: "components s \<noteq> []"
  by (cases s) (auto split: list.splits)

lemma hd_components: "hd (components s) = takeWhile (\<lambda>c. c \<noteq> CHR ''/'') s"
proof (induction s)
  case (Cons c s)
  then show ?case by (cases "components s") auto
qed simp

lemma components_slash: "components (xs @ CHR ''/'' # ys) = components xs @ components ys"
proof (induction xs)
  case (Cons x xs)
  then show ?case by (cases "components xs") auto
qed simp

lemma components_plain: "CHR ''/'' \<notin> set s \<Longrightarrow> components s = [s]"
  by (induction s) auto

section \<open>Comparison and search\<close>

lemma strncmp_prefix: "no_nul p \<Longrightarrow> no_nul g \<Longrightarrow> strncmp p g (length g) = 0 \<longleftrightarrow> prefix g p"
proof (induction p g "length g" rule: strncmp.induct)
  case (4 x xs n)
  then show ?case by simp
next
  case (5 x xs y ys n)
  then show ?case by (auto simp: no_nul_def)
qed (auto simp: no_nul_def)

lemma single_component:
  assumes "takeWhile (\<lambda>c. c \<noteq> CHR ''/'') p = ''.''"
  shows "c_at p 0 = CHR ''.'' \<and> (c_at p 1 = NUL \<or> c_at p 1 = CHR ''/'')"
  using assms by (cases p; cases "tl p") (auto simp: c_at_def split: if_splits)

lemma strstr_split: "strstr s needle = Some r \<Longrightarrow> \<exists>before. s = before @ r \<and> prefix needle r"
proof (induction s)
  case (Cons x xs)
  show ?case
  proof (cases "prefix needle (x # xs)")
    case True
    then show ?thesis using Cons.prems by (intro exI [of _ "[]"]) simp
  next
    case False
    then obtain b where "xs = b @ r" "prefix needle r" using Cons by auto
    then show ?thesis by (intro exI [of _ "x # b"]) simp
  qed
qed (simp split: if_splits)

lemma strstr_append: "strstr s needle = Some r \<Longrightarrow> needle \<noteq> [] \<Longrightarrow> strstr (s @ t) needle = Some (r @ t)"
proof (induction s)
  case (Cons x xs)
  show ?case
  proof (cases "prefix needle (x # xs)")
    case True
    then have "prefix needle ((x # xs) @ t)" by (rule prefix_prefix)
    moreover have "r = x # xs" using True Cons.prems(1) by simp
    ultimately show ?thesis by simp
  next
    case False
    then have tail: "strstr (xs @ t) needle = Some (r @ t)" using Cons by simp
    have "\<not> prefix needle ((x # xs) @ t)"
    proof
      assume p: "prefix needle ((x # xs) @ t)"
      have "strstr xs needle = Some r" using Cons.prems False by simp
      from strstr_split [OF this] obtain b where "xs = b @ r" "prefix needle r" by blast
      then have "length needle \<le> length (x # xs)" by (auto dest: prefix_length_le)
      then have "prefix needle (x # xs)" by (rule prefix_length_prefix [OF p prefixI [OF refl]])
      with False show False by simp
    qed
    then show ?thesis using tail by simp
  qed
qed (simp split: if_splits)

section \<open>\<open>strtoul\<close>\<close>

definition isspace :: "byte \<Rightarrow> bool" where
  "isspace c \<longleftrightarrow> c = CHR '' '' \<or> 9 \<le> byte_val c \<and> byte_val c \<le> 13"

text \<open>The value of a digit or letter, and the digits of a base read from the front of a string.\<close>

definition digit_value :: "byte \<Rightarrow> nat option" where
  "digit_value c =
     (let n = byte_val c in
      if 48 \<le> n \<and> n \<le> 57 then Some (n - 48)
      else if 97 \<le> n \<and> n \<le> 122 then Some (n - 87)
      else if 65 \<le> n \<and> n \<le> 90 then Some (n - 55)
      else None)"

fun read_digits :: "nat \<Rightarrow> nat \<Rightarrow> string \<Rightarrow> nat \<times> string" where
  "read_digits base acc [] = (acc, [])"
| "read_digits base acc (c # cs) =
     (case digit_value c of
        Some d \<Rightarrow> if d < base then read_digits base (acc * base + d) cs else (acc, c # cs)
      | None \<Rightarrow> (acc, c # cs))"

definition strtoul_base :: "string \<Rightarrow> nat \<times> string" where
  "strtoul_base s =
     (if c_at s 0 = CHR ''0'' \<and> (c_at s 1 = CHR ''x'' \<or> c_at s 1 = CHR ''X'') then (16, drop 2 s)
      else if c_at s 0 = CHR ''0'' then (8, s)
      else (10, s))"

text \<open>
  \<open>strtoul(s, &end, base)\<close> for a 32-bit \<open>unsigned long\<close>: the value, the unread rest and whether
  errno was set.  Nothing is read when there is no digit.  \<open>base_of\<close> gives the base and skips its
  prefix; \<open>strtoul\<close> is the call with base 0 and \<open>strtoul10\<close> the one with base 10.
\<close>

definition strtoul_from :: "(string \<Rightarrow> nat \<times> string) \<Rightarrow> string \<Rightarrow> u32 \<times> string \<times> bool" where
  "strtoul_from base_of s =
     (let s1 = dropWhile isspace s;
          neg = c_at s1 0 = CHR ''-'';
          s2 = (if neg \<or> c_at s1 0 = CHR ''+'' then drop 1 s1 else s1);
          (base, s3) = base_of s2;
          (n, rest) = read_digits base 0 s3
      in if rest = s3 then (0, s, False)
         else if 2 ^ 32 \<le> n then (0xffffffff, rest, True)
         else (if neg then - word_of_nat n else word_of_nat n, rest, False))"

definition strtoul :: "string \<Rightarrow> u32 \<times> string \<times> bool" where
  "strtoul s = strtoul_from strtoul_base s"

definition strtoul10 :: "string \<Rightarrow> u32 \<times> string \<times> bool" where
  "strtoul10 s = strtoul_from (Pair 10) s"

section \<open>Conversions of \<open>snprintk\<close>\<close>

definition hex_digit :: "nat \<Rightarrow> byte" where
  "hex_digit n = (if n < 10 then char_of (48 + n) else char_of (87 + n))"

text \<open>\<open>%08x\<close>\<close>

definition hex8 :: "u32 \<Rightarrow> string" where
  "hex8 w = map (\<lambda>k. hex_digit (unat w div 16 ^ k mod 16)) [7, 6, 5, 4, 3, 2, 1, 0]"

text \<open>
  \<open>snprintk(dst, cap, ...)\<close> of a string: the text that ends up in the buffer, whose NUL takes one
  byte, and the length the whole text would have.
\<close>

definition snprintk :: "nat \<Rightarrow> string \<Rightarrow> string \<times> int" where
  "snprintk cap text_out = (take (cap - 1) text_out, int (length text_out))"

text \<open>\<open>%u\<close> and \<open>%d\<close>.\<close>

fun dec_digits :: "nat \<Rightarrow> string" where
  "dec_digits n = (if n < 10 then [char_of (48 + n)] else dec_digits (n div 10) @ [char_of (48 + n mod 10)])"

declare dec_digits.simps [simp del]

definition dec_int :: "int \<Rightarrow> string" where
  "dec_int i = (if i < 0 then CHR ''-'' # dec_digits (nat (- i)) else dec_digits (nat i))"

section \<open>Tokens and decimal numbers\<close>

text \<open>
  One call of \<open>strtok_r\<close> on what is left of the string: the token, and what is left after the
  delimiter that ended it.
\<close>

definition strtok :: "string \<Rightarrow> string \<Rightarrow> (string \<times> string) option" where
  "strtok delims s =
     (let s1 = dropWhile (\<lambda>c. c \<in> set delims) s in
      if s1 = [] then None
      else Some (takeWhile (\<lambda>c. c \<notin> set delims) s1, drop 1 (dropWhile (\<lambda>c. c \<notin> set delims) s1)))"

text \<open>\<open>strtol(s, NULL, 10)\<close> for a 32-bit \<open>long\<close>, which saturates; 0 when there is no digit.\<close>

definition strtol10 :: "string \<Rightarrow> int" where
  "strtol10 s =
     (let s1 = dropWhile isspace s;
          neg = c_at s1 0 = CHR ''-'';
          s2 = (if neg \<or> c_at s1 0 = CHR ''+'' then drop 1 s1 else s1);
          n = int (fst (read_digits 10 0 s2))
      in if neg then max (- (2 ^ 31)) (- n) else min (2 ^ 31 - 1) n)"

lemma dec_digits_not_Nil [simp]: "dec_digits n \<noteq> []"
  by (subst dec_digits.simps) simp

lemma digit_char: "d < 10 \<Longrightarrow> byte_val (char_of (48 + d)) = 48 + d \<and> digit_value (char_of (48 + d)) = Some d"
  by (auto simp: digit_value_def)

lemma dec_digits_set: "c \<in> set (dec_digits n) \<Longrightarrow> \<exists>d<10. c = char_of (48 + d :: nat)"
proof (induction n rule: dec_digits.induct)
  case (1 n)
  show ?case
  proof (cases "n < 10")
    case False
    then have "c \<in> set (dec_digits (n div 10)) \<or> c = char_of (48 + n mod 10)" using 1(2) by (subst (asm) dec_digits.simps) auto
    then show ?thesis using 1(1) False by (metis mod_less_divisor zero_less_numeral)
  qed (use 1(2) in \<open>auto simp: dec_digits.simps [of n]\<close>)
qed

lemma read_dec_digits: "read_digits 10 acc (dec_digits n @ s) = read_digits 10 (acc * 10 ^ length (dec_digits n) + n) s"
proof (induction n arbitrary: acc s rule: dec_digits.induct)
  case (1 n)
  show ?case
  proof (cases "n < 10")
    case True
    then show ?thesis using digit_char [of n] by (simp add: dec_digits.simps [of n])
  next
    case False
    then have d: "dec_digits n = dec_digits (n div 10) @ [char_of (48 + n mod 10)]" by (simp add: dec_digits.simps [of n])
    have "read_digits 10 acc (dec_digits n @ s) =
        read_digits 10 (acc * 10 ^ length (dec_digits (n div 10)) + n div 10) (char_of (48 + n mod 10) # s)"
      using 1 [OF False] by (simp add: d)
    also have "\<dots> = read_digits 10 ((acc * 10 ^ length (dec_digits (n div 10)) + n div 10) * 10 + n mod 10) s"
      using digit_char [of "n mod 10"] by simp
    also have "(acc * 10 ^ length (dec_digits (n div 10)) + n div 10) * 10 + n mod 10 = acc * 10 ^ length (dec_digits n) + n"
      using div_mult_mod_eq [of n 10] by (simp add: d algebra_simps)
    finally show ?thesis .
  qed
qed

lemma dec_digits_inj: "dec_digits m = dec_digits n \<Longrightarrow> m = n"
  using read_dec_digits [of 0 m "[]"] read_dec_digits [of 0 n "[]"] by simp

lemma length_hex8 [simp]: "length (hex8 w) = 8"
  by (simp add: hex8_def)

end
