(* ===== verification/Zephyr_Fs.thy ===== *)
theory Zephyr_Fs
  imports Webos_Prelude
begin

text \<open>
  The interface of Zephyr's file system (zephyr/fs/fs.h), which the sources call and do not define:
  the calls are fields of a record over an abstract state of the file system, and a file object is
  a number.  \<open>fs_lawful\<close> states the documented behaviour the sources rely on, in terms of the
  contents of the regular files; \<open>memfs\<close> is a file system in memory that has it.
\<close>

section \<open>Interface\<close>

datatype fs_dir_entry_type = FS_DIR_ENTRY_FILE | FS_DIR_ENTRY_DIR

record fs_dirent =
  entry_type :: fs_dir_entry_type
  entry_size :: nat

definition FS_O_READ :: nat where "FS_O_READ = 1"
definition FS_O_WRITE :: nat where "FS_O_WRITE = 2"
definition FS_O_CREATE :: nat where "FS_O_CREATE = 16"
definition FS_O_TRUNC :: nat where "FS_O_TRUNC = 64"

record 'f zephyr_fs =
  fs_stat :: "string \<Rightarrow> 'f \<Rightarrow> int \<times> fs_dirent"
  fs_open :: "string \<Rightarrow> nat \<Rightarrow> 'f \<Rightarrow> int \<times> nat \<times> 'f"
  fs_write :: "nat \<Rightarrow> byte list \<Rightarrow> 'f \<Rightarrow> int \<times> 'f"
  fs_close :: "nat \<Rightarrow> 'f \<Rightarrow> int \<times> 'f"
  fs_unlink :: "string \<Rightarrow> 'f \<Rightarrow> int \<times> 'f"
  fs_rename :: "string \<Rightarrow> string \<Rightarrow> 'f \<Rightarrow> int \<times> 'f"

section \<open>Documented behaviour\<close>

text \<open>
  \<open>files f p\<close> is the content of the regular file p, if there is one, and \<open>opened f h\<close> the path of the
  file that h has open.  A file opened with CREATE, WRITE and TRUNC starts empty; writes append to
  what the object wrote so far and may be short; calls that fail change no file, except that a
  failed write may have changed the file it was writing.
\<close>

type_synonym 'f file_view = "'f \<Rightarrow> string \<Rightarrow> byte list option"
type_synonym 'f open_view = "'f \<Rightarrow> nat \<Rightarrow> string option"

definition fs_stat_law :: "'f zephyr_fs \<Rightarrow> 'f file_view \<Rightarrow> bool" where
  "fs_stat_law F files \<longleftrightarrow>
     (\<forall>p f. files f p \<noteq> None \<longrightarrow>
        fst (fs_stat F p f) = 0 \<and> entry_type (snd (fs_stat F p f)) = FS_DIR_ENTRY_FILE)"

definition fs_open_law :: "'f zephyr_fs \<Rightarrow> 'f file_view \<Rightarrow> 'f open_view \<Rightarrow> bool" where
  "fs_open_law F files opened \<longleftrightarrow>
     (\<forall>p f ret h f'. fs_open F p (FS_O_CREATE + FS_O_WRITE + FS_O_TRUNC) f = (ret, h, f') \<longrightarrow>
        (if ret = 0 then files f' = (files f)(p \<mapsto> []) \<and> opened f' = (opened f)(h \<mapsto> p)
         else files f' = files f \<and> opened f' = opened f))"

definition fs_write_law :: "'f zephyr_fs \<Rightarrow> 'f file_view \<Rightarrow> 'f open_view \<Rightarrow> bool" where
  "fs_write_law F files opened \<longleftrightarrow>
     (\<forall>h p d bs f ret f'. opened f h = Some p \<longrightarrow> files f p = Some d \<longrightarrow> fs_write F h bs f = (ret, f') \<longrightarrow>
        opened f' = opened f \<and> (\<forall>q. q \<noteq> p \<longrightarrow> files f' q = files f q) \<and>
        (0 \<le> ret \<longrightarrow> ret \<le> int (length bs) \<and> files f' p = Some (d @ take (nat ret) bs)))"

definition fs_close_law :: "'f zephyr_fs \<Rightarrow> 'f file_view \<Rightarrow> 'f open_view \<Rightarrow> bool" where
  "fs_close_law F files opened \<longleftrightarrow>
     (\<forall>h f ret f'. fs_close F h f = (ret, f') \<longrightarrow> files f' = files f \<and> opened f' = (opened f)(h := None))"

definition fs_unlink_law :: "'f zephyr_fs \<Rightarrow> 'f file_view \<Rightarrow> 'f open_view \<Rightarrow> bool" where
  "fs_unlink_law F files opened \<longleftrightarrow>
     (\<forall>p f ret f'. fs_unlink F p f = (ret, f') \<longrightarrow>
        opened f' = opened f \<and> files f' = (if ret = 0 then (files f)(p := None) else files f))"

definition fs_rename_law :: "'f zephyr_fs \<Rightarrow> 'f file_view \<Rightarrow> 'f open_view \<Rightarrow> bool" where
  "fs_rename_law F files opened \<longleftrightarrow>
     (\<forall>p q f ret f'. p \<noteq> q \<longrightarrow> fs_rename F p q f = (ret, f') \<longrightarrow>
        opened f' = opened f \<and>
        files f' = (if ret = 0 then (files f)(q := files f p, p := None) else files f))"

definition fs_lawful :: "'f zephyr_fs \<Rightarrow> 'f file_view \<Rightarrow> 'f open_view \<Rightarrow> bool" where
  "fs_lawful F files opened \<longleftrightarrow>
     fs_stat_law F files \<and> fs_open_law F files opened \<and> fs_write_law F files opened \<and>
     fs_close_law F files opened \<and> fs_unlink_law F files opened \<and> fs_rename_law F files opened"

lemma fs_lawful_stat:
  "fs_lawful F files opened \<Longrightarrow> fst (fs_stat F p f) \<noteq> 0 \<Longrightarrow> files f p = None"
  unfolding fs_lawful_def fs_stat_law_def by metis

lemma fs_lawful_close:
  "fs_lawful F files opened \<Longrightarrow> fs_close F h f = (ret, f') \<Longrightarrow>
    files f' = files f \<and> opened f' = (opened f)(h := None)"
  by (simp add: fs_lawful_def fs_close_law_def)

lemma fs_lawful_unlink:
  "fs_lawful F files opened \<Longrightarrow> fs_unlink F p f = (ret, f') \<Longrightarrow>
    opened f' = opened f \<and> files f' = (if ret = 0 then (files f)(p := None) else files f)"
  by (simp add: fs_lawful_def fs_unlink_law_def)

lemma fs_lawful_rename:
  "fs_lawful F files opened \<Longrightarrow> p \<noteq> q \<Longrightarrow> fs_rename F p q f = (ret, f') \<Longrightarrow>
    opened f' = opened f \<and> files f' = (if ret = 0 then (files f)(q := files f p, p := None) else files f)"
  by (simp add: fs_lawful_def fs_rename_law_def)

lemma fs_lawful_open:
  "fs_lawful F files opened \<Longrightarrow> fs_open F p (FS_O_CREATE + FS_O_WRITE + FS_O_TRUNC) f = (ret, h, f') \<Longrightarrow>
    if ret = 0 then files f' = (files f)(p \<mapsto> []) \<and> opened f' = (opened f)(h \<mapsto> p)
    else files f' = files f \<and> opened f' = opened f"
  unfolding fs_lawful_def fs_open_law_def by blast

lemma fs_lawful_write:
  "fs_lawful F files opened \<Longrightarrow> opened f h = Some p \<Longrightarrow> files f p = Some d \<Longrightarrow> fs_write F h bs f = (ret, f') \<Longrightarrow>
    opened f' = opened f \<and> (\<forall>q. q \<noteq> p \<longrightarrow> files f' q = files f q) \<and>
    (0 \<le> ret \<longrightarrow> ret \<le> int (length bs) \<and> files f' p = Some (d @ take (nat ret) bs))"
  unfolding fs_lawful_def fs_write_law_def by blast

section \<open>A file system in memory\<close>

text \<open>The files, the open objects and the next free object number; nothing ever fails but a missing file.\<close>

type_synonym memfs = "(string \<rightharpoonup> byte list) \<times> (nat \<rightharpoonup> string) \<times> nat"

definition memfs :: "memfs zephyr_fs" where
  "memfs =
     \<lparr>fs_stat = (\<lambda>p (m, ob, n). case m p of
          None \<Rightarrow> (- ENOENT, \<lparr>entry_type = FS_DIR_ENTRY_FILE, entry_size = 0\<rparr>)
        | Some d \<Rightarrow> (0, \<lparr>entry_type = FS_DIR_ENTRY_FILE, entry_size = length d\<rparr>)),
      fs_open = (\<lambda>p flags (m, ob, n). (0, n, m(p \<mapsto> []), ob(n \<mapsto> p), Suc n)),
      fs_write = (\<lambda>h bs (m, ob, n). case ob h of
          None \<Rightarrow> (- EINVAL, m, ob, n)
        | Some p \<Rightarrow> (case m p of
            None \<Rightarrow> (- ENOENT, m, ob, n)
          | Some d \<Rightarrow> (int (length bs), m(p \<mapsto> d @ bs), ob, n))),
      fs_close = (\<lambda>h (m, ob, n). (0, m, ob(h := None), n)),
      fs_unlink = (\<lambda>p (m, ob, n). if m p = None then (- ENOENT, m, ob, n) else (0, m(p := None), ob, n)),
      fs_rename = (\<lambda>p q (m, ob, n).
        if m p = None then (- ENOENT, m, ob, n) else (0, m(q := m p, p := None), ob, n))\<rparr>"

lemma memfs_simps:
  "fs_stat memfs p (m, ob, n) = (case m p of
      None \<Rightarrow> (- ENOENT, \<lparr>entry_type = FS_DIR_ENTRY_FILE, entry_size = 0\<rparr>)
    | Some d \<Rightarrow> (0, \<lparr>entry_type = FS_DIR_ENTRY_FILE, entry_size = length d\<rparr>))"
  "fs_open memfs p flags (m, ob, n) = (0, n, m(p \<mapsto> []), ob(n \<mapsto> p), Suc n)"
  "ob h = Some p \<Longrightarrow> m p = Some d \<Longrightarrow>
    fs_write memfs h bs (m, ob, n) = (int (length bs), m(p \<mapsto> d @ bs), ob, n)"
  "fs_close memfs h (m, ob, n) = (0, m, ob(h := None), n)"
  "fs_unlink memfs p (m, ob, n) =
    (if m p = None then (- ENOENT, m, ob, n) else (0, m(p := None), ob, n))"
  "fs_rename memfs p q (m, ob, n) =
    (if m p = None then (- ENOENT, m, ob, n) else (0, m(q := m p, p := None), ob, n))"
  by (simp_all add: memfs_def)

lemma memfs_lawful: "fs_lawful memfs fst (\<lambda>f. fst (snd f))"
proof -
  have "fs_stat_law memfs fst" by (auto simp: fs_stat_law_def memfs_simps)
  moreover have "fs_open_law memfs fst (\<lambda>f. fst (snd f))" by (auto simp: fs_open_law_def memfs_simps)
  moreover have "fs_write_law memfs fst (\<lambda>f. fst (snd f))" by (auto simp: fs_write_law_def memfs_simps)
  moreover have "fs_close_law memfs fst (\<lambda>f. fst (snd f))" by (auto simp: fs_close_law_def memfs_simps)
  moreover have "fs_unlink_law memfs fst (\<lambda>f. fst (snd f))"
    by (auto simp: fs_unlink_law_def memfs_simps errno_simps split: if_splits)
  moreover have "fs_rename_law memfs fst (\<lambda>f. fst (snd f))"
    by (auto simp: fs_rename_law_def memfs_simps errno_simps split: if_splits)
  ultimately show ?thesis by (simp add: fs_lawful_def)
qed

end
