(* ===== verification/Adb_Sync.thy ===== *)
theory Adb_Sync
  imports Adb_Callback Adb_Contract C_Strings Zephyr_Fs
begin

text \<open>
  The file push service, lib/adb/adb_sync.c: the state machine of one sync session per stream, the
  path policy, the staging of an upload under side names and the replacement of the destination.
  A context pointer is the index of its slot in \<open>contexts\<close>; the file system is a parameter.
\<close>

section \<open>Constants and state\<close>

definition SYNC_ID_STAT :: u32 where "SYNC_ID_STAT = 0x54415453"
definition SYNC_ID_SEND :: u32 where "SYNC_ID_SEND = 0x444e4553"
definition SYNC_ID_DATA :: u32 where "SYNC_ID_DATA = 0x41544144"
definition SYNC_ID_DONE :: u32 where "SYNC_ID_DONE = 0x454e4f44"
definition SYNC_ID_QUIT :: u32 where "SYNC_ID_QUIT = 0x54495551"
definition SYNC_ID_OKAY :: u32 where "SYNC_ID_OKAY = 0x59414b4f"
definition SYNC_ID_FAIL :: u32 where "SYNC_ID_FAIL = 0x4c494146"

lemmas sync_id_defs =
  SYNC_ID_STAT_def SYNC_ID_SEND_def SYNC_ID_DATA_def SYNC_ID_DONE_def SYNC_ID_QUIT_def
  SYNC_ID_OKAY_def SYNC_ID_FAIL_def

definition SYNC_ROOT :: string where "SYNC_ROOT = ''/STORAGE:/''"
definition SYNC_SIDE_SUFFIX_LEN :: nat where "SYNC_SIDE_SUFFIX_LEN = 20"
definition SYNC_FAIL_CAPACITY :: nat where "SYNC_FAIL_CAPACITY = 96"
definition SYNC_HEADER_SIZE :: nat where "SYNC_HEADER_SIZE = 8"

definition SYNC_SPEC_CAPACITY :: "kconfig \<Rightarrow> nat" where
  "SYNC_SPEC_CAPACITY c = WEBOS_ADB_SYNC_PATH_MAX c + 16"

definition SYNC_SIDE_CAPACITY :: "kconfig \<Rightarrow> nat" where
  "SYNC_SIDE_CAPACITY c = WEBOS_ADB_SYNC_PATH_MAX c + SYNC_SIDE_SUFFIX_LEN"

datatype sync_state =
    SYNC_REQUEST_HEADER | SYNC_REQUEST_SPEC | SYNC_STAT_PATH | SYNC_SEND_HEADER | SYNC_SEND_DATA
  | SYNC_DRAIN_HEADER | SYNC_DRAIN_DATA | SYNC_DISCARD_AND_CLOSE

record sync_context =
  x_stream :: "nat option"
  x_file :: nat
  x_state :: sync_state
  x_header :: "byte list"
  x_header_used :: nat
  x_remaining :: u32
  x_spec :: "byte list"
  x_spec_used :: nat
  x_path :: string
  x_temporary :: string
  x_backup :: string
  x_file_open :: bool
  x_temporary_live :: bool

record 'f sync_service =
  contexts :: "sync_context list"
  side_nonce :: u32
  storage :: 'f

definition sync_context_zero :: "kconfig \<Rightarrow> sync_context" where
  "sync_context_zero c =
     \<lparr>x_stream = None, x_file = 0, x_state = SYNC_REQUEST_HEADER,
      x_header = replicate SYNC_HEADER_SIZE NUL, x_header_used = 0, x_remaining = 0,
      x_spec = replicate (SYNC_SPEC_CAPACITY c) NUL, x_spec_used = 0, x_path = [], x_temporary = [],
      x_backup = [], x_file_open = False, x_temporary_live = False\<rparr>"

definition sync_boot :: "kconfig \<Rightarrow> 'f \<Rightarrow> 'f sync_service" where
  "sync_boot c f =
     \<lparr>contexts = replicate (WEBOS_ADB_MAX_STREAMS c) (sync_context_zero c), side_nonce = 0, storage = f\<rparr>"

definition update_context ::
    "nat \<Rightarrow> (sync_context \<Rightarrow> sync_context) \<Rightarrow> ('f, 'x) sync_service_scheme \<Rightarrow> ('f, 'x) sync_service_scheme" where
  "update_context k f s = s\<lparr>contexts := (contexts s)[k := f (contexts s ! k)]\<rparr>"

type_synonym ('f, 'x, 't) sync_adb = "(('f, 'x) sync_service_scheme, 't) adb"
type_synonym ('f, 'x, 't, 'z) sync_env = "(('f, 'x) sync_service_scheme, 't, 'z) adb_env_scheme"

section \<open>Paths\<close>

definition find_context :: "nat \<Rightarrow> ('f, 'x) sync_service_scheme \<Rightarrow> nat option" where
  "find_context stream s = find (\<lambda>k. x_stream (contexts s ! k) = Some stream) [0..<length (contexts s)]"

definition path_exists :: "'f zephyr_fs \<Rightarrow> string \<Rightarrow> ('f, 'x) sync_service_scheme \<Rightarrow> bool" where
  "path_exists F path s \<longleftrightarrow> fst (fs_stat F path (storage s)) = 0"

text \<open>
  The character loops of the two path checks, from the root on.  The flag \<open>strict\<close> adds the check of
  \<open>sync_path_allowed\<close> for a final slash; \<open>start\<close> says that the character begins a component.
\<close>

definition dot_component :: "string \<Rightarrow> bool" where
  "dot_component p \<longleftrightarrow>
     strcmp p ''.'' = 0 \<or> strncmp p ''./'' 2 = 0 \<or> strcmp p ''..'' = 0 \<or> strncmp p ''../'' 3 = 0"

fun sync_chars_allowed :: "bool \<Rightarrow> bool \<Rightarrow> string \<Rightarrow> bool" where
  "sync_chars_allowed strict start [] = True"
| "sync_chars_allowed strict start (c # cs) =
     (if byte_val c < 0x20 \<or> c = CHR 0x5C \<or> c = CHR '':'' \<or>
         (c = CHR ''/'' \<and> (c_at cs 0 = CHR ''/'' \<or> strict \<and> c_at cs 0 = NUL)) then False
      else if start \<and> dot_component (c # cs) then False
      else sync_chars_allowed strict (c = CHR ''/'') cs)"

definition sync_path_allowed :: "kconfig \<Rightarrow> string \<Rightarrow> bool" where
  "sync_path_allowed c path =
     (let root_len = length SYNC_ROOT; len = length path in
      if len \<le> root_len \<or> WEBOS_ADB_SYNC_PATH_MAX c \<le> len \<or> strncmp path SYNC_ROOT root_len \<noteq> 0 \<or>
         c_at path (len - 1) = CHR ''/'' \<or> strstr path ''.adb-part-'' \<noteq> None \<or>
         strstr path ''.adb-old-'' \<noteq> None then False
      else sync_chars_allowed True True (drop root_len path))"

definition sync_stat_path_allowed :: "kconfig \<Rightarrow> string \<Rightarrow> bool" where
  "sync_stat_path_allowed c path =
     (let root_len = length SYNC_ROOT; len = length path in
      if len < root_len \<or> WEBOS_ADB_SYNC_PATH_MAX c \<le> len \<or> strncmp path SYNC_ROOT root_len \<noteq> 0 then False
      else sync_chars_allowed False True (drop root_len path))"

section \<open>Responses\<close>

definition terminate_spec :: "nat \<Rightarrow> ('f, 'x) sync_service_scheme \<Rightarrow> ('f, 'x) sync_service_scheme" where
  "terminate_spec k = update_context k (\<lambda>x. x\<lparr>x_spec := (x_spec x)[x_spec_used x := NUL]\<rparr>)"

definition set_state :: "nat \<Rightarrow> sync_state \<Rightarrow> ('f, 'x) sync_service_scheme \<Rightarrow> ('f, 'x) sync_service_scheme" where
  "set_state k state = update_context k (\<lambda>x. x\<lparr>x_state := state\<rparr>)"

text \<open>The mode and size that a STAT reports.\<close>

definition stat_reply :: "'f zephyr_fs \<Rightarrow> kconfig \<Rightarrow> sync_context \<Rightarrow> 'f \<Rightarrow> u32 \<times> u32" where
  "stat_reply F c x f =
     (let path = c_string (x_spec x) in
      if NUL \<notin> set (take (x_spec_used x) (x_spec x)) \<and> sync_stat_path_allowed c path \<and>
         fst (fs_stat F path f) = 0 then
        let entry = snd (fs_stat F path f)
        in (if entry_type entry = FS_DIR_ENTRY_DIR then 16877 else 33188,
            word_of_nat (min (entry_size entry) 4294967295))
      else (0, 0))"

definition send_stat ::
    "'f zephyr_fs \<Rightarrow> ('f, 'x, 't, 'z) sync_env \<Rightarrow> nat \<Rightarrow> ('f, 'x, 't) sync_adb \<Rightarrow> int \<times> ('f, 'x, 't) sync_adb" where
  "send_stat F E k st =
     (let st = on_svc (terminate_spec k) st;
          x = contexts (svc st) ! k;
          (mode, len) = stat_reply F (conf E) x (storage (svc st));
          response = sys_put_le32 SYNC_ID_STAT @ sys_put_le32 mode @ sys_put_le32 len @ sys_put_le32 0;
          st = on_svc (set_state k SYNC_REQUEST_HEADER) st
      in webos_adb_stream_write E (x_stream x) (Some response) (length response) st)"

definition cleanup_partial ::
    "'f zephyr_fs \<Rightarrow> nat \<Rightarrow> ('f, 'x) sync_service_scheme \<Rightarrow> ('f, 'x) sync_service_scheme" where
  "cleanup_partial F k s =
     (let s = (if x_file_open (contexts s ! k)
               then (update_context k (\<lambda>x. x\<lparr>x_file_open := False\<rparr>) s)
                      \<lparr>storage := snd (fs_close F (x_file (contexts s ! k)) (storage s))\<rparr>
               else s)
      in if x_temporary_live (contexts s ! k)
         then (update_context k (\<lambda>x. x\<lparr>x_temporary_live := False\<rparr>) s)
                \<lparr>storage := snd (fs_unlink F (x_temporary (contexts s ! k)) (storage s))\<rparr>
         else s)"

definition send_status ::
    "('f, 'x, 't, 'z) sync_env \<Rightarrow> nat \<Rightarrow> u32 \<Rightarrow> string option \<Rightarrow> ('f, 'x, 't) sync_adb \<Rightarrow>
     int \<times> ('f, 'x, 't) sync_adb" where
  "send_status E k ident msg st =
     (let text_out = (case msg of None \<Rightarrow> [] | Some m \<Rightarrow> m);
          message_len = min (length text_out) (SYNC_FAIL_CAPACITY - 8);
          response = sys_put_le32 ident @ sys_put_le32 (word_of_nat message_len) @ take message_len text_out
      in webos_adb_stream_write E (x_stream (contexts (svc st) ! k)) (Some response) (8 + message_len) st)"

definition fail_transfer ::
    "'f zephyr_fs \<Rightarrow> ('f, 'x, 't, 'z) sync_env \<Rightarrow> nat \<Rightarrow> string \<Rightarrow> sync_state \<Rightarrow> ('f, 'x, 't) sync_adb \<Rightarrow>
     int \<times> ('f, 'x, 't) sync_adb" where
  "fail_transfer F E k reason drain_state st =
     (let st = on_svc (cleanup_partial F k) st;
          (ret, st) = send_status E k SYNC_ID_FAIL (Some reason) st
      in if ret \<noteq> 0 then (ret, st) else (0, on_svc (set_state k drain_state) st))"

section \<open>Starting an upload\<close>

text \<open>One side name: the text is stored, cut to the buffer, and whether it fitted.\<close>

definition side_name :: "kconfig \<Rightarrow> string \<Rightarrow> string \<Rightarrow> u32 \<Rightarrow> string \<times> bool" where
  "side_name c path mark token =
     (let (text_out, ret) = snprintk (SYNC_SIDE_CAPACITY c) (path @ mark @ hex8 token)
      in (text_out, \<not> (ret < 0 \<or> SYNC_SIDE_CAPACITY c \<le> nat ret)))"

fun choose_side_paths ::
    "'f zephyr_fs \<Rightarrow> kconfig \<Rightarrow> nat \<Rightarrow> nat \<Rightarrow> ('f, 'x) sync_service_scheme \<Rightarrow>
     int \<times> ('f, 'x) sync_service_scheme" where
  "choose_side_paths F c k 0 s = (- EEXIST, s)"
| "choose_side_paths F c k (Suc attempts) s =
     (let token = side_nonce s + 1;
          path = x_path (contexts s ! k);
          (temporary, temporary_fits) = side_name c path ''.adb-part-'' token;
          (backup, backup_fits) = side_name c path ''.adb-old-'' token;
          s = (update_context k (\<lambda>x. x\<lparr>x_temporary := temporary\<rparr>) s)\<lparr>side_nonce := token\<rparr>
      in if \<not> temporary_fits then (- ENAMETOOLONG, s)
         else
           let s = update_context k (\<lambda>x. x\<lparr>x_backup := backup\<rparr>) s in
           if \<not> backup_fits then (- ENAMETOOLONG, s)
           else if \<not> path_exists F temporary s \<and> \<not> path_exists F backup s then (0, s)
           else choose_side_paths F c k attempts s)"

definition SYNC_SIDE_ATTEMPTS :: nat where "SYNC_SIDE_ATTEMPTS = 32"

text \<open>
  The end of \<open>start_send\<close>, once the request names an allowed path: choosing the side names, then
  checking the destination and creating the staging file.
\<close>

definition create_partial ::
    "'f zephyr_fs \<Rightarrow> ('f, 'x, 't, 'z) sync_env \<Rightarrow> nat \<Rightarrow> ('f, 'x, 't) sync_adb \<Rightarrow> int \<times> ('f, 'x, 't) sync_adb" where
  "create_partial F E k st =
     (let s = svc st; x = contexts s ! k in
      if path_exists F (x_path x) s \<and> entry_type (snd (fs_stat F (x_path x) (storage s))) \<noteq> FS_DIR_ENTRY_FILE then
        fail_transfer F E k ''destination is not a file'' SYNC_DRAIN_HEADER st
      else
        let (ret, file, f) = fs_open F (x_temporary x) (FS_O_CREATE + FS_O_WRITE + FS_O_TRUNC) (storage s);
            st = st\<lparr>svc := s\<lparr>storage := f\<rparr>\<rparr>
        in if ret \<noteq> 0 then fail_transfer F E k ''cannot create partial file'' SYNC_DRAIN_HEADER st
           else (0, on_svc (update_context k (\<lambda>x. x\<lparr>x_file := file, x_file_open := True,
                       x_temporary_live := True, x_state := SYNC_SEND_HEADER\<rparr>)) st))"

definition start_upload ::
    "'f zephyr_fs \<Rightarrow> ('f, 'x, 't, 'z) sync_env \<Rightarrow> nat \<Rightarrow> string \<Rightarrow> ('f, 'x, 't) sync_adb \<Rightarrow>
     int \<times> ('f, 'x, 't) sync_adb" where
  "start_upload F E k path st =
     (let st = on_svc (update_context k (\<lambda>x. x\<lparr>x_path := path\<rparr>)) st;
          (ret, s) = choose_side_paths F (conf E) k SYNC_SIDE_ATTEMPTS (svc st);
          st = st\<lparr>svc := s\<rparr>
      in if ret \<noteq> 0 then
           fail_transfer F E k (if ret = - ENAMETOOLONG then ''path too long'' else ''no free staging name'')
             SYNC_DRAIN_HEADER st
         else create_partial F E k st)"

definition start_send ::
    "'f zephyr_fs \<Rightarrow> ('f, 'x, 't, 'z) sync_env \<Rightarrow> nat \<Rightarrow> ('f, 'x, 't) sync_adb \<Rightarrow> int \<times> ('f, 'x, 't) sync_adb" where
  "start_send F E k st =
     (let st = on_svc (terminate_spec k) st;
          x = contexts (svc st) ! k
      in if NUL \<in> set (take (x_spec_used x) (x_spec x)) then
           fail_transfer F E k ''NUL in SEND path'' SYNC_DRAIN_HEADER st
         else case split_last (CHR '','') (c_string (x_spec x)) of
           None \<Rightarrow> fail_transfer F E k ''SEND requires path,mode'' SYNC_DRAIN_HEADER st
         | Some (path, mode_text) \<Rightarrow>
             if path = [] \<or> mode_text = [] then
               fail_transfer F E k ''SEND requires path,mode'' SYNC_DRAIN_HEADER st
             else
               let st = on_svc (update_context k (\<lambda>x. x\<lparr>x_spec := (x_spec x)[length path := NUL]\<rparr>)) st;
                   (mode, rest, err) = strtoul mode_text
               in if err \<or> rest \<noteq> [] then fail_transfer F E k ''invalid SEND mode'' SYNC_DRAIN_HEADER st
                  else if mode AND 61440 \<noteq> 0 \<and> mode AND 61440 \<noteq> 32768 then
                    fail_transfer F E k ''only regular files supported'' SYNC_DRAIN_HEADER st
                  else if \<not> sync_path_allowed (conf E) path \<or> WEBOS_ADB_SYNC_PATH_MAX (conf E) \<le> length path then
                    fail_transfer F E k ''path outside /STORAGE:'' SYNC_DRAIN_HEADER st
                  else start_upload F E k path st)"

section \<open>Finishing an upload\<close>

definition replace_destination ::
    "'f zephyr_fs \<Rightarrow> nat \<Rightarrow> ('f, 'x) sync_service_scheme \<Rightarrow> int \<times> ('f, 'x) sync_service_scheme" where
  "replace_destination F k s =
     (let x = contexts s ! k;
          (ret, f) = fs_close F (x_file x) (storage s);
          s = (update_context k (\<lambda>x. x\<lparr>x_file_open := False\<rparr>) s)\<lparr>storage := f\<rparr>
      in if ret \<noteq> 0 then (ret, s)
         else
           let had_destination = path_exists F (x_path x) s;
               (ret, f) = (if had_destination then fs_rename F (x_path x) (x_backup x) (storage s)
                           else (0, storage s));
               s = s\<lparr>storage := f\<rparr>
           in if ret \<noteq> 0 then (ret, s)
              else
                let (ret, f) = fs_rename F (x_temporary x) (x_path x) (storage s);
                    s = s\<lparr>storage := f\<rparr>
                in if ret \<noteq> 0 then
                     (ret, if had_destination
                           then s\<lparr>storage := snd (fs_rename F (x_backup x) (x_path x) (storage s))\<rparr> else s)
                   else
                     let s = update_context k (\<lambda>x. x\<lparr>x_temporary_live := False\<rparr>) s
                     in (0, if had_destination
                            then s\<lparr>storage := snd (fs_unlink F (x_backup x) (storage s))\<rparr> else s))"

definition finish_send ::
    "'f zephyr_fs \<Rightarrow> ('f, 'x, 't, 'z) sync_env \<Rightarrow> nat \<Rightarrow> ('f, 'x, 't) sync_adb \<Rightarrow> int \<times> ('f, 'x, 't) sync_adb" where
  "finish_send F E k st =
     (let (ret, s) = replace_destination F k (svc st); st = st\<lparr>svc := s\<rparr>
      in if ret \<noteq> 0 then fail_transfer F E k ''cannot install completed file'' SYNC_DRAIN_HEADER st
         else
           let (ret, st) = send_status E k SYNC_ID_OKAY None st
           in (ret, if ret = 0 then on_svc (set_state k SYNC_REQUEST_HEADER) st else st))"

section \<open>The state machine\<close>

definition set_record :: "nat \<Rightarrow> u32 \<Rightarrow> sync_state \<Rightarrow> ('f, 'x) sync_service_scheme \<Rightarrow> ('f, 'x) sync_service_scheme" where
  "set_record k remaining state = update_context k (\<lambda>x. x\<lparr>x_remaining := remaining, x_state := state\<rparr>)"

text \<open>The three cases of \<open>process_header\<close>, by the state the header was read in.\<close>

definition request_header ::
    "('f, 'x, 't, 'z) sync_env \<Rightarrow> nat \<Rightarrow> u32 \<Rightarrow> u32 \<Rightarrow> ('f, 'x, 't) sync_adb \<Rightarrow> int \<times> ('f, 'x, 't) sync_adb" where
  "request_header E k ident val st =
     (let x = contexts (svc st) ! k in
      if ident = SYNC_ID_QUIT \<and> val = 0 then (0, webos_adb_stream_close E (x_stream x) st)
      else if (ident = SYNC_ID_SEND \<or> ident = SYNC_ID_STAT) \<and> val \<noteq> 0 \<and> unat val < length (x_spec x) then
        (0, on_svc (update_context k (\<lambda>x. x\<lparr>x_remaining := val, x_spec_used := 0,
               x_state := if ident = SYNC_ID_SEND then SYNC_REQUEST_SPEC else SYNC_STAT_PATH\<rparr>)) st)
      else
        let (ret, st) = send_status E k SYNC_ID_FAIL (Some ''only bounded STAT and SEND are supported'') st
        in if ret \<noteq> 0 then (- EIO, st)
           else
             let st = on_svc (set_record k 0 SYNC_DISCARD_AND_CLOSE) st
             in (0, webos_adb_stream_close E (x_stream x) st))"

definition drain_header ::
    "('f, 'x, 't, 'z) sync_env \<Rightarrow> nat \<Rightarrow> u32 \<Rightarrow> u32 \<Rightarrow> ('f, 'x, 't) sync_adb \<Rightarrow> int \<times> ('f, 'x, 't) sync_adb" where
  "drain_header E k ident val st =
     (if ident = SYNC_ID_DONE then (0, on_svc (set_state k SYNC_REQUEST_HEADER) st)
      else if ident \<noteq> SYNC_ID_DATA \<or> WEBOS_ADB_SYNC_DATA_MAX (conf E) < unat val then
        (0, webos_adb_stream_close E (x_stream (contexts (svc st) ! k)) st)
      else (0, on_svc (set_record k val (if val = 0 then SYNC_DRAIN_HEADER else SYNC_DRAIN_DATA)) st))"

definition data_header ::
    "'f zephyr_fs \<Rightarrow> ('f, 'x, 't, 'z) sync_env \<Rightarrow> nat \<Rightarrow> u32 \<Rightarrow> u32 \<Rightarrow> ('f, 'x, 't) sync_adb \<Rightarrow>
     int \<times> ('f, 'x, 't) sync_adb" where
  "data_header F E k ident val st =
     (if ident = SYNC_ID_DONE then finish_send F E k st
      else if ident \<noteq> SYNC_ID_DATA \<or> WEBOS_ADB_SYNC_DATA_MAX (conf E) < unat val then
        let (ret, st) = fail_transfer F E k ''invalid or oversized DATA'' SYNC_DISCARD_AND_CLOSE st
        in (ret, webos_adb_stream_close E (x_stream (contexts (svc st) ! k)) st)
      else (0, on_svc (set_record k val (if val = 0 then SYNC_SEND_HEADER else SYNC_SEND_DATA)) st))"

definition process_header ::
    "'f zephyr_fs \<Rightarrow> ('f, 'x, 't, 'z) sync_env \<Rightarrow> nat \<Rightarrow> ('f, 'x, 't) sync_adb \<Rightarrow> int \<times> ('f, 'x, 't) sync_adb" where
  "process_header F E k st =
     (let x = contexts (svc st) ! k;
          ident = sys_get_le32 (x_header x);
          val = sys_get_le32 (drop 4 (x_header x));
          st = on_svc (update_context k (\<lambda>x. x\<lparr>x_header_used := 0\<rparr>)) st
      in if x_state x = SYNC_REQUEST_HEADER then request_header E k ident val st
         else if x_state x = SYNC_DRAIN_HEADER then drain_header E k ident val st
         else data_header F E k ident val st)"

definition sync_open ::
    "('f, 'x, 't, 'z) sync_env \<Rightarrow> nat \<Rightarrow> byte list \<Rightarrow> ('f, 'x, 't) sync_adb \<Rightarrow> int \<times> ('f, 'x, 't) sync_adb" where
  "sync_open E stream suffix_bytes st =
     (if length suffix_bytes \<noteq> 0 then (- EINVAL, st)
      else case find (\<lambda>k. x_stream (contexts (svc st) ! k) = None) [0..<length (contexts (svc st))] of
        None \<Rightarrow> (- ENOSPC, st)
      | Some k \<Rightarrow>
          (0, on_svc (update_context k (\<lambda>_. (sync_context_zero (conf E))\<lparr>x_stream := Some stream\<rparr>)) st))"

text \<open>
  One pass of the loop of \<open>sync_write\<close>: it returns (Inl) or goes on with the unread bytes (Inr).
  The four cases are those of the loop body.
\<close>

definition header_pass ::
    "'f zephyr_fs \<Rightarrow> ('f, 'x, 't, 'z) sync_env \<Rightarrow> nat \<Rightarrow> byte list \<Rightarrow> ('f, 'x, 't) sync_adb \<Rightarrow>
     (int \<times> ('f, 'x, 't) sync_adb) + (byte list \<times> ('f, 'x, 't) sync_adb)" where
  "header_pass F E k data st =
     (let x = contexts (svc st) ! k;
          count = min (length data) (SYNC_HEADER_SIZE - x_header_used x);
          st = on_svc (update_context k (\<lambda>x. x\<lparr>x_header := memcpy (x_header x) (x_header_used x) (take count data),
                  x_header_used := x_header_used x + count\<rparr>)) st;
          data = drop count data
      in if x_header_used (contexts (svc st) ! k) = SYNC_HEADER_SIZE then
           let (ret, st) = process_header F E k st
           in if ret \<noteq> 0 then Inl (ret, st) else Inr (data, st)
         else Inr (data, st))"

definition spec_pass ::
    "'f zephyr_fs \<Rightarrow> ('f, 'x, 't, 'z) sync_env \<Rightarrow> nat \<Rightarrow> byte list \<Rightarrow> ('f, 'x, 't) sync_adb \<Rightarrow>
     (int \<times> ('f, 'x, 't) sync_adb) + (byte list \<times> ('f, 'x, 't) sync_adb)" where
  "spec_pass F E k data st =
     (let x = contexts (svc st) ! k;
          count = min (length data) (unat (x_remaining x));
          st = on_svc (update_context k (\<lambda>x. x\<lparr>x_spec := memcpy (x_spec x) (x_spec_used x) (take count data),
                  x_spec_used := x_spec_used x + count,
                  x_remaining := x_remaining x - word_of_nat count\<rparr>)) st;
          data = drop count data
      in if x_remaining (contexts (svc st) ! k) = 0 then
           let (ret, st) = (if x_state x = SYNC_STAT_PATH then send_stat F E k st else start_send F E k st)
           in if ret \<noteq> 0 then Inl (ret, st) else Inr (data, st)
         else Inr (data, st))"

definition data_pass ::
    "'f zephyr_fs \<Rightarrow> ('f, 'x, 't, 'z) sync_env \<Rightarrow> nat \<Rightarrow> byte list \<Rightarrow> ('f, 'x, 't) sync_adb \<Rightarrow>
     (int \<times> ('f, 'x, 't) sync_adb) + (byte list \<times> ('f, 'x, 't) sync_adb)" where
  "data_pass F E k data st =
     (let x = contexts (svc st) ! k;
          count = min (length data) (unat (x_remaining x));
          (written, f) = fs_write F (x_file x) (take count data) (storage (svc st));
          remaining = x_remaining x - word_of_nat count;
          st = on_svc (\<lambda>s. (update_context k (\<lambda>x. x\<lparr>x_remaining := remaining\<rparr>) s)\<lparr>storage := f\<rparr>) st;
          data = drop count data
      in if written < 0 \<or> nat written \<noteq> count then
           let (ret, st) = fail_transfer F E k ''write failed''
                             (if remaining = 0 then SYNC_DRAIN_HEADER else SYNC_DRAIN_DATA) st
           in if ret \<noteq> 0 then Inl (- EIO, st) else Inr (data, st)
         else Inr (data, if remaining = 0 then on_svc (set_state k SYNC_SEND_HEADER) st else st))"

definition drain_pass ::
    "('f, 'x, 't, 'z) sync_env \<Rightarrow> nat \<Rightarrow> byte list \<Rightarrow> ('f, 'x, 't) sync_adb \<Rightarrow>
     (int \<times> ('f, 'x, 't) sync_adb) + (byte list \<times> ('f, 'x, 't) sync_adb)" where
  "drain_pass E k data st =
     (let x = contexts (svc st) ! k;
          count = min (length data) (unat (x_remaining x));
          remaining = x_remaining x - word_of_nat count;
          st = on_svc (update_context k (\<lambda>x. x\<lparr>x_remaining := remaining\<rparr>)) st;
          data = drop count data
      in Inr (data,
           if remaining = 0 then
             if x_state x = SYNC_DISCARD_AND_CLOSE then webos_adb_stream_close E (x_stream x) st
             else on_svc (set_state k SYNC_DRAIN_HEADER) st
           else st))"

definition header_state :: "sync_state \<Rightarrow> bool" where
  "header_state state \<longleftrightarrow> state = SYNC_REQUEST_HEADER \<or> state = SYNC_SEND_HEADER \<or> state = SYNC_DRAIN_HEADER"

definition sync_pass ::
    "'f zephyr_fs \<Rightarrow> ('f, 'x, 't, 'z) sync_env \<Rightarrow> nat \<Rightarrow> byte list \<Rightarrow> ('f, 'x, 't) sync_adb \<Rightarrow>
     (int \<times> ('f, 'x, 't) sync_adb) + (byte list \<times> ('f, 'x, 't) sync_adb)" where
  "sync_pass F E k data st =
     (let x = contexts (svc st) ! k in
      if x_state x = SYNC_DISCARD_AND_CLOSE \<and> x_remaining x = 0 then Inl (0, st)
      else if header_state (x_state x) then header_pass F E k data st
      else if x_state x = SYNC_REQUEST_SPEC \<or> x_state x = SYNC_STAT_PATH then spec_pass F E k data st
      else if x_state x = SYNC_SEND_DATA then data_pass F E k data st
      else drain_pass E k data st)"

partial_function (option) sync_loop ::
    "'f zephyr_fs \<Rightarrow> ('f, 'x, 't, 'z) sync_env \<Rightarrow> nat \<Rightarrow> byte list \<Rightarrow> ('f, 'x, 't) sync_adb \<Rightarrow>
     (int \<times> ('f, 'x, 't) sync_adb) option" where
  "sync_loop F E k data st =
     (if data = [] then Some (0, st)
      else case sync_pass F E k data st of
        Inl res \<Rightarrow> Some res
      | Inr (data, st) \<Rightarrow> sync_loop F E k data st)"

text \<open>
  \<open>sync_write\<close> returns what the loop returns; that the loop returns is a lemma below
  (\<open>sync_loop_returns\<close>).
\<close>

definition sync_write ::
    "'f zephyr_fs \<Rightarrow> ('f, 'x, 't, 'z) sync_env \<Rightarrow> nat \<Rightarrow> byte list option \<Rightarrow> nat \<Rightarrow> ('f, 'x, 't) sync_adb \<Rightarrow>
     int \<times> ('f, 'x, 't) sync_adb" where
  "sync_write F E stream data len st =
     (case find_context stream (svc st) of
        None \<Rightarrow> (- EINVAL, st)
      | Some k \<Rightarrow>
          if data = None \<and> len \<noteq> 0 then (- EINVAL, st)
          else the (sync_loop F E k (bytes_of data len) st))"

definition sync_tx_ready :: "nat \<Rightarrow> ('s, 't) adb \<Rightarrow> ('s, 't) adb" where
  "sync_tx_ready stream st = st"

definition sync_close ::
    "'f zephyr_fs \<Rightarrow> kconfig \<Rightarrow> nat \<Rightarrow> ('f, 'x) sync_service_scheme \<Rightarrow> ('f, 'x) sync_service_scheme" where
  "sync_close F c stream s =
     (case find_context stream s of
        None \<Rightarrow> s
      | Some k \<Rightarrow> update_context k (\<lambda>_. sync_context_zero c) (cleanup_partial F k s))"

end
