(* ===== verification/Adb_Sync_Inv.thy ===== *)
theory Adb_Sync_Inv
  imports Adb_Sync
begin

text \<open>
  The invariant of the sync contexts, the proof that the loop of \<open>sync_write\<close> keeps it and returns,
  and the sync service as an instance of the contract between router and services.
\<close>

section \<open>Effects on the contexts\<close>

text \<open>Nothing but context k, the nonce and the file system changes.\<close>

definition ctx_step :: "nat \<Rightarrow> ('f, 'x) sync_service_scheme \<Rightarrow> ('f, 'x) sync_service_scheme \<Rightarrow> bool" where
  "ctx_step k s s' \<longleftrightarrow> (\<exists>x n f. s' = s\<lparr>contexts := (contexts s)[k := x], side_nonce := n, storage := f\<rparr>)"

lemma ctx_stepI: "s' = s\<lparr>contexts := (contexts s)[k := x], side_nonce := n, storage := f\<rparr> \<Longrightarrow> ctx_step k s s'"
  unfolding ctx_step_def by blast

lemma ctx_step_refl [simp]: "ctx_step k s s"
  by (rule ctx_stepI [where x = "contexts s ! k" and n = "side_nonce s" and f = "storage s"]) simp

lemma ctx_step_trans: "ctx_step k s s' \<Longrightarrow> ctx_step k s' s'' \<Longrightarrow> ctx_step k s s''"
  unfolding ctx_step_def by fastforce

lemma ctx_step_length: "ctx_step k s s' \<Longrightarrow> length (contexts s') = length (contexts s)"
  unfolding ctx_step_def by auto

lemma ctx_step_more: "ctx_step k s s' \<Longrightarrow> sync_service.more s' = sync_service.more s"
  unfolding ctx_step_def by auto

lemma ctx_step_update [simp]: "ctx_step k s (update_context k f s)"
  by (rule ctx_stepI [where x = "f (contexts s ! k)" and n = "side_nonce s" and f = "storage s"])
    (simp add: update_context_def)

lemma ctx_step_intros:
  "ctx_step k s s' \<Longrightarrow> ctx_step k s (update_context k f s')"
  "ctx_step k s s' \<Longrightarrow> ctx_step k s (s'\<lparr>storage := g\<rparr>)"
  "ctx_step k s s' \<Longrightarrow> ctx_step k s (s'\<lparr>side_nonce := n\<rparr>)"
proof -
  show "ctx_step k s (update_context k f s')" if "ctx_step k s s'"
    using ctx_step_trans [OF that ctx_step_update] .
  show "ctx_step k s (s'\<lparr>storage := g\<rparr>)" if step: "ctx_step k s s'"
  proof -
    obtain x m f where "s' = s\<lparr>contexts := (contexts s)[k := x], side_nonce := m, storage := f\<rparr>"
      using step unfolding ctx_step_def by blast
    then have "s'\<lparr>storage := g\<rparr> = s\<lparr>contexts := (contexts s)[k := x], side_nonce := m, storage := g\<rparr>" by simp
    then show ?thesis by (rule ctx_stepI)
  qed
  show "ctx_step k s (s'\<lparr>side_nonce := n\<rparr>)" if step: "ctx_step k s s'"
  proof -
    obtain x m f where "s' = s\<lparr>contexts := (contexts s)[k := x], side_nonce := m, storage := f\<rparr>"
      using step unfolding ctx_step_def by blast
    then have "s'\<lparr>side_nonce := n\<rparr> = s\<lparr>contexts := (contexts s)[k := x], side_nonce := n, storage := f\<rparr>" by simp
    then show ?thesis by (rule ctx_stepI)
  qed
qed

lemma update_context_simps [simp]:
  "k < length (contexts s) \<Longrightarrow> contexts (update_context k f s) ! k = f (contexts s ! k)"
  "length (contexts (update_context k f s)) = length (contexts s)"
  "storage (update_context k f s) = storage s" "side_nonce (update_context k f s) = side_nonce s"
  by (simp_all add: update_context_def)

lemma cleanup_partial_ctx:
  "k < length (contexts s) \<Longrightarrow>
    contexts (cleanup_partial F k s) ! k = (contexts s ! k)\<lparr>x_file_open := False, x_temporary_live := False\<rparr>"
  "ctx_step k s (cleanup_partial F k s)"
proof -
  show "ctx_step k s (cleanup_partial F k s)"
    unfolding cleanup_partial_def Let_def
    by (auto intro!: ctx_step_intros)
  assume "k < length (contexts s)"
  then show "contexts (cleanup_partial F k s) ! k =
      (contexts s ! k)\<lparr>x_file_open := False, x_temporary_live := False\<rparr>"
    by (cases "x_file_open (contexts s ! k)"; cases "x_temporary_live (contexts s ! k)")
      (simp_all add: cleanup_partial_def)
qed

lemma side_name_length: "side_name c path mark token = (t, fits) \<Longrightarrow> 0 < SYNC_SIDE_CAPACITY c \<Longrightarrow> length t < SYNC_SIDE_CAPACITY c"
  by (auto simp: side_name_def snprintk_def)

lemma side_capacity_pos [simp]: "0 < SYNC_SIDE_CAPACITY c"
  by (simp add: SYNC_SIDE_CAPACITY_def SYNC_SIDE_SUFFIX_LEN_def)

lemma choose_side_paths_ctx:
  assumes "k < length (contexts s)" "choose_side_paths F c k n s = (ret, s')"
    "length (x_temporary (contexts s ! k)) < SYNC_SIDE_CAPACITY c"
    "length (x_backup (contexts s ! k)) < SYNC_SIDE_CAPACITY c"
  shows "ctx_step k s s' \<and> storage s' = storage s \<and>
    (\<exists>t b. contexts s' ! k = (contexts s ! k)\<lparr>x_temporary := t, x_backup := b\<rparr> \<and>
       length t < SYNC_SIDE_CAPACITY c \<and> length b < SYNC_SIDE_CAPACITY c)"
  using assms
proof (induction n arbitrary: s)
  case 0
  moreover have "contexts s ! k = (contexts s ! k)\<lparr>x_temporary := x_temporary (contexts s ! k), x_backup := x_backup (contexts s ! k)\<rparr>"
    by simp
  ultimately show ?case unfolding choose_side_paths.simps by (metis Pair_inject ctx_step_refl)
next
  case (Suc n)
  define token where "token = side_nonce s + 1"
  obtain t tf where t: "side_name c (x_path (contexts s ! k)) ''.adb-part-'' token = (t, tf)" by fastforce
  obtain b bf where b: "side_name c (x_path (contexts s ! k)) ''.adb-old-'' token = (b, bf)" by fastforce
  define s1 where "s1 = (update_context k (\<lambda>x. x\<lparr>x_temporary := t\<rparr>) s)\<lparr>side_nonce := token\<rparr>"
  define s2 where "s2 = update_context k (\<lambda>x. x\<lparr>x_backup := b\<rparr>) s1"
  have lens: "length t < SYNC_SIDE_CAPACITY c" "length b < SYNC_SIDE_CAPACITY c"
    using side_name_length [OF t] side_name_length [OF b] by simp_all
  have s1: "ctx_step k s s1" "contexts s1 ! k = (contexts s ! k)\<lparr>x_temporary := t\<rparr>" "storage s1 = storage s"
    "k < length (contexts s1)" using Suc.prems(1) by (auto simp: s1_def intro!: ctx_step_intros)
  have s2: "ctx_step k s s2" "contexts s2 ! k = (contexts s ! k)\<lparr>x_temporary := t, x_backup := b\<rparr>"
    "storage s2 = storage s" "k < length (contexts s2)"
    using s1 by (auto simp: s2_def intro!: ctx_step_intros)
  have cases: "(ret, s') = (- ENAMETOOLONG, s1) \<or> (ret, s') = (- ENAMETOOLONG, s2) \<or> (ret, s') = (0, s2) \<or>
      choose_side_paths F c k n s2 = (ret, s')"
    using Suc.prems(2) by (auto simp: token_def [symmetric] t b s1_def [symmetric] s2_def [symmetric] Let_def split: if_splits)
  have stop1: ?case if "s' = s1"
  proof -
    have "contexts s1 ! k = (contexts s ! k)\<lparr>x_temporary := t, x_backup := x_backup (contexts s ! k)\<rparr>"
      by (simp add: s1(2))
    then show ?thesis using that s1(1,3) Suc.prems(4) lens(1) by blast
  qed
  have stop2: ?case if "s' = s2"
    using that s2 lens by blast
  have go: ?case if "choose_side_paths F c k n s2 = (ret, s')"
    using Suc.IH [OF s2(4) that] s2 lens by (auto intro: ctx_step_trans)
  show ?case using cases stop1 stop2 go by blast
qed

lemma replace_destination_ctx:
  assumes "k < length (contexts s)" "replace_destination F k s = (ret, s')"
  shows "ctx_step k s s' \<and> contexts s' ! k =
    (contexts s ! k)\<lparr>x_file_open := False, x_temporary_live := ret \<noteq> 0 \<and> x_temporary_live (contexts s ! k)\<rparr>"
proof -
  have update_storage: "update_context k g (s\<lparr>storage := f\<rparr>) = (update_context k g s)\<lparr>storage := f\<rparr>"
    for g f and s :: "('a, 'b) sync_service_scheme" by (simp add: update_context_def)
  have "\<exists>f. s' = (update_context k (\<lambda>x. x\<lparr>x_file_open := False\<rparr>) s)\<lparr>storage := f\<rparr> \<and> ret \<noteq> 0 \<or>
      s' = (update_context k (\<lambda>x. x\<lparr>x_temporary_live := False\<rparr>)
        (update_context k (\<lambda>x. x\<lparr>x_file_open := False\<rparr>) s))\<lparr>storage := f\<rparr> \<and> ret = 0"
    using assms(2) unfolding replace_destination_def
    by (auto simp: Let_def update_storage split: prod.splits if_splits)
  then show ?thesis using assms(1) by (auto intro!: ctx_step_intros)
qed

section \<open>Invariant of a context\<close>

text \<open>
  Buffers have their declared sizes and are never overrun; a name fits its buffer; the file is open
  exactly while its staging name is live, and only while an upload runs; what is left of a request
  fits the buffer, what is left of a DATA record is within the limit; a free context is all zero.
\<close>

definition ctx_base :: "kconfig \<Rightarrow> sync_context \<Rightarrow> bool" where
  "ctx_base c x \<longleftrightarrow>
     length (x_header x) = SYNC_HEADER_SIZE \<and> x_header_used x < SYNC_HEADER_SIZE \<and>
     length (x_spec x) = SYNC_SPEC_CAPACITY c \<and> length (x_path x) < WEBOS_ADB_SYNC_PATH_MAX c \<and>
     length (x_temporary x) < SYNC_SIDE_CAPACITY c \<and> length (x_backup x) < SYNC_SIDE_CAPACITY c"

definition ctx_ok :: "kconfig \<Rightarrow> sync_context \<Rightarrow> bool" where
  "ctx_ok c x \<longleftrightarrow>
     ctx_base c x \<and> x_file_open x = x_temporary_live x \<and>
     (x_file_open x \<longrightarrow> x_state x = SYNC_SEND_HEADER \<or> x_state x = SYNC_SEND_DATA) \<and>
     (x_state x = SYNC_REQUEST_SPEC \<or> x_state x = SYNC_STAT_PATH \<longrightarrow>
        x_spec_used x + unat (x_remaining x) < length (x_spec x)) \<and>
     (x_state x = SYNC_SEND_DATA \<or> x_state x = SYNC_DRAIN_DATA \<longrightarrow>
        unat (x_remaining x) \<le> WEBOS_ADB_SYNC_DATA_MAX c) \<and>
     (x_stream x = None \<longrightarrow> x = sync_context_zero c)"

text \<open>What an operation on context k of stream i leaves behind.\<close>

definition sync_good :: "('f, 'x, 't, 'z) sync_env \<Rightarrow> nat \<Rightarrow> nat \<Rightarrow> ('f, 'x, 't) sync_adb \<Rightarrow> ('f, 'x, 't) sync_adb \<Rightarrow> bool" where
  "sync_good E i k st st' \<longleftrightarrow>
     service_frame E i st st' \<and> ctx_step k (svc st) (svc st') \<and>
     x_stream (contexts (svc st') ! k) = Some i"

text \<open>The state in which the operations run.\<close>

definition sync_ready :: "('f, 'x, 't, 'z) sync_env \<Rightarrow> nat \<Rightarrow> nat \<Rightarrow> ('f, 'x, 't) sync_adb \<Rightarrow> bool" where
  "sync_ready E i k st \<longleftrightarrow>
     live E i st \<and> k < length (contexts (svc st)) \<and> x_stream (contexts (svc st) ! k) = Some i"

lemma sync_good_refl: "sync_ready E i k st \<Longrightarrow> sync_good E i k st st"
  by (simp add: sync_good_def sync_ready_def)

lemma sync_good_ready: "sync_good E i k st st' \<Longrightarrow> sync_ready E i k st \<Longrightarrow> sync_ready E i k st'"
  by (auto simp: sync_good_def sync_ready_def live_frame ctx_step_length)

lemma sync_good_trans:
  "sync_ready E i k st \<Longrightarrow> sync_good E i k st st' \<Longrightarrow> sync_good E i k st' st'' \<Longrightarrow> sync_good E i k st st''"
  unfolding sync_good_def sync_ready_def by (blast intro: frame_trans ctx_step_trans)

lemma sync_good_on_svc:
  "sync_ready E i k st \<Longrightarrow> ctx_step k (svc st) (f (svc st)) \<Longrightarrow> x_stream (contexts (f (svc st)) ! k) = Some i \<Longrightarrow>
    sync_good E i k st (on_svc f st)"
  by (simp add: sync_good_def on_svc_frame)

lemma sync_good_svc:
  "sync_ready E i k st \<Longrightarrow> ctx_step k (svc st) s \<Longrightarrow> x_stream (contexts s ! k) = Some i \<Longrightarrow>
    sync_good E i k st (st\<lparr>svc := s\<rparr>)"
  by (simp add: sync_good_def service_frame_state)

lemma sync_good_update:
  assumes "sync_ready E i k st" "\<And>x. x_stream (f x) = x_stream x"
  shows "sync_good E i k st (on_svc (update_context k f) st)"
  using assms by (intro sync_good_on_svc) (auto simp: sync_ready_def)

lemma sync_good_write:
  assumes "sync_ready E i k st" "webos_adb_stream_write E (Some i) data len st = (ret, st')"
  shows "sync_good E i k st st' \<and> svc st' = svc st"
  using assms write_live [of E i st data len ret st'] by (simp add: sync_good_def sync_ready_def)

lemma sync_good_close:
  assumes "sync_ready E i k st"
  shows "sync_good E i k st (webos_adb_stream_close E (Some i) st) \<and> svc (webos_adb_stream_close E (Some i) st) = svc st"
  using assms close_live [of E i st] by (simp add: sync_good_def sync_ready_def)

lemma sync_good_status:
  assumes "sync_ready E i k st" "send_status E k ident msg st = (ret, st')"
  shows "sync_good E i k st st' \<and> svc st' = svc st"
  using assms sync_good_write [OF assms(1)] by (simp add: send_status_def Let_def sync_ready_def)

lemma fail_transfer_good:
  assumes ready: "sync_ready E i k st" and fail: "fail_transfer F E k reason drain st = (ret, st')"
  shows "sync_good E i k st st' \<and> contexts (svc st') ! k = (contexts (svc st) ! k)
    \<lparr>x_file_open := False, x_temporary_live := False,
     x_state := if ret = 0 then drain else x_state (contexts (svc st) ! k)\<rparr>"
proof -
  have k: "k < length (contexts (svc st))" using ready by (simp add: sync_ready_def)
  define st1 where "st1 = on_svc (cleanup_partial F k) st"
  have x1: "contexts (svc st1) ! k = (contexts (svc st) ! k)\<lparr>x_file_open := False, x_temporary_live := False\<rparr>"
    using k by (simp add: st1_def cleanup_partial_ctx)
  have good1: "sync_good E i k st st1" unfolding st1_def
    using ready k by (intro sync_good_on_svc) (simp_all add: cleanup_partial_ctx sync_ready_def)
  obtain r st2 where status: "send_status E k SYNC_ID_FAIL (Some reason) st1 = (r, st2)" by fastforce
  note ready1 = sync_good_ready [OF good1 ready]
  have good2: "sync_good E i k st1 st2" "svc st2 = svc st1" using sync_good_status [OF ready1 status] by auto
  note ready2 = sync_good_ready [OF good2(1) ready1]
  have good3: "sync_good E i k st2 (on_svc (set_state k drain) st2)"
    unfolding set_state_def by (rule sync_good_update [OF ready2]) simp
  have "ret = r \<and> st' = (if r \<noteq> 0 then st2 else on_svc (set_state k drain) st2)"
    using fail status by (auto simp: fail_transfer_def st1_def [symmetric] split: if_splits)
  moreover have "contexts (svc (on_svc (set_state k drain) st2)) ! k = (contexts (svc st2) ! k)\<lparr>x_state := drain\<rparr>"
    using ready2 by (simp add: set_state_def sync_ready_def)
  ultimately show ?thesis
    using good1 good2 good3 ready ready1 x1 by (auto intro: sync_good_trans)
qed

lemma send_stat_good:
  assumes ready: "sync_ready E i k st" and send: "send_stat F E k st = (ret, st')"
  shows "sync_good E i k st st' \<and> (\<exists>spec. length spec = length (x_spec (contexts (svc st) ! k)) \<and>
    contexts (svc st') ! k = (contexts (svc st) ! k)\<lparr>x_spec := spec, x_state := SYNC_REQUEST_HEADER\<rparr>)"
proof -
  define st1 where "st1 = on_svc (set_state k SYNC_REQUEST_HEADER) (on_svc (terminate_spec k) st)"
  have good1: "sync_good E i k st (on_svc (terminate_spec k) st)"
    unfolding terminate_spec_def by (rule sync_good_update [OF ready]) simp
  have good2: "sync_good E i k (on_svc (terminate_spec k) st) st1"
    unfolding set_state_def st1_def by (rule sync_good_update [OF sync_good_ready [OF good1 ready]]) simp
  note good = sync_good_trans [OF ready good1 good2]
  have stream: "x_stream (contexts (svc (on_svc (terminate_spec k) st)) ! k) = Some i"
    using good1 by (simp add: sync_good_def)
  obtain data len where "webos_adb_stream_write E (Some i) (Some data) len st1 = (ret, st')"
    using send stream by (auto simp: send_stat_def st1_def Let_def split: prod.splits)
  then have "sync_good E i k st1 st' \<and> svc st' = svc st1"
    using sync_good_write [OF sync_good_ready [OF good ready]] by blast
  moreover have "contexts (svc st1) ! k = (contexts (svc st) ! k)
      \<lparr>x_spec := (x_spec (contexts (svc st) ! k))[x_spec_used (contexts (svc st) ! k) := NUL], x_state := SYNC_REQUEST_HEADER\<rparr>"
    using ready by (simp add: st1_def set_state_def terminate_spec_def sync_ready_def)
  ultimately show ?thesis using sync_good_trans [OF ready good] by (metis length_list_update)
qed

text \<open>
  A SEND request ends with an open staging file, with the session draining the refused upload, or
  with an error that closes the stream.
\<close>

definition send_started :: "kconfig \<Rightarrow> int \<Rightarrow> sync_context \<Rightarrow> sync_context \<Rightarrow> bool" where
  "send_started c ret x x' \<longleftrightarrow>
     ctx_base c x' \<and> x_header_used x' = x_header_used x \<and> x_stream x' = x_stream x \<and>
     x_spec_used x' = x_spec_used x \<and> x_remaining x' = x_remaining x \<and>
     (if ret \<noteq> 0 then \<not> x_file_open x' \<and> \<not> x_temporary_live x' \<and> x_state x' = x_state x
      else if x_file_open x' then x_temporary_live x' \<and> x_state x' = SYNC_SEND_HEADER
      else \<not> x_temporary_live x' \<and> x_state x' = SYNC_DRAIN_HEADER)"

lemma fail_transfer_started:
  assumes "sync_ready E i k st" "fail_transfer F E k reason SYNC_DRAIN_HEADER st = (ret, st')"
    and "ctx_base c (contexts (svc st) ! k)"
    and "x_header_used (contexts (svc st) ! k) = x_header_used x" "x_stream (contexts (svc st) ! k) = x_stream x"
      "x_spec_used (contexts (svc st) ! k) = x_spec_used x" "x_remaining (contexts (svc st) ! k) = x_remaining x"
      "x_state (contexts (svc st) ! k) = x_state x"
  shows "sync_good E i k st st' \<and> send_started c ret x (contexts (svc st') ! k)"
  using fail_transfer_good [OF assms(1,2)] assms(3-)
  by (simp add: send_started_def ctx_base_def)

lemma create_partial_good:
  assumes ready: "sync_ready E i k st" and create: "create_partial F E k st = (ret, st')"
    and base: "ctx_base (conf E) (contexts (svc st) ! k)"
    and same: "x_header_used (contexts (svc st) ! k) = x_header_used x" "x_stream (contexts (svc st) ! k) = x_stream x"
      "x_spec_used (contexts (svc st) ! k) = x_spec_used x" "x_remaining (contexts (svc st) ! k) = x_remaining x"
      "x_state (contexts (svc st) ! k) = x_state x"
  shows "sync_good E i k st st' \<and> send_started (conf E) ret x (contexts (svc st') ! k)"
proof -
  obtain r fh f where "open": "fs_open F (x_temporary (contexts (svc st) ! k)) (FS_O_CREATE + FS_O_WRITE + FS_O_TRUNC)
      (storage (svc st)) = (r, fh, f)"
    using prod_cases3 by blast
  define st1 where "st1 = st\<lparr>svc := (svc st)\<lparr>storage := f\<rparr>\<rparr>"
  have good1: "sync_good E i k st st1" unfolding st1_def
    using ready by (intro sync_good_svc) (auto simp: sync_ready_def intro!: ctx_step_intros)
  note ready1 = sync_good_ready [OF good1 ready]
  define g :: "sync_context \<Rightarrow> sync_context"
    where "g = (\<lambda>x. x\<lparr>x_file := fh, x_file_open := True, x_temporary_live := True, x_state := SYNC_SEND_HEADER\<rparr>)"
  have good2: "sync_good E i k st (on_svc (update_context k g) st1)"
    by (rule sync_good_trans [OF ready good1 sync_good_update [OF ready1]]) (simp add: g_def)
  show ?thesis
  proof (cases "path_exists F (x_path (contexts (svc st) ! k)) (svc st) \<and>
      entry_type (snd (fs_stat F (x_path (contexts (svc st) ! k)) (storage (svc st)))) \<noteq> FS_DIR_ENTRY_FILE")
    case True
    then have "fail_transfer F E k ''destination is not a file'' SYNC_DRAIN_HEADER st = (ret, st')"
      using create by (simp add: create_partial_def)
    from fail_transfer_started [OF ready this base same] show ?thesis .
  next
    case False
    then have res: "(if r \<noteq> 0 then fail_transfer F E k ''cannot create partial file'' SYNC_DRAIN_HEADER st1
        else (0, on_svc (update_context k g) st1)) = (ret, st')"
      using create unfolding create_partial_def Let_def if_not_P [OF False] "open"
      by (simp add: st1_def g_def split: if_splits)
    show ?thesis
    proof (cases "r = 0")
      case True
      have "contexts (svc (on_svc (update_context k g) st1)) ! k = g (contexts (svc st) ! k)"
        using ready by (simp add: st1_def sync_ready_def)
      with res True good2 base same show ?thesis by (auto simp: send_started_def g_def ctx_base_def)
    next
      case False
      with res have fail: "fail_transfer F E k ''cannot create partial file'' SYNC_DRAIN_HEADER st1 = (ret, st')" by simp
      have "sync_good E i k st1 st' \<and> send_started (conf E) ret x (contexts (svc st') ! k)"
        using base same by (intro fail_transfer_started [OF ready1 fail]) (simp_all add: st1_def)
      then show ?thesis using sync_good_trans [OF ready good1] by blast
    qed
  qed
qed

lemma start_upload_good:
  assumes ready: "sync_ready E i k st" and start: "start_upload F E k path st = (ret, st')"
    and base: "ctx_base (conf E) (contexts (svc st) ! k)" and path: "length path < WEBOS_ADB_SYNC_PATH_MAX (conf E)"
    and same: "x_header_used (contexts (svc st) ! k) = x_header_used x" "x_stream (contexts (svc st) ! k) = x_stream x"
      "x_spec_used (contexts (svc st) ! k) = x_spec_used x" "x_remaining (contexts (svc st) ! k) = x_remaining x"
      "x_state (contexts (svc st) ! k) = x_state x"
  shows "sync_good E i k st st' \<and> send_started (conf E) ret x (contexts (svc st') ! k)"
proof -
  define st1 where "st1 = on_svc (update_context k (\<lambda>x. x\<lparr>x_path := path\<rparr>)) st"
  have good1: "sync_good E i k st st1" unfolding st1_def by (rule sync_good_update [OF ready]) simp
  note ready1 = sync_good_ready [OF good1 ready]
  have x1: "contexts (svc st1) ! k = (contexts (svc st) ! k)\<lparr>x_path := path\<rparr>"
    using ready by (simp add: st1_def sync_ready_def)
  obtain r s where choose: "choose_side_paths F (conf E) k SYNC_SIDE_ATTEMPTS (svc st1) = (r, s)" by fastforce
  obtain t b where s: "ctx_step k (svc st1) s"
    "contexts s ! k = (contexts (svc st) ! k)\<lparr>x_path := path, x_temporary := t, x_backup := b\<rparr>"
    "length t < SYNC_SIDE_CAPACITY (conf E)" "length b < SYNC_SIDE_CAPACITY (conf E)"
    using choose_side_paths_ctx [OF _ choose] ready1 base x1 by (auto simp: sync_ready_def ctx_base_def)
  define st2 where "st2 = st1\<lparr>svc := s\<rparr>"
  have good2: "sync_good E i k st st2" unfolding st2_def
    using s ready by (intro sync_good_trans [OF ready good1] sync_good_svc [OF ready1]) (auto simp: sync_ready_def)
  note ready2 = sync_good_ready [OF good2 ready]
  have base2: "ctx_base (conf E) (contexts (svc st2) ! k)" using base path s by (simp add: ctx_base_def st2_def)
  have same2: "x_header_used (contexts (svc st2) ! k) = x_header_used x" "x_stream (contexts (svc st2) ! k) = x_stream x"
      "x_spec_used (contexts (svc st2) ! k) = x_spec_used x" "x_remaining (contexts (svc st2) ! k) = x_remaining x"
      "x_state (contexts (svc st2) ! k) = x_state x"
    using same s(2) by (simp_all add: st2_def)
  have "sync_good E i k st2 st' \<and> send_started (conf E) ret x (contexts (svc st') ! k)"
  proof (cases "r = 0")
    case True
    then have "create_partial F E k st2 = (ret, st')"
      using start choose by (simp add: start_upload_def st1_def [symmetric] st2_def)
    from create_partial_good [OF ready2 this base2 same2] show ?thesis .
  next
    case False
    then have "fail_transfer F E k (if r = - ENAMETOOLONG then ''path too long'' else ''no free staging name'')
        SYNC_DRAIN_HEADER st2 = (ret, st')"
      using start choose by (simp add: start_upload_def st1_def [symmetric] st2_def)
    from fail_transfer_started [OF ready2 this base2 same2] show ?thesis .
  qed
  then show ?thesis using sync_good_trans [OF ready good2] by blast
qed

lemma start_send_good:
  assumes ready: "sync_ready E i k st" and start: "start_send F E k st = (ret, st')"
    and base: "ctx_base (conf E) (contexts (svc st) ! k)"
  shows "sync_good E i k st st' \<and> send_started (conf E) ret (contexts (svc st) ! k) (contexts (svc st') ! k)"
proof -
  define x where "x = contexts (svc st) ! k"
  define st1 where "st1 = on_svc (terminate_spec k) st"
  have good1: "sync_good E i k st st1"
    unfolding terminate_spec_def st1_def by (rule sync_good_update [OF ready]) simp
  note ready1 = sync_good_ready [OF good1 ready]
  have x1: "contexts (svc st1) ! k = x\<lparr>x_spec := (x_spec x)[x_spec_used x := NUL]\<rparr>"
    using ready by (simp add: st1_def x_def terminate_spec_def sync_ready_def)
  have fails: ?thesis if "fail_transfer F E k reason SYNC_DRAIN_HEADER st1 = (ret, st')" for reason
    using fail_transfer_started [OF ready1 that, of "conf E" x] base x1 sync_good_trans [OF ready good1]
    by (simp add: x_def ctx_base_def)
  show ?thesis
  proof (cases "\<exists>reason. fail_transfer F E k reason SYNC_DRAIN_HEADER st1 = (ret, st')")
    case True
    then show ?thesis using fails by blast
  next
    case False
    define path where "path = fst (the (split_last (CHR '','') (c_string (x_spec (contexts (svc st1) ! k)))))"
    define st2 where "st2 = on_svc (update_context k (\<lambda>x. x\<lparr>x_spec := (x_spec x)[length path := NUL]\<rparr>)) st1"
    have good2: "sync_good E i k st st2" unfolding st2_def
      by (rule sync_good_trans [OF ready good1 sync_good_update [OF ready1]]) simp
    note ready2 = sync_good_ready [OF good2 ready]
    have x2: "contexts (svc st2) ! k = x\<lparr>x_spec := (x_spec x)[x_spec_used x := NUL, length path := NUL]\<rparr>"
      using ready1 x1 by (simp add: st2_def sync_ready_def)
    have "(\<exists>reason. fail_transfer F E k reason SYNC_DRAIN_HEADER st2 = (ret, st')) \<or>
        length path < WEBOS_ADB_SYNC_PATH_MAX (conf E) \<and> start_upload F E k path st2 = (ret, st')"
      using start False unfolding start_send_def st1_def [symmetric] Let_def
      by (auto simp: st2_def path_def split: if_splits option.splits prod.splits)
    moreover have base2: "ctx_base (conf E) (contexts (svc st2) ! k)" using base by (simp add: x2 x_def ctx_base_def)
    ultimately have "sync_good E i k st2 st' \<and> send_started (conf E) ret x (contexts (svc st') ! k)"
      using fail_transfer_started [OF ready2 _ base2, of F _ ret st' x] start_upload_good [OF ready2 _ base2, of F path ret st' x]
      by (auto simp: x2)
    then show ?thesis using sync_good_trans [OF ready good2] by (simp add: x_def)
  qed
qed

lemma finish_send_good:
  assumes ready: "sync_ready E i k st" and finish: "finish_send F E k st = (ret, st')"
  shows "sync_good E i k st st' \<and> (\<exists>state. contexts (svc st') ! k =
      (contexts (svc st) ! k)\<lparr>x_file_open := False, x_temporary_live := False, x_state := state\<rparr> \<and>
      (if ret = 0 then header_state state \<and> state \<noteq> SYNC_SEND_HEADER else state = x_state (contexts (svc st) ! k)))"
proof -
  define x where "x = contexts (svc st) ! k"
  obtain r s where replace: "replace_destination F k (svc st) = (r, s)" by fastforce
  define st1 where "st1 = st\<lparr>svc := s\<rparr>"
  have s: "ctx_step k (svc st) s" "contexts s ! k = x\<lparr>x_file_open := False, x_temporary_live := r \<noteq> 0 \<and> x_temporary_live x\<rparr>"
    using replace_destination_ctx [OF _ replace] ready by (auto simp: sync_ready_def x_def)
  have good1: "sync_good E i k st st1" unfolding st1_def
    using s ready by (intro sync_good_svc) (auto simp: sync_ready_def x_def)
  note ready1 = sync_good_ready [OF good1 ready]
  show ?thesis
  proof (cases "r = 0")
    case False
    then have "fail_transfer F E k ''cannot install completed file'' SYNC_DRAIN_HEADER st1 = (ret, st')"
      using finish replace by (simp add: finish_send_def st1_def)
    from fail_transfer_good [OF ready1 this] sync_good_trans [OF ready good1] show ?thesis
      using s(2) by (auto simp: st1_def x_def header_state_def)
  next
    case True
    obtain r2 st2 where status: "send_status E k SYNC_ID_OKAY None st1 = (r2, st2)" by fastforce
    have good2: "sync_good E i k st st2" "svc st2 = s"
      using sync_good_status [OF ready1 status] sync_good_trans [OF ready good1] by (auto simp: st1_def)
    note ready2 = sync_good_ready [OF good2(1) ready]
    have good3: "sync_good E i k st (on_svc (set_state k SYNC_REQUEST_HEADER) st2)"
      unfolding set_state_def by (rule sync_good_trans [OF ready good2(1) sync_good_update [OF ready2]]) simp
    have "ret = r2 \<and> st' = (if r2 = 0 then on_svc (set_state k SYNC_REQUEST_HEADER) st2 else st2)"
      using finish replace True status by (auto simp: finish_send_def st1_def)
    moreover have "contexts (svc (on_svc (set_state k SYNC_REQUEST_HEADER) st2)) ! k = (contexts s ! k)\<lparr>x_state := SYNC_REQUEST_HEADER\<rparr>"
      using ready2 good2(2) by (simp add: set_state_def sync_ready_def)
    ultimately show ?thesis using good2 good3 s(2) True by (cases "r2 = 0") (auto simp: x_def header_state_def)
  qed
qed

lemma request_header_good:
  assumes ready: "sync_ready E i k st" and request: "request_header E k ident val st = (ret, st')"
    and ok: "ctx_ok c (contexts (svc st) ! k)" and state: "x_state (contexts (svc st) ! k) = SYNC_REQUEST_HEADER"
  shows "sync_good E i k st st' \<and> ctx_ok c (contexts (svc st') ! k)"
proof -
  define x where "x = contexts (svc st) ! k"
  have stream: "x_stream x = Some i" and k: "k < length (contexts (svc st))" using ready by (auto simp: sync_ready_def x_def)
  have closed: "\<not> x_file_open x" "\<not> x_temporary_live x" using ok state by (auto simp: ctx_ok_def x_def)
  define g :: "sync_context \<Rightarrow> sync_context" where "g = (\<lambda>x. x\<lparr>x_remaining := val, x_spec_used := 0,
    x_state := if ident = SYNC_ID_SEND then SYNC_REQUEST_SPEC else SYNC_STAT_PATH\<rparr>)"
  obtain r st1 where status: "send_status E k SYNC_ID_FAIL (Some ''only bounded STAT and SEND are supported'') st = (r, st1)"
    by fastforce
  note good1 = sync_good_status [OF ready status]
  note ready1 = sync_good_ready [OF conjunct1 [OF good1] ready]
  define st2 where "st2 = on_svc (set_record k 0 SYNC_DISCARD_AND_CLOSE) st1"
  have good2: "sync_good E i k st st2" unfolding st2_def set_record_def
    by (rule sync_good_trans [OF ready conjunct1 [OF good1] sync_good_update [OF ready1]]) simp
  note good3 = sync_good_close [OF sync_good_ready [OF good2 ready]]
  have x2: "contexts (svc st2) ! k = x\<lparr>x_remaining := 0, x_state := SYNC_DISCARD_AND_CLOSE\<rparr>"
    using good1 k by (simp add: st2_def set_record_def x_def)
  consider "st' = webos_adb_stream_close E (Some i) st"
    | "unat val < length (x_spec x)" "st' = on_svc (update_context k g) st"
    | "st' = st1" | "st' = webos_adb_stream_close E (Some i) st2"
    using request stream status unfolding request_header_def Let_def x_def [symmetric] g_def [symmetric]
    by (auto simp: st2_def split: if_splits)
  then show ?thesis
  proof cases
    case 1
    then show ?thesis using sync_good_close [OF ready] ok by simp
  next
    case 2
    have "sync_good E i k st st'" unfolding 2 by (rule sync_good_update [OF ready]) (simp add: g_def)
    moreover have "contexts (svc st') ! k = g x" using k by (simp add: 2 x_def)
    ultimately show ?thesis using 2(1) ok closed stream by (simp add: ctx_ok_def ctx_base_def g_def x_def)
  next
    case 3
    then show ?thesis using good1 ok by simp
  next
    case 4
    then show ?thesis using good3 good2 x2 ok closed stream sync_good_trans [OF ready good2]
      by (simp add: ctx_ok_def ctx_base_def x_def)
  qed
qed

lemma drain_header_good:
  assumes ready: "sync_ready E i k st" and drain: "drain_header E k ident val st = (ret, st')"
    and ok: "ctx_ok (conf E) (contexts (svc st) ! k)" and state: "x_state (contexts (svc st) ! k) = SYNC_DRAIN_HEADER"
  shows "sync_good E i k st st' \<and> ctx_ok (conf E) (contexts (svc st') ! k)"
proof -
  define x where "x = contexts (svc st) ! k"
  have stream: "x_stream x = Some i" and k: "k < length (contexts (svc st))" using ready by (auto simp: sync_ready_def x_def)
  have closed: "\<not> x_file_open x" "\<not> x_temporary_live x" using ok state by (auto simp: ctx_ok_def x_def)
  consider "st' = on_svc (set_state k SYNC_REQUEST_HEADER) st" | "st' = webos_adb_stream_close E (Some i) st"
    | "unat val \<le> WEBOS_ADB_SYNC_DATA_MAX (conf E)"
      "st' = on_svc (set_record k val (if val = 0 then SYNC_DRAIN_HEADER else SYNC_DRAIN_DATA)) st"
    using drain stream by (auto simp: drain_header_def x_def split: if_splits)
  then show ?thesis
  proof cases
    case 1
    have "sync_good E i k st st'" unfolding 1 set_state_def by (rule sync_good_update [OF ready]) simp
    moreover have "contexts (svc st') ! k = x\<lparr>x_state := SYNC_REQUEST_HEADER\<rparr>" using k by (simp add: 1 set_state_def x_def)
    ultimately show ?thesis using ok closed stream by (simp add: ctx_ok_def ctx_base_def x_def)
  next
    case 2
    then show ?thesis using sync_good_close [OF ready] ok by simp
  next
    case 3
    have "sync_good E i k st st'" unfolding 3 set_record_def by (rule sync_good_update [OF ready]) simp
    moreover have "contexts (svc st') ! k = x\<lparr>x_remaining := val, x_state := if val = 0 then SYNC_DRAIN_HEADER else SYNC_DRAIN_DATA\<rparr>"
      using k by (simp add: 3 set_record_def x_def)
    ultimately show ?thesis using 3(1) ok closed stream by (simp add: ctx_ok_def ctx_base_def x_def)
  qed
qed

lemma data_header_good:
  assumes ready: "sync_ready E i k st" and data: "data_header F E k ident val st = (ret, st')"
    and ok: "ctx_ok (conf E) (contexts (svc st) ! k)" and state: "x_state (contexts (svc st) ! k) = SYNC_SEND_HEADER"
  shows "sync_good E i k st st' \<and> ctx_ok (conf E) (contexts (svc st') ! k)"
proof -
  define x where "x = contexts (svc st) ! k"
  have stream: "x_stream x = Some i" and k: "k < length (contexts (svc st))" using ready by (auto simp: sync_ready_def x_def)
  obtain r st1 where fail: "fail_transfer F E k ''invalid or oversized DATA'' SYNC_DISCARD_AND_CLOSE st = (r, st1)" by fastforce
  note good1 = fail_transfer_good [OF ready fail]
  have stream1: "x_stream (contexts (svc st1) ! k) = Some i" using good1 stream by (simp add: x_def)
  note good2 = sync_good_close [OF sync_good_ready [OF conjunct1 [OF good1] ready]]
  consider "finish_send F E k st = (ret, st')" | "st' = webos_adb_stream_close E (Some i) st1"
    | "unat val \<le> WEBOS_ADB_SYNC_DATA_MAX (conf E)"
      "st' = on_svc (set_record k val (if val = 0 then SYNC_SEND_HEADER else SYNC_SEND_DATA)) st"
    using data fail stream1 by (auto simp: data_header_def split: if_splits)
  then show ?thesis
  proof cases
    case 1
    from finish_send_good [OF ready 1] show ?thesis using ok stream state
      by (auto simp: ctx_ok_def ctx_base_def x_def header_state_def split: if_splits)
  next
    case 2
    then show ?thesis
      using good1 good2 sync_good_trans [OF ready, of st1 st'] ok stream state
      by (auto simp: ctx_ok_def ctx_base_def x_def)
  next
    case 3
    have "sync_good E i k st st'" unfolding 3 set_record_def by (rule sync_good_update [OF ready]) simp
    moreover have "contexts (svc st') ! k = x\<lparr>x_remaining := val, x_state := if val = 0 then SYNC_SEND_HEADER else SYNC_SEND_DATA\<rparr>"
      using k by (simp add: 3 set_record_def x_def)
    ultimately show ?thesis using 3(1) ok stream state by (simp add: ctx_ok_def ctx_base_def x_def)
  qed
qed

lemma process_header_good:
  assumes ready: "sync_ready E i k st" and process: "process_header F E k st = (ret, st')"
    and ok: "ctx_ok (conf E) ((contexts (svc st) ! k)\<lparr>x_header_used := 0\<rparr>)"
    and state: "header_state (x_state (contexts (svc st) ! k))"
  shows "sync_good E i k st st' \<and> ctx_ok (conf E) (contexts (svc st') ! k)"
proof -
  define st1 where "st1 = on_svc (update_context k (\<lambda>x. x\<lparr>x_header_used := 0\<rparr>)) st"
  have good1: "sync_good E i k st st1" unfolding st1_def by (rule sync_good_update [OF ready]) simp
  note ready1 = sync_good_ready [OF good1 ready]
  have x1: "contexts (svc st1) ! k = (contexts (svc st) ! k)\<lparr>x_header_used := 0\<rparr>"
    using ready by (simp add: st1_def sync_ready_def)
  have ok1: "ctx_ok (conf E) (contexts (svc st1) ! k)" using ok by (simp add: x1)
  obtain ident val where "request_header E k ident val st1 = (ret, st') \<and> x_state (contexts (svc st1) ! k) = SYNC_REQUEST_HEADER \<or>
      drain_header E k ident val st1 = (ret, st') \<and> x_state (contexts (svc st1) ! k) = SYNC_DRAIN_HEADER \<or>
      data_header F E k ident val st1 = (ret, st') \<and> x_state (contexts (svc st1) ! k) = SYNC_SEND_HEADER"
    using process state unfolding process_header_def Let_def st1_def [symmetric]
    by (auto simp: x1 header_state_def split: if_splits)
  then have "sync_good E i k st1 st' \<and> ctx_ok (conf E) (contexts (svc st') ! k)"
    using request_header_good [OF ready1 _ ok1] drain_header_good [OF ready1 _ ok1] data_header_good [OF ready1 _ ok1]
    by blast
  then show ?thesis using sync_good_trans [OF ready good1] by blast
qed

section \<open>The loop\<close>

text \<open>A pass that reads nothing moves to a state that reads a header, so two passes always read a byte.\<close>

definition idle_rank :: "sync_context \<Rightarrow> nat" where
  "idle_rank x =
     (if \<not> header_state (x_state x) \<and> x_state x \<noteq> SYNC_DISCARD_AND_CLOSE \<and> x_remaining x = 0 then 1 else 0)"

definition pass_good where
  "pass_good E i k data st res \<longleftrightarrow>
     (case res of
        Inl (ret, st') \<Rightarrow> sync_good E i k st st' \<and> ctx_ok (conf E) (contexts (svc st') ! k)
      | Inr (data', st') \<Rightarrow> sync_good E i k st st' \<and> ctx_ok (conf E) (contexts (svc st') ! k) \<and>
          2 * length data' + idle_rank (contexts (svc st') ! k) < 2 * length data + idle_rank (contexts (svc st) ! k))"

lemma idle_rank_le: "idle_rank x \<le> 1"
  by (simp add: idle_rank_def)

lemma shorter_measure: "length data' < length data \<Longrightarrow> 2 * length data' + idle_rank x' < 2 * length data + idle_rank x"
  using idle_rank_le [of x'] by linarith

lemma header_pass_good:
  assumes ready: "sync_ready E i k st" and ok: "ctx_ok (conf E) (contexts (svc st) ! k)"
    and state: "header_state (x_state (contexts (svc st) ! k))" and data: "data \<noteq> []"
  shows "pass_good E i k data st (header_pass F E k data st)"
proof -
  define x where "x = contexts (svc st) ! k"
  define count where "count = min (length data) (SYNC_HEADER_SIZE - x_header_used x)"
  define st1 where "st1 = on_svc (update_context k (\<lambda>x. x\<lparr>x_header := memcpy (x_header x) (x_header_used x) (take count data),
    x_header_used := x_header_used x + count\<rparr>)) st"
  have k: "k < length (contexts (svc st))" and stream: "x_stream x = Some i" using ready by (auto simp: sync_ready_def x_def)
  have used: "x_header_used x < SYNC_HEADER_SIZE" "length (x_header x) = SYNC_HEADER_SIZE"
    using ok by (simp_all add: ctx_ok_def ctx_base_def x_def)
  then have count: "0 < count" "x_header_used x + count \<le> SYNC_HEADER_SIZE" "length (drop count data) < length data"
    using data by (auto simp: count_def)
  have good1: "sync_good E i k st st1" unfolding st1_def by (rule sync_good_update [OF ready]) simp
  note ready1 = sync_good_ready [OF good1 ready]
  have x1: "contexts (svc st1) ! k = x\<lparr>x_header := memcpy (x_header x) (x_header_used x) (take count data),
      x_header_used := x_header_used x + count\<rparr>" using k by (simp add: st1_def x_def)
  have len1: "length (memcpy (x_header x) (x_header_used x) (take count data)) = SYNC_HEADER_SIZE"
    using used count by (simp add: length_memcpy)
  have ok0: "ctx_ok (conf E) ((contexts (svc st1) ! k)\<lparr>x_header_used := n\<rparr>)" if "n < SYNC_HEADER_SIZE" for n
    using ok len1 that stream by (auto simp: ctx_ok_def ctx_base_def x1 x_def [symmetric])
  obtain r st2 where process: "process_header F E k st1 = (r, st2)" by fastforce
  have "header_pass F E k data st =
      (if x_header_used x + count = SYNC_HEADER_SIZE then if r \<noteq> 0 then Inl (r, st2) else Inr (drop count data, st2)
       else Inr (drop count data, st1))"
    unfolding header_pass_def Let_def x_def [symmetric] count_def [symmetric] st1_def [symmetric]
    by (simp add: process x1)
  moreover have "sync_good E i k st st2 \<and> ctx_ok (conf E) (contexts (svc st2) ! k)"
    using process_header_good [OF ready1 process ok0 [of 0]] state used sync_good_trans [OF ready good1]
    by (simp add: x1 x_def SYNC_HEADER_SIZE_def)
  moreover have "ctx_ok (conf E) (contexts (svc st1) ! k)" if "x_header_used x + count \<noteq> SYNC_HEADER_SIZE"
    using ok0 [of "x_header_used x + count"] count that by (simp add: x1)
  ultimately show ?thesis using good1 shorter_measure [OF count(3)] by (simp add: pass_good_def)
qed

lemma unat_minus_count: "n \<le> unat (w :: u32) \<Longrightarrow> unat (w - word_of_nat n) = unat w - n"
  by (metis le_unat_uoi unat_sub_if_size word_le_nat_alt)

lemma idle_measure:
  assumes "count = min (length data) (unat (x_remaining x))" "data \<noteq> []" "x_remaining x = 0 \<Longrightarrow> idle_rank x = 1"
    "header_state (x_state x')"
  shows "2 * length (drop count data) + idle_rank x' < 2 * length data + idle_rank x"
proof -
  have "idle_rank x' = 0" using assms(4) by (simp add: idle_rank_def)
  moreover have "length (drop count data) < length data" if "x_remaining x \<noteq> 0"
  proof -
    have "0 < count" using that assms(1,2) by (simp add: unat_gt_0)
    then show ?thesis using assms(2) by simp
  qed
  ultimately show ?thesis using assms(2,3) by (cases "x_remaining x = 0") auto
qed

lemma send_started_ok:
  assumes "send_started c ret x x'" "x_stream x \<noteq> None" "x_state x = SYNC_REQUEST_SPEC"
    "x_spec_used x + unat (x_remaining x) < SYNC_SPEC_CAPACITY c"
  shows "ctx_ok c x' \<and> (ret = 0 \<longrightarrow> header_state (x_state x'))"
  using assms by (auto simp: send_started_def ctx_ok_def ctx_base_def header_state_def split: if_splits)

lemma stat_done_ok:
  "ctx_ok c x \<Longrightarrow> length spec = length (x_spec x) \<Longrightarrow> \<not> x_file_open x \<Longrightarrow> x_stream x \<noteq> None \<Longrightarrow>
    ctx_ok c (x\<lparr>x_spec := spec, x_state := SYNC_REQUEST_HEADER\<rparr>)"
  by (auto simp: ctx_ok_def ctx_base_def)

lemma spec_pass_good:
  assumes ready: "sync_ready E i k st" and ok: "ctx_ok (conf E) (contexts (svc st) ! k)"
    and state: "x_state (contexts (svc st) ! k) = SYNC_REQUEST_SPEC \<or> x_state (contexts (svc st) ! k) = SYNC_STAT_PATH"
    and data: "data \<noteq> []"
  shows "pass_good E i k data st (spec_pass F E k data st)"
proof -
  define x where "x = contexts (svc st) ! k"
  define count where "count = min (length data) (unat (x_remaining x))"
  define spec where "spec = memcpy (x_spec x) (x_spec_used x) (take count data)"
  define st1 where "st1 = on_svc (update_context k (\<lambda>x. x\<lparr>x_spec := memcpy (x_spec x) (x_spec_used x) (take count data),
    x_spec_used := x_spec_used x + count, x_remaining := x_remaining x - word_of_nat count\<rparr>)) st"
  have k: "k < length (contexts (svc st))" and stream: "x_stream x = Some i" using ready by (auto simp: sync_ready_def x_def)
  have closed: "\<not> x_file_open x" "\<not> x_temporary_live x" and base: "ctx_base (conf E) x"
    and bound: "x_spec_used x + unat (x_remaining x) < length (x_spec x)"
    using ok state by (auto simp: ctx_ok_def x_def)
  have left: "unat (x_remaining x - word_of_nat count) = unat (x_remaining x) - count"
    by (rule unat_minus_count) (simp add: count_def)
  have good1: "sync_good E i k st st1" unfolding st1_def by (rule sync_good_update [OF ready]) simp
  note ready1 = sync_good_ready [OF good1 ready]
  have x1: "contexts (svc st1) ! k = x\<lparr>x_spec := spec, x_spec_used := x_spec_used x + count,
      x_remaining := x_remaining x - word_of_nat count\<rparr>" using k by (simp add: st1_def x_def spec_def)
  have spec: "length spec = length (x_spec x)" using bound by (simp add: spec_def length_memcpy count_def)
  then have base1: "ctx_base (conf E) (contexts (svc st1) ! k)" using base by (simp add: x1 ctx_base_def)
  have ok1: "ctx_ok (conf E) (contexts (svc st1) ! k)"
    using ok closed bound spec left stream state by (auto simp: x1 ctx_ok_def ctx_base_def x_def count_def)
  obtain r st2 where next_: "(if x_state x = SYNC_STAT_PATH then send_stat F E k st1 else start_send F E k st1) = (r, st2)"
    by fastforce
  have res: "spec_pass F E k data st =
      (if x_remaining x - word_of_nat count = 0 then if r \<noteq> 0 then Inl (r, st2) else Inr (drop count data, st2)
       else Inr (drop count data, st1))"
    unfolding spec_pass_def Let_def x_def [symmetric] count_def [symmetric] st1_def [symmetric]
    by (simp add: next_ x1)
  show ?thesis
  proof (cases "x_remaining x - word_of_nat count = 0")
    case False
    then have "length (drop count data) < length data"
      using data left by (auto simp: count_def min_def split: if_splits)
    from shorter_measure [OF this, of "contexts (svc st1) ! k" "contexts (svc st) ! k"]
    show ?thesis using False res good1 ok1 by (simp add: pass_good_def)
  next
    case True
    have "sync_good E i k st st2 \<and> ctx_ok (conf E) (contexts (svc st2) ! k) \<and>
        (r = 0 \<longrightarrow> header_state (x_state (contexts (svc st2) ! k)))"
    proof (cases "x_state x = SYNC_STAT_PATH")
      case True
      then have "send_stat F E k st1 = (r, st2)" using next_ by simp
      from send_stat_good [OF ready1 this] obtain spec' where good2: "sync_good E i k st1 st2"
        and spec': "length spec' = length (x_spec (contexts (svc st1) ! k))"
        and x2: "contexts (svc st2) ! k = (contexts (svc st1) ! k)\<lparr>x_spec := spec', x_state := SYNC_REQUEST_HEADER\<rparr>" by blast
      have "ctx_ok (conf E) (contexts (svc st2) ! k)" unfolding x2
        by (rule stat_done_ok [OF ok1 spec']) (use closed stream in \<open>simp_all add: x1\<close>)
      moreover have "header_state (x_state (contexts (svc st2) ! k))" by (simp add: x2 header_state_def)
      ultimately show ?thesis using sync_good_trans [OF ready good1 good2] by blast
    next
      case False
      then have start: "start_send F E k st1 = (r, st2)" using next_ by simp
      note good2 = start_send_good [OF ready1 start base1]
      have "x_state x = SYNC_REQUEST_SPEC" using False state by (simp add: x_def)
      then have "ctx_ok (conf E) (contexts (svc st2) ! k) \<and> (r = 0 \<longrightarrow> header_state (x_state (contexts (svc st2) ! k)))"
        using ok1 base1 stream by (intro send_started_ok [OF conjunct2 [OF good2]]) (simp_all add: x1 ctx_ok_def ctx_base_def)
      then show ?thesis using sync_good_trans [OF ready good1 conjunct1 [OF good2]] by blast
    qed
    moreover have "x_remaining x = 0 \<Longrightarrow> idle_rank x = 1" using state by (auto simp: idle_rank_def header_state_def x_def)
    ultimately show ?thesis using True res idle_measure [OF count_def data] by (simp add: pass_good_def x_def)
  qed
qed

lemma data_pass_good:
  assumes ready: "sync_ready E i k st" and ok: "ctx_ok (conf E) (contexts (svc st) ! k)"
    and state: "x_state (contexts (svc st) ! k) = SYNC_SEND_DATA" and data: "data \<noteq> []"
  shows "pass_good E i k data st (data_pass F E k data st)"
proof -
  define x where "x = contexts (svc st) ! k"
  define count where "count = min (length data) (unat (x_remaining x))"
  define left where "left = x_remaining x - word_of_nat count"
  obtain written f where "write": "fs_write F (x_file x) (take count data) (storage (svc st)) = (written, f)" by fastforce
  define st1 where "st1 = on_svc (\<lambda>s. (update_context k (\<lambda>x. x\<lparr>x_remaining := left\<rparr>) s)\<lparr>storage := f\<rparr>) st"
  have k: "k < length (contexts (svc st))" and stream: "x_stream x = Some i" using ready by (auto simp: sync_ready_def x_def)
  have unat_left: "unat left = unat (x_remaining x) - count"
    unfolding left_def by (rule unat_minus_count) (simp add: count_def)
  have x1: "contexts (svc st1) ! k = x\<lparr>x_remaining := left\<rparr>" using k by (simp add: st1_def x_def)
  have good1: "sync_good E i k st st1" unfolding st1_def
    using ready k by (intro sync_good_on_svc) (auto simp: sync_ready_def intro!: ctx_step_intros)
  note ready1 = sync_good_ready [OF good1 ready]
  have ok1: "ctx_ok (conf E) (x\<lparr>x_remaining := left, x_file_open := b, x_temporary_live := b, x_state := s'\<rparr>)"
    if "b \<longrightarrow> s' = SYNC_SEND_HEADER \<or> s' = SYNC_SEND_DATA" "s' \<noteq> SYNC_REQUEST_SPEC" "s' \<noteq> SYNC_STAT_PATH" for b s'
    using ok that state unat_left stream by (auto simp: ctx_ok_def ctx_base_def x_def)
  have x_eq: "x\<lparr>x_remaining := left\<rparr> = x\<lparr>x_remaining := left, x_file_open := x_file_open x,
      x_temporary_live := x_file_open x, x_state := SYNC_SEND_DATA\<rparr>"
    "x\<lparr>x_remaining := left, x_state := SYNC_SEND_HEADER\<rparr> = x\<lparr>x_remaining := left, x_file_open := x_file_open x,
      x_temporary_live := x_file_open x, x_state := SYNC_SEND_HEADER\<rparr>"
    using ok state by (simp_all add: ctx_ok_def x_def)
  have shorter: "left \<noteq> 0 \<Longrightarrow> length (drop count data) < length data"
  proof -
    assume "left \<noteq> 0"
    then have "unat left \<noteq> 0" by (simp add: unat_eq_0)
    then show ?thesis using data unat_left by (auto simp: count_def min_def split: if_splits)
  qed
  have rank: "x_remaining x = 0 \<Longrightarrow> idle_rank x = 1" using state by (simp add: idle_rank_def header_state_def x_def)
  have measure: "2 * length (drop count data) + idle_rank x' < 2 * length data + idle_rank x"
    if "left = 0 \<Longrightarrow> header_state (x_state x')" for x'
    using shorter_measure [of "drop count data" data x' x] shorter idle_measure [OF count_def data rank] that
    by (cases "left = 0") auto
  obtain r st2 where fail: "fail_transfer F E k ''write failed'' (if left = 0 then SYNC_DRAIN_HEADER else SYNC_DRAIN_DATA) st1 = (r, st2)"
    by fastforce
  note good2 = fail_transfer_good [OF ready1 fail]
  have x2: "contexts (svc st2) ! k = x\<lparr>x_remaining := left, x_file_open := False, x_temporary_live := False,
      x_state := if r = 0 then (if left = 0 then SYNC_DRAIN_HEADER else SYNC_DRAIN_DATA) else SYNC_SEND_DATA\<rparr>"
    using good2 state by (simp add: x1 x_def)
  define st3 where "st3 = (if left = 0 then on_svc (set_state k SYNC_SEND_HEADER) st1 else st1)"
  have good3: "sync_good E i k st st3" unfolding st3_def set_state_def
    using good1 sync_good_trans [OF ready good1 sync_good_update [OF ready1]] by simp
  have x3: "contexts (svc st3) ! k = (if left = 0 then x\<lparr>x_remaining := left, x_state := SYNC_SEND_HEADER\<rparr> else x\<lparr>x_remaining := left\<rparr>)"
    using ready1 x1 by (simp add: st3_def set_state_def sync_ready_def)
  have res: "data_pass F E k data st =
      (if written < 0 \<or> nat written \<noteq> count then if r \<noteq> 0 then Inl (- EIO, st2) else Inr (drop count data, st2)
       else Inr (drop count data, st3))"
    unfolding data_pass_def Let_def x_def [symmetric] count_def [symmetric] "write" split_conv left_def [symmetric] st1_def [symmetric] fail st3_def
    by simp
  have "sync_good E i k st st2" using good2 sync_good_trans [OF ready good1] by blast
  moreover have "ctx_ok (conf E) (contexts (svc st2) ! k)" unfolding x2 by (rule ok1) auto
  moreover have "ctx_ok (conf E) (x\<lparr>x_remaining := left\<rparr>)" by (subst x_eq(1)) (rule ok1, simp_all)
  moreover have "ctx_ok (conf E) (x\<lparr>x_remaining := left, x_state := SYNC_SEND_HEADER\<rparr>)"
    by (subst x_eq(2)) (rule ok1, simp_all)
  ultimately have oks: "ctx_ok (conf E) (contexts (svc st2) ! k)" "ctx_ok (conf E) (contexts (svc st3) ! k)"
    "sync_good E i k st st2"
    unfolding x3 by presburger+
  have "2 * length (drop count data) + idle_rank (contexts (svc st2) ! k) < 2 * length data + idle_rank x" if "r = 0"
    using that by (intro measure) (simp add: x2 header_state_def)
  moreover have "2 * length (drop count data) + idle_rank (contexts (svc st3) ! k) < 2 * length data + idle_rank x"
    by (intro measure) (simp add: x3 header_state_def)
  ultimately show ?thesis using good3 oks by (simp add: pass_good_def res x_def [symmetric])
qed

lemma drain_pass_good:
  assumes ready: "sync_ready E i k st" and ok: "ctx_ok (conf E) (contexts (svc st) ! k)"
    and state: "x_state (contexts (svc st) ! k) = SYNC_DRAIN_DATA \<or>
      x_state (contexts (svc st) ! k) = SYNC_DISCARD_AND_CLOSE \<and> x_remaining (contexts (svc st) ! k) \<noteq> 0"
    and data: "data \<noteq> []"
  shows "pass_good E i k data st (drain_pass E k data st)"
proof -
  define x where "x = contexts (svc st) ! k"
  define count where "count = min (length data) (unat (x_remaining x))"
  define left where "left = x_remaining x - word_of_nat count"
  define st1 where "st1 = on_svc (update_context k (\<lambda>x. x\<lparr>x_remaining := left\<rparr>)) st"
  have k: "k < length (contexts (svc st))" and stream: "x_stream x = Some i" using ready by (auto simp: sync_ready_def x_def)
  have unat_left: "unat left = unat (x_remaining x) - count"
    unfolding left_def by (rule unat_minus_count) (simp add: count_def)
  have x1: "contexts (svc st1) ! k = x\<lparr>x_remaining := left\<rparr>" using k by (simp add: st1_def x_def)
  have good1: "sync_good E i k st st1" unfolding st1_def by (rule sync_good_update [OF ready]) simp
  note ready1 = sync_good_ready [OF good1 ready]
  have closed: "\<not> x_file_open x" "\<not> x_temporary_live x" using ok state by (auto simp: ctx_ok_def x_def)
  have ok1: "ctx_ok (conf E) (x\<lparr>x_remaining := left\<rparr>)" "ctx_ok (conf E) (x\<lparr>x_remaining := left, x_state := SYNC_DRAIN_HEADER\<rparr>)"
    using ok closed state unat_left stream by (auto simp: ctx_ok_def ctx_base_def x_def)
  have shorter: "x_remaining x \<noteq> 0 \<Longrightarrow> length (drop count data) < length data"
    using data by (auto simp: count_def unat_gt_0)
  define st3 where "st3 = (if left = 0 then if x_state x = SYNC_DISCARD_AND_CLOSE then webos_adb_stream_close E (Some i) st1
    else on_svc (set_state k SYNC_DRAIN_HEADER) st1 else st1)"
  have good3: "sync_good E i k st st3" unfolding st3_def set_state_def
    using good1 sync_good_trans [OF ready good1 sync_good_update [OF ready1]]
      sync_good_trans [OF ready good1] sync_good_close [OF ready1] by simp
  have x3: "contexts (svc st3) ! k =
      (if left = 0 \<and> x_state x \<noteq> SYNC_DISCARD_AND_CLOSE then x\<lparr>x_remaining := left, x_state := SYNC_DRAIN_HEADER\<rparr> else x\<lparr>x_remaining := left\<rparr>)"
    using ready1 x1 sync_good_close [OF ready1] by (simp add: st3_def set_state_def sync_ready_def)
  have "drain_pass E k data st = Inr (drop count data, st3)"
    unfolding drain_pass_def Let_def x_def [symmetric] count_def [symmetric] left_def [symmetric] st1_def [symmetric] st3_def
    by (simp add: stream)
  moreover have "2 * length (drop count data) + idle_rank (contexts (svc st3) ! k) < 2 * length data + idle_rank x"
  proof (cases "x_remaining x = 0")
    case True
    then have "left = 0" using unat_left by (simp add: unat_eq_0)
    then have "header_state (x_state (contexts (svc st3) ! k))"
      using True state by (simp add: x3 header_state_def x_def)
    then show ?thesis using state True by (intro idle_measure [OF count_def data]) (auto simp: idle_rank_def header_state_def x_def)
  next
    case False
    then show ?thesis using shorter_measure shorter by blast
  qed
  moreover have "ctx_ok (conf E) (contexts (svc st3) ! k)" using ok1 unfolding x3 by presburger
  ultimately show ?thesis using good3 by (simp add: pass_good_def x_def)
qed

lemma sync_pass_good:
  assumes ready: "sync_ready E i k st" and ok: "ctx_ok (conf E) (contexts (svc st) ! k)" and data: "data \<noteq> []"
  shows "pass_good E i k data st (sync_pass F E k data st)"
proof -
  have "pass_good E i k data st (Inl (0, st))" using ok sync_good_refl [OF ready] by (simp add: pass_good_def)
  moreover have "x_state (contexts (svc st) ! k) = SYNC_DRAIN_DATA \<or> x_state (contexts (svc st) ! k) = SYNC_DISCARD_AND_CLOSE"
    if "\<not> header_state (x_state (contexts (svc st) ! k))" "x_state (contexts (svc st) ! k) \<noteq> SYNC_REQUEST_SPEC"
      "x_state (contexts (svc st) ! k) \<noteq> SYNC_STAT_PATH" "x_state (contexts (svc st) ! k) \<noteq> SYNC_SEND_DATA"
    using that by (cases "x_state (contexts (svc st) ! k)") (simp_all add: header_state_def)
  ultimately show ?thesis
    using header_pass_good [OF ready ok _ data, of F] spec_pass_good [OF ready ok _ data, of F]
      data_pass_good [OF ready ok _ data, of F] drain_pass_good [OF ready ok _ data]
    unfolding sync_pass_def Let_def by (simp split: if_split) blast
qed

lemma sync_loop_returns:
  assumes "sync_ready E i k st" "ctx_ok (conf E) (contexts (svc st) ! k)"
  shows "\<exists>ret st'. sync_loop F E k data st = Some (ret, st') \<and> sync_good E i k st st' \<and>
    ctx_ok (conf E) (contexts (svc st') ! k)"
  using assms
proof (induction "2 * length data + idle_rank (contexts (svc st) ! k)" arbitrary: data st rule: less_induct)
  case (less data st)
  show ?case
  proof (cases "data = []")
    case True
    then show ?thesis using less.prems sync_good_refl by (subst sync_loop.simps) auto
  next
    case data: False
    note pass = sync_pass_good [OF less.prems data, of F]
    show ?thesis
    proof (cases "sync_pass F E k data st")
      case (Inl res)
      then show ?thesis using pass data by (subst sync_loop.simps) (auto simp: pass_good_def)
    next
      case (Inr t)
      obtain data1 st1 where t: "t = (data1, st1)" by (cases t)
      have good1: "sync_good E i k st st1" "ctx_ok (conf E) (contexts (svc st1) ! k)"
        "2 * length data1 + idle_rank (contexts (svc st1) ! k) < 2 * length data + idle_rank (contexts (svc st) ! k)"
        using pass Inr t by (simp_all add: pass_good_def)
      have "sync_loop F E k data st = sync_loop F E k data1 st1" using data Inr t by (subst sync_loop.simps) simp
      moreover obtain ret st' where "sync_loop F E k data1 st1 = Some (ret, st')" "sync_good E i k st1 st'"
        "ctx_ok (conf E) (contexts (svc st') ! k)"
        using less.hyps [OF good1(3) sync_good_ready [OF good1(1) less.prems(1)] good1(2)] by blast
      ultimately show ?thesis using sync_good_trans [OF less.prems(1) good1(1)] by auto
    qed
  qed
qed

section \<open>The service as an instance of the contract\<close>

definition sync_ok :: "kconfig \<Rightarrow> ('f, 'x) sync_service_scheme \<Rightarrow> bool" where
  "sync_ok c s \<longleftrightarrow> length (contexts s) = WEBOS_ADB_MAX_STREAMS c \<and> list_all (ctx_ok c) (contexts s)"

lemma sync_ok_step:
  "sync_ok c s \<Longrightarrow> ctx_step k s s' \<Longrightarrow> k < length (contexts s) \<Longrightarrow> ctx_ok c (contexts s' ! k) \<Longrightarrow> sync_ok c s'"
  by (auto simp: sync_ok_def ctx_step_def list_all_update)

lemma find_context_Some:
  "find_context stream s = Some k \<Longrightarrow> k < length (contexts s) \<and> x_stream (contexts s ! k) = Some stream"
  unfolding find_context_def by (drule find_index_Some) simp

lemma ctx_ok_zero: "0 < WEBOS_ADB_SYNC_PATH_MAX c \<Longrightarrow> ctx_ok c (sync_context_zero c)"
  "0 < WEBOS_ADB_SYNC_PATH_MAX c \<Longrightarrow> ctx_ok c ((sync_context_zero c)\<lparr>x_stream := Some i\<rparr>)"
  by (simp_all add: ctx_ok_def ctx_base_def sync_context_zero_def SYNC_HEADER_SIZE_def)

lemma sync_path_max_pos: "sync_ok c s \<Longrightarrow> contexts s \<noteq> [] \<Longrightarrow> 0 < WEBOS_ADB_SYNC_PATH_MAX c"
  by (cases "contexts s") (auto simp: sync_ok_def ctx_ok_def ctx_base_def)

lemma sync_write_good:
  assumes live: "live E i st" and ok: "sync_ok (conf E) (svc st)" and "write": "sync_write F E i data len st = (ret, st')"
  shows "service_frame E i st st' \<and> sync_ok (conf E) (svc st') \<and>
    sync_service.more (svc st') = sync_service.more (svc st)"
proof (cases "find_context i (svc st)")
  case (Some k)
  note k = find_context_Some [OF Some]
  have ctx: "ctx_ok (conf E) (contexts (svc st) ! k)" using ok k by (simp add: sync_ok_def list_all_length)
  have ready: "sync_ready E i k st" using live k by (simp add: sync_ready_def)
  obtain ret1 st1 where loop: "sync_loop F E k (bytes_of data len) st = Some (ret1, st1)" "sync_good E i k st st1"
    "ctx_ok (conf E) (contexts (svc st1) ! k)"
    using sync_loop_returns [OF ready ctx] by blast
  have "sync_ok (conf E) (svc st1)" using sync_ok_step [OF ok _ _ loop(3)] loop(2) k by (simp add: sync_good_def)
  then show ?thesis using "write" Some loop ok ctx_step_more [of k "svc st" "svc st1"]
    by (auto simp: sync_write_def sync_good_def split: if_splits)
qed (use "write" ok in \<open>simp add: sync_write_def\<close>)

lemma sync_open_good:
  assumes ok: "sync_ok (conf E) (svc st)" and "open": "sync_open E i suffix_bytes st = (ret, st')"
  shows "service_frame E i st st' \<and> sync_ok (conf E) (svc st') \<and>
    sync_service.more (svc st') = sync_service.more (svc st)"
proof (cases "find (\<lambda>k. x_stream (contexts (svc st) ! k) = None) [0..<length (contexts (svc st))]")
  case (Some k)
  then have k: "k < length (contexts (svc st))" by (auto dest: find_index_Some)
  define st1 where "st1 = on_svc (update_context k (\<lambda>_. (sync_context_zero (conf E))\<lparr>x_stream := Some i\<rparr>)) st"
  have "0 < WEBOS_ADB_SYNC_PATH_MAX (conf E)" using sync_path_max_pos [OF ok] k by (cases "contexts (svc st)") auto
  then have "sync_ok (conf E) (svc st1)"
    using k ok by (intro sync_ok_step [OF ok, of k]) (simp_all add: st1_def ctx_ok_zero)
  moreover have "service_frame E i st st1" unfolding st1_def by (rule on_svc_frame)
  moreover have "sync_service.more (svc st1) = sync_service.more (svc st)"
    by (rule ctx_step_more [of k]) (simp add: st1_def)
  ultimately show ?thesis using "open" Some ok by (auto simp: sync_open_def st1_def split: if_splits)
qed (use "open" ok in \<open>auto simp: sync_open_def split: if_splits\<close>)

lemma sync_close_good:
  assumes ok: "sync_ok c s"
  shows "sync_ok c (sync_close F c i s) \<and> sync_service.more (sync_close F c i s) = sync_service.more s"
proof (cases "find_context i s")
  case (Some k)
  note k = find_context_Some [OF Some]
  have "0 < WEBOS_ADB_SYNC_PATH_MAX c" using sync_path_max_pos [OF ok] k by (cases "contexts s") auto
  moreover have "k < length (contexts (cleanup_partial F k s))"
    using cleanup_partial_ctx(2) [of k s F] k by (simp add: ctx_step_length)
  ultimately have "ctx_ok c (contexts (update_context k (\<lambda>_. sync_context_zero c) (cleanup_partial F k s)) ! k)"
    by (simp add: ctx_ok_zero)
  moreover have "ctx_step k s (update_context k (\<lambda>_. sync_context_zero c) (cleanup_partial F k s))"
    by (intro ctx_step_intros cleanup_partial_ctx(2))
  ultimately show ?thesis using k ok Some ctx_step_more by (auto simp: sync_close_def intro: sync_ok_step)
qed (use ok in \<open>simp add: sync_close_def\<close>)

end
