(* ===== verification/Shell_Exec.thy ===== *)
theory Shell_Exec
  imports C_Strings
begin

text \<open>
  lib/shell_exec/shell_exec.c: commands run on Zephyr's dummy shell backend, with bounded output.
  The backend and the mutex are Zephyr's, so they are a record of functions on a state \<open>'b\<close>; a call
  with a timeout may fail.  The prompt is Zephyr's build option.  The functions return what the C code writes through its pointers.
\<close>

record 'b zephyr_shell =
  SHELL_PROMPT_DUMMY :: string
  shell_lock :: "'b \<Rightarrow> int \<times> 'b"
  shell_unlock :: "'b \<Rightarrow> 'b"
  shell_backend_dummy_clear_output :: "'b \<Rightarrow> 'b"
  shell_backend_dummy_get_output :: "'b \<Rightarrow> byte list \<times> 'b"
  shell_backend_dummy_push_input :: "byte list \<Rightarrow> 'b \<Rightarrow> int \<times> 'b"
  shell_execute_cmd :: "string \<Rightarrow> 'b \<Rightarrow> int \<times> 'b"
  shell_sleep :: "'b \<Rightarrow> 'b"

section \<open>Operations\<close>

text \<open>The array, the length and the truncation flag that \<open>copy_output\<close> leaves.\<close>

definition copy_output ::
    "'b zephyr_shell \<Rightarrow> byte list \<Rightarrow> nat \<Rightarrow> 'b \<Rightarrow> (byte list \<times> nat \<times> bool) \<times> 'b" where
  "copy_output Z out capacity b =
     (let (dummy_output, b) = shell_backend_dummy_get_output Z b;
          copy_len = min (length dummy_output) (capacity - 1);
          out = (memcpy out 0 (take copy_len dummy_output))[copy_len := NUL]
      in ((out, copy_len, copy_len \<noteq> length dummy_output), b))"

text \<open>
  The result pairs the return code with the output parameters; \<open>None\<close> when they are not written.
\<close>

definition webos_shell_execute ::
    "'b zephyr_shell \<Rightarrow> string option \<Rightarrow> byte list option \<Rightarrow> nat \<Rightarrow> 'b \<Rightarrow>
     (int \<times> (byte list \<times> nat \<times> bool) option) \<times> 'b" where
  "webos_shell_execute Z command out capacity b =
     (case (command, out) of
        (Some command, Some out) \<Rightarrow>
          if capacity = 0 then ((- EINVAL, None), b)
          else let (ret, b) = shell_lock Z b in
            if ret \<noteq> 0 then ((ret, None), b)
            else let b = shell_backend_dummy_clear_output Z b;
                     (ret, b) = shell_execute_cmd Z command b;
                     (written, b) = copy_output Z out capacity b
                 in ((ret, Some written), shell_unlock Z b)
      | _ \<Rightarrow> ((- EINVAL, None), b))"

definition webos_shell_push_input ::
    "'b zephyr_shell \<Rightarrow> byte list option \<Rightarrow> nat \<Rightarrow> byte list option \<Rightarrow> nat \<Rightarrow> 'b \<Rightarrow>
     (int \<times> (byte list \<times> nat \<times> bool) option) \<times> 'b" where
  "webos_shell_push_input Z input input_len out capacity b =
     (if (input = None \<and> input_len \<noteq> 0) \<or> out = None \<or> capacity = 0 then ((- EINVAL, None), b)
      else let (ret, b) = shell_lock Z b in
        if ret \<noteq> 0 then ((ret, None), b)
        else let (ret, b) = shell_backend_dummy_push_input Z (bytes_of input input_len) b;
                 b = (if ret = 0 then shell_sleep Z b else b);
                 (written, b) = copy_output Z (the out) capacity b
             in ((ret, Some written), shell_unlock Z b))"

definition webos_shell_clear_output :: "'b zephyr_shell \<Rightarrow> 'b \<Rightarrow> 'b" where
  "webos_shell_clear_output Z b =
     (let (ret, b) = shell_lock Z b in
      if ret \<noteq> 0 then b else shell_unlock Z (shell_backend_dummy_clear_output Z b))"

section \<open>Bounds\<close>

text \<open>
  What a call may write: a prefix of the output buffer shorter than the capacity, closed by a NUL;
  the rest of the buffer keeps its content, and the text is complete unless the flag is set.
\<close>

definition bounded_copy :: "byte list \<Rightarrow> nat \<Rightarrow> byte list \<times> nat \<times> bool \<Rightarrow> byte list \<Rightarrow> bool" where
  "bounded_copy out capacity written produced \<longleftrightarrow>
     (let (out', n, truncated) = written in
      n < capacity \<and> out' = take n produced @ NUL # drop (Suc n) out \<and>
      (truncated \<longleftrightarrow> n \<noteq> length produced) \<and> (truncated \<longrightarrow> n = capacity - 1) \<and> n \<le> length produced)"

lemma bounded_copy_length: "bounded_copy out capacity (out', n, t) produced \<Longrightarrow> capacity \<le> length out \<Longrightarrow>
    length out' = length out \<and> n < capacity"
  by (auto simp: bounded_copy_def)

lemma copy_output_bounded:
  assumes "0 < capacity" "capacity \<le> length out" "copy_output Z out capacity b = (written, b')"
  shows "bounded_copy out capacity written (fst (shell_backend_dummy_get_output Z b))"
proof -
  obtain produced b1 where get: "shell_backend_dummy_get_output Z b = (produced, b1)" by fastforce
  define n where "n = min (length produced) (capacity - 1)"
  have "n < length out" "n < capacity" "n \<le> length produced" using assms(1,2) by (auto simp: n_def)
  then have "(memcpy out 0 (take n produced))[n := NUL] = take n produced @ NUL # drop (Suc n) out"
    using memcpy_terminate [of n 0 "take n produced" out NUL] by (simp add: memcpy_def)
  moreover have "written = ((memcpy out 0 (take n produced))[n := NUL], n, n \<noteq> length produced)"
    using assms(3) get by (simp add: copy_output_def n_def Let_def)
  ultimately show ?thesis
    using \<open>n < capacity\<close> \<open>n \<le> length produced\<close> by (auto simp: bounded_copy_def get n_def)
qed

lemma shell_execute_bounded:
  assumes "0 < capacity" "capacity \<le> length out"
    and "webos_shell_execute Z command (Some out) capacity b = ((ret, Some written), b')"
  shows "\<exists>produced. bounded_copy out capacity written produced"
proof -
  obtain b1 b2 where "copy_output Z out capacity b1 = (written, b2)"
    using assms by (auto simp: webos_shell_execute_def Let_def split: option.splits prod.splits if_splits)
  from copy_output_bounded [OF assms(1,2) this] show ?thesis by (rule exI)
qed

lemma shell_push_bounded:
  assumes "0 < capacity" "capacity \<le> length out"
    and "webos_shell_push_input Z input n (Some out) capacity b = ((ret, Some written), b')"
  shows "\<exists>produced. bounded_copy out capacity written produced"
proof -
  obtain b1 b2 where "copy_output Z out capacity b1 = (written, b2)"
    using assms by (auto simp: webos_shell_push_input_def Let_def split: option.splits prod.splits if_splits)
  from copy_output_bounded [OF assms(1,2) this] show ?thesis by (rule exI)
qed

end
