(* ===== verification/Adb_Shell.thy ===== *)
theory Adb_Shell
  imports Adb_Sync Shell_Exec
begin

text \<open>
  The shell service, lib/adb/adb_shell.c: the allowlist for one-shot commands, the interactive line
  editor and the chunked transmission of the output.  A context pointer is the index of its slot.
\<close>

section \<open>State\<close>

record adb_shell_context =
  h_stream :: "nat option"
  h_output_len :: nat
  h_output_offset :: nat
  h_command_rc :: int
  h_truncated :: bool
  h_interactive :: bool
  h_tx_in_flight :: bool
  h_saw_carriage_return :: bool
  h_close_requested :: bool
  h_discard_line :: bool
  h_escape_state :: nat
  h_command_len :: nat
  h_input_len :: nat
  h_input_capacity :: nat
  h_command :: "byte list"
  h_input :: "byte list option"
  h_output :: "byte list"

text \<open>The static variables of the services form one record, which each service's file extends.\<close>

record ('f, 'b) shell_service = "'f sync_service" +
  shell_contexts :: "adb_shell_context list"
  shell_backend :: 'b

definition shell_context_zero :: "kconfig \<Rightarrow> adb_shell_context" where
  "shell_context_zero c =
     \<lparr>h_stream = None, h_output_len = 0, h_output_offset = 0, h_command_rc = 0, h_truncated = False,
      h_interactive = False, h_tx_in_flight = False, h_saw_carriage_return = False,
      h_close_requested = False, h_discard_line = False, h_escape_state = 0, h_command_len = 0,
      h_input_len = 0, h_input_capacity = 0,
      h_command = replicate (WEBOS_ADB_SHELL_COMMAND_SIZE c) NUL, h_input = None,
      h_output = replicate (WEBOS_ADB_SHELL_OUTPUT_SIZE c) NUL\<rparr>"

type_synonym ('f, 'b, 'x, 't) shell_adb = "(('f, 'b, 'x) shell_service_scheme, 't) adb"
type_synonym ('f, 'b, 'x, 't, 'z) shell_env = "(('f, 'b, 'x) shell_service_scheme, 't, 'z) adb_env_scheme"

definition update_shell ::
    "nat \<Rightarrow> (adb_shell_context \<Rightarrow> adb_shell_context) \<Rightarrow> ('f, 'b, 'x) shell_service_scheme \<Rightarrow>
     ('f, 'b, 'x) shell_service_scheme" where
  "update_shell k f s = s\<lparr>shell_contexts := (shell_contexts s)[k := f (shell_contexts s ! k)]\<rparr>"

section \<open>The allowlist\<close>

definition safe_path_char :: "byte \<Rightarrow> bool" where
  "safe_path_char v \<longleftrightarrow>
     (byte_val CHR ''a'' \<le> byte_val v \<and> byte_val v \<le> byte_val CHR ''z'') \<or>
     (byte_val CHR ''A'' \<le> byte_val v \<and> byte_val v \<le> byte_val CHR ''Z'') \<or>
     (byte_val CHR ''0'' \<le> byte_val v \<and> byte_val v \<le> byte_val CHR ''9'') \<or>
     v = CHR ''/'' \<or> v = CHR '':'' \<or> v = CHR ''.'' \<or> v = CHR ''_'' \<or> v = CHR ''-''"

text \<open>The loop over the segments, on the rest of the path from \<open>start\<close> on.\<close>

function safe_segments :: "string \<Rightarrow> bool" where
  "safe_segments rest =
     (if rest = [] then True
      else let segment = takeWhile (\<lambda>c. c \<noteq> CHR ''/'') rest in
        if segment = [] \<or> segment = ''.'' \<or> segment = ''..'' then False
        else safe_segments (drop (length segment + 1) rest))"
  by pat_completeness auto
termination by (relation "measure length") auto

declare safe_segments.simps [simp del]

text \<open>The path has \<open>len\<close> characters; the result of the prefix tests is \<open>first_segment\<close>.\<close>

definition first_segment :: "string \<Rightarrow> bool \<Rightarrow> nat option" where
  "first_segment path storage_only =
     (let storage = ''/STORAGE:''; storage_len = length storage; len = length path in
      if storage_only then
        if len \<le> storage_len \<or> take storage_len path \<noteq> storage \<or> path ! storage_len \<noteq> CHR ''/''
        then None else Some (storage_len + 1)
      else if storage_len < len \<and> take storage_len path = storage \<and> path ! storage_len = CHR ''/''
      then Some (storage_len + 1)
      else if 4 \<le> len \<and> take 4 path = ''/dev'' \<and> (len = 4 \<or> path ! 4 = CHR ''/'')
      then Some (if len = 4 then len else 5)
      else None)"

definition safe_path :: "string \<Rightarrow> bool \<Rightarrow> bool" where
  "safe_path path storage_only =
     (if \<not> storage_only \<and> path = ''/STORAGE:'' then True
      else case first_segment path storage_only of
        None \<Rightarrow> False
      | Some start \<Rightarrow>
          if \<not> list_all safe_path_char path then False
          else if \<not> safe_segments (drop start path) then False
          else path ! (length path - 1) \<noteq> CHR ''/'')"

definition skip_blanks :: "string \<Rightarrow> string" where
  "skip_blanks s = dropWhile (\<lambda>c. c = CHR '' '') s"

definition read_command_allowed :: "string \<Rightarrow> bool" where
  "read_command_allowed arguments =
     (case split_first CHR '' '' arguments of
        None \<Rightarrow> False
      | Some (path, _) \<Rightarrow>
          if \<not> safe_path path True then False
          else let separator = skip_blanks (drop (length path) arguments) in
            if separator = [] then False
            else let (count, rest, _) = strtoul10 separator in
              if rest = separator \<or> count = 0 \<or> count > 256 then False
              else let rest = skip_blanks rest in
                if rest = [] then True
                else let (offset, rest, _) = strtoul10 rest in
                  if offset > UINT32_MAX then False else skip_blanks rest = [])"

definition command_allowed :: "string \<Rightarrow> bool" where
  "command_allowed command =
     (if strcmp command ''kernel uptime'' = 0 \<or> strcmp command ''fs ls'' = 0 then True
      else if strncmp command ''fs read '' 8 = 0 then read_command_allowed (drop 8 command)
      else if strncmp command ''fs ls '' 6 \<noteq> 0 then False
      else safe_path (drop 6 command) False)"

section \<open>Contexts and output\<close>

definition shell_find_context :: "nat \<Rightarrow> ('f, 'b, 'x) shell_service_scheme \<Rightarrow> nat option" where
  "shell_find_context stream s =
     find (\<lambda>k. h_stream (shell_contexts s ! k) = Some stream) [0..<length (shell_contexts s)]"

definition allocate_context ::
    "kconfig \<Rightarrow> nat \<Rightarrow> ('f, 'b, 'x) shell_service_scheme \<Rightarrow> nat option \<times> ('f, 'b, 'x) shell_service_scheme" where
  "allocate_context c stream s =
     (case find (\<lambda>k. h_stream (shell_contexts s ! k) = None) [0..<length (shell_contexts s)] of
        None \<Rightarrow> (None, s)
      | Some k \<Rightarrow> (Some k, update_shell k (\<lambda>_. (shell_context_zero c)\<lparr>h_stream := Some stream\<rparr>) s))"

text \<open>The context after an accepted chunk: the buffer moves up, or the offset advances.\<close>

definition chunk_sent :: "nat \<Rightarrow> adb_shell_context \<Rightarrow> adb_shell_context" where
  "chunk_sent n x =
     (if h_interactive x then
        x\<lparr>h_output := memcpy (h_output x) 0 (take (h_output_len x - n) (drop n (h_output x))),
          h_output_len := h_output_len x - n, h_tx_in_flight := True\<rparr>
      else x\<lparr>h_output_offset := h_output_offset x + n, h_tx_in_flight := True\<rparr>)"

definition queue_next_chunk ::
    "('f, 'b, 'x, 't, 'z) shell_env \<Rightarrow> nat \<Rightarrow> ('f, 'b, 'x, 't) shell_adb \<Rightarrow> int \<times> ('f, 'b, 'x, 't) shell_adb" where
  "queue_next_chunk E k st =
     (let x = shell_contexts (svc st) ! k in
      if h_tx_in_flight x then (0, st)
      else if h_interactive x then
        if h_output_len x = 0 then (0, st)
        else
          let chunk_len = min (h_output_len x) (webos_adb_stream_max_payload E st);
              (ret, st) = webos_adb_stream_write E (h_stream x) (Some (h_output x)) chunk_len st
          in (ret, if ret = 0 then on_svc (update_shell k (chunk_sent chunk_len)) st else st)
      else
        let remaining = h_output_len x - h_output_offset x;
            chunk_len = min remaining (webos_adb_stream_max_payload E st)
        in if chunk_len = 0 then (0, webos_adb_stream_close E (h_stream x) st)
           else
             let (ret, st) = webos_adb_stream_write E (h_stream x)
                               (Some (drop (h_output_offset x) (h_output x))) chunk_len st
             in (ret, if ret = 0 then on_svc (update_shell k (chunk_sent chunk_len)) st else st))"

definition append_output :: "byte list \<Rightarrow> adb_shell_context \<Rightarrow> adb_shell_context" where
  "append_output data x =
     (let available = length (h_output x) - h_output_len x;
          count = min (length data) available
      in x\<lparr>h_output := (if count \<noteq> 0 then memcpy (h_output x) (h_output_len x) (take count data) else h_output x),
           h_output_len := h_output_len x + count,
           h_truncated := h_truncated x \<or> count \<noteq> length data\<rparr>)"

section \<open>The interactive line editor\<close>

text \<open>The call of \<open>webos_shell_execute\<close> on the free part of the output buffer.\<close>

definition run_command ::
    "'b zephyr_shell \<Rightarrow> nat \<Rightarrow> nat \<Rightarrow> ('f, 'b, 'x) shell_service_scheme \<Rightarrow> ('f, 'b, 'x) shell_service_scheme" where
  "run_command Z k capacity s =
     (let x = shell_contexts s ! k;
          ((rc, written), b) = webos_shell_execute Z (Some (c_string (h_command x)))
             (Some (drop (h_output_len x) (h_output x))) capacity (shell_backend s);
          x = (case written of
                 None \<Rightarrow> x\<lparr>h_command_rc := rc\<rparr>
               | Some (out, captured, truncated) \<Rightarrow>
                   x\<lparr>h_command_rc := rc, h_output := take (h_output_len x) (h_output x) @ out,
                     h_output_len := h_output_len x + captured,
                     h_truncated := h_truncated x \<or> truncated\<rparr>)
      in (update_shell k (\<lambda>_. x) s)\<lparr>shell_backend := b\<rparr>)"

text \<open>The two stages of \<open>execute_interactive_line\<close> around the test for \<open>exit\<close>.\<close>

definition end_line :: "adb_shell_context \<Rightarrow> adb_shell_context" where
  "end_line x =
     (let x = append_output [CHR 0x0D, CHR 0x0A] x
      in x\<lparr>h_command := (h_command x)[h_command_len x := NUL]\<rparr>)"

definition run_line ::
    "'b zephyr_shell \<Rightarrow> nat \<Rightarrow> bool \<Rightarrow> ('f, 'b, 'x) shell_service_scheme \<Rightarrow> ('f, 'b, 'x) shell_service_scheme" where
  "run_line Z k add_prompt s =
     (let x = shell_contexts s ! k;
          prompt_len = (if add_prompt then length (SHELL_PROMPT_DUMMY Z) else 0);
          available = length (h_output x) - h_output_len x;
          s = (if h_command_len x \<noteq> 0 then
                 if available \<le> prompt_len + 1 then update_shell k (\<lambda>x. x\<lparr>h_truncated := True\<rparr>) s
                 else run_command Z k (available - prompt_len) s
               else s)
      in update_shell k (\<lambda>x.
           let x = x\<lparr>h_command_len := 0\<rparr>
           in if add_prompt then append_output (SHELL_PROMPT_DUMMY Z) x else x) s)"

definition execute_interactive_line ::
    "'b zephyr_shell \<Rightarrow> ('f, 'b, 'x, 't, 'z) shell_env \<Rightarrow> nat \<Rightarrow> bool \<Rightarrow> ('f, 'b, 'x, 't) shell_adb \<Rightarrow>
     int \<times> ('f, 'b, 'x, 't) shell_adb" where
  "execute_interactive_line Z E k add_prompt st =
     (let st = on_svc (update_shell k end_line) st;
          x = shell_contexts (svc st) ! k
      in if strcmp (c_string (h_command x)) ''exit'' = 0 then
           let st = on_svc (update_shell k (\<lambda>x. x\<lparr>h_command_len := 0, h_close_requested := True\<rparr>)) st
           in (0, webos_adb_stream_close E (h_stream x) st)
         else (0, on_svc (run_line Z k add_prompt) st))"

text \<open>
  The stages of the loop body.  \<open>escape_filter\<close> and \<open>newline_filter\<close> say whether the byte is done
  with (\<open>continue\<close>); \<open>input_byte\<close> says whether the loop ends (\<open>break\<close>), with the return code.
\<close>

definition escape_filter :: "byte \<Rightarrow> adb_shell_context \<Rightarrow> bool \<times> adb_shell_context" where
  "escape_filter v x =
     (if h_escape_state x = 1 \<and> (v = CHR ''['' \<or> v = CHR ''O'') then (True, x\<lparr>h_escape_state := 2\<rparr>)
      else if h_escape_state x = 2 then
        (True, if 0x40 \<le> byte_val v \<and> byte_val v \<le> 0x7e then x\<lparr>h_escape_state := 0\<rparr> else x)
      else let x = (if h_escape_state x = 1 then x\<lparr>h_escape_state := 0\<rparr> else x)
           in if v = CHR 0x1B then (True, x\<lparr>h_escape_state := 1\<rparr>) else (False, x))"

definition newline_filter :: "byte \<Rightarrow> adb_shell_context \<Rightarrow> bool \<times> adb_shell_context" where
  "newline_filter v x =
     (if v = CHR 0x0A \<and> h_saw_carriage_return x then (True, x\<lparr>h_saw_carriage_return := False\<rparr>)
      else (False, x\<lparr>h_saw_carriage_return := v = CHR 0x0D\<rparr>))"

text \<open>The edits that touch nothing but the context.\<close>

definition edit_byte :: "string \<Rightarrow> byte \<Rightarrow> adb_shell_context \<Rightarrow> bool \<times> adb_shell_context" where
  "edit_byte prompt v x =
     (if v = CHR 0x03 then
        (True, append_output (''^C'' @ [CHR 0x0D, CHR 0x0A] @ prompt) (x\<lparr>h_command_len := 0\<rparr>))
      else if v = CHR 0x08 \<or> v = CHR 0x7F then
        (False, if h_command_len x \<noteq> 0
                then append_output [CHR 0x08, CHR '' '', CHR 0x08] (x\<lparr>h_command_len := h_command_len x - 1\<rparr>)
                else x)
      else if v = CHR 0x09 then (False, append_output [CHR 0x07] x)
      else if byte_val v < 0x20 \<or> 0x7e < byte_val v then (False, x)
      else if length (h_command x) \<le> h_command_len x + 1 then
        (True, append_output ([CHR 0x0D, CHR 0x0A] @ ''Command too long'')
                 (x\<lparr>h_command_len := 0, h_discard_line := True\<rparr>))
      else (False, append_output [v]
                     (x\<lparr>h_command := (h_command x)[h_command_len x := v], h_command_len := h_command_len x + 1\<rparr>)))"

definition line_byte ::
    "'b zephyr_shell \<Rightarrow> ('f, 'b, 'x, 't, 'z) shell_env \<Rightarrow> nat \<Rightarrow> byte \<Rightarrow> ('f, 'b, 'x, 't) shell_adb \<Rightarrow>
     (bool \<times> int) \<times> ('f, 'b, 'x, 't) shell_adb" where
  "line_byte Z E k v st =
     (let x = shell_contexts (svc st) ! k in
      if h_discard_line x then
        if v = CHR 0x0D \<or> v = CHR 0x0A then
          ((True, 0), on_svc (update_shell k (\<lambda>x. append_output ([CHR 0x0D, CHR 0x0A] @ SHELL_PROMPT_DUMMY Z)
                                (x\<lparr>h_discard_line := False\<rparr>))) st)
        else ((False, 0), st)
      else if v = CHR 0x0D \<or> v = CHR 0x0A then
        let (ret, st) = execute_interactive_line Z E k True st;
            x = shell_contexts (svc st) ! k
        in ((ret \<noteq> 0 \<or> h_close_requested x \<or> h_output_len x \<noteq> 0, ret), st)
      else if v = CHR 0x04 then
        let (ret, st) = (if h_command_len x \<noteq> 0 then execute_interactive_line Z E k False st else (0, st));
            st = on_svc (update_shell k (\<lambda>x. x\<lparr>h_close_requested := True\<rparr>)) st
        in ((True, ret), webos_adb_stream_close E (h_stream (shell_contexts (svc st) ! k)) st)
      else
        let (stop, x) = edit_byte (SHELL_PROMPT_DUMMY Z) v x
        in ((stop, 0), on_svc (update_shell k (\<lambda>_. x)) st))"

definition input_byte ::
    "'b zephyr_shell \<Rightarrow> ('f, 'b, 'x, 't, 'z) shell_env \<Rightarrow> nat \<Rightarrow> byte \<Rightarrow> ('f, 'b, 'x, 't) shell_adb \<Rightarrow>
     (bool \<times> int) \<times> ('f, 'b, 'x, 't) shell_adb" where
  "input_byte Z E k v st =
     (let (handled, x) = escape_filter v (shell_contexts (svc st) ! k);
          (handled, x) = (if handled then (True, x) else newline_filter v x);
          st = on_svc (update_shell k (\<lambda>_. x)) st
      in if handled then ((False, 0), st) else line_byte Z E k v st)"

text \<open>The loop: the return code and the number of bytes consumed.\<close>

fun input_loop ::
    "'b zephyr_shell \<Rightarrow> ('f, 'b, 'x, 't, 'z) shell_env \<Rightarrow> nat \<Rightarrow> byte list \<Rightarrow> nat \<Rightarrow> ('f, 'b, 'x, 't) shell_adb \<Rightarrow>
     (int \<times> nat) \<times> ('f, 'b, 'x, 't) shell_adb" where
  "input_loop Z E k [] consumed st = ((0, consumed), st)"
| "input_loop Z E k (v # vs) consumed st =
     (let ((stop, ret), st) = input_byte Z E k v st
      in if stop then ((ret, consumed + 1), st) else input_loop Z E k vs (consumed + 1) st)"

definition input_consumed :: "nat \<Rightarrow> adb_shell_context \<Rightarrow> adb_shell_context" where
  "input_consumed consumed x =
     (let left = h_input_len x - consumed;
          x = x\<lparr>h_input_len := left,
                h_input := (if left \<noteq> 0 \<and> consumed \<noteq> 0
                            then map_option (\<lambda>d. memcpy d 0 (take left (drop consumed d))) (h_input x)
                            else h_input x)\<rparr>
      in if h_close_requested x then x\<lparr>h_input_len := 0\<rparr> else x)"

definition process_interactive_input ::
    "'b zephyr_shell \<Rightarrow> ('f, 'b, 'x, 't, 'z) shell_env \<Rightarrow> nat \<Rightarrow> ('f, 'b, 'x, 't) shell_adb \<Rightarrow>
     int \<times> ('f, 'b, 'x, 't) shell_adb" where
  "process_interactive_input Z E k st =
     (let x = shell_contexts (svc st) ! k;
          ((ret, consumed), st) = input_loop Z E k (bytes_of (h_input x) (h_input_len x)) 0 st
      in (ret, on_svc (update_shell k (input_consumed consumed)) st))"

section \<open>Callbacks\<close>

definition shell_release :: "kconfig \<Rightarrow> nat \<Rightarrow> ('f, 'b, 'x) shell_service_scheme \<Rightarrow> ('f, 'b, 'x) shell_service_scheme" where
  "shell_release c k = update_shell k (\<lambda>_. shell_context_zero c)"

text \<open>The two ways \<open>adb_shell_open\<close> fills the new context: a session with a prompt, or one command.\<close>

definition open_interactive ::
    "'b zephyr_shell \<Rightarrow> kconfig \<Rightarrow> nat \<Rightarrow> ('f, 'b, 'x) shell_service_scheme \<Rightarrow> ('f, 'b, 'x) shell_service_scheme" where
  "open_interactive Z c k s =
     (let s = update_shell k (\<lambda>x. x\<lparr>h_input := Some (replicate (WEBOS_ADB_SHELL_INPUT_SIZE c) NUL),
                 h_input_capacity := WEBOS_ADB_SHELL_INPUT_SIZE c, h_interactive := True\<rparr>) s;
          s = s\<lparr>shell_backend := webos_shell_clear_output Z (shell_backend s)\<rparr>
      in update_shell k (\<lambda>x.
           let n = min (length (SHELL_PROMPT_DUMMY Z)) (length (h_output x))
           in x\<lparr>h_output_len := n, h_output := memcpy (h_output x) 0 (take n (SHELL_PROMPT_DUMMY Z))\<rparr>) s)"

definition open_command ::
    "'b zephyr_shell \<Rightarrow> nat \<Rightarrow> string \<Rightarrow> ('f, 'b, 'x) shell_service_scheme \<Rightarrow> ('f, 'b, 'x) shell_service_scheme" where
  "open_command Z k command s =
     (let x = shell_contexts s ! k;
          ((rc, written), b) = webos_shell_execute Z (Some command) (Some (h_output x)) (length (h_output x))
                                 (shell_backend s);
          x = (case written of
                 None \<Rightarrow> x\<lparr>h_command_rc := rc\<rparr>
               | Some (out, n, truncated) \<Rightarrow>
                   x\<lparr>h_command_rc := rc, h_output := out, h_output_len := n, h_truncated := truncated\<rparr>)
      in (update_shell k (\<lambda>_. x) s)\<lparr>shell_backend := b\<rparr>)"

text \<open>The part of \<open>adb_shell_open\<close> after the context is allocated.\<close>

definition shell_start ::
    "'b zephyr_shell \<Rightarrow> ('f, 'b, 'x, 't, 'z) shell_env \<Rightarrow> nat \<Rightarrow> byte list \<Rightarrow> ('f, 'b, 'x, 't) shell_adb \<Rightarrow>
     int \<times> ('f, 'b, 'x, 't) shell_adb" where
  "shell_start Z E k suffix_bytes st =
     (let (ok, st) = (if suffix_bytes = [] then k_malloc E (WEBOS_ADB_SHELL_INPUT_SIZE (conf E)) st else (True, st))
      in if \<not> ok then (- ENOMEM, on_svc (shell_release (conf E) k) st)
         else
           let st = on_svc (if suffix_bytes = [] then open_interactive Z (conf E) k
                            else open_command Z k suffix_bytes) st;
               (ret, st) = queue_next_chunk E k st
           in (ret, if ret \<noteq> 0 then on_svc (shell_release (conf E) k) st else st))"

definition adb_shell_open ::
    "'b zephyr_shell \<Rightarrow> ('f, 'b, 'x, 't, 'z) shell_env \<Rightarrow> nat \<Rightarrow> byte list \<Rightarrow> ('f, 'b, 'x, 't) shell_adb \<Rightarrow>
     int \<times> ('f, 'b, 'x, 't) shell_adb" where
  "adb_shell_open Z E stream suffix_bytes st =
     (if WEBOS_ADB_SHELL_COMMAND_SIZE (conf E) \<le> length suffix_bytes \<or> NUL \<in> set suffix_bytes then (- EINVAL, st)
      else if suffix_bytes \<noteq> [] \<and> \<not> command_allowed suffix_bytes then (- EACCES, st)
      else case allocate_context (conf E) stream (svc st) of
        (None, _) \<Rightarrow> (- EBUSY, st)
      | (Some k, s) \<Rightarrow> shell_start Z E k suffix_bytes (on_svc (\<lambda>_. s) st))"

definition adb_shell_write ::
    "'b zephyr_shell \<Rightarrow> ('f, 'b, 'x, 't, 'z) shell_env \<Rightarrow> nat \<Rightarrow> byte list option \<Rightarrow> nat \<Rightarrow> ('f, 'b, 'x, 't) shell_adb \<Rightarrow>
     int \<times> ('f, 'b, 'x, 't) shell_adb" where
  "adb_shell_write Z E stream data len st =
     (case shell_find_context stream (svc st) of
        None \<Rightarrow> (- EINVAL, st)
      | Some k \<Rightarrow>
          let x = shell_contexts (svc st) ! k in
          if data = None \<and> len \<noteq> 0 then (- EINVAL, st)
          else if \<not> h_interactive x then (if len = 0 then 0 else - ENOTSUP, st)
          else if h_input_capacity x - h_input_len x < len then (- ENOSPC, st)
          else
            let st = (if len \<noteq> 0 then
                        on_svc (update_shell k (\<lambda>x. x\<lparr>
                          h_input := map_option (\<lambda>d. memcpy d (h_input_len x) (bytes_of data len)) (h_input x),
                          h_input_len := h_input_len x + len\<rparr>)) st
                      else st);
                x = shell_contexts (svc st) ! k;
                (ret, st) = (if \<not> h_tx_in_flight x \<and> h_output_len x = 0
                             then process_interactive_input Z E k st else (0, st))
            in if ret = 0 then queue_next_chunk E k st else (ret, st))"

definition adb_shell_tx_ready ::
    "'b zephyr_shell \<Rightarrow> ('f, 'b, 'x, 't, 'z) shell_env \<Rightarrow> nat \<Rightarrow> ('f, 'b, 'x, 't) shell_adb \<Rightarrow>
     ('f, 'b, 'x, 't) shell_adb" where
  "adb_shell_tx_ready Z E stream st =
     (case shell_find_context stream (svc st) of
        None \<Rightarrow> st
      | Some k \<Rightarrow>
          let st = on_svc (update_shell k (\<lambda>x. x\<lparr>h_tx_in_flight := False\<rparr>)) st;
              x = shell_contexts (svc st) ! k;
              (ret, st) = (if h_interactive x \<and> h_output_len x = 0 \<and> h_input_len x \<noteq> 0 \<and> \<not> h_close_requested x
                           then process_interactive_input Z E k st else (0, st))
          in if ret \<noteq> 0 then webos_adb_stream_close E (Some stream) st
             else let (ret, st) = queue_next_chunk E k st
                  in if ret \<noteq> 0 then webos_adb_stream_close E (Some stream) st else st)"

definition adb_shell_close ::
    "'b zephyr_shell \<Rightarrow> kconfig \<Rightarrow> nat \<Rightarrow> ('f, 'b, 'x) shell_service_scheme \<Rightarrow> ('f, 'b, 'x) shell_service_scheme" where
  "adb_shell_close Z c stream s =
     (case shell_find_context stream s of
        None \<Rightarrow> s
      | Some k \<Rightarrow>
          let s = (if h_interactive (shell_contexts s ! k)
                   then s\<lparr>shell_backend := webos_shell_clear_output Z (shell_backend s)\<rparr> else s)
          in shell_release c k s)"

end
