(* ===== verification/Adb_Shell_Inv.thy ===== *)
theory Adb_Shell_Inv
  imports Adb_Shell
begin

text \<open>
  The invariant of the shell contexts: every index stays inside its array whatever the host sends and
  whatever the commands print.  Every callback keeps it and touches nothing of the router but its
  own stream.
\<close>

section \<open>Effects on the contexts\<close>

text \<open>Nothing but shell context k and the backend changes.\<close>

definition shell_step :: "nat \<Rightarrow> ('f, 'b, 'x) shell_service_scheme \<Rightarrow> ('f, 'b, 'x) shell_service_scheme \<Rightarrow> bool" where
  "shell_step k s s' \<longleftrightarrow> (\<exists>x b. s' = s\<lparr>shell_contexts := (shell_contexts s)[k := x], shell_backend := b\<rparr>)"

lemma shell_stepI: "s' = s\<lparr>shell_contexts := (shell_contexts s)[k := x], shell_backend := b\<rparr> \<Longrightarrow> shell_step k s s'"
  unfolding shell_step_def by blast

lemma shell_step_refl [simp]: "shell_step k s s"
  by (rule shell_stepI [where x = "shell_contexts s ! k" and b = "shell_backend s"]) simp

lemma shell_step_trans: "shell_step k s s' \<Longrightarrow> shell_step k s' s'' \<Longrightarrow> shell_step k s s''"
  unfolding shell_step_def by fastforce

lemma shell_step_update [simp]: "shell_step k s (update_shell k f s)"
  by (rule shell_stepI [where x = "f (shell_contexts s ! k)" and b = "shell_backend s"]) (simp add: update_shell_def)

lemma shell_step_backend: "shell_step k s s' \<Longrightarrow> shell_step k s (s'\<lparr>shell_backend := b\<rparr>)"
  unfolding shell_step_def by fastforce

lemma shell_step_frame:
  "shell_step k s s' \<Longrightarrow> length (shell_contexts s') = length (shell_contexts s)"
  "shell_step k s s' \<Longrightarrow> contexts s' = contexts s"
  "shell_step k s s' \<Longrightarrow> shell_service.more s' = shell_service.more s"
  "shell_step k s s' \<Longrightarrow> j \<noteq> k \<Longrightarrow> shell_contexts s' ! j = shell_contexts s ! j"
  unfolding shell_step_def by auto

lemma update_shell_simps [simp]:
  "k < length (shell_contexts s) \<Longrightarrow> shell_contexts (update_shell k f s) ! k = f (shell_contexts s ! k)"
  "length (shell_contexts (update_shell k f s)) = length (shell_contexts s)"
  "shell_backend (update_shell k f s) = shell_backend s"
  by (simp_all add: update_shell_def)

section \<open>The invariant of a context\<close>

text \<open>
  Every index stays inside its array: the output window, the command with room for its terminator,
  and the input within the allocated buffer.
\<close>

definition shell_ctx_ok :: "kconfig \<Rightarrow> adb_shell_context \<Rightarrow> bool" where
  "shell_ctx_ok c x \<longleftrightarrow>
     length (h_command x) = WEBOS_ADB_SHELL_COMMAND_SIZE c \<and> h_command_len x < WEBOS_ADB_SHELL_COMMAND_SIZE c \<and>
     length (h_output x) = WEBOS_ADB_SHELL_OUTPUT_SIZE c \<and>
     h_output_offset x \<le> h_output_len x \<and> h_output_len x \<le> WEBOS_ADB_SHELL_OUTPUT_SIZE c \<and>
     (h_interactive x \<longrightarrow> h_output_offset x = 0) \<and>
     h_input_capacity x = (case h_input x of None \<Rightarrow> 0 | Some d \<Rightarrow> length d) \<and>
     h_input_len x \<le> h_input_capacity x"

text \<open>A change of a context that keeps its stream and the invariant.\<close>

definition shell_keep :: "kconfig \<Rightarrow> adb_shell_context \<Rightarrow> adb_shell_context \<Rightarrow> bool" where
  "shell_keep c x x' \<longleftrightarrow> (shell_ctx_ok c x \<longrightarrow> shell_ctx_ok c x') \<and> h_stream x' = h_stream x"

lemma shell_keep_refl [simp]: "shell_keep c x x"
  by (simp add: shell_keep_def)

lemma shell_keep_trans: "shell_keep c x y \<Longrightarrow> shell_keep c y z \<Longrightarrow> shell_keep c x z"
  by (simp add: shell_keep_def)

lemma shell_keep_flags [simp]:
  "shell_keep c x (x\<lparr>h_truncated := t\<rparr>)" "shell_keep c x (x\<lparr>h_close_requested := t\<rparr>)"
  "shell_keep c x (x\<lparr>h_tx_in_flight := t\<rparr>)" "shell_keep c x (x\<lparr>h_escape_state := n\<rparr>)"
  "shell_keep c x (x\<lparr>h_saw_carriage_return := t\<rparr>)" "shell_keep c x (x\<lparr>h_discard_line := t\<rparr>)"
  "shell_keep c x (x\<lparr>h_command_rc := r\<rparr>)" "n \<le> h_command_len x \<Longrightarrow> shell_keep c x (x\<lparr>h_command_len := n\<rparr>)"
  "shell_keep c x (x\<lparr>h_command := (h_command x)[j := v]\<rparr>)"
  by (auto simp: shell_keep_def shell_ctx_ok_def)

lemma shell_keep_append [simp]: "shell_keep c x (append_output data x)"
  by (auto simp: shell_keep_def shell_ctx_ok_def append_output_def Let_def)

lemma shell_keep_chunk: "n \<le> h_output_len x - h_output_offset x \<Longrightarrow> shell_keep c x (chunk_sent n x)"
  by (auto simp: shell_keep_def shell_ctx_ok_def chunk_sent_def)

lemma shell_keep_escape: "escape_filter v x = (b, x') \<Longrightarrow> shell_keep c x x'"
  by (auto simp: escape_filter_def Let_def shell_keep_def shell_ctx_ok_def split: if_splits)

lemma shell_keep_newline: "newline_filter v x = (b, x') \<Longrightarrow> shell_keep c x x'"
  by (auto simp: newline_filter_def split: if_splits)

lemma shell_keep_consumed [simp]: "shell_keep c x (input_consumed n x)"
  by (cases "h_input x") (auto simp: shell_keep_def shell_ctx_ok_def input_consumed_def Let_def bytes_of_def)

lemma shell_keep_edit: "edit_byte p v x = (b, x') \<Longrightarrow> shell_keep c x x'"
proof -
  have typed: "shell_keep c x (append_output [v]
      (x\<lparr>h_command := (h_command x)[h_command_len x := v], h_command_len := h_command_len x + 1\<rparr>))"
    if "\<not> length (h_command x) \<le> h_command_len x + 1"
    by (rule shell_keep_trans [OF _ shell_keep_append]) (use that in \<open>auto simp: shell_keep_def shell_ctx_ok_def\<close>)
  have discard: "shell_keep c x (x\<lparr>h_command_len := 0, h_discard_line := True\<rparr>)"
    by (auto simp: shell_keep_def shell_ctx_ok_def)
  assume "edit_byte p v x = (b, x')"
  then show ?thesis
    using typed shell_keep_trans [OF discard shell_keep_append]
      shell_keep_trans [OF shell_keep_flags(8) shell_keep_append]
    by (auto simp: edit_byte_def split: if_splits)
qed

section \<open>Effects of the callbacks\<close>

text \<open>Context k serves the used stream i, and its invariant holds.\<close>

definition shell_ready :: "('f, 'b, 'x, 't, 'z) shell_env \<Rightarrow> nat \<Rightarrow> nat \<Rightarrow> ('f, 'b, 'x, 't) shell_adb \<Rightarrow> bool" where
  "shell_ready E i k st \<longleftrightarrow>
     live E i st \<and> k < length (shell_contexts (svc st)) \<and> h_stream (shell_contexts (svc st) ! k) = Some i \<and>
     shell_ctx_ok (conf E) (shell_contexts (svc st) ! k)"

definition shell_good ::
    "('f, 'b, 'x, 't, 'z) shell_env \<Rightarrow> nat \<Rightarrow> nat \<Rightarrow> ('f, 'b, 'x, 't) shell_adb \<Rightarrow> ('f, 'b, 'x, 't) shell_adb \<Rightarrow> bool" where
  "shell_good E i k st st' \<longleftrightarrow>
     service_frame E i st st' \<and> shell_step k (svc st) (svc st') \<and> shell_ready E i k st'"

lemma shell_goodD: "shell_good E i k st st' \<Longrightarrow> shell_ready E i k st'"
  by (simp add: shell_good_def)

lemma shell_good_refl: "shell_ready E i k st \<Longrightarrow> shell_good E i k st st"
  by (simp add: shell_good_def)

lemma shell_good_trans:
  "shell_ready E i k st \<Longrightarrow> shell_good E i k st st' \<Longrightarrow> shell_good E i k st' st'' \<Longrightarrow> shell_good E i k st st''"
  unfolding shell_good_def shell_ready_def by (blast intro: frame_trans shell_step_trans)

lemma shell_good_context:
  assumes "shell_ready E i k st" "shell_keep (conf E) (shell_contexts (svc st) ! k) (f (shell_contexts (svc st) ! k))"
  shows "shell_good E i k st (on_svc (update_shell k f) st)"
  using assms by (simp add: shell_good_def shell_ready_def on_svc_frame shell_keep_def)

lemma shell_good_write:
  assumes ready: "shell_ready E i k st"
    and "write": "webos_adb_stream_write E (h_stream (shell_contexts (svc st) ! k)) data len st = (ret, st')"
  shows "shell_good E i k st st'" "svc st' = svc st"
proof -
  have live: "live E i st" and "h_stream (shell_contexts (svc st) ! k) = Some i"
    using ready by (simp_all add: shell_ready_def)
  then have w: "service_frame E i st st' \<and> svc st' = svc st" using write_live "write" by metis
  then show "svc st' = svc st" by simp
  show "shell_good E i k st st'" using w ready live_frame [OF _ live] by (simp add: shell_good_def shell_ready_def)
qed

lemma shell_good_close:
  assumes ready: "shell_ready E i k st"
  shows "shell_good E i k st (webos_adb_stream_close E (h_stream (shell_contexts (svc st) ! k)) st)"
    "shell_good E i k st (webos_adb_stream_close E (Some i) st)"
proof -
  have live: "live E i st" and s: "h_stream (shell_contexts (svc st) ! k) = Some i"
    using ready by (simp_all add: shell_ready_def)
  show "shell_good E i k st (webos_adb_stream_close E (Some i) st)"
    using close_live [OF live] ready live_frame [OF _ live] by (simp add: shell_good_def shell_ready_def)
  then show "shell_good E i k st (webos_adb_stream_close E (h_stream (shell_contexts (svc st) ! k)) st)"
    by (simp add: s)
qed

lemma queue_next_chunk_good:
  assumes ready: "shell_ready E i k st" and queue: "queue_next_chunk E k st = (ret, st')"
  shows "shell_good E i k st st'"
proof -
  define x where "x = shell_contexts (svc st) ! k"
  have ok: "shell_ctx_ok (conf E) x" using ready by (simp add: shell_ready_def x_def)
  have chunk: "shell_good E i k st (if r = 0 then on_svc (update_shell k (chunk_sent n)) st1 else st1)"
    if "webos_adb_stream_write E (h_stream x) data n st = (r, st1)" "n \<le> h_output_len x - h_output_offset x"
    for data n r st1
  proof -
    have g1: "shell_good E i k st st1" and "svc st1 = svc st"
      using shell_good_write [OF ready] that(1) by (auto simp: x_def)
    then have "shell_good E i k st1 (on_svc (update_shell k (chunk_sent n)) st1)"
      using that(2) shell_goodD [OF g1] by (intro shell_good_context shell_keep_chunk) (simp_all add: x_def)
    then show ?thesis using g1 shell_good_trans [OF ready g1] by simp
  qed
  define n1 n2 where "n1 = min (h_output_len x) (webos_adb_stream_max_payload E st)"
    and "n2 = min (h_output_len x - h_output_offset x) (webos_adb_stream_max_payload E st)"
  obtain r1 st1 where w1: "webos_adb_stream_write E (h_stream x) (Some (h_output x)) n1 st = (r1, st1)" by fastforce
  obtain r2 st2 where w2: "webos_adb_stream_write E (h_stream x) (Some (drop (h_output_offset x) (h_output x))) n2 st
      = (r2, st2)" by fastforce
  have "st' = (if h_tx_in_flight x then st
      else if h_interactive x then
        if h_output_len x = 0 then st else if r1 = 0 then on_svc (update_shell k (chunk_sent n1)) st1 else st1
      else if n2 = 0 then webos_adb_stream_close E (h_stream x) st
      else if r2 = 0 then on_svc (update_shell k (chunk_sent n2)) st2 else st2)"
    using queue w1 w2 unfolding queue_next_chunk_def Let_def x_def [symmetric] n1_def [symmetric] n2_def [symmetric]
    by (simp split: if_splits)
  moreover have "h_interactive x \<Longrightarrow> n1 \<le> h_output_len x - h_output_offset x"
    using ok by (simp add: shell_ctx_ok_def n1_def)
  moreover have "n2 \<le> h_output_len x - h_output_offset x" by (simp add: n2_def)
  ultimately show ?thesis
    using chunk [OF w1] chunk [OF w2] shell_good_refl [OF ready] shell_good_close(1) [OF ready]
    by (simp add: x_def)
qed

lemma run_command_keep:
  assumes k: "k < length (shell_contexts s)" and "0 < capacity"
    and fits: "capacity + h_output_len (shell_contexts s ! k) \<le> length (h_output (shell_contexts s ! k))"
  shows "shell_step k s (run_command Z k capacity s)"
    "shell_keep c (shell_contexts s ! k) (shell_contexts (run_command Z k capacity s) ! k)"
proof -
  define x where "x = shell_contexts s ! k"
  obtain rc written b where run: "webos_shell_execute Z (Some (c_string (h_command x)))
      (Some (drop (h_output_len x) (h_output x))) capacity (shell_backend s) = ((rc, written), b)"
    by (metis prod.exhaust)
  obtain y where y: "run_command Z k capacity s = (update_shell k (\<lambda>_. y) s)\<lparr>shell_backend := b\<rparr>"
    "y = (case written of
                 None \<Rightarrow> x\<lparr>h_command_rc := rc\<rparr>
               | Some (out, captured, truncated) \<Rightarrow>
                   x\<lparr>h_command_rc := rc, h_output := take (h_output_len x) (h_output x) @ out,
                     h_output_len := h_output_len x + captured,
                     h_truncated := h_truncated x \<or> truncated\<rparr>)"
    using run unfolding run_command_def Let_def x_def [symmetric] by simp
  show "shell_step k s (run_command Z k capacity s)" unfolding y(1) by (intro shell_step_backend shell_step_update)
  have "shell_keep c x y"
  proof (cases written)
    case (Some w)
    obtain out n t where w: "w = (out, n, t)" by (cases w)
    have cap: "capacity \<le> length (drop (h_output_len x) (h_output x))" using fits by (simp add: x_def)
    obtain p where "bounded_copy (drop (h_output_len x) (h_output x)) capacity (out, n, t) p"
      using shell_execute_bounded [OF assms(2) cap run [unfolded Some w]] by blast
    then have "length out = length (drop (h_output_len x) (h_output x)) \<and> n < capacity"
      using cap by (rule bounded_copy_length)
    then show ?thesis using Some w fits by (auto simp: y(2) shell_keep_def shell_ctx_ok_def x_def)
  qed (simp add: y(2))
  then show "shell_keep c (shell_contexts s ! k) (shell_contexts (run_command Z k capacity s) ! k)"
    using k by (simp add: y(1) x_def)
qed

lemma shell_good_on_svc:
  assumes "shell_ready E i k st" "shell_step k (svc st) (f (svc st))"
    "shell_keep (conf E) (shell_contexts (svc st) ! k) (shell_contexts (f (svc st)) ! k)"
  shows "shell_good E i k st (on_svc f st)"
  using assms shell_step_frame(1) [OF assms(2)]
  by (simp add: shell_good_def shell_ready_def on_svc_frame shell_keep_def)

lemma shell_keep_end_line [simp]: "shell_keep c x (end_line x)"
  unfolding end_line_def Let_def by (rule shell_keep_trans [OF shell_keep_append shell_keep_flags(9)])

lemma run_line_keep:
  assumes k: "k < length (shell_contexts s)" and ok: "shell_ctx_ok c (shell_contexts s ! k)"
  shows "shell_step k s (run_line Z k p s)"
    "shell_keep c (shell_contexts s ! k) (shell_contexts (run_line Z k p s) ! k)"
proof -
  define x where "x = shell_contexts s ! k"
  define n where "n = (if p then length (SHELL_PROMPT_DUMMY Z) else 0)"
  define a where "a = length (h_output x) - h_output_len x"
  define s1 where "s1 = (if h_command_len x \<noteq> 0 then
                 if a \<le> n + 1 then update_shell k (\<lambda>x. x\<lparr>h_truncated := True\<rparr>) s
                 else run_command Z k (a - n) s
               else s)"
  define f where "f x = (let x = x\<lparr>h_command_len := 0\<rparr>
           in if p then append_output (SHELL_PROMPT_DUMMY Z) x else x)" for x :: adb_shell_context
  have s1: "shell_step k s s1 \<and> shell_keep c x (shell_contexts s1 ! k)"
    using run_command_keep(1) [OF k, where capacity = "a - n" and Z = Z]
      run_command_keep(2) [OF k, where capacity = "a - n" and Z = Z and c = c] k ok by (auto simp: s1_def a_def x_def)
  then have k1: "k < length (shell_contexts s1)" using k shell_step_frame(1) by metis
  have f: "shell_keep c y (f y)" for y
    using shell_keep_trans [OF shell_keep_flags(8) shell_keep_append, of 0 y] by (simp add: f_def Let_def)
  have eq: "run_line Z k p s = update_shell k f s1"
    unfolding run_line_def Let_def x_def [symmetric] n_def [symmetric] a_def [symmetric] s1_def [symmetric]
    by (simp add: f_def [abs_def] Let_def)
  show "shell_step k s (run_line Z k p s)"
    unfolding eq using s1 by (blast intro: shell_step_trans shell_step_update)
  show "shell_keep c (shell_contexts s ! k) (shell_contexts (run_line Z k p s) ! k)"
    unfolding eq using s1 k1 shell_keep_trans [OF _ f] by (simp add: x_def)
qed

lemma execute_line_good:
  assumes ready: "shell_ready E i k st" and run: "execute_interactive_line Z E k p st = (ret, st')"
  shows "shell_good E i k st st' \<and> ret = 0"
proof -
  define st1 where "st1 = on_svc (update_shell k end_line) st"
  define x where "x = shell_contexts (svc st1) ! k"
  define f where "f x = x\<lparr>h_command_len := 0, h_close_requested := True\<rparr>" for x :: adb_shell_context
  define st2 where "st2 = on_svc (update_shell k f) st1"
  have g1: "shell_good E i k st st1" unfolding st1_def by (rule shell_good_context [OF ready]) simp
  note r1 = shell_goodD [OF g1]
  have g2: "shell_good E i k st1 (on_svc (run_line Z k p) st1)"
    using r1 run_line_keep [of k "svc st1" "conf E"] by (intro shell_good_on_svc) (simp_all add: shell_ready_def)
  have g3: "shell_good E i k st1 st2" unfolding st2_def
    by (rule shell_good_context [OF r1]) (auto simp: shell_keep_def shell_ctx_ok_def f_def)
  have "h_stream x = h_stream (shell_contexts (svc st2) ! k)"
    using r1 by (simp add: st2_def x_def shell_ready_def f_def)
  then have g4: "shell_good E i k st1 (webos_adb_stream_close E (h_stream x) st2)"
    using shell_good_trans [OF r1 g3 shell_good_close(1) [OF shell_goodD [OF g3]]] by simp
  have "(ret, st') = (0, if strcmp (c_string (h_command x)) ''exit'' = 0
      then webos_adb_stream_close E (h_stream x) st2 else on_svc (run_line Z k p) st1)"
    using run unfolding execute_interactive_line_def Let_def f_def [symmetric] st1_def [symmetric]
      x_def [symmetric] st2_def [symmetric] by (simp split: if_splits)
  then show ?thesis using g2 g4 shell_good_trans [OF ready g1] by simp
qed

lemma line_byte_good:
  assumes ready: "shell_ready E i k st" and line: "line_byte Z E k v st = ((stop, ret), st')"
  shows "shell_good E i k st st' \<and> ret = 0"
proof -
  define x where "x = shell_contexts (svc st) ! k"
  define f where "f x = append_output ([CHR 0x0D, CHR 0x0A] @ SHELL_PROMPT_DUMMY Z) (x\<lparr>h_discard_line := False\<rparr>)" for x
  have discard: "shell_good E i k st (on_svc (update_shell k f) st)"
    by (rule shell_good_context [OF ready]) (simp add: f_def shell_keep_trans [OF shell_keep_flags(6) shell_keep_append])
  obtain r1 st1 where e1: "execute_interactive_line Z E k True st = (r1, st1)" by fastforce
  obtain r2 st2 where e2: "(if h_command_len x \<noteq> 0 then execute_interactive_line Z E k False st else (0, st)) = (r2, st2)"
    by fastforce
  have g2: "shell_good E i k st st2 \<and> r2 = 0"
    using e2 execute_line_good [OF ready] shell_good_refl [OF ready] by (auto split: if_splits)
  define st3 where "st3 = on_svc (update_shell k (\<lambda>x. x\<lparr>h_close_requested := True\<rparr>)) st2"
  have g3: "shell_good E i k st2 st3" unfolding st3_def
    using shell_goodD g2 by (intro shell_good_context) auto
  have g4: "shell_good E i k st (webos_adb_stream_close E (h_stream (shell_contexts (svc st3) ! k)) st3)"
    using shell_good_trans [OF ready _ shell_good_trans [OF _ g3 shell_good_close(1) [OF shell_goodD [OF g3]]]]
      g2 shell_goodD by blast
  obtain b y where ed: "edit_byte (SHELL_PROMPT_DUMMY Z) v x = (b, y)" by fastforce
  have g5: "shell_good E i k st (on_svc (update_shell k (\<lambda>_. y)) st)"
    using shell_keep_edit [OF ed] by (intro shell_good_context [OF ready]) (simp add: x_def)
  have "(ret, st') = (if h_discard_line x then if v = CHR 0x0D \<or> v = CHR 0x0A then (0, on_svc (update_shell k f) st) else (0, st)
      else if v = CHR 0x0D \<or> v = CHR 0x0A then (r1, st1)
      else if v = CHR 0x04 then (r2, webos_adb_stream_close E (h_stream (shell_contexts (svc st3) ! k)) st3)
      else (0, on_svc (update_shell k (\<lambda>_. y)) st))"
    using line unfolding line_byte_def Let_def x_def [symmetric] f_def [symmetric] e1 e2 ed split_conv st3_def [symmetric]
    by (auto split: if_splits)
  then show ?thesis
    using discard g2 g4 g5 execute_line_good [OF ready e1] shell_good_refl [OF ready] by (simp split: if_splits)
qed

lemma input_byte_good:
  assumes ready: "shell_ready E i k st" and line: "input_byte Z E k v st = ((stop, ret), st')"
  shows "shell_good E i k st st' \<and> ret = 0"
proof -
  obtain b1 x1 where esc: "escape_filter v (shell_contexts (svc st) ! k) = (b1, x1)" by fastforce
  obtain b2 x2 where nl: "(if b1 then (True, x1) else newline_filter v x1) = (b2, x2)" by fastforce
  define st1 where "st1 = on_svc (update_shell k (\<lambda>_. x2)) st"
  have "shell_keep (conf E) (shell_contexts (svc st) ! k) x2"
    using shell_keep_escape [OF esc] nl shell_keep_trans [OF shell_keep_escape [OF esc] shell_keep_newline]
    by (auto split: if_splits)
  then have g1: "shell_good E i k st st1" unfolding st1_def by (rule shell_good_context [OF ready])
  have eq: "input_byte Z E k v st = (if b2 then ((False, 0), st1) else line_byte Z E k v st1)"
    unfolding input_byte_def Let_def esc nl split_conv st1_def ..
  show ?thesis
  proof (cases b2)
    case False
    then have "line_byte Z E k v st1 = ((stop, ret), st')" using line eq by simp
    from line_byte_good [OF shell_goodD [OF g1] this] show ?thesis using shell_good_trans [OF ready g1] by blast
  qed (use g1 line eq in simp)
qed

lemma input_loop_good:
  "shell_ready E i k st \<Longrightarrow> input_loop Z E k vs n st = ((ret, consumed), st') \<Longrightarrow>
    shell_good E i k st st' \<and> ret = 0 \<and> consumed \<le> n + length vs"
proof (induction vs arbitrary: n st)
  case Nil
  then show ?case by (simp add: shell_good_refl)
next
  case (Cons v vs)
  obtain stop r st1 where b: "input_byte Z E k v st = ((stop, r), st1)" by (metis prod.exhaust)
  note g1 = input_byte_good [OF Cons.prems(1) b]
  show ?case
  proof (cases stop)
    case True
    then show ?thesis using Cons.prems(2) b g1 by simp
  next
    case False
    then have "input_loop Z E k vs (n + 1) st1 = ((ret, consumed), st')" using Cons.prems(2) b by simp
    from Cons.IH [OF _ this] show ?thesis using g1 shell_goodD shell_good_trans [OF Cons.prems(1)] by fastforce
  qed
qed

lemma process_input_good:
  assumes ready: "shell_ready E i k st" and run: "process_interactive_input Z E k st = (ret, st')"
  shows "shell_good E i k st st' \<and> ret = 0"
proof -
  obtain r n st1 where loop: "input_loop Z E k
      (bytes_of (h_input (shell_contexts (svc st) ! k)) (h_input_len (shell_contexts (svc st) ! k))) 0 st = ((r, n), st1)"
    by (metis prod.exhaust)
  note g1 = input_loop_good [OF ready loop]
  then have "shell_good E i k st1 (on_svc (update_shell k (input_consumed n)) st1)"
    using shell_goodD by (intro shell_good_context) auto
  then show ?thesis
    using g1 run loop shell_good_trans [OF ready] by (auto simp: process_interactive_input_def)
qed


section \<open>The contract\<close>

definition shell_ok :: "kconfig \<Rightarrow> ('f, 'b, 'x) shell_service_scheme \<Rightarrow> bool" where
  "shell_ok c s \<longleftrightarrow> list_all (shell_ctx_ok c) (shell_contexts s)"

text \<open>What a shell callback leaves: its frame, the invariant, and the variables of the other services.\<close>

definition shell_result ::
    "('f, 'b, 'x, 't, 'z) shell_env \<Rightarrow> nat \<Rightarrow> ('f, 'b, 'x, 't) shell_adb \<Rightarrow> ('f, 'b, 'x, 't) shell_adb \<Rightarrow> bool" where
  "shell_result E i st st' \<longleftrightarrow>
     service_frame E i st st' \<and> shell_ok (conf E) (svc st') \<and> contexts (svc st') = contexts (svc st) \<and>
     shell_service.more (svc st') = shell_service.more (svc st)"

lemma shell_ok_step:
  "shell_ok c s \<Longrightarrow> shell_step k s s' \<Longrightarrow> (k < length (shell_contexts s) \<Longrightarrow> shell_ctx_ok c (shell_contexts s' ! k)) \<Longrightarrow>
    shell_ok c s'"
  unfolding shell_ok_def list_all_length by (metis shell_step_frame(1,4))

lemma shell_good_result: "shell_ok (conf E) (svc st) \<Longrightarrow> shell_good E i k st st' \<Longrightarrow> shell_result E i st st'"
  using shell_ok_step [of "conf E" "svc st" k "svc st'"] shell_step_frame(2,3) [of k "svc st" "svc st'"]
  by (simp add: shell_result_def shell_good_def shell_ready_def)

lemma shell_result_refl: "shell_ok (conf E) (svc st) \<Longrightarrow> shell_result E i st st"
  by (simp add: shell_result_def)

lemma shell_find_context_Some:
  "shell_find_context stream s = Some k \<Longrightarrow> k < length (shell_contexts s) \<and> h_stream (shell_contexts s ! k) = Some stream"
  unfolding shell_find_context_def by (drule find_index_Some) simp

lemma shell_find_ready:
  assumes "live E i st" "shell_ok (conf E) (svc st)" "shell_find_context i (svc st) = Some k"
  shows "shell_ready E i k st"
  using assms shell_find_context_Some [OF assms(3)] by (simp add: shell_ready_def shell_ok_def list_all_length)

lemma length_memcpy_bytes_of: "off + n \<le> length d \<Longrightarrow> length (memcpy d off (bytes_of p n)) = length d"
  by (rule length_memcpy) (rule order_trans [OF add_left_mono [OF length_bytes_of]])

lemma shell_write_result:
  assumes live: "live E i st" and ok: "shell_ok (conf E) (svc st)"
    and "write": "adb_shell_write Z E i data len st = (ret, st')"
  shows "shell_result E i st st'"
proof (cases "shell_find_context i (svc st)")
  case None
  then show ?thesis using "write" shell_result_refl [OF ok] by (simp add: adb_shell_write_def)
next
  case (Some k)
  note ready = shell_find_ready [OF live ok Some]
  define x where "x = shell_contexts (svc st) ! k"
  define f where "f x = x\<lparr>h_input := map_option (\<lambda>d. memcpy d (h_input_len x) (bytes_of data len)) (h_input x),
      h_input_len := h_input_len x + len\<rparr>" for x :: adb_shell_context
  define st1 where "st1 = (if len \<noteq> 0 then on_svc (update_shell k f) st else st)"
  obtain r2 st2 where p: "(if \<not> h_tx_in_flight (shell_contexts (svc st1) ! k) \<and> h_output_len (shell_contexts (svc st1) ! k) = 0
      then process_interactive_input Z E k st1 else (0, st1)) = (r2, st2)" by fastforce
  obtain r3 st3 where q: "queue_next_chunk E k st2 = (r3, st3)" by fastforce
  define refused where "refused \<longleftrightarrow> data = None \<and> len \<noteq> 0 \<or> \<not> h_interactive x \<or> h_input_capacity x - h_input_len x < len"
  have eq: "st' = (if refused then st else if r2 = 0 then st3 else st2)"
    using "write" p q unfolding adb_shell_write_def Some option.case Let_def x_def [symmetric] f_def [symmetric] st1_def [symmetric]
    by (auto simp: refused_def split: if_splits)
  have "shell_good E i k st st3 \<and> shell_good E i k st st2" if "\<not> refused"
  proof -
    have "shell_keep (conf E) x (f x)" if "len \<noteq> 0"
      using \<open>\<not> refused\<close>
      by (cases "h_input x") (auto simp: refused_def f_def shell_keep_def shell_ctx_ok_def length_memcpy_bytes_of)
    then have g1: "shell_good E i k st st1"
      using shell_good_context [OF ready, of f] shell_good_refl [OF ready] by (simp add: st1_def x_def)
    have g2: "shell_good E i k st1 st2"
      using p process_input_good [OF shell_goodD [OF g1]] shell_good_refl [OF shell_goodD [OF g1]] by (auto split: if_splits)
    show ?thesis
      using shell_good_trans [OF ready g1 g2] shell_good_trans [OF ready g1 shell_good_trans [OF shell_goodD [OF g1] g2
          queue_next_chunk_good [OF shell_goodD [OF g2] q]]] by simp
  qed
  then show ?thesis using eq shell_good_result [OF ok] shell_result_refl [OF ok] by auto
qed

lemma shell_tx_ready_result:
  assumes live: "live E i st" and ok: "shell_ok (conf E) (svc st)"
  shows "shell_result E i st (adb_shell_tx_ready Z E i st)"
proof (cases "shell_find_context i (svc st)")
  case None
  then show ?thesis using shell_result_refl [OF ok] by (simp add: adb_shell_tx_ready_def)
next
  case (Some k)
  note ready = shell_find_ready [OF live ok Some]
  define st1 where "st1 = on_svc (update_shell k (\<lambda>x. x\<lparr>h_tx_in_flight := False\<rparr>)) st"
  define x where "x = shell_contexts (svc st1) ! k"
  obtain r2 st2 where p: "(if h_interactive x \<and> h_output_len x = 0 \<and> h_input_len x \<noteq> 0 \<and> \<not> h_close_requested x
      then process_interactive_input Z E k st1 else (0, st1)) = (r2, st2)" by fastforce
  obtain r3 st3 where q: "queue_next_chunk E k st2 = (r3, st3)" by fastforce
  have g1: "shell_good E i k st st1" unfolding st1_def by (rule shell_good_context [OF ready]) simp
  have g2: "shell_good E i k st1 st2"
    using p process_input_good [OF shell_goodD [OF g1]] shell_good_refl [OF shell_goodD [OF g1]] by (auto split: if_splits)
  note s2 = shell_good_trans [OF ready g1 g2]
  note s3 = shell_good_trans [OF ready s2 queue_next_chunk_good [OF shell_goodD [OF g2] q]]
  have "adb_shell_tx_ready Z E i st = (if r2 \<noteq> 0 then webos_adb_stream_close E (Some i) st2
      else if r3 \<noteq> 0 then webos_adb_stream_close E (Some i) st3 else st3)"
    unfolding adb_shell_tx_ready_def Some option.case Let_def st1_def [symmetric] x_def [symmetric] p q split_conv ..
  then show ?thesis
    using shell_good_result [OF ok] s3 shell_good_trans [OF ready s2 shell_good_close(2) [OF shell_goodD [OF s2]]]
      shell_good_trans [OF ready s3 shell_good_close(2) [OF shell_goodD [OF s3]]] by simp
qed

lemma shell_context_zero_ok:
  "0 < WEBOS_ADB_SHELL_COMMAND_SIZE c \<Longrightarrow> shell_ctx_ok c (shell_context_zero c)"
  "0 < WEBOS_ADB_SHELL_COMMAND_SIZE c \<Longrightarrow> shell_ctx_ok c ((shell_context_zero c)\<lparr>h_stream := Some i\<rparr>)"
  by (simp_all add: shell_ctx_ok_def shell_context_zero_def)

lemma shell_close_ok:
  assumes ok: "shell_ok c s" and size: "0 < WEBOS_ADB_SHELL_COMMAND_SIZE c"
  shows "shell_ok c (adb_shell_close Z c i s) \<and> contexts (adb_shell_close Z c i s) = contexts s \<and>
    shell_service.more (adb_shell_close Z c i s) = shell_service.more s"
proof (cases "shell_find_context i s")
  case (Some k)
  define s1 where "s1 = (if h_interactive (shell_contexts s ! k)
                   then s\<lparr>shell_backend := webos_shell_clear_output Z (shell_backend s)\<rparr> else s)"
  have step: "shell_step k s s1" by (simp add: s1_def shell_step_backend)
  have eq: "adb_shell_close Z c i s = update_shell k (\<lambda>_. shell_context_zero c) s1"
    by (simp add: adb_shell_close_def Some s1_def shell_release_def Let_def)
  have st: "shell_step k s (adb_shell_close Z c i s)" unfolding eq by (rule shell_step_trans [OF step shell_step_update])
  have "shell_ok c (adb_shell_close Z c i s)"
    using shell_context_zero_ok(1) [OF size] shell_step_frame(1) [OF step] by (intro shell_ok_step [OF ok st]) (simp add: eq)
  then show ?thesis using shell_step_frame(2,3) [OF st] by simp
qed (simp add: adb_shell_close_def ok)


lemma allocate_context_Some:
  assumes "allocate_context c i s = (Some k, s')"
  shows "k < length (shell_contexts s)" "s' = update_shell k (\<lambda>_. (shell_context_zero c)\<lparr>h_stream := Some i\<rparr>) s"
proof -
  obtain j where j: "find (\<lambda>k. h_stream (shell_contexts s ! k) = None) [0..<length (shell_contexts s)] = Some j"
    "k = j" "s' = update_shell k (\<lambda>_. (shell_context_zero c)\<lparr>h_stream := Some i\<rparr>) s"
    using assms by (auto simp: allocate_context_def split: option.splits)
  show "s' = update_shell k (\<lambda>_. (shell_context_zero c)\<lparr>h_stream := Some i\<rparr>) s" by (rule j(3))
  show "k < length (shell_contexts s)" using find_index_Some [OF j(1)] j(2) by simp
qed

text \<open>The fresh context after the session or the command has filled it.\<close>

lemma open_interactive_keep:
  assumes k: "k < length (shell_contexts s)"
    and x: "shell_ctx_ok c (shell_contexts s ! k)" "h_output_offset (shell_contexts s ! k) = 0" "h_input_len (shell_contexts s ! k) = 0"
  shows "shell_step k s (open_interactive Z c k s)"
    "shell_keep c (shell_contexts s ! k) (shell_contexts (open_interactive Z c k s) ! k)"
proof -
  show "shell_step k s (open_interactive Z c k s)"
    unfolding open_interactive_def Let_def
    by (rule shell_step_trans [OF shell_step_backend [OF shell_step_update] shell_step_update])
  show "shell_keep c (shell_contexts s ! k) (shell_contexts (open_interactive Z c k s) ! k)"
    using assms by (simp add: open_interactive_def Let_def shell_keep_def shell_ctx_ok_def)
qed

lemma open_command_keep:
  assumes k: "k < length (shell_contexts s)" and pos: "0 < length (h_output (shell_contexts s ! k))"
    and offset: "h_output_offset (shell_contexts s ! k) = 0"
  shows "shell_step k s (open_command Z k command s)"
    "shell_keep c (shell_contexts s ! k) (shell_contexts (open_command Z k command s) ! k)"
proof -
  define x where "x = shell_contexts s ! k"
  obtain rc written b where run: "webos_shell_execute Z (Some command) (Some (h_output x)) (length (h_output x))
      (shell_backend s) = ((rc, written), b)" by (metis prod.exhaust)
  obtain y where y: "open_command Z k command s = (update_shell k (\<lambda>_. y) s)\<lparr>shell_backend := b\<rparr>"
    "y = (case written of None \<Rightarrow> x\<lparr>h_command_rc := rc\<rparr>
          | Some (out, n, truncated) \<Rightarrow>
              x\<lparr>h_command_rc := rc, h_output := out, h_output_len := n, h_truncated := truncated\<rparr>)"
    using run unfolding open_command_def Let_def x_def [symmetric] by simp
  show "shell_step k s (open_command Z k command s)" unfolding y(1) by (intro shell_step_backend shell_step_update)
  have "shell_keep c x y"
  proof (cases written)
    case (Some w)
    obtain out n t where w: "w = (out, n, t)" by (cases w)
    have cap: "0 < length (h_output x)" using pos by (simp add: x_def)
    obtain p where "bounded_copy (h_output x) (length (h_output x)) (out, n, t) p"
      using shell_execute_bounded [OF cap order_refl run [unfolded Some w]] by blast
    then have "length out = length (h_output x) \<and> n < length (h_output x)"
      using order_refl by (rule bounded_copy_length)
    then show ?thesis using Some w offset by (auto simp: y(2) shell_keep_def shell_ctx_ok_def x_def)
  qed (simp add: y(2))
  then show "shell_keep c (shell_contexts s ! k) (shell_contexts (open_command Z k command s) ! k)"
    using k by (simp add: y(1) x_def)
qed

lemma shell_release_result:
  assumes ok: "shell_ok (conf E) (svc st)" and frame: "service_frame E i st st'" "shell_step k (svc st) (svc st')"
    and live: "live E i st" and size: "0 < WEBOS_ADB_SHELL_COMMAND_SIZE (conf E)"
  shows "shell_result E i st (on_svc (shell_release (conf E) k) st')"
proof -
  have step: "shell_step k (svc st) (svc (on_svc (shell_release (conf E) k) st'))"
    unfolding svc_on_svc shell_release_def by (rule shell_step_trans [OF frame(2) shell_step_update])
  have "shell_ok (conf E) (svc (on_svc (shell_release (conf E) k) st'))"
    using shell_step_frame(1) [OF frame(2)] shell_context_zero_ok(1) [OF size]
    by (intro shell_ok_step [OF ok step]) (simp add: shell_release_def)
  then show ?thesis
    using shell_step_frame(2,3) [OF step] frame_trans [OF live frame(1) on_svc_frame] by (simp add: shell_result_def)
qed


lemma shell_start_result:
  fixes st0 st :: "('f, 'b, 'x, 't) shell_adb"
  assumes live: "live E i st0" and ok: "shell_ok (conf E) (svc st0)"
    and size: "0 < WEBOS_ADB_SHELL_COMMAND_SIZE (conf E)" "0 < WEBOS_ADB_SHELL_OUTPUT_SIZE (conf E)"
    and new: "service_frame E i st0 st" "shell_step k (svc st0) (svc st)" "k < length (shell_contexts (svc st))"
      "shell_contexts (svc st) ! k = (shell_context_zero (conf E))\<lparr>h_stream := Some i\<rparr>"
    and start: "shell_start Z E k suffix_bytes st = (ret, st')"
  shows "shell_result E i st0 st'"
proof -
  obtain b st2 where m: "(if suffix_bytes = [] then k_malloc E (WEBOS_ADB_SHELL_INPUT_SIZE (conf E)) st else (True, st)) = (b, st2)"
    by fastforce
  have m2: "service_frame E i st st2 \<and> svc st2 = svc st"
    using m malloc_live [OF live_frame [OF new(1) live]] by (auto split: if_splits)
  have f2: "service_frame E i st0 st2" using frame_trans [OF live new(1)] m2 by blast
  have r2: "shell_ready E i k st2" and s2: "shell_step k (svc st0) (svc st2)"
    using new live_frame [OF f2 live] shell_context_zero_ok(2) [OF size(1)] m2 by (simp_all add: shell_ready_def)
  define f :: "('f, 'b, 'x) shell_service_scheme \<Rightarrow> ('f, 'b, 'x) shell_service_scheme"
    where "f = (if suffix_bytes = [] then open_interactive Z (conf E) k else open_command Z k suffix_bytes)"
  obtain r4 st4 where q: "queue_next_chunk E k (on_svc f st2) = (r4, st4)" by fastforce
  have "shell_step k (svc st2) (f (svc st2)) \<and> shell_keep (conf E) (shell_contexts (svc st2) ! k) (shell_contexts (f (svc st2)) ! k)"
    using new(3,4) m2 size r2 open_interactive_keep [of k "svc st2" "conf E"] open_command_keep(1) [of k "svc st2"]
      open_command_keep(2) [of k "svc st2"]
    by (simp add: f_def shell_context_zero_def shell_ready_def)
  then have g3: "shell_good E i k st2 (on_svc f st2)" by (intro shell_good_on_svc [OF r2]) simp_all
  note g4 = shell_good_trans [OF r2 g3 queue_next_chunk_good [OF shell_goodD [OF g3] q]]
  have f4: "service_frame E i st0 st4" "shell_step k (svc st0) (svc st4)"
    using frame_trans [OF live f2] shell_step_trans [OF s2] g4 by (auto simp: shell_good_def)
  have "st' = (if \<not> b then on_svc (shell_release (conf E) k) st2
      else if r4 \<noteq> 0 then on_svc (shell_release (conf E) k) st4 else st4)"
    using start unfolding shell_start_def m Let_def split_conv f_def [symmetric] q by (auto split: if_splits)
  moreover have "shell_result E i st0 st4"
    using f4 shell_step_frame(2,3) [OF f4(2)] shell_ok_step [OF ok f4(2)] g4
    by (simp add: shell_result_def shell_good_def shell_ready_def)
  ultimately show ?thesis
    using shell_release_result [OF ok f2 s2 live size(1)] shell_release_result [OF ok f4 live size(1)] by simp
qed

lemma shell_open_result:
  assumes live: "live E i st" and ok: "shell_ok (conf E) (svc st)"
    and size: "0 < WEBOS_ADB_SHELL_COMMAND_SIZE (conf E)" "0 < WEBOS_ADB_SHELL_OUTPUT_SIZE (conf E)"
    and "open": "adb_shell_open Z E i suffix_bytes st = (ret, st')"
  shows "shell_result E i st st'"
proof -
  have "st' = st \<or> (\<exists>k s. allocate_context (conf E) i (svc st) = (Some k, s) \<and>
      shell_start Z E k suffix_bytes (on_svc (\<lambda>_. s) st) = (ret, st'))"
    using "open" by (auto simp: adb_shell_open_def split: if_splits prod.splits option.splits)
  then show ?thesis
  proof (elim disjE exE conjE)
    fix k s assume alloc: "allocate_context (conf E) i (svc st) = (Some k, s)"
      and start: "shell_start Z E k suffix_bytes (on_svc (\<lambda>_. s) st) = (ret, st')"
    show ?thesis
      using allocate_context_Some [OF alloc] by (intro shell_start_result [OF live ok size on_svc_frame _ _ _ start]) simp_all
  qed (simp add: shell_result_refl [OF ok])
qed
end
