(* ===== verification/Byte_Ring.thy ===== *)
theory Byte_Ring
  imports Webos_Prelude
begin

text \<open>
  Circular byte buffers.  The retained log (app/src/services/log_buffer/log_buffer.c) and the
  pending output of the ADB log stream (lib/adb/adb_logcat.c) are both a fixed array with a head
  index and a length, and both keep the newest bytes when they overflow.  This theory has the
  abstraction from the array to the sequence of bytes it holds, the arithmetic of the two copies
  a wrapping write makes, and the interface \<open>newest_bytes\<close> the clients of such a buffer rely on.
\<close>

section \<open>The bytes a ring holds\<close>

definition ring_contents :: "'a list \<Rightarrow> nat \<Rightarrow> nat \<Rightarrow> 'a list" where
  "ring_contents buf head len = map (\<lambda>i. buf ! ((head + i) mod length buf)) [0..<len]"

definition ring_ok :: "'a list \<Rightarrow> nat \<Rightarrow> nat \<Rightarrow> bool" where
  "ring_ok buf head len \<longleftrightarrow> head < length buf \<and> len \<le> length buf"

lemma length_ring_contents [simp]: "length (ring_contents buf head len) = len"
  by (simp add: ring_contents_def)

lemma nth_ring_contents [simp]:
  "i < len \<Longrightarrow> ring_contents buf head len ! i = buf ! ((head + i) mod length buf)"
  by (simp add: ring_contents_def)

lemma ring_contents_0 [simp]: "ring_contents buf head 0 = []"
  by (simp add: ring_contents_def)

text \<open>Reading a ring is the copy of at most two runs: from the head to the end, then from 0.\<close>

lemma ring_contents_two_runs:
  assumes "ring_ok buf head len" and "first = min len (length buf - head)"
  shows "ring_contents buf head len = take first (drop head buf) @ take (len - first) buf"
proof (rule nth_equalityI)
  fix i assume "i < length (ring_contents buf head len)"
  then have i: "i < len" by simp
  show "ring_contents buf head len ! i = (take first (drop head buf) @ take (len - first) buf) ! i"
  proof (cases "i < length buf - head")
    case True
    with i assms show ?thesis by (auto simp: ring_ok_def nth_append)
  next
    case False
    with i assms have "(head + i) mod length buf = i - (length buf - head)"
      by (auto simp: ring_ok_def mod_if)
    with False i assms show ?thesis by (auto simp: ring_ok_def nth_append)
  qed
qed (use assms in \<open>auto simp: ring_ok_def\<close>)

lemma ring_contents_take:
  "n \<le> len \<Longrightarrow> ring_contents buf head n = take n (ring_contents buf head len)"
  by (rule nth_equalityI) simp_all

text \<open>Dropping the oldest bytes moves the head.\<close>

lemma ring_contents_drop:
  assumes "d \<le> len"
  shows "ring_contents buf ((head + d) mod length buf) (len - d) = drop d (ring_contents buf head len)"
  using assms by (intro nth_equalityI) (simp_all add: mod_simps add.assoc)

text \<open>A write at the tail, in at most two copies, appends to what the ring holds.\<close>

definition ring_append :: "'a list \<Rightarrow> nat \<Rightarrow> 'a list \<Rightarrow> 'a list" where
  "ring_append buf tail data =
     (let first = min (length data) (length buf - tail);
          buf' = memcpy buf tail (take first data)
      in if first \<noteq> length data then memcpy buf' 0 (drop first data) else buf')"

lemma length_ring_append [simp]:
  "tail < length buf \<Longrightarrow> length data \<le> length buf \<Longrightarrow> length (ring_append buf tail data) = length buf"
  by (auto simp: ring_append_def Let_def)

lemma length_ring_append_mod [simp]:
  "buf \<noteq> [] \<Longrightarrow> length data \<le> length buf
    \<Longrightarrow> length (ring_append buf (t mod length buf) data) = length buf"
  by (simp add: length_ring_append)

lemma nth_ring_append:
  assumes "tail < length buf" and "length data \<le> length buf" and "i < length buf"
  shows "ring_append buf tail data ! i =
    (if tail \<le> i \<and> i - tail < length data then data ! (i - tail)
     else if i < tail \<and> i + length buf - tail < length data then data ! (i + length buf - tail)
     else buf ! i)"
  using assms by (auto simp: ring_append_def Let_def nth_memcpy min_def add.commute)

lemma ring_contents_append:
  assumes ok: "ring_ok buf head len" and fits: "len + length data \<le> length buf"
  shows "ring_contents (ring_append buf ((head + len) mod length buf) data) head (len + length data)
    = ring_contents buf head len @ data"
proof (rule nth_equalityI)
  let ?n = "length buf" and ?tail = "(head + len) mod length buf"
  from ok have n: "0 < ?n" "head < ?n" by (auto simp: ring_ok_def)
  fix i assume "i < length (ring_contents (ring_append buf ?tail data) head (len + length data))"
  then have i: "i < len + length data" by simp
  have tail: "?tail = (if head + len < ?n then head + len else head + len - ?n)"
    using n fits by (simp add: mod_if)
  have pos: "(head + i) mod ?n = (if head + i < ?n then head + i else head + i - ?n)"
    using n fits i by (auto simp: mod_if)
  have len: "?tail < ?n" "length data \<le> ?n" "(head + i) mod ?n < ?n" using n fits by simp_all
  note nth = nth_ring_append [OF len]
  show "ring_contents (ring_append buf ?tail data) head (len + length data) ! i
      = (ring_contents buf head len @ data) ! i"
  proof (cases "i < len")
    case True
    with n fits have "ring_append buf ?tail data ! ((head + i) mod ?n) = buf ! ((head + i) mod ?n)"
      by (simp only: nth) (auto simp: pos tail)
    with True i n len show ?thesis by (simp add: nth_append)
  next
    case False
    with n fits i have "ring_append buf ?tail data ! ((head + i) mod ?n) = data ! (i - len)"
      by (simp only: nth) (auto simp: pos tail)
    with False i n len show ?thesis by (simp add: nth_append)
  qed
qed simp

text \<open>
  Storing data: only its last bytes are kept when it is as long as the array, the oldest bytes make
  room, and the rest is appended.  The ring then holds the newest bytes of all it was given.
\<close>

definition ring_put :: "'a list \<Rightarrow> nat \<Rightarrow> nat \<Rightarrow> 'a list \<Rightarrow> 'a list \<times> nat \<times> nat" where
  "ring_put buf head len d =
     (let m = lastn (length buf) d;
          (head, len) = (if length buf \<le> length d then (0, 0) else (head, len));
          dropped = len + length m - length buf;
          head = (head + dropped) mod length buf;
          len = len - dropped
      in (ring_append buf ((head + len) mod length buf) m, head, len + length m))"

lemma ring_put_props:
  assumes ok: "ring_ok buf head len" and put: "ring_put buf head len d = (buf', head', len')"
  shows "ring_ok buf' head' len'" "length buf' = length buf"
    "ring_contents buf' head' len' = lastn (length buf) (ring_contents buf head len @ d)"
proof -
  define m where "m = lastn (length buf) d"
  define h1 l1 where "h1 = (if length buf \<le> length d then 0 else head)"
    and "l1 = (if length buf \<le> length d then 0 else len)"
  define dr where "dr = l1 + length m - length buf"
  define h2 l2 where "h2 = (h1 + dr) mod length buf" and "l2 = l1 - dr"
  have pos: "buf \<noteq> []" using ok by (auto simp: ring_ok_def)
  have eq: "buf' = ring_append buf ((h2 + l2) mod length buf) m" "head' = h2" "len' = l2 + length m"
    using put by (auto simp: ring_put_def Let_def m_def h1_def l1_def dr_def h2_def l2_def split: if_splits)
  have m: "length m \<le> length buf" by (simp add: m_def)
  have ok1: "ring_ok buf h1 l1" using ok pos by (auto simp: h1_def l1_def ring_ok_def)
  have fits: "l2 + length m \<le> length buf" "dr \<le> l1" using m ok1 by (auto simp: l2_def dr_def ring_ok_def)
  have ok2: "ring_ok buf h2 l2" using fits pos by (auto simp: ring_ok_def h2_def)
  have c2: "ring_contents buf h2 l2 = drop dr (ring_contents buf h1 l1)"
    unfolding h2_def l2_def by (rule ring_contents_drop [OF fits(2)])
  show "length buf' = length buf" using pos m eq by simp
  then show "ring_ok buf' head' len'" using ok2 fits eq by (simp add: ring_ok_def)
  have "ring_contents buf' head' len' = drop dr (ring_contents buf h1 l1) @ m"
    unfolding eq c2 [symmetric] by (rule ring_contents_append [OF ok2 fits(1)])
  also have "\<dots> = lastn (length buf) (ring_contents buf head len @ d)"
    by (auto simp: m_def h1_def l1_def dr_def lastn_append) (simp_all add: lastn_def)
  finally show "ring_contents buf' head' len' = lastn (length buf) (ring_contents buf head len @ d)" .
qed

section \<open>The interface of a buffer that keeps the newest bytes\<close>

locale newest_bytes =
  fixes inv :: "'s \<Rightarrow> bool"
    and capacity :: "'s \<Rightarrow> nat"
    and contents :: "'s \<Rightarrow> byte list"
    and push :: "byte list \<Rightarrow> 's \<Rightarrow> 's"
  assumes push_inv: "inv s \<Longrightarrow> inv (push d s)"
    and push_capacity: "inv s \<Longrightarrow> capacity (push d s) = capacity s"
    and push_contents: "inv s \<Longrightarrow> contents (push d s) = lastn (capacity s) (contents s @ d)"
    and contents_bounded: "inv s \<Longrightarrow> length (contents s) \<le> capacity s"
begin

lemma pushes_inv: "inv s \<Longrightarrow> inv (fold push ds s) \<and> capacity (fold push ds s) = capacity s"
  by (induction ds arbitrary: s) (simp_all add: push_inv push_capacity)

lemma pushes_contents:
  "inv s \<Longrightarrow> contents (fold push ds s) = lastn (capacity s) (contents s @ concat ds)"
proof (induction ds arbitrary: s)
  case Nil
  then show ?case by (simp add: contents_bounded)
next
  case (Cons d ds)
  then show ?case by (simp add: push_inv push_capacity push_contents)
qed

lemma push_split: "inv s \<Longrightarrow> contents (push (d @ e) s) = contents (push e (push d s))"
  by (simp add: push_inv push_capacity push_contents)

end

end
