(* ===== verification/Log_Buffer.thy ===== *)
theory Log_Buffer
  imports Byte_Ring
begin

text \<open>
  app/src/services/log_buffer/log_buffer.c: the retained device log, a ring of
  \<open>CONFIG_WEBOS_LOG_BUFFER_SIZE\<close> bytes with at most one live listener.  The module's static
  variables are the record \<open>log_state\<close>; the mutex makes each operation one step.  The array's
  length stands for the configured size.  \<open>log_buffer_put\<close> also returns the call it makes to the
  listener after it has released the mutex.
\<close>

section \<open>State\<close>

text \<open>A listener is a function pointer (an element of \<open>'l\<close>) with its context pointer.\<close>

record ('l, 'c) log_state =
  log_buf :: "byte list"
  log_head :: nat
  log_len :: nat
  log_listener :: "'l option"
  log_listener_context :: "'c option"

definition log_state_init :: "nat \<Rightarrow> ('l, 'c) log_state" where
  "log_state_init cap =
     \<lparr>log_buf = replicate cap NUL, log_head = 0, log_len = 0,
      log_listener = None, log_listener_context = None\<rparr>"

definition log_inv :: "('l, 'c) log_state \<Rightarrow> bool" where
  "log_inv s \<longleftrightarrow> ring_ok (log_buf s) (log_head s) (log_len s)"

definition log_capacity :: "('l, 'c) log_state \<Rightarrow> nat" where
  "log_capacity s = length (log_buf s)"

definition log_contents :: "('l, 'c) log_state \<Rightarrow> byte list" where
  "log_contents s = ring_contents (log_buf s) (log_head s) (log_len s)"

section \<open>Operations\<close>

text \<open>
  The destination \<open>dst\<close> is an array of \<open>dst_len\<close> bytes, or \<open>None\<close> for \<open>NULL\<close>; the result is the
  number of bytes copied and the array with the copy and its terminator written.
\<close>

definition copy_log_locked ::
  "('l, 'c) log_state \<Rightarrow> byte list option \<Rightarrow> nat \<Rightarrow> nat \<times> byte list option" where
  "copy_log_locked s dst dst_len =
     (case dst of
        None \<Rightarrow> (0, None)
      | Some d \<Rightarrow>
          if dst_len = 0 then (0, Some d)
          else
            let count = min (log_len s) (dst_len - 1);
                first = min count (length (log_buf s) - log_head s);
                d1 = memcpy d 0 (take first (drop (log_head s) (log_buf s)));
                d2 = (if first \<noteq> count then memcpy d1 first (take (count - first) (log_buf s)) else d1)
            in (count, Some (d2[count := NUL])))"

text \<open>
  The three stages of \<open>log_buffer_put\<close>: a message at least as long as the array keeps its last
  bytes and empties the ring, the oldest bytes make room, and the message is written at the tail
  in at most two copies.
\<close>

definition log_clip :: "byte list \<Rightarrow> ('l, 'c) log_state \<Rightarrow> byte list \<times> ('l, 'c) log_state" where
  "log_clip m s =
     (if length (log_buf s) \<le> length m
      then (drop (length m - length (log_buf s)) m, s\<lparr>log_head := 0, log_len := 0\<rparr>)
      else (m, s))"

definition log_make_room :: "nat \<Rightarrow> ('l, 'c) log_state \<Rightarrow> ('l, 'c) log_state" where
  "log_make_room len s =
     (if length (log_buf s) < log_len s + len
      then let dropped = log_len s + len - length (log_buf s)
           in s\<lparr>log_head := (log_head s + dropped) mod length (log_buf s),
                log_len := log_len s - dropped\<rparr>
      else s)"

definition log_write_tail :: "byte list \<Rightarrow> ('l, 'c) log_state \<Rightarrow> ('l, 'c) log_state" where
  "log_write_tail m s =
     (let tail = (log_head s + log_len s) mod length (log_buf s)
      in s\<lparr>log_buf := ring_append (log_buf s) tail m, log_len := log_len s + length m\<rparr>)"

definition log_buffer_put ::
  "byte list option \<Rightarrow> nat \<Rightarrow> ('l, 'c) log_state
     \<Rightarrow> ('l, 'c) log_state \<times> ('l \<times> byte list \<times> 'c option) option" where
  "log_buffer_put msg len s =
     (if msg = None \<or> len = 0 then (s, None)
      else
        let (m, s1) = log_clip (bytes_of msg len) s;
            s2 = log_write_tail m (log_make_room (length m) s1)
        in (s2, case log_listener s2 of
                  None \<Rightarrow> None
                | Some l \<Rightarrow> Some (l, m, log_listener_context s2)))"

definition log_buffer_read ::
  "('l, 'c) log_state \<Rightarrow> byte list option \<Rightarrow> nat \<Rightarrow> nat \<times> byte list option" where
  "log_buffer_read s dst dst_len = copy_log_locked s dst dst_len"

definition log_buffer_clear :: "('l, 'c) log_state \<Rightarrow> ('l, 'c) log_state" where
  "log_buffer_clear s = s\<lparr>log_head := 0, log_len := 0\<rparr>"

definition log_buffer_set_listener ::
  "'l option \<Rightarrow> 'c option \<Rightarrow> ('l, 'c) log_state \<Rightarrow> int \<times> ('l, 'c) log_state" where
  "log_buffer_set_listener listener ctx s =
     (if listener = None then (- EINVAL, s)
      else if log_listener s \<noteq> None then (- EBUSY, s)
      else (0, s\<lparr>log_listener := listener, log_listener_context := ctx\<rparr>))"

text \<open>The result is the return code, the new state, the destination and \<open>*snapshot_len\<close>.\<close>

definition log_buffer_snapshot_and_set_listener ::
  "'l option \<Rightarrow> 'c option \<Rightarrow> byte list option \<Rightarrow> nat \<Rightarrow> nat option \<Rightarrow> ('l, 'c) log_state
     \<Rightarrow> int \<times> ('l, 'c) log_state \<times> byte list option \<times> nat option" where
  "log_buffer_snapshot_and_set_listener listener ctx dst dst_len snapshot_len s =
     (if listener = None \<or> dst = None \<or> dst_len = 0 \<or> snapshot_len = None
      then (- EINVAL, s, dst, snapshot_len)
      else if log_listener s \<noteq> None then (- EBUSY, s, dst, snapshot_len)
      else let (n, d) = copy_log_locked s dst dst_len
           in (0, s\<lparr>log_listener := listener, log_listener_context := ctx\<rparr>, d, Some n))"

definition log_buffer_clear_listener ::
  "'l option \<Rightarrow> 'c option \<Rightarrow> ('l, 'c) log_state \<Rightarrow> ('l, 'c) log_state" where
  "log_buffer_clear_listener listener ctx s =
     (if log_listener s = listener \<and> log_listener_context s = ctx
      then s\<lparr>log_listener := None, log_listener_context := None\<rparr> else s)"

definition char_out ::
  "byte list \<Rightarrow> ('l, 'c) log_state \<Rightarrow> nat \<times> ('l, 'c) log_state \<times> ('l \<times> byte list \<times> 'c option) option" where
  "char_out data s = (let (s', call) = log_buffer_put (Some data) (length data) s in (length data, s', call))"

section \<open>The ring keeps the newest bytes\<close>

lemma clip_props:
  assumes "log_clip d s = (m, s1)"
  shows "m = lastn (log_capacity s) d"
  using assms by (auto simp: log_clip_def log_capacity_def lastn_def split: if_splits)

definition log_push :: "byte list \<Rightarrow> ('l, 'c) log_state \<Rightarrow> ('l, 'c) log_state" where
  "log_push d s = fst (log_buffer_put (Some d) (length d) s)"

lemma put_ring:
  assumes "d \<noteq> []" "log_inv s"
  shows "ring_put (log_buf s) (log_head s) (log_len s) d =
     (log_buf (log_push d s), log_head (log_push d s), log_len (log_push d s))"
  using assms
  by (simp add: log_push_def log_buffer_put_def log_clip_def log_make_room_def log_write_tail_def ring_put_def
      Let_def log_inv_def ring_ok_def lastn_def)

lemma push_props:
  assumes inv: "log_inv s"
  shows "log_inv (log_push d s)" and "log_capacity (log_push d s) = log_capacity s"
    and "log_contents (log_push d s) = lastn (log_capacity s) (log_contents s @ d)"
proof -
  have "log_inv (log_push d s) \<and> log_capacity (log_push d s) = log_capacity s \<and>
      log_contents (log_push d s) = lastn (log_capacity s) (log_contents s @ d)"
  proof (cases "d = []")
    case True
    then show ?thesis using inv
      by (simp add: log_push_def log_buffer_put_def log_inv_def ring_ok_def log_contents_def log_capacity_def)
  next
    case False
    then show ?thesis using inv ring_put_props [OF _ put_ring [OF False inv]]
      by (simp add: log_inv_def log_contents_def log_capacity_def)
  qed
  then show "log_inv (log_push d s)" "log_capacity (log_push d s) = log_capacity s"
    "log_contents (log_push d s) = lastn (log_capacity s) (log_contents s @ d)" by simp_all
qed

lemma contents_fit: "log_inv s \<Longrightarrow> length (log_contents s) \<le> log_capacity s"
  by (simp add: log_inv_def ring_ok_def log_contents_def log_capacity_def)

interpretation retained_log: newest_bytes log_inv log_capacity log_contents log_push
  by unfold_locales (simp_all add: push_props contents_fit)

lemma init_inv: "0 < n \<Longrightarrow> log_inv (log_state_init n)"
  by (simp add: log_state_init_def log_inv_def ring_ok_def)

section \<open>Reading\<close>

text \<open>A read copies the oldest bytes that fit with the terminator, in one or two runs.\<close>

lemma copy_log:
  assumes "log_inv s" and "0 < n" and "length d = n"
  shows "copy_log_locked s (Some d) n =
    (min (log_len s) (n - 1), Some (memcpy d 0 (take (n - 1) (log_contents s) @ [NUL])))"
proof -
  define c where "c = min (log_len s) (n - 1)"
  define f where "f = min c (length (log_buf s) - log_head s)"
  define r1 r2 where "r1 = take f (drop (log_head s) (log_buf s))" and "r2 = take (c - f) (log_buf s)"
  have ok: "ring_ok (log_buf s) (log_head s) c" "c \<le> log_len s" "c \<le> length (log_buf s)"
      "f \<le> c" "f \<le> length (log_buf s) - log_head s" "c < n"
    using assms(1,2) by (auto simp: log_inv_def ring_ok_def c_def f_def)
  then have len: "length r1 = f" "length r2 = c - f" by (auto simp: r1_def r2_def)
  have "r1 @ r2 = ring_contents (log_buf s) (log_head s) c"
    using ring_contents_two_runs [OF ok(1) f_def] by (simp add: r1_def r2_def)
  also have "\<dots> = take c (log_contents s)"
    using ring_contents_take [OF ok(2)] by (simp add: log_contents_def)
  also have "\<dots> = take (n - 1) (log_contents s)"
    by (simp add: c_def log_contents_def min_def)
  finally have runs: "r1 @ r2 = take (n - 1) (log_contents s)" .
  have "(if f \<noteq> c then memcpy (memcpy d 0 r1) f r2 else memcpy d 0 r1) = memcpy d 0 (r1 @ r2)"
    using len ok by (auto simp: memcpy_def)
  moreover have "(memcpy d 0 (r1 @ r2))[c := NUL] = memcpy d 0 ((r1 @ r2) @ [NUL])"
    using ok len assms(3) by (intro memcpy_terminate) auto
  ultimately show ?thesis
    using assms(2) runs
    unfolding copy_log_locked_def Let_def option.case
      c_def [symmetric] f_def [symmetric] r1_def [symmetric] r2_def [symmetric]
    by simp
qed

section \<open>Properties\<close>

text \<open>
  C5: whatever sequence of messages is put into the retained log, the log holds exactly the last
  \<open>CONFIG_WEBOS_LOG_BUFFER_SIZE\<close> bytes of everything that was ever logged, in order.
\<close>

theorem log_keeps_newest_bytes:
  assumes "0 < n"
  shows "log_contents (fold (\<lambda>m s. fst (log_buffer_put (Some m) (length m) s)) msgs (log_state_init n))
    = lastn n (concat msgs)"
  using retained_log.pushes_contents [OF init_inv [OF assms], of msgs]
  by (simp add: log_push_def [abs_def] log_state_init_def log_contents_def log_capacity_def)

theorem log_keeps_newest_bytes_witness:
  "log_contents (fold (\<lambda>m s. fst (log_buffer_put (Some m) (length m) s)) [''abcd'', ''ef'', ''ghi'']
     (log_state_init 6)) = ''defghi''"
  using log_keeps_newest_bytes [of 6 "[''abcd'', ''ef'', ''ghi'']"] by (simp add: lastn_def)



end
