(* ===== verification/Adb_Logcat.thy ===== *)
theory Adb_Logcat
  imports Adb_Shell Log_Buffer
begin

text \<open>
  The log stream, lib/adb/adb_logcat.c: one session that sends the retained log and follows it.  Log
  messages reach the session's ring through the listener of the log buffer; the ring is drained one
  packet at a time, by the callbacks and by a work item.
\<close>

section \<open>State\<close>

record adb_logcat_context =
  g_stream :: "nat option"
  g_ring :: "byte list option"
  g_ring_capacity :: nat
  g_ring_head :: nat
  g_ring_len :: nat
  g_stream_generation :: u32
  g_active :: bool
  g_sending :: bool
  g_drain :: bool
  g_tx_chunk :: "byte list"

text \<open>The function pointers that may be installed as listener of the log buffer.\<close>

datatype log_listener_fn = Live_log_listener | Other_listener nat

text \<open>
  The context pointer of \<open>live_log_listener\<close> is the address of the one context.  \<open>logcat_work\<close> says
  that the work item is submitted.
\<close>

record ('f, 'b) logcat_service = "('f, 'b) shell_service" +
  logcat :: adb_logcat_context
  log_buffer :: "(log_listener_fn, unit) log_state"
  logcat_work :: bool

type_synonym ('f, 'b, 'x, 't) logcat_adb = "(('f, 'b, 'x) logcat_service_scheme, 't) adb"
type_synonym ('f, 'b, 'x, 't, 'z) logcat_env = "(('f, 'b, 'x) logcat_service_scheme, 't, 'z) adb_env_scheme"

definition logcat_zero :: "kconfig \<Rightarrow> adb_logcat_context" where
  "logcat_zero c =
     \<lparr>g_stream = None, g_ring = None, g_ring_capacity = 0, g_ring_head = 0, g_ring_len = 0,
      g_stream_generation = 0, g_active = False, g_sending = False, g_drain = False,
      g_tx_chunk = replicate (WEBOS_ADB_TX_PAYLOAD_SIZE c) NUL\<rparr>"

definition update_logcat ::
    "(adb_logcat_context \<Rightarrow> adb_logcat_context) \<Rightarrow> ('f, 'b, 'x) logcat_service_scheme \<Rightarrow>
     ('f, 'b, 'x) logcat_service_scheme" where
  "update_logcat f s = s\<lparr>logcat := f (logcat s)\<rparr>"

section \<open>Requests\<close>

definition option_requested :: "byte list \<Rightarrow> string \<Rightarrow> string \<Rightarrow> string \<Rightarrow> bool" where
  "option_requested suffix_bytes quoted plain long_option \<longleftrightarrow>
     contains_bytes suffix_bytes quoted \<or> contains_bytes suffix_bytes plain \<or>
     contains_bytes suffix_bytes long_option"

definition drain_requested :: "byte list \<Rightarrow> bool" where
  "drain_requested suffix_bytes \<longleftrightarrow>
     option_requested suffix_bytes [CHR 0x27, CHR ''-'', CHR ''d'', CHR 0x27] '' -d'' ''--dump'' \<or>
     option_requested suffix_bytes [CHR 0x27, CHR ''-'', CHR ''t'', CHR 0x27] '' -t'' ''--tail''"

definition clear_requested :: "byte list \<Rightarrow> bool" where
  "clear_requested suffix_bytes \<longleftrightarrow>
     option_requested suffix_bytes [CHR 0x27, CHR ''-'', CHR ''c'', CHR 0x27] '' -c'' ''--clear''"

section \<open>The ring\<close>

text \<open>\<open>ring_push\<close> in its three steps, on the ring of the context.\<close>

definition ring_clip :: "byte list \<Rightarrow> adb_logcat_context \<Rightarrow> byte list \<times> adb_logcat_context" where
  "ring_clip data x =
     (if g_ring_capacity x \<le> length data
      then (drop (length data - g_ring_capacity x) data, x\<lparr>g_ring_head := 0, g_ring_len := 0\<rparr>)
      else (data, x))"

definition ring_make_room :: "nat \<Rightarrow> adb_logcat_context \<Rightarrow> adb_logcat_context" where
  "ring_make_room len x =
     (if g_ring_capacity x < g_ring_len x + len
      then let dropped = g_ring_len x + len - g_ring_capacity x
           in x\<lparr>g_ring_head := (g_ring_head x + dropped) mod g_ring_capacity x,
                g_ring_len := g_ring_len x - dropped\<rparr>
      else x)"

definition ring_store :: "byte list \<Rightarrow> adb_logcat_context \<Rightarrow> adb_logcat_context" where
  "ring_store data x =
     (let tail = (g_ring_head x + g_ring_len x) mod g_ring_capacity x;
          first = min (length data) (g_ring_capacity x - tail);
          store = (\<lambda>ring. let ring = memcpy ring tail (take first data)
                         in if first \<noteq> length data then memcpy ring 0 (drop first data) else ring)
      in x\<lparr>g_ring := map_option store (g_ring x), g_ring_len := g_ring_len x + length data\<rparr>)"

definition ring_push :: "byte list \<Rightarrow> adb_logcat_context \<Rightarrow> adb_logcat_context" where
  "ring_push data x = (let (data, x) = ring_clip data x in ring_store data (ring_make_room (length data) x))"

definition live_log_listener ::
    "byte list \<Rightarrow> ('f, 'b, 'x) logcat_service_scheme \<Rightarrow> ('f, 'b, 'x) logcat_service_scheme" where
  "live_log_listener data s =
     (let s = (if g_active (logcat s) \<and> \<not> g_drain (logcat s) then update_logcat (ring_push data) s else s)
      in s\<lparr>logcat_work := True\<rparr>)"

text \<open>A message to the device log, with the call of the listener that \<open>log_buffer_put\<close> makes.\<close>

definition log_message ::
    "byte list \<Rightarrow> ('f, 'b, 'x) logcat_service_scheme \<Rightarrow> ('f, 'b, 'x) logcat_service_scheme" where
  "log_message data s =
     (let (b, call) = log_buffer_put (Some data) (length data) (log_buffer s);
          s = s\<lparr>log_buffer := b\<rparr>
      in case call of Some (Live_log_listener, m, _) \<Rightarrow> live_log_listener m s | _ \<Rightarrow> s)"

section \<open>Sending\<close>

text \<open>The part of \<open>queue_next\<close> that takes the next chunk out of the ring.\<close>

definition take_chunk :: "nat \<Rightarrow> adb_logcat_context \<Rightarrow> adb_logcat_context" where
  "take_chunk chunk_len x =
     (let ring = the (g_ring x);
          first = min chunk_len (g_ring_capacity x - g_ring_head x);
          tx = memcpy (g_tx_chunk x) 0 (take first (drop (g_ring_head x) ring));
          tx = (if first \<noteq> chunk_len then memcpy tx first (take (chunk_len - first) ring) else tx)
      in x\<lparr>g_tx_chunk := tx, g_ring_head := (g_ring_head x + chunk_len) mod g_ring_capacity x,
           g_ring_len := g_ring_len x - chunk_len, g_sending := True\<rparr>)"

definition queue_next ::
    "('f, 'b, 'x, 't, 'z) logcat_env \<Rightarrow> ('f, 'b, 'x, 't) logcat_adb \<Rightarrow> int \<times> ('f, 'b, 'x, 't) logcat_adb" where
  "queue_next E st =
     (let x = logcat (svc st); stream = g_stream x; gen = g_stream_generation x in
      if \<not> g_active x \<or> g_sending x then (0, st)
      else if g_ring_len x = 0 then
        (0, if g_drain x then webos_adb_stream_close_generation E stream gen st else st)
      else
        let chunk_len = min (g_ring_len x) (webos_adb_stream_max_payload E st);
            st = on_svc (update_logcat (take_chunk chunk_len)) st
        in if chunk_len = 0 then (0, st)
           else
             let (ret, st) = webos_adb_stream_write_generation E stream gen
                               (Some (g_tx_chunk (logcat (svc st)))) chunk_len st;
                 current = (g_active (logcat (svc st)) \<and> g_stream_generation (logcat (svc st)) = gen)
             in (ret,
                 if ret \<noteq> 0 \<and> current then
                   webos_adb_stream_close_generation E stream gen
                     (on_svc (update_logcat (\<lambda>x. x\<lparr>g_sending := False\<rparr>)) st)
                 else st))"

definition logcat_work_handler ::
    "('f, 'b, 'x, 't, 'z) logcat_env \<Rightarrow> ('f, 'b, 'x, 't) logcat_adb \<Rightarrow> ('f, 'b, 'x, 't) logcat_adb" where
  "logcat_work_handler E st = snd (queue_next E (on_svc (\<lambda>s. s\<lparr>logcat_work := False\<rparr>) st))"

section \<open>Callbacks\<close>

text \<open>The session variables at the start of \<open>adb_logcat_open\<close>, and the source of the first bytes.\<close>

definition logcat_start :: "nat \<Rightarrow> u32 \<Rightarrow> bool \<Rightarrow> adb_logcat_context \<Rightarrow> adb_logcat_context" where
  "logcat_start stream gen drain x =
     x\<lparr>g_stream := Some stream, g_stream_generation := gen, g_ring_head := 0, g_ring_len := 0,
       g_sending := False, g_drain := drain\<rparr>"

definition logcat_attach ::
    "bool \<Rightarrow> bool \<Rightarrow> ('f, 'b, 'x) logcat_service_scheme \<Rightarrow> (int \<times> nat) \<times> ('f, 'b, 'x) logcat_service_scheme" where
  "logcat_attach clear drain s =
     (let x = logcat s in
      if clear then ((0, 0), s\<lparr>log_buffer := log_buffer_clear (log_buffer s)\<rparr>)
      else if drain then
        let (n, ring) = log_buffer_read (log_buffer s) (g_ring x) (g_ring_capacity x)
        in ((0, n), update_logcat (\<lambda>x. x\<lparr>g_ring := ring\<rparr>) s)
      else
        let (ret, b, ring, n) = log_buffer_snapshot_and_set_listener (Some Live_log_listener) (Some ())
              (g_ring x) (g_ring_capacity x) (Some 0) (log_buffer s)
        in ((ret, the n), update_logcat (\<lambda>x. x\<lparr>g_ring := ring\<rparr>) (s\<lparr>log_buffer := b\<rparr>)))"

text \<open>The allocation of the ring for the first session, and the part of \<open>adb_logcat_open\<close> after it.\<close>

definition alloc_ring ::
    "('f, 'b, 'x, 't, 'z) logcat_env \<Rightarrow> ('f, 'b, 'x, 't) logcat_adb \<Rightarrow> bool \<times> ('f, 'b, 'x, 't) logcat_adb" where
  "alloc_ring E st =
     (if g_ring (logcat (svc st)) \<noteq> None then (True, st)
      else
        let (ok, st) = k_malloc E (WEBOS_ADB_LOGCAT_BUFFER_SIZE (conf E)) st
        in (ok, if ok then on_svc (update_logcat (\<lambda>x.
                    x\<lparr>g_ring := Some (replicate (WEBOS_ADB_LOGCAT_BUFFER_SIZE (conf E)) NUL),
                      g_ring_capacity := WEBOS_ADB_LOGCAT_BUFFER_SIZE (conf E)\<rparr>)) st
                else st))"

definition begin_session ::
    "('f, 'b, 'x, 't, 'z) logcat_env \<Rightarrow> nat \<Rightarrow> bool \<Rightarrow> bool \<Rightarrow> ('f, 'b, 'x, 't) logcat_adb \<Rightarrow>
     int \<times> ('f, 'b, 'x, 't) logcat_adb" where
  "begin_session E stream clear drain st =
     (let gen = webos_adb_stream_generation (Some stream) st;
          st = on_svc (update_logcat (logcat_start stream gen drain)) st;
          ((ret, n), s) = logcat_attach clear drain (svc st);
          st = on_svc (\<lambda>_. s) st
      in if ret \<noteq> 0 then
           (ret, on_svc (update_logcat (\<lambda>x. x\<lparr>g_stream := None, g_stream_generation := 0\<rparr>)) st)
         else queue_next E (on_svc (update_logcat (\<lambda>x. x\<lparr>g_ring_len := n, g_active := True\<rparr>)) st))"

definition adb_logcat_open ::
    "('f, 'b, 'x, 't, 'z) logcat_env \<Rightarrow> nat \<Rightarrow> byte list \<Rightarrow> ('f, 'b, 'x, 't) logcat_adb \<Rightarrow>
     int \<times> ('f, 'b, 'x, 't) logcat_adb" where
  "adb_logcat_open E stream suffix_bytes st =
     (if \<not> webos_adb_logcat_matches (conf E) suffix_bytes then (- EINVAL, st)
      else
        let clear = clear_requested suffix_bytes;
            drain = (clear \<or> drain_requested suffix_bytes)
        in if g_active (logcat (svc st)) then (- EBUSY, st)
           else
             let (ok, st) = alloc_ring E st
             in if \<not> ok then (- ENOMEM, st) else begin_session E stream clear drain st)"

definition adb_logcat_write ::
    "nat \<Rightarrow> byte list option \<Rightarrow> nat \<Rightarrow> ('f, 'b, 'x, 't) logcat_adb \<Rightarrow> int \<times> ('f, 'b, 'x, 't) logcat_adb" where
  "adb_logcat_write stream data len st = (if len = 0 then 0 else - ENOTSUP, st)"

definition adb_logcat_tx_ready ::
    "('f, 'b, 'x, 't, 'z) logcat_env \<Rightarrow> nat \<Rightarrow> ('f, 'b, 'x, 't) logcat_adb \<Rightarrow> ('f, 'b, 'x, 't) logcat_adb" where
  "adb_logcat_tx_ready E stream st =
     (if g_active (logcat (svc st)) \<and> g_stream (logcat (svc st)) = Some stream
      then snd (queue_next E (on_svc (update_logcat (\<lambda>x. x\<lparr>g_sending := False\<rparr>)) st))
      else st)"

definition adb_logcat_close ::
    "nat \<Rightarrow> ('f, 'b, 'x) logcat_service_scheme \<Rightarrow> ('f, 'b, 'x) logcat_service_scheme" where
  "adb_logcat_close stream s =
     (let s = update_logcat (\<lambda>x. x\<lparr>g_active := False, g_sending := False, g_stream := None,
                g_stream_generation := 0, g_ring_head := 0, g_ring_len := 0\<rparr>) s
      in s\<lparr>log_buffer := log_buffer_clear_listener (Some Live_log_listener) (Some ()) (log_buffer s)\<rparr>)"

end
