(* ===== verification/Adb_Logcat_Inv.thy ===== *)
theory Adb_Logcat_Inv
  imports Adb_Logcat
begin

text \<open>
  The pending ring of the log stream keeps the newest bytes and is drained from the front; every
  callback keeps the ring, the retained log and the session consistent, and touches nothing of the
  router but its own stream.
\<close>

section \<open>The ring keeps the newest bytes\<close>

definition logcat_ring_ok :: "adb_logcat_context \<Rightarrow> bool" where
  "logcat_ring_ok x \<longleftrightarrow>
     (case g_ring x of None \<Rightarrow> False
      | Some r \<Rightarrow> length r = g_ring_capacity x \<and> ring_ok r (g_ring_head x) (g_ring_len x))"

definition logcat_contents :: "adb_logcat_context \<Rightarrow> byte list" where
  "logcat_contents x = (case g_ring x of None \<Rightarrow> [] | Some r \<Rightarrow> ring_contents r (g_ring_head x) (g_ring_len x))"

lemma logcat_ring_okE:
  assumes "logcat_ring_ok x"
  obtains r where "g_ring x = Some r" "length r = g_ring_capacity x" "ring_ok r (g_ring_head x) (g_ring_len x)"
  using assms by (auto simp: logcat_ring_ok_def split: option.splits)

lemma ring_clip_frame:
  assumes "ring_clip d x = (m, y)"
  shows "g_ring_capacity y = g_ring_capacity x" "g_stream y = g_stream x" "g_active y = g_active x"
    "g_tx_chunk y = g_tx_chunk x" "g_stream_generation y = g_stream_generation x" "g_sending y = g_sending x"
    "g_drain y = g_drain x" "g_ring y = g_ring x" "m = lastn (g_ring_capacity x) d"
    "g_ring_head y = (if g_ring_capacity x \<le> length d then 0 else g_ring_head x)"
    "g_ring_len y = (if g_ring_capacity x \<le> length d then 0 else g_ring_len x)"
  using assms by (auto simp: ring_clip_def lastn_def split: if_splits)

lemma ring_make_room_frame [simp]:
  "g_ring_capacity (ring_make_room n x) = g_ring_capacity x" "g_stream (ring_make_room n x) = g_stream x"
  "g_active (ring_make_room n x) = g_active x" "g_tx_chunk (ring_make_room n x) = g_tx_chunk x"
  "g_stream_generation (ring_make_room n x) = g_stream_generation x" "g_sending (ring_make_room n x) = g_sending x"
  "g_drain (ring_make_room n x) = g_drain x" "g_ring (ring_make_room n x) = g_ring x"
  by (simp_all add: ring_make_room_def Let_def)

lemma ring_make_room_window:
  "g_ring_head x < g_ring_capacity x \<Longrightarrow>
    g_ring_head (ring_make_room n x) = (g_ring_head x + (g_ring_len x + n - g_ring_capacity x)) mod g_ring_capacity x"
  "g_ring_len (ring_make_room n x) = g_ring_len x - (g_ring_len x + n - g_ring_capacity x)"
  by (simp_all add: ring_make_room_def Let_def)

lemma ring_store_frame [simp]:
  "g_ring_capacity (ring_store d x) = g_ring_capacity x" "g_stream (ring_store d x) = g_stream x"
  "g_active (ring_store d x) = g_active x" "g_tx_chunk (ring_store d x) = g_tx_chunk x"
  "g_stream_generation (ring_store d x) = g_stream_generation x" "g_sending (ring_store d x) = g_sending x"
  "g_drain (ring_store d x) = g_drain x" "g_ring_head (ring_store d x) = g_ring_head x"
  "g_ring_len (ring_store d x) = g_ring_len x + length d"
  by (simp_all add: ring_store_def Let_def)

lemma ring_store_ring:
  "g_ring x = Some r \<Longrightarrow> length r = g_ring_capacity x \<Longrightarrow>
    g_ring (ring_store d x) = Some (ring_append r ((g_ring_head x + g_ring_len x) mod length r) d)"
  by (simp add: ring_store_def ring_append_def Let_def)

lemma ring_push_stages: "ring_clip d x = (m, y) \<Longrightarrow> ring_push d x = ring_store m (ring_make_room (length m) y)"
  by (simp add: ring_push_def)

lemma ring_push_frame [simp]:
  "g_ring_capacity (ring_push d x) = g_ring_capacity x" "g_stream (ring_push d x) = g_stream x"
  "g_active (ring_push d x) = g_active x" "g_tx_chunk (ring_push d x) = g_tx_chunk x"
  "g_stream_generation (ring_push d x) = g_stream_generation x" "g_sending (ring_push d x) = g_sending x"
  "g_drain (ring_push d x) = g_drain x"
proof -
  obtain m y where clip: "ring_clip d x = (m, y)" by fastforce
  show "g_ring_capacity (ring_push d x) = g_ring_capacity x" "g_stream (ring_push d x) = g_stream x"
    "g_active (ring_push d x) = g_active x" "g_tx_chunk (ring_push d x) = g_tx_chunk x"
    "g_stream_generation (ring_push d x) = g_stream_generation x" "g_sending (ring_push d x) = g_sending x"
    "g_drain (ring_push d x) = g_drain x"
    by (simp_all add: ring_push_stages [OF clip] ring_clip_frame [OF clip])
qed

lemma ring_push_put:
  assumes r: "g_ring x = Some r" "length r = g_ring_capacity x" "ring_ok r (g_ring_head x) (g_ring_len x)"
  shows "ring_put r (g_ring_head x) (g_ring_len x) d =
    (the (g_ring (ring_push d x)), g_ring_head (ring_push d x), g_ring_len (ring_push d x))"
    "g_ring (ring_push d x) \<noteq> None"
proof -
  obtain m y where clip: "ring_clip d x = (m, y)" by fastforce
  note y = ring_clip_frame [OF clip]
  have head: "g_ring_head y < g_ring_capacity y" using r y(1,10) by (auto simp: ring_ok_def)
  have ring: "g_ring (ring_make_room (length m) y) = Some r" "length r = g_ring_capacity (ring_make_room (length m) y)"
    using y(1,8) r by simp_all
  note s = ring_push_stages [OF clip] ring_store_ring [OF ring] ring_make_room_window(1) [OF head]
    ring_make_room_window(2) [of "length m" y]
  show "ring_put r (g_ring_head x) (g_ring_len x) d =
      (the (g_ring (ring_push d x)), g_ring_head (ring_push d x), g_ring_len (ring_push d x))"
    unfolding s ring_store_frame option.sel ring_put_def Let_def using r(2) y(1,9,10,11) by simp
  show "g_ring (ring_push d x) \<noteq> None" by (simp add: s)
qed

lemma ring_push_props:
  assumes "logcat_ring_ok x"
  shows "logcat_ring_ok (ring_push d x)" "g_ring_capacity (ring_push d x) = g_ring_capacity x"
    "logcat_contents (ring_push d x) = lastn (g_ring_capacity x) (logcat_contents x @ d)"
    "length (logcat_contents x) \<le> g_ring_capacity x"
proof -
  obtain r where r: "g_ring x = Some r" "length r = g_ring_capacity x" "ring_ok r (g_ring_head x) (g_ring_len x)"
    using assms by (rule logcat_ring_okE)
  note props = ring_put_props [OF r(3) ring_push_put(1) [OF r, of d]]
  obtain r' where r': "g_ring (ring_push d x) = Some r'" using ring_push_put(2) [OF r] by blast
  show "logcat_ring_ok (ring_push d x)" "g_ring_capacity (ring_push d x) = g_ring_capacity x"
    "logcat_contents (ring_push d x) = lastn (g_ring_capacity x) (logcat_contents x @ d)"
    using props r r' by (simp_all add: logcat_ring_ok_def logcat_contents_def)
  show "length (logcat_contents x) \<le> g_ring_capacity x" using r by (simp add: logcat_contents_def ring_ok_def)
qed

interpretation logcat_ring: newest_bytes logcat_ring_ok g_ring_capacity logcat_contents ring_push
  by unfold_locales (simp_all add: ring_push_props)

lemma take_chunk_props:
  assumes "logcat_ring_ok x" "n \<le> g_ring_len x" "n \<le> length (g_tx_chunk x)"
  shows "logcat_ring_ok (take_chunk n x)" "take n (g_tx_chunk (take_chunk n x)) = take n (logcat_contents x)"
    "length (g_tx_chunk (take_chunk n x)) = length (g_tx_chunk x)"
    "logcat_contents (take_chunk n x) = drop n (logcat_contents x)"
proof -
  obtain r where r: "g_ring x = Some r" "length r = g_ring_capacity x" "ring_ok r (g_ring_head x) (g_ring_len x)"
    using assms(1) by (rule logcat_ring_okE)
  define f where "f = min n (g_ring_capacity x - g_ring_head x)"
  have f: "f = min n (length r - g_ring_head x)" using r(2) by (simp add: f_def)
  define r1 r2 where "r1 = take f (drop (g_ring_head x) r)" and "r2 = take (n - f) r"
  have ok: "ring_ok r (g_ring_head x) n" using r(3) assms(2) by (simp add: ring_ok_def)
  have len: "length r1 = f" "length r2 = n - f" "f \<le> n" using ok by (auto simp: r1_def r2_def f ring_ok_def)
  have runs: "r1 @ r2 = take n (logcat_contents x)"
    using ring_contents_two_runs [OF ok f] ring_contents_take [OF assms(2), of r "g_ring_head x"] r(1)
    by (simp add: r1_def r2_def logcat_contents_def)
  have tx: "g_tx_chunk (take_chunk n x) = memcpy (g_tx_chunk x) 0 (r1 @ r2)"
  proof -
    have "(if f \<noteq> n then memcpy (memcpy (g_tx_chunk x) 0 r1) f r2 else memcpy (g_tx_chunk x) 0 r1) =
        memcpy (g_tx_chunk x) 0 (r1 @ r2)" using len by (auto simp: memcpy_def)
    then show ?thesis
      unfolding take_chunk_def Let_def r(1) option.sel f_def [symmetric] r1_def [symmetric] r2_def [symmetric] by simp
  qed
  show "take n (g_tx_chunk (take_chunk n x)) = take n (logcat_contents x)"
    using take_memcpy_0 [of "r1 @ r2" "g_tx_chunk x"] len unfolding tx runs [symmetric] by simp
  show "length (g_tx_chunk (take_chunk n x)) = length (g_tx_chunk x)" using len assms(3) by (simp add: tx)
  have eq: "g_ring (take_chunk n x) = Some r" "g_ring_head (take_chunk n x) = (g_ring_head x + n) mod length r"
    "g_ring_len (take_chunk n x) = g_ring_len x - n" "g_ring_capacity (take_chunk n x) = length r"
    using r by (simp_all add: take_chunk_def Let_def)
  show "logcat_ring_ok (take_chunk n x)" using r by (auto simp: logcat_ring_ok_def eq ring_ok_def)
  show "logcat_contents (take_chunk n x) = drop n (logcat_contents x)"
    using ring_contents_drop [OF assms(2), of r "g_ring_head x"] r(1) by (simp add: logcat_contents_def eq)
qed

section \<open>The invariant of the session\<close>

text \<open>A session that is active has its stream and its ring, and the ring is well formed.\<close>

definition logcat_ctx_ok :: "kconfig \<Rightarrow> adb_logcat_context \<Rightarrow> bool" where
  "logcat_ctx_ok c x \<longleftrightarrow>
     length (g_tx_chunk x) = WEBOS_ADB_TX_PAYLOAD_SIZE c \<and>
     (g_ring x \<noteq> None \<longrightarrow> logcat_ring_ok x \<and> g_ring_capacity x = WEBOS_ADB_LOGCAT_BUFFER_SIZE c) \<and>
     (g_active x \<longrightarrow> g_ring x \<noteq> None \<and> g_stream x \<noteq> None) \<and>
     (\<forall>i. g_stream x = Some i \<longrightarrow> i < WEBOS_ADB_MAX_STREAMS c)"

definition logcat_ok :: "kconfig \<Rightarrow> ('f, 'b, 'x) logcat_service_scheme \<Rightarrow> bool" where
  "logcat_ok c s \<longleftrightarrow> logcat_ctx_ok c (logcat s) \<and> log_inv (log_buffer s)"

text \<open>What a callback leaves: its frame, the invariant, and the contexts of the other services.\<close>

definition logcat_result ::
    "('f, 'b, 'x, 't, 'z) logcat_env \<Rightarrow> nat \<Rightarrow> ('f, 'b, 'x, 't) logcat_adb \<Rightarrow> ('f, 'b, 'x, 't) logcat_adb \<Rightarrow> bool" where
  "logcat_result E i st st' \<longleftrightarrow>
     service_frame E i st st' \<and> logcat_ok (conf E) (svc st') \<and> contexts (svc st') = contexts (svc st) \<and>
     shell_contexts (svc st') = shell_contexts (svc st)"

lemma logcat_result_refl: "logcat_ok (conf E) (svc st) \<Longrightarrow> logcat_result E i st st"
  by (simp add: logcat_result_def)

lemma logcat_result_trans:
  "live E i st \<Longrightarrow> logcat_result E i st st' \<Longrightarrow> logcat_result E i st' st'' \<Longrightarrow> logcat_result E i st st''"
  unfolding logcat_result_def by (auto intro: frame_trans)

lemma logcat_result_update:
  "logcat_ok (conf E) (svc st) \<Longrightarrow> logcat_ctx_ok (conf E) (f (logcat (svc st))) \<Longrightarrow>
    logcat_result E i st (on_svc (update_logcat f) st)"
  by (simp add: logcat_result_def on_svc_frame update_logcat_def logcat_ok_def)

lemma logcat_result_live: "live E i st \<Longrightarrow> logcat_result E i st st' \<Longrightarrow> live E i st'"
  unfolding logcat_result_def by (blast intro: live_frame)

lemma logcat_ctx_ok_sending [simp]: "logcat_ctx_ok c (x\<lparr>g_sending := b\<rparr>) = logcat_ctx_ok c x"
  by (cases "g_ring x") (simp_all add: logcat_ctx_ok_def logcat_ring_ok_def)

lemma take_chunk_fields [simp]:
  "g_active (take_chunk n x) = g_active x" "g_stream (take_chunk n x) = g_stream x" "g_ring (take_chunk n x) = g_ring x"
  "g_ring_capacity (take_chunk n x) = g_ring_capacity x" "g_stream_generation (take_chunk n x) = g_stream_generation x"
  by (simp_all add: take_chunk_def Let_def)

lemma take_chunk_ok:
  "logcat_ctx_ok c x \<Longrightarrow> g_active x \<Longrightarrow> n \<le> g_ring_len x \<Longrightarrow> n \<le> WEBOS_ADB_TX_PAYLOAD_SIZE c \<Longrightarrow>
    logcat_ctx_ok c (take_chunk n x)"
  using take_chunk_props [of x n] by (simp add: logcat_ctx_ok_def)

text \<open>The outcomes of \<open>queue_next\<close> for an active session.\<close>

lemma queue_next_active:
  assumes "g_active (logcat (svc st))" and x: "x = logcat (svc st)" and s: "g_stream x = Some i"
    and n: "n = min (g_ring_len x) (webos_adb_stream_max_payload E st)"
    and st1: "st1 = on_svc (update_logcat (take_chunk n)) st"
    and w: "webos_adb_stream_write_generation E (Some i) (g_stream_generation x)
      (Some (g_tx_chunk (logcat (svc st1)))) n st1 = (r2, st2)"
    and st3: "st3 = on_svc (update_logcat (\<lambda>x. x\<lparr>g_sending := False\<rparr>)) st2"
    and queue: "queue_next E st = (ret, st')"
  shows "st' = (if g_sending x then st else if g_ring_len x = 0
        then if g_drain x then webos_adb_stream_close_generation E (Some i) (g_stream_generation x) st else st
      else if n = 0 then st1
      else if r2 \<noteq> 0 \<and> g_active (logcat (svc st2)) \<and> g_stream_generation (logcat (svc st2)) = g_stream_generation x
      then webos_adb_stream_close_generation E (Some i) (g_stream_generation x) st3 else st2)"
  using queue assms(1) unfolding queue_next_def Let_def x [symmetric] s n [symmetric] st1 [symmetric] w
  by (auto simp: st3 split: if_splits)

lemma queue_next_result:
  assumes live: "live E i st" and ok: "logcat_ok (conf E) (svc st)"
    and own: "g_active (logcat (svc st)) \<Longrightarrow> g_stream (logcat (svc st)) = Some i"
    and queue: "queue_next E st = (ret, st')"
  shows "logcat_result E i st st'"
proof (cases "g_active (logcat (svc st))")
  case False
  then show ?thesis using queue logcat_result_refl [OF ok] by (simp add: queue_next_def Let_def)
next
  case active: True
  define x where "x = logcat (svc st)"
  define n where "n = min (g_ring_len x) (webos_adb_stream_max_payload E st)"
  define st1 where "st1 = on_svc (update_logcat (take_chunk n)) st"
  have s: "g_stream x = Some i" using own active by (simp add: x_def)
  have "n \<le> WEBOS_ADB_TX_PAYLOAD_SIZE (conf E)" by (auto simp: n_def webos_adb_stream_max_payload_def Let_def)
  then have r1: "logcat_result E i st st1" unfolding st1_def
    using ok active by (intro logcat_result_update [OF ok] take_chunk_ok) (simp_all add: logcat_ok_def n_def x_def)
  note l1 = logcat_result_live [OF live r1]
  obtain r2 st2 where w: "webos_adb_stream_write_generation E (Some i) (g_stream_generation x)
      (Some (g_tx_chunk (logcat (svc st1)))) n st1 = (r2, st2)" by fastforce
  have r2: "logcat_result E i st1 st2" using write_generation_live [OF l1 w] r1 by (simp add: logcat_result_def)
  note l2 = logcat_result_live [OF l1 r2]
  define st3 where "st3 = on_svc (update_logcat (\<lambda>x. x\<lparr>g_sending := False\<rparr>)) st2"
  have r3: "logcat_result E i st2 st3" unfolding st3_def
    using r2 by (intro logcat_result_update) (simp_all add: logcat_result_def logcat_ok_def)
  have close: "logcat_result E i st0 (webos_adb_stream_close_generation E (Some i) g st0)"
    if "live E i st0" "logcat_ok (conf E) (svc st0)" for st0 g
    using close_generation_live [OF that(1), of g] that(2) by (simp add: logcat_result_def)
  note r4 = logcat_result_trans [OF l2 r3 close [OF logcat_result_live [OF l2 r3]]]
  have "st' = (if g_sending x then st else if g_ring_len x = 0
        then if g_drain x then webos_adb_stream_close_generation E (Some i) (g_stream_generation x) st else st
      else if n = 0 then st1
      else if r2 \<noteq> 0 \<and> g_active (logcat (svc st2)) \<and> g_stream_generation (logcat (svc st2)) = g_stream_generation x
      then webos_adb_stream_close_generation E (Some i) (g_stream_generation x) st3 else st2)"
    by (rule queue_next_active [OF active x_def s n_def st1_def w st3_def queue])
  moreover have "logcat_ok (conf E) (svc st3)" using r3 by (simp add: logcat_result_def)
  ultimately show ?thesis
    using logcat_result_refl [OF ok] close [OF live ok] r1 logcat_result_trans [OF live r1 r2]
      logcat_result_trans [OF live r1 logcat_result_trans [OF l1 r2 r4]] by simp
qed

lemma logcat_close_ok:
  assumes "logcat_ok c s"
  shows "logcat_ok c (adb_logcat_close i s) \<and> contexts (adb_logcat_close i s) = contexts s \<and>
    shell_contexts (adb_logcat_close i s) = shell_contexts s"
  using assms
  by (cases "g_ring (logcat s)")
    (simp_all add: adb_logcat_close_def Let_def update_logcat_def logcat_ok_def logcat_ctx_ok_def logcat_ring_ok_def
      ring_ok_def log_buffer_clear_listener_def log_inv_def)

lemma logcat_tx_ready_result:
  assumes live: "live E i st" and ok: "logcat_ok (conf E) (svc st)"
  shows "logcat_result E i st (adb_logcat_tx_ready E i st)"
proof (cases "g_active (logcat (svc st)) \<and> g_stream (logcat (svc st)) = Some i")
  case True
  define st1 where "st1 = on_svc (update_logcat (\<lambda>x. x\<lparr>g_sending := False\<rparr>)) st"
  obtain r st2 where q: "queue_next E st1 = (r, st2)" by fastforce
  have r1: "logcat_result E i st st1" unfolding st1_def using ok by (intro logcat_result_update) (simp_all add: logcat_ok_def)
  have "logcat_result E i st1 st2"
    using True r1 by (intro queue_next_result [OF logcat_result_live [OF live r1] _ _ q])
      (simp_all add: logcat_result_def st1_def update_logcat_def)
  then show ?thesis using True q logcat_result_trans [OF live r1] by (simp add: adb_logcat_tx_ready_def st1_def)
qed (use logcat_result_refl [OF ok] in \<open>auto simp: adb_logcat_tx_ready_def\<close>)


text \<open>The source of the first bytes fills the ring from its start and leaves the log well formed.\<close>

lemma logcat_attach_ok:
  assumes ok: "logcat_ok c s" and ring: "g_ring (logcat s) \<noteq> None" and pos: "0 < WEBOS_ADB_LOGCAT_BUFFER_SIZE c"
    and attach: "logcat_attach clear drain s = ((ret, n), s')"
  shows "contexts s' = contexts s" "shell_contexts s' = shell_contexts s" "log_inv (log_buffer s')"
    "n < WEBOS_ADB_LOGCAT_BUFFER_SIZE c" "\<exists>r. logcat s' = (logcat s)\<lparr>g_ring := Some r\<rparr> \<and> length r = WEBOS_ADB_LOGCAT_BUFFER_SIZE c"
proof -
  obtain r where r: "g_ring (logcat s) = Some r" using ring by blast
  have cap: "length r = WEBOS_ADB_LOGCAT_BUFFER_SIZE c" "g_ring_capacity (logcat s) = WEBOS_ADB_LOGCAT_BUFFER_SIZE c"
    and inv: "log_inv (log_buffer s)"
    using ok r by (auto simp: logcat_ok_def logcat_ctx_ok_def logcat_ring_ok_def)
  note copy = copy_log [OF inv pos cap(1)]
  define r' where "r' = memcpy r 0 (take (length r - 1) (log_contents (log_buffer s)) @ [NUL])"
  have r': "length r' = WEBOS_ADB_LOGCAT_BUFFER_SIZE c" using cap(1) pos by (simp add: r'_def)
  have same: "logcat s = (logcat s)\<lparr>g_ring := Some r\<rparr>" using r by simp
  have inv2: "log_inv (log_buffer_clear (log_buffer s))" "log_inv ((log_buffer s)\<lparr>log_listener := l, log_listener_context := x\<rparr>)"
    for l x using inv by (auto simp: log_buffer_clear_def log_inv_def ring_ok_def)
  have res: "((ret, n), s') = (if clear then ((0, 0), s\<lparr>log_buffer := log_buffer_clear (log_buffer s)\<rparr>)
      else if drain then ((0, min (log_len (log_buffer s)) (length r - 1)), update_logcat (\<lambda>x. x\<lparr>g_ring := Some r'\<rparr>) s)
      else if log_listener (log_buffer s) \<noteq> None then ((- EBUSY, 0), update_logcat (\<lambda>x. x\<lparr>g_ring := Some r\<rparr>) s)
      else ((0, min (log_len (log_buffer s)) (length r - 1)), update_logcat (\<lambda>x. x\<lparr>g_ring := Some r'\<rparr>)
        (s\<lparr>log_buffer := (log_buffer s)\<lparr>log_listener := Some Live_log_listener, log_listener_context := Some ()\<rparr>\<rparr>)))"
    using attach copy r cap pos
    by (auto simp: logcat_attach_def Let_def log_buffer_read_def log_buffer_snapshot_and_set_listener_def r'_def split: if_splits)
  show "contexts s' = contexts s" "shell_contexts s' = shell_contexts s" "log_inv (log_buffer s')"
    "n < WEBOS_ADB_LOGCAT_BUFFER_SIZE c"
    using res inv inv2 pos cap by (auto simp: update_logcat_def split: if_splits)
  show "\<exists>r. logcat s' = (logcat s)\<lparr>g_ring := Some r\<rparr> \<and> length r = WEBOS_ADB_LOGCAT_BUFFER_SIZE c"
    using res r' cap same by (auto simp: update_logcat_def split: if_splits)
qed


lemma alloc_ring_result:
  assumes live: "live E i st" and ok: "logcat_ok (conf E) (svc st)" and idle: "\<not> g_active (logcat (svc st))"
    and pos: "0 < WEBOS_ADB_LOGCAT_BUFFER_SIZE (conf E)" and alloc: "alloc_ring E st = (b, st')"
  shows "service_frame E i st st' \<and> contexts (svc st') = contexts (svc st) \<and>
    shell_contexts (svc st') = shell_contexts (svc st) \<and> log_inv (log_buffer (svc st')) \<and>
    \<not> g_active (logcat (svc st')) \<and> (\<not> b \<longrightarrow> logcat_ok (conf E) (svc st')) \<and>
    (b \<longrightarrow> (\<exists>r. g_ring (logcat (svc st')) = Some r \<and> length r = WEBOS_ADB_LOGCAT_BUFFER_SIZE (conf E)) \<and>
      g_ring_capacity (logcat (svc st')) = WEBOS_ADB_LOGCAT_BUFFER_SIZE (conf E) \<and>
      length (g_tx_chunk (logcat (svc st'))) = WEBOS_ADB_TX_PAYLOAD_SIZE (conf E))"
proof (cases "g_ring (logcat (svc st))")
  case None
  obtain m st1 where m: "k_malloc E (WEBOS_ADB_LOGCAT_BUFFER_SIZE (conf E)) st = (m, st1)" by fastforce
  note m1 = malloc_live [OF live m]
  show ?thesis
    using alloc None m m1 ok idle frame_trans [OF live conjunct1 [OF m1] on_svc_frame]
    by (auto simp: alloc_ring_def update_logcat_def logcat_ok_def logcat_ctx_ok_def split: if_splits)
next
  case (Some r)
  then show ?thesis using alloc ok idle
    by (auto simp: alloc_ring_def logcat_ok_def logcat_ctx_ok_def logcat_ring_ok_def)
qed

lemma begin_session_result:
  assumes live: "live E i st" and inv: "log_inv (log_buffer (svc st))"
    and ring: "g_ring (logcat (svc st)) = Some r" "length r = WEBOS_ADB_LOGCAT_BUFFER_SIZE (conf E)"
      "g_ring_capacity (logcat (svc st)) = WEBOS_ADB_LOGCAT_BUFFER_SIZE (conf E)"
      "length (g_tx_chunk (logcat (svc st))) = WEBOS_ADB_TX_PAYLOAD_SIZE (conf E)" "\<not> g_active (logcat (svc st))"
    and pos: "0 < WEBOS_ADB_LOGCAT_BUFFER_SIZE (conf E)"
    and run: "begin_session E i clear drain st = (ret, st')"
  shows "logcat_result E i st st'"
proof -
  define st1 where "st1 = on_svc (update_logcat (logcat_start i (webos_adb_stream_generation (Some i) st) drain)) st"
  have x1: "g_ring (logcat (svc st1)) = Some r" "g_ring_head (logcat (svc st1)) = 0" "g_ring_len (logcat (svc st1)) = 0"
    "g_stream (logcat (svc st1)) = Some i" "\<not> g_active (logcat (svc st1))"
    "g_ring_capacity (logcat (svc st1)) = WEBOS_ADB_LOGCAT_BUFFER_SIZE (conf E)"
    "length (g_tx_chunk (logcat (svc st1))) = WEBOS_ADB_TX_PAYLOAD_SIZE (conf E)"
    using ring by (simp_all add: st1_def update_logcat_def logcat_start_def)
  have bound: "i < WEBOS_ADB_MAX_STREAMS (conf E)" using live by (simp add: live_def)
  have ok1: "logcat_ok (conf E) (svc st1)"
    using x1 ring(2) pos inv bound by (simp add: logcat_ok_def logcat_ctx_ok_def logcat_ring_ok_def ring_ok_def)
      (simp add: st1_def update_logcat_def)
  obtain r2 n s where attach: "logcat_attach clear drain (svc st1) = ((r2, n), s)" by (metis prod.exhaust)
  have "g_ring (logcat (svc st1)) \<noteq> None" using x1 by simp
  note a = logcat_attach_ok [OF ok1 this pos attach]
  obtain r' where r': "logcat s = (logcat (svc st1))\<lparr>g_ring := Some r'\<rparr>" "length r' = WEBOS_ADB_LOGCAT_BUFFER_SIZE (conf E)"
    using a(5) by blast
  define f where "f x = (if r2 \<noteq> 0 then x\<lparr>g_stream := None, g_stream_generation := 0\<rparr>
      else x\<lparr>g_ring_len := n, g_active := True\<rparr>)" for x :: adb_logcat_context
  define st2 where "st2 = on_svc (update_logcat f) (on_svc (\<lambda>_. s) st1)"
  have l1: "live E i st1" using live by (simp add: st1_def)
  have f1: "service_frame E i st st1" unfolding st1_def by (rule on_svc_frame)
  have f2: "service_frame E i st st2" unfolding st2_def
    by (rule frame_trans [OF live f1 frame_trans [OF l1 on_svc_frame on_svc_frame]])
  have svc2: "logcat (svc st2) = f (logcat s)" "log_buffer (svc st2) = log_buffer s" "contexts (svc st2) = contexts s"
    "shell_contexts (svc st2) = shell_contexts s" by (simp_all add: st2_def update_logcat_def)
  have svc1: "contexts (svc st1) = contexts (svc st)" "shell_contexts (svc st1) = shell_contexts (svc st)"
    by (simp_all add: st1_def update_logcat_def)
  have ctx2: "logcat_ctx_ok (conf E) (f (logcat s))"
    unfolding f_def r'(1) using a(4) x1 r'(2) bound
    by (simp add: logcat_ctx_ok_def logcat_ring_ok_def ring_ok_def)
  have r2: "logcat_result E i st st2"
    unfolding logcat_result_def logcat_ok_def svc2 a(1,2) svc1 using f2 a(3) ctx2 by simp
  have eq: "begin_session E i clear drain st = (if r2 \<noteq> 0 then (r2, st2) else queue_next E st2)"
    unfolding begin_session_def Let_def st1_def [symmetric] attach split_conv by (simp add: st2_def f_def [abs_def])
  show ?thesis
  proof (cases "r2 = 0")
    case True
    have "logcat_result E i st2 st'"
    proof (rule queue_next_result [OF logcat_result_live [OF live r2]])
      show "logcat_ok (conf E) (svc st2)" using r2 by (simp add: logcat_result_def)
      show "g_stream (logcat (svc st2)) = Some i" unfolding svc2 f_def r'(1) using True x1(4) by simp
      show "queue_next E st2 = (ret, st')" using run eq True by simp
    qed
    then show ?thesis by (rule logcat_result_trans [OF live r2])
  qed (use run eq r2 in simp)
qed

lemma logcat_open_result:
  assumes live: "live E i st" and ok: "logcat_ok (conf E) (svc st)"
    and pos: "0 < WEBOS_ADB_LOGCAT_BUFFER_SIZE (conf E)"
    and "open": "adb_logcat_open E i suffix_bytes st = (ret, st')"
  shows "logcat_result E i st st'"
proof -
  obtain b st1 where alloc: "alloc_ring E st = (b, st1)" by fastforce
  consider "st' = st" | "\<not> g_active (logcat (svc st))" "\<not> b" "st' = st1"
    | clear drain where "\<not> g_active (logcat (svc st))" "b" "begin_session E i clear drain st1 = (ret, st')"
    using "open" alloc by (auto simp: adb_logcat_open_def Let_def split: if_splits)
  then show ?thesis
  proof cases
    case 1
    then show ?thesis using logcat_result_refl [OF ok] by simp
  next
    case 2
    then show ?thesis using alloc_ring_result [OF live ok 2(1) pos alloc] by (simp add: logcat_result_def)
  next
    case 3
    note a = alloc_ring_result [OF live ok 3(1) pos alloc]
    have "logcat_result E i st1 st'"
      using a 3(2) by (auto intro: begin_session_result [OF live_frame [OF _ live] _ _ _ _ _ _ pos 3(3)])
    then show ?thesis using a frame_trans [OF live] by (auto simp: logcat_result_def)
  qed
qed
end
