(* ===== verification/Adb_Parser.thy ===== *)
theory Adb_Parser
  imports Adb_Contract
begin

text \<open>
  The incremental packet parser of lib/adb/adb_protocol.c: it computes the same as a parser that
  takes one byte at a time, so it always returns, and how the input is cut into transfers makes no
  difference; well-formed packets are dispatched one by one and in order, corrupt ones are refused
  with no effect.
\<close>

section \<open>The parser's invariant\<close>

text \<open>
  Between two bytes the parser either still collects a header, with no payload buffer, or has a
  valid header and a buffer of exactly the announced length that is not full yet.
\<close>

definition rx_ok :: "kconfig \<Rightarrow> adb_rx_state \<Rightarrow> bool" where
  "rx_ok c r \<longleftrightarrow>
     length (header r) = WEBOS_ADB_HEADER_SIZE \<and>
     (if header_used r < WEBOS_ADB_HEADER_SIZE
      then payload r = None \<and> payload_used r = 0 \<and> payload_checksum r = 0
      else header_used r = WEBOS_ADB_HEADER_SIZE \<and> message r = decode_message (header r) \<and>
        validate_message c (message r) = 0 \<and>
        payload_used r < unat (m_data_length (message r)) \<and>
        (\<exists>p. payload r = Some p \<and> length p = unat (m_data_length (message r)) \<and>
           payload_checksum r = adb_checksum (take (payload_used r) p)))"

lemma rx_ok_zero [simp]: "rx_ok c rx_zero"
  by (simp add: rx_ok_def rx_zero_def WEBOS_ADB_HEADER_SIZE_def)

lemma rx_reset_rx [simp]: "rx (reset_rx st) = rx_zero"
  by (simp add: reset_rx_def)

section \<open>A byte-at-a-time reference\<close>

definition finish_packet :: "('s, 't, 'z) adb_services_scheme \<Rightarrow> ('s, 't) adb \<Rightarrow> int \<times> ('s, 't) adb" where
  "finish_packet E st = (let (ret, st) = dispatch_message E st in (ret, reset_rx st))"

definition put_header :: "byte list \<Rightarrow> ('s, 't) adb \<Rightarrow> ('s, 't) adb" where
  "put_header bs st =
     st\<lparr>rx := (rx st)\<lparr>header := memcpy (header (rx st)) (header_used (rx st)) bs,
                     header_used := header_used (rx st) + length bs\<rparr>\<rparr>"

definition put_payload :: "byte list \<Rightarrow> ('s, 't) adb \<Rightarrow> ('s, 't) adb" where
  "put_payload bs st =
     st\<lparr>rx := (rx st)
        \<lparr>payload := map_option (\<lambda>p. memcpy p (payload_used (rx st)) bs) (payload (rx st)),
         payload_checksum := payload_checksum (rx st) + adb_checksum bs,
         payload_used := payload_used (rx st) + length bs\<rparr>\<rparr>"

definition finish_header :: "('s, 't, 'z) adb_services_scheme \<Rightarrow> ('s, 't) adb \<Rightarrow> int \<times> ('s, 't) adb" where
  "finish_header E st =
     (let (ret, st) = decode_header E st in
      if ret \<noteq> 0 then (ret, reset_rx st)
      else if m_data_length (message (rx st)) = 0 then finish_packet E st
      else (0, st))"

definition byte_step :: "('s, 't, 'z) adb_services_scheme \<Rightarrow> byte \<Rightarrow> ('s, 't) adb \<Rightarrow> int \<times> ('s, 't) adb" where
  "byte_step E b st =
     (if header_used (rx st) < WEBOS_ADB_HEADER_SIZE then
        let st = put_header [b] st
        in if header_used (rx st) = WEBOS_ADB_HEADER_SIZE then finish_header E st else (0, st)
      else
        let st = put_payload [b] st
        in if payload_used (rx st) = unat (m_data_length (message (rx st))) then finish_packet E st
           else (0, st))"

fun byte_run :: "('s, 't, 'z) adb_services_scheme \<Rightarrow> byte list \<Rightarrow> ('s, 't) adb \<Rightarrow> int \<times> ('s, 't) adb" where
  "byte_run E [] st = (0, st)"
| "byte_run E (b # bs) st =
     (let (ret, st) = byte_step E b st in if ret \<noteq> 0 then (ret, st) else byte_run E bs st)"

lemma byte_run_append:
  "byte_run E (xs @ ys) st =
     (let (ret, st) = byte_run E xs st in if ret \<noteq> 0 then (ret, st) else byte_run E ys st)"
  by (induction xs arbitrary: st) (auto simp: Let_def split: prod.splits)

lemma put_Nil [simp]: "put_header [] st = st" "put_payload [] st = st"
  by (simp_all add: put_header_def put_payload_def option.map_ident)

lemma put_header_append:
  "length (header (rx st)) = WEBOS_ADB_HEADER_SIZE \<Longrightarrow>
    header_used (rx st) + length xs + length ys \<le> WEBOS_ADB_HEADER_SIZE \<Longrightarrow>
    put_header ys (put_header xs st) = put_header (xs @ ys) st"
  by (simp add: put_header_def memcpy_append add.assoc)

lemma put_payload_append:
  "payload (rx st) = Some p \<Longrightarrow> payload_used (rx st) + length xs + length ys \<le> length p \<Longrightarrow>
    put_payload ys (put_payload xs st) = put_payload (xs @ ys) st"
  by (simp add: put_payload_def memcpy_append checksum_append add.assoc)

lemma put_header_rx:
  "header_used (rx (put_header bs st)) = header_used (rx st) + length bs"
  "off + length bs \<le> length d \<Longrightarrow> length (memcpy d off bs) = length d"
  by (simp_all add: put_header_def length_memcpy)

lemma byte_run_header:
  assumes "length (header (rx st)) = WEBOS_ADB_HEADER_SIZE"
    "header_used (rx st) + length bs < WEBOS_ADB_HEADER_SIZE"
  shows "byte_run E (bs @ cs) st = byte_run E cs (put_header bs st)"
  using assms
proof (induction bs arbitrary: st)
  case (Cons b bs)
  have "byte_step E b st = (0, put_header [b] st)"
    using Cons.prems by (simp add: byte_step_def Let_def put_header_def)
  moreover have "length (header (rx (put_header [b] st))) = WEBOS_ADB_HEADER_SIZE"
    "header_used (rx (put_header [b] st)) + length bs < WEBOS_ADB_HEADER_SIZE"
    using Cons.prems by (simp_all add: put_header_def length_memcpy)
  moreover have "put_header bs (put_header [b] st) = put_header (b # bs) st"
    using Cons.prems put_header_append [of st "[b]" bs] by simp
  ultimately show ?case using Cons.IH by simp
qed simp

lemma byte_run_payload:
  assumes "payload (rx st) = Some p" "length p = unat (m_data_length (message (rx st)))"
    "header_used (rx st) = WEBOS_ADB_HEADER_SIZE"
    "payload_used (rx st) + length bs < length p"
  shows "byte_run E (bs @ cs) st = byte_run E cs (put_payload bs st)"
  using assms
proof (induction bs arbitrary: st p)
  case (Cons b bs)
  have "byte_step E b st = (0, put_payload [b] st)"
    using Cons.prems by (simp add: byte_step_def Let_def put_payload_def)
  moreover have "put_payload bs (put_payload [b] st) = put_payload (b # bs) st"
    using Cons.prems put_payload_append [of st p "[b]" bs] by simp
  moreover have "byte_run E (bs @ cs) (put_payload [b] st) = byte_run E cs (put_payload bs (put_payload [b] st))"
    using Cons.prems by (intro Cons.IH [of _ "memcpy p (payload_used (rx st)) [b]"])
      (simp_all add: put_payload_def length_memcpy)
  ultimately show ?case by simp
qed simp

section \<open>The parser computes the reference\<close>

lemma rx_header_step_put:
  "header_used (rx st) < WEBOS_ADB_HEADER_SIZE \<Longrightarrow>
    rx_header_step E 0 data st =
      (let count = min (length data) (WEBOS_ADB_HEADER_SIZE - header_used (rx st));
           st = put_header (take count data) st
       in if header_used (rx st) \<noteq> WEBOS_ADB_HEADER_SIZE then Inr (0, drop count data, st)
          else let (ret, st) = finish_header E st
               in if ret \<noteq> 0 then Inl (ret, st) else Inr (0, drop count data, st))"
  by (auto simp: rx_header_step_def put_header_def finish_header_def finish_packet_def Let_def
      split: prod.splits)

lemma rx_payload_step_put:
  "header_used (rx st) = WEBOS_ADB_HEADER_SIZE \<Longrightarrow> 0 < m_data_length (message (rx st)) \<Longrightarrow>
    rx_payload_step E 0 data st =
      (let count = min (length data) (unat (m_data_length (message (rx st))) - payload_used (rx st));
           st = put_payload (take count data) st
       in if payload_used (rx st) \<noteq> unat (m_data_length (message (rx st))) then Inr (0, drop count data, st)
          else let (ret, st) = finish_packet E st
               in if ret \<noteq> 0 then Inl (ret, st) else Inr (0, drop count data, st))"
  by (auto simp: rx_payload_step_def put_payload_def finish_packet_def Let_def split: prod.splits)

text \<open>The run of the reference from where a half of the loop body ends.\<close>

definition resume ::
    "('s, 't, 'z) adb_services_scheme \<Rightarrow> (int \<times> ('s, 't) adb) + (int \<times> byte list \<times> ('s, 't) adb) \<Rightarrow>
     int \<times> ('s, 't) adb" where
  "resume E r = (case r of Inl res \<Rightarrow> res | Inr (ret, data, st) \<Rightarrow> byte_run E data st)"

lemma byte_step_header_last:
  "header_used (rx st) + 1 = WEBOS_ADB_HEADER_SIZE \<Longrightarrow> byte_step E b st = finish_header E (put_header [b] st)"
  by (simp add: byte_step_def Let_def put_header_def)

lemma byte_step_payload_last:
  "header_used (rx st) = WEBOS_ADB_HEADER_SIZE \<Longrightarrow>
    payload_used (rx st) + 1 = unat (m_data_length (message (rx st))) \<Longrightarrow>
    byte_step E b st = finish_packet E (put_payload [b] st)"
  by (simp add: byte_step_def Let_def put_payload_def)

lemma take_last: "0 < n \<Longrightarrow> n \<le> length xs \<Longrightarrow> \<exists>b. take n xs = take (n - 1) xs @ [b] \<and> xs = take (n - 1) xs @ b # drop n xs"
  by (rule exI [of _ "xs ! (n - 1)"]) (cases n; simp add: take_Suc_conv_app_nth id_take_nth_drop)

lemma header_step_resume:
  assumes used: "header_used (rx st) < WEBOS_ADB_HEADER_SIZE" and len: "length (header (rx st)) = WEBOS_ADB_HEADER_SIZE"
  shows "resume E (rx_header_step E 0 data st) = byte_run E data st"
proof -
  define need where "need = WEBOS_ADB_HEADER_SIZE - header_used (rx st)"
  have need: "0 < need" "header_used (rx st) + need = WEBOS_ADB_HEADER_SIZE" using used by (simp_all add: need_def)
  show ?thesis
  proof (cases "need \<le> length data")
    case False
    then have "byte_run E data st = (0, put_header data st)"
      using byte_run_header [OF len, of data E "[]"] need by simp
    then show ?thesis using False need used
      by (simp add: rx_header_step_put resume_def need_def [symmetric] put_header_def)
  next
    case True
    obtain b where b: "take need data = take (need - 1) data @ [b]" "data = take (need - 1) data @ b # drop need data"
      using take_last [OF need(1) True] by blast
    define st1 where "st1 = put_header (take (need - 1) data) st"
    have "byte_run E data st = byte_run E (b # drop need data) st1"
      using byte_run_header [OF len, of "take (need - 1) data" E "b # drop need data"] b(2) need True
      by (simp add: st1_def)
    moreover have "byte_step E b st1 = finish_header E (put_header [b] st1)"
      using need True by (intro byte_step_header_last) (simp add: st1_def put_header_def)
    moreover have "put_header [b] st1 = put_header (take need data) st"
      using put_header_append [OF len, of "take (need - 1) data" "[b]"] b(1) need True by (simp add: st1_def)
    moreover have "header_used (rx (put_header (take need data) st)) = WEBOS_ADB_HEADER_SIZE"
      using need True by (simp add: put_header_def)
    ultimately show ?thesis using True used
      by (simp add: rx_header_step_put resume_def need_def [symmetric] min_absorb2 Let_def split: prod.splits)
  qed
qed

lemma payload_step_resume:
  assumes full: "header_used (rx st) = WEBOS_ADB_HEADER_SIZE" and p: "payload (rx st) = Some p"
    "length p = unat (m_data_length (message (rx st)))" and used: "payload_used (rx st) < length p"
  shows "resume E (rx_payload_step E 0 data st) = byte_run E data st"
proof -
  have pos: "0 < m_data_length (message (rx st))"
    using p used by (metis gr_implies_not0 unsigned_0 word_gt_0)
  define need where "need = length p - payload_used (rx st)"
  have need: "0 < need" "payload_used (rx st) + need = length p" using used by (simp_all add: need_def)
  have need_eq: "unat (m_data_length (message (rx st))) - payload_used (rx st) = need" by (simp add: need_def p)
  show ?thesis
  proof (cases "need \<le> length data")
    case False
    then have "byte_run E data st = (0, put_payload data st)"
      using byte_run_payload [OF p full, of data E "[]"] need by simp
    then show ?thesis using False need p
      by (simp add: rx_payload_step_put [OF full pos] resume_def need_eq put_payload_def)
  next
    case True
    obtain b where b: "take need data = take (need - 1) data @ [b]" "data = take (need - 1) data @ b # drop need data"
      using take_last [OF need(1) True] by blast
    define st1 where "st1 = put_payload (take (need - 1) data) st"
    have "byte_run E data st = byte_run E (b # drop need data) st1"
      using byte_run_payload [OF p full, of "take (need - 1) data" E "b # drop need data"] b(2) need True
      by (simp add: st1_def)
    moreover have "byte_step E b st1 = finish_packet E (put_payload [b] st1)"
      using need True full p by (intro byte_step_payload_last) (simp_all add: st1_def put_payload_def)
    moreover have "put_payload [b] st1 = put_payload (take need data) st"
      using put_payload_append [OF p(1), of "take (need - 1) data" "[b]"] b(1) need True by (simp add: st1_def)
    moreover have "payload_used (rx (put_payload (take need data) st)) = unat (m_data_length (message (rx st)))"
      "message (rx (put_payload (take need data) st)) = message (rx st)"
      using need True p by (simp_all add: put_payload_def)
    ultimately show ?thesis using True
      by (simp add: rx_payload_step_put [OF full pos] resume_def need_eq min_absorb2 Let_def split: prod.splits)
  qed
qed

lemma rx_ok_cases:
  assumes "rx_ok c (rx st)"
  obtains (collecting) "header_used (rx st) < WEBOS_ADB_HEADER_SIZE" "length (header (rx st)) = WEBOS_ADB_HEADER_SIZE"
    "payload (rx st) = None" "payload_used (rx st) = 0" "payload_checksum (rx st) = 0"
  | (filling) p where "header_used (rx st) = WEBOS_ADB_HEADER_SIZE" "payload (rx st) = Some p"
    "length p = unat (m_data_length (message (rx st)))" "payload_used (rx st) < length p"
    "payload_checksum (rx st) = adb_checksum (take (payload_used (rx st)) p)"
  using assms by (auto simp: rx_ok_def split: if_splits)

lemma finish_packet_rx [simp]: "rx (snd (finish_packet E st)) = rx_zero"
  by (simp add: finish_packet_def Let_def split: prod.splits)

text \<open>A decoded header leaves the parser with an empty buffer of the announced size.\<close>

lemma decode_header_filling:
  assumes "decode_header E st = (0, st')" "m_data_length (message (rx st')) \<noteq> 0"
    "length (header (rx st)) = WEBOS_ADB_HEADER_SIZE" "header_used (rx st) = WEBOS_ADB_HEADER_SIZE"
    "payload_used (rx st) = 0" "payload_checksum (rx st) = 0"
  shows "rx_ok (conf E) (rx st')"
  using assms
  by (auto simp: decode_header_def Let_def rx_ok_def errno_simps unat_gt_0 split: if_splits)

lemma finish_header_rx_ok:
  assumes "length (header (rx st)) = WEBOS_ADB_HEADER_SIZE" "header_used (rx st) = WEBOS_ADB_HEADER_SIZE"
    "payload_used (rx st) = 0" "payload_checksum (rx st) = 0"
  shows "rx_ok (conf E) (rx (snd (finish_header E st)))"
proof -
  obtain r st1 where "decode_header E st = (r, st1)" by fastforce
  then show ?thesis
    using assms decode_header_filling [of E st st1] by (auto simp: finish_header_def)
qed

lemma byte_step_rx_ok:
  assumes "rx_ok (conf E) (rx st)"
  shows "rx_ok (conf E) (rx (snd (byte_step E b st)))"
  using assms
proof (cases rule: rx_ok_cases)
  case collecting
  then have put: "length (header (rx (put_header [b] st))) = WEBOS_ADB_HEADER_SIZE"
    "payload (rx (put_header [b] st)) = None"
    "payload_used (rx (put_header [b] st)) = 0" "payload_checksum (rx (put_header [b] st)) = 0"
    by (simp_all add: put_header_def length_memcpy)
  show ?thesis
  proof (cases "header_used (rx (put_header [b] st)) = WEBOS_ADB_HEADER_SIZE")
    case True
    with collecting(1) finish_header_rx_ok [OF put(1) True put(3,4), of E] show ?thesis
      by (simp add: byte_step_def)
  next
    case False
    with collecting(1) put show ?thesis by (simp add: byte_step_def rx_ok_def put_header_rx)
  qed
next
  case (filling p)
  have "rx_ok (conf E) (rx (put_payload [b] st))" if "payload_used (rx st) + 1 \<noteq> length p"
  proof -
    have "take (Suc (payload_used (rx st))) (memcpy p (payload_used (rx st)) [b]) =
        take (payload_used (rx st)) p @ [b]"
      using filling that by (simp add: memcpy_def)
    with assms filling that show ?thesis
      by (auto simp: rx_ok_def put_payload_def length_memcpy checksum_append)
  qed
  then show ?thesis using filling
    by (auto simp: byte_step_def Let_def) (simp add: put_payload_def)
qed

lemma byte_run_rx_ok:
  "rx_ok (conf E) (rx st) \<Longrightarrow> rx_ok (conf E) (rx (snd (byte_run E data st)))"
proof (induction data arbitrary: st)
  case (Cons b data)
  then show ?case using byte_step_rx_ok [OF Cons.prems, of b]
    by (auto simp: Let_def split: prod.splits)
qed simp

lemma header_step_progress:
  assumes ok: "rx_ok (conf E) (rx st)" and used: "header_used (rx st) < WEBOS_ADB_HEADER_SIZE"
    and data: "data \<noteq> []" and step: "rx_header_step E 0 data st = Inr (ret, data', st')"
  shows "ret = 0 \<and> rx_ok (conf E) (rx st') \<and> length data' < length data"
proof -
  define count where "count = min (length data) (WEBOS_ADB_HEADER_SIZE - header_used (rx st))"
  define bs where "bs = take count data"
  have bs: "0 < count" "header_used (rx st) + length bs \<le> WEBOS_ADB_HEADER_SIZE"
    using data used by (auto simp: bs_def count_def)
  have put: "length (header (rx (put_header bs st))) = WEBOS_ADB_HEADER_SIZE"
    "payload (rx (put_header bs st)) = None"
    "payload_used (rx (put_header bs st)) = 0" "payload_checksum (rx (put_header bs st)) = 0"
    using ok used bs(2) by (simp_all add: put_header_def rx_ok_def length_memcpy)
  obtain r st1 where fin: "finish_header E (put_header bs st) = (r, st1)" by fastforce
  have "rx_ok (conf E) (rx (put_header bs st))" if "header_used (rx (put_header bs st)) \<noteq> WEBOS_ADB_HEADER_SIZE"
    using put bs(2) that by (simp add: rx_ok_def put_header_rx)
  moreover have "rx_ok (conf E) (rx st1)" if "header_used (rx (put_header bs st)) = WEBOS_ADB_HEADER_SIZE"
    using finish_header_rx_ok [OF put(1) that put(3,4), of E] fin by simp
  moreover have "data' = drop count data \<and> ret = 0 \<and>
      (if header_used (rx (put_header bs st)) \<noteq> WEBOS_ADB_HEADER_SIZE then st' = put_header bs st else st' = st1)"
    using step unfolding rx_header_step_put [OF used] Let_def count_def [symmetric] bs_def [symmetric] fin
    by (auto split: if_splits)
  ultimately show ?thesis using bs(1) data by (auto split: if_splits)
qed

lemma payload_step_progress:
  assumes ok: "rx_ok (conf E) (rx st)" and full: "header_used (rx st) = WEBOS_ADB_HEADER_SIZE"
    and step: "rx_payload_step E 0 data st = Inr (ret, data', st')"
  shows "ret = 0 \<and> rx_ok (conf E) (rx st') \<and> (data \<noteq> [] \<longrightarrow> length data' < length data) \<and> length data' \<le> length data"
proof -
  obtain p where p: "payload (rx st) = Some p" "length p = unat (m_data_length (message (rx st)))"
    and used: "payload_used (rx st) < length p" and sum: "payload_checksum (rx st) = adb_checksum (take (payload_used (rx st)) p)"
    using ok full by (auto simp: rx_ok_def)
  have pos: "0 < m_data_length (message (rx st))"
    using p used by (metis gr_implies_not0 unsigned_0 word_gt_0)
  define count where "count = min (length data) (unat (m_data_length (message (rx st))) - payload_used (rx st))"
  define bs where "bs = take count data"
  have bs: "length bs = count" "payload_used (rx st) + length bs \<le> length p"
    using used p by (simp_all add: bs_def count_def)
  have "rx_ok (conf E) (rx (put_payload bs st))"
    if "payload_used (rx (put_payload bs st)) \<noteq> unat (m_data_length (message (rx (put_payload bs st))))"
  proof -
    have "take (payload_used (rx st) + length bs) (memcpy p (payload_used (rx st)) bs) =
        take (payload_used (rx st)) p @ bs"
      using bs by (simp add: memcpy_def)
    with ok full p sum bs(2) that show ?thesis
      by (auto simp: rx_ok_def put_payload_def length_memcpy checksum_append)
  qed
  moreover obtain r st1 where fin: "finish_packet E (put_payload bs st) = (r, st1)" by fastforce
  moreover have "rx_ok (conf E) (rx st1)" using finish_packet_rx [of E "put_payload bs st"] fin by simp
  moreover have "data' = drop count data \<and> ret = 0 \<and>
      (if payload_used (rx (put_payload bs st)) \<noteq> unat (m_data_length (message (rx (put_payload bs st))))
       then st' = put_payload bs st else st' = st1)"
    using step unfolding rx_payload_step_put [OF full pos] Let_def bs_def [symmetric] fin count_def [symmetric]
    by (auto split: if_splits)
  ultimately show ?thesis using used p by (auto simp: count_def split: if_splits)
qed

text \<open>The second half of a pass and the passes after it, when shorter inputs are settled.\<close>

lemma receive_loop_tail:
  assumes IH: "\<And>data st. length data < n \<Longrightarrow> rx_ok (conf E) (rx st) \<Longrightarrow>
      receive_loop E 0 data st = Some (byte_run E data st)"
    and ok: "rx_ok (conf E) (rx st)" and n: "0 < n"
    and shorter: "length data < n \<or> header_used (rx st) = WEBOS_ADB_HEADER_SIZE \<and> length data = n"
  shows "(case rx_payload_step E 0 data st of Inl res \<Rightarrow> Some res
      | Inr (ret, data, st) \<Rightarrow> receive_loop E ret data st) = Some (byte_run E data st)"
  using ok
proof (cases rule: rx_ok_cases)
  case collecting
  then have "rx_payload_step E 0 data st = Inr (0, data, st)" by (simp add: rx_payload_step_def)
  then show ?thesis using IH [OF _ ok, of data] shorter collecting(1) by auto
next
  case (filling p)
  note run = payload_step_resume [OF filling(1-4), of E data]
  show ?thesis
  proof (cases "rx_payload_step E 0 data st")
    case (Inl res)
    then show ?thesis using run by (simp add: resume_def)
  next
    case (Inr t)
    obtain r d s where t: "t = (r, d, s)" by (cases t)
    have "r = 0" "rx_ok (conf E) (rx s)" "length d < n"
      using payload_step_progress [OF ok filling(1) Inr [unfolded t]] shorter n by (cases data; auto)+
    then show ?thesis using run Inr t IH [of d s] by (simp add: resume_def)
  qed
qed

lemma receive_loop_run:
  "rx_ok (conf E) (rx st) \<Longrightarrow> receive_loop E 0 data st = Some (byte_run E data st)"
proof (induction "length data" arbitrary: data st rule: less_induct)
  case (less data st)
  note ok = less.prems and tail = receive_loop_tail [of "length data" E, OF less.hyps]
  show ?case
  proof (cases "data = []")
    case True
    then show ?thesis by (subst receive_loop.simps) simp
  next
    case data: False
    show ?thesis
    proof (cases "header_used (rx st) < WEBOS_ADB_HEADER_SIZE")
      case False
      then have "rx_header_step E 0 data st = Inr (0, data, st)" by (simp add: rx_header_step_def)
      moreover have "header_used (rx st) = WEBOS_ADB_HEADER_SIZE" using ok False by (simp add: rx_ok_def)
      ultimately show ?thesis using tail [OF _ _ ok, of data] data by (subst receive_loop.simps) simp
    next
      case True
      have run: "resume E (rx_header_step E 0 data st) = byte_run E data st"
        using ok True by (intro header_step_resume) (simp_all add: rx_ok_def)
      show ?thesis
      proof (cases "rx_header_step E 0 data st")
        case (Inl res)
        then show ?thesis using run data by (subst receive_loop.simps) (simp add: resume_def)
      next
        case (Inr t)
        obtain r d' s' where t: "t = (r, d', s')" by (cases t)
        have "r = 0" "rx_ok (conf E) (rx s')" "length d' < length data"
          using header_step_progress [OF ok True data Inr [unfolded t]] by auto
        then show ?thesis using run Inr t data tail [of s' d']
          by (subst receive_loop.simps) (simp add: resume_def)
      qed
    qed
  qed
qed

lemma protocol_receive_run:
  "rx_ok (conf E) (rx st) \<Longrightarrow>
    protocol_receive_unlocked E (Some data) (length data) st = Some (byte_run E data st)"
  by (simp add: protocol_receive_unlocked_def receive_loop_run bytes_of_Some)

text \<open>
  C8: The parser always returns, and cutting the input into transfers does not change what it does:
  feeding \<open>xs @ ys\<close> in one call is feeding xs and, when that call reports no error, feeding
  ys to the state it left.  When the first part ends in an error the rest of the transfer is dropped.
  The parser's invariant (buffer sizes, running checksum) is kept.
\<close>

theorem receive_chunk_independent:
  assumes "rx_ok (conf E) (rx st)"
  shows "\<exists>ret st'. protocol_receive_unlocked E (Some xs) (length xs) st = Some (ret, st') \<and>
    rx_ok (conf E) (rx st') \<and>
    protocol_receive_unlocked E (Some (xs @ ys)) (length (xs @ ys)) st =
      (if ret \<noteq> 0 then Some (ret, st') else protocol_receive_unlocked E (Some ys) (length ys) st')"
proof -
  obtain ret st' where run: "byte_run E xs st = (ret, st')" by fastforce
  then have ok: "rx_ok (conf E) (rx st')" using byte_run_rx_ok [OF assms, of xs] by simp
  then show ?thesis
    using protocol_receive_run [OF assms, of xs] protocol_receive_run [OF assms, of "xs @ ys"]
      protocol_receive_run [OF ok, of ys] byte_run_append [of E xs ys st] run
    by auto
qed

section \<open>Framing\<close>

text \<open>
  The bytes of a packet on the wire, the state in which the dispatcher sees it, and the dispatch of
  a list of packets one after the other until one fails.
\<close>

definition packet_bytes :: "control_entry \<Rightarrow> byte list" where
  "packet_bytes pk = (case pk of (cmd, a0, a1, p) \<Rightarrow> encode_message cmd a0 a1 p @ p)"

definition packet_ready :: "control_entry \<Rightarrow> ('s, 't) adb \<Rightarrow> ('s, 't) adb" where
  "packet_ready pk st =
     (case pk of (cmd, a0, a1, p) \<Rightarrow>
        st\<lparr>rx := \<lparr>header = encode_message cmd a0 a1 p, payload = if p = [] then None else Some p,
                 payload_checksum = adb_checksum p, header_used = WEBOS_ADB_HEADER_SIZE,
                 payload_used = length p,
                 message = \<lparr>m_command = cmd, m_arg0 = a0, m_arg1 = a1, m_data_length = word_of_nat (length p),
                            m_data_check = adb_checksum p, m_magic = cmd XOR UINT32_MAX\<rparr>\<rparr>,
           heap_allocs := heap_allocs st + (if p = [] then 0 else 1)\<rparr>)"

fun packets_run ::
    "('s, 't, 'z) adb_services_scheme \<Rightarrow> control_entry list \<Rightarrow> ('s, 't) adb \<Rightarrow> int \<times> ('s, 't) adb" where
  "packets_run E [] st = (0, st)"
| "packets_run E (pk # pks) st =
     (let (ret, st) = finish_packet E (packet_ready pk st)
      in if ret \<noteq> 0 then (ret, st) else packets_run E pks st)"

lemma byte_run_full_header:
  assumes "rx st = rx_zero" "length h = WEBOS_ADB_HEADER_SIZE"
  shows "byte_run E (h @ rest) st =
    (let (ret, st) = finish_header E (st\<lparr>rx := rx_zero\<lparr>header := h, header_used := WEBOS_ADB_HEADER_SIZE\<rparr>\<rparr>)
     in if ret \<noteq> 0 then (ret, st) else byte_run E rest st)"
proof -
  have zero: "header_used (rx st) = 0" "length (header (rx st)) = WEBOS_ADB_HEADER_SIZE"
    using assms(1) by (simp_all add: rx_zero_def)
  have "put_header h st = st\<lparr>rx := rx_zero\<lparr>header := h, header_used := WEBOS_ADB_HEADER_SIZE\<rparr>\<rparr>"
    using assms zero by (simp add: put_header_def memcpy_def rx_zero_def)
  moreover have "0 < WEBOS_ADB_HEADER_SIZE" by (simp add: WEBOS_ADB_HEADER_SIZE_def)
  moreover obtain ret st' where "finish_header E
      (st\<lparr>rx := rx_zero\<lparr>header := h, header_used := WEBOS_ADB_HEADER_SIZE\<rparr>\<rparr>) = (ret, st')" by fastforce
  ultimately have "rx_header_step E 0 (h @ rest) st = (if ret \<noteq> 0 then Inl (ret, st') else Inr (0, rest, st'))"
    and fin: "finish_header E (st\<lparr>rx := rx_zero\<lparr>header := h, header_used := WEBOS_ADB_HEADER_SIZE\<rparr>\<rparr>) = (ret, st')"
    and "0 < WEBOS_ADB_HEADER_SIZE"
    using zero assms(2) by (simp_all add: rx_header_step_put)
  then show ?thesis
    unfolding fin using header_step_resume [of st E "h @ rest"] zero by (auto simp: resume_def)
qed

lemma byte_run_full_payload:
  assumes "header_used (rx st) = WEBOS_ADB_HEADER_SIZE" "payload (rx st) = Some q"
    "length q = unat (m_data_length (message (rx st)))" "payload_used (rx st) = 0" "length p = length q" "p \<noteq> []"
  shows "byte_run E (p @ rest) st =
    (let (ret, st) = finish_packet E (put_payload p st) in if ret \<noteq> 0 then (ret, st) else byte_run E rest st)"
proof -
  have used: "payload_used (rx st) < length q" using assms by (cases p) auto
  have "0 < m_data_length (message (rx st))"
    using assms used by (metis gr_implies_not0 unsigned_0 word_gt_0)
  moreover have "payload_used (rx (put_payload p st)) = unat (m_data_length (message (rx (put_payload p st))))"
    using assms by (simp add: put_payload_def)
  moreover obtain ret st' where "finish_packet E (put_payload p st) = (ret, st')" by fastforce
  ultimately have "rx_payload_step E 0 (p @ rest) st = (if ret \<noteq> 0 then Inl (ret, st') else Inr (0, rest, st'))"
    and fin: "finish_packet E (put_payload p st) = (ret, st')"
    using assms by (simp_all add: rx_payload_step_put)
  then show ?thesis
    unfolding fin using payload_step_resume [OF assms(1-3) used, of E "p @ rest"] by (auto simp: resume_def)
qed

lemma finish_header_valid:
  assumes "m = decode_message h" "validate_message (conf E) m = 0" "m_data_length m \<noteq> 0"
    "k_malloc_ok E (heap_allocs st) (unat (m_data_length m))"
  shows "finish_header E (st\<lparr>rx := rx_zero\<lparr>header := h, header_used := WEBOS_ADB_HEADER_SIZE\<rparr>\<rparr>) =
    (0, st\<lparr>heap_allocs := heap_allocs st + 1, rx := rx_zero\<lparr>header := h,
       header_used := WEBOS_ADB_HEADER_SIZE, message := m,
       payload := Some (replicate (unat (m_data_length m)) NUL)\<rparr>\<rparr>)"
  using assms by (simp add: finish_header_def decode_header_def rx_zero_def Let_def)

lemma byte_run_packet:
  assumes idle: "rx st = rx_zero" and c: "kconfig_ok (conf E)"
    and len: "length p \<le> WEBOS_ADB_MAX_PAYLOAD (conf E)"
    and mem: "k_malloc_ok E (heap_allocs st) (length p)"
  shows "byte_run E (packet_bytes (cmd, a0, a1, p) @ rest) st =
    (let (ret, st) = finish_packet E (packet_ready (cmd, a0, a1, p) st)
     in if ret \<noteq> 0 then (ret, st) else byte_run E rest st)"
proof -
  define h where "h = encode_message cmd a0 a1 p"
  define m where "m = \<lparr>m_command = cmd, m_arg0 = a0, m_arg1 = a1, m_data_length = word_of_nat (length p),
    m_data_check = adb_checksum p, m_magic = cmd XOR UINT32_MAX\<rparr>"
  define st1 where "st1 = st\<lparr>rx := rx_zero\<lparr>header := h, header_used := WEBOS_ADB_HEADER_SIZE\<rparr>\<rparr>"
  have unat: "unat (word_of_nat (length p) :: u32) = length p"
  proof -
    have "length p < 2 ^ 32" using len c by (simp add: kconfig_ok_def)
    then show ?thesis by (simp add: unat_of_nat)
  qed
  then have zero: "(word_of_nat (length p) :: u32) = 0 \<longleftrightarrow> p = []" by (metis length_0_conv unsigned_eq_0_iff)
  have dec: "decode_message h = m" by (simp add: h_def m_def decode_encode_message)
  have valid: "validate_message (conf E) m = 0" using len by (simp add: validate_message_def m_def unat)
  have h: "length h = WEBOS_ADB_HEADER_SIZE" by (simp add: h_def WEBOS_ADB_HEADER_SIZE_def)
  note run = byte_run_full_header [OF idle h, of E "p @ rest", folded st1_def]
  show ?thesis
  proof (cases "p = []")
    case True
    have "decode_header E st1 = (0, packet_ready (cmd, a0, a1, p) st)"
      using True dec valid by (simp add: decode_header_def st1_def packet_ready_def h_def m_def rx_zero_def)
    then have "finish_header E st1 = finish_packet E (packet_ready (cmd, a0, a1, p) st)"
      using True by (simp add: finish_header_def packet_ready_def)
    with run show ?thesis unfolding True append_Nil by (simp add: packet_bytes_def h_def True)
  next
    case False
    define st2 where "st2 = st\<lparr>heap_allocs := heap_allocs st + 1, rx := rx_zero\<lparr>header := h,
      header_used := WEBOS_ADB_HEADER_SIZE, message := m, payload := Some (replicate (length p) NUL)\<rparr>\<rparr>"
    have len_m: "unat (m_data_length m) = length p" by (simp add: m_def unat)
    have "m_data_length m \<noteq> 0" using False zero by (simp add: m_def)
    then have "finish_header E st1 = (0, st2)"
      using finish_header_valid [OF dec [symmetric] valid, of st] mem by (simp add: st1_def st2_def len_m)
    then have "byte_run E (h @ p @ rest) st = byte_run E (p @ rest) st2" using run by simp
    moreover have "put_payload p st2 = packet_ready (cmd, a0, a1, p) st"
      using False by (simp add: put_payload_def st2_def packet_ready_def rx_zero_def memcpy_def h_def m_def)
    moreover have "byte_run E (p @ rest) st2 =
        (let (ret, st) = finish_packet E (put_payload p st2) in if ret \<noteq> 0 then (ret, st) else byte_run E rest st)"
      using False by (intro byte_run_full_payload [of _ "replicate (length p) NUL"])
        (simp_all add: st2_def rx_zero_def m_def unat)
    ultimately show ?thesis by (simp add: packet_bytes_def h_def)
  qed
qed

lemma byte_run_packets:
  assumes "rx st = rx_zero" and c: "kconfig_ok (conf E)"
    and "\<forall>(cmd, a0, a1, p) \<in> set pks. length p \<le> WEBOS_ADB_MAX_PAYLOAD (conf E)"
    and mem: "\<And>n len. len \<le> WEBOS_ADB_MAX_PAYLOAD (conf E) \<Longrightarrow> k_malloc_ok E n len"
  shows "byte_run E (concat (map packet_bytes pks)) st = packets_run E pks st"
  using assms(1,3)
proof (induction pks arbitrary: st)
  case (Cons pk pks)
  obtain cmd a0 a1 p where pk: "pk = (cmd, a0, a1, p)" by (cases pk)
  obtain ret st' where fin: "finish_packet E (packet_ready pk st) = (ret, st')" by fastforce
  have len: "length p \<le> WEBOS_ADB_MAX_PAYLOAD (conf E)" using Cons.prems(2) pk by simp
  have "rx st' = rx_zero" using finish_packet_rx [of E "packet_ready pk st"] fin by simp
  then have "byte_run E (concat (map packet_bytes pks)) st' = packets_run E pks st'"
    using Cons.IH Cons.prems(2) by simp
  then show ?case
    using byte_run_packet [OF Cons.prems(1) c len mem [OF len], of cmd a0 a1 "concat (map packet_bytes pks)"]
      fin pk by simp
qed simp

text \<open>Feeding a sequence of transfers until one reports an error.\<close>

fun receive_transfers ::
    "('s, 't, 'z) adb_services_scheme \<Rightarrow> byte list list \<Rightarrow> ('s, 't) adb \<Rightarrow> (int \<times> ('s, 't) adb) option" where
  "receive_transfers E [] st = Some (0, st)"
| "receive_transfers E (x # xs) st =
     (case protocol_receive_unlocked E (Some x) (length x) st of
        None \<Rightarrow> None
      | Some (ret, st) \<Rightarrow> if ret \<noteq> 0 then Some (ret, st) else receive_transfers E xs st)"

lemma receive_transfers_run:
  "rx_ok (conf E) (rx st) \<Longrightarrow> receive_transfers E xs st = Some (byte_run E (concat xs) st)"
proof (induction xs arbitrary: st)
  case (Cons x xs)
  obtain ret st' where run: "byte_run E x st = (ret, st')" by fastforce
  then have "rx_ok (conf E) (rx st')" using byte_run_rx_ok [OF Cons.prems, of x] by simp
  then show ?case using Cons.IH protocol_receive_run [OF Cons.prems, of x] run by (simp add: byte_run_append)
qed simp

text \<open>
  C9: Framing.  Take any list of packets whose payloads respect the limit, and cut their encodings
  into transfers in any way.  Then a parser that starts idle, with memory for the payloads, dispatches
  exactly these packets, each once and in order, with the fields and payloads they were built from,
  until a handler reports an error.
\<close>

theorem packets_dispatched_in_order:
  assumes "rx st = rx_zero" and "kconfig_ok (conf E)"
    and "\<forall>(cmd, a0, a1, p) \<in> set pks. length p \<le> WEBOS_ADB_MAX_PAYLOAD (conf E)"
    and "\<And>n len. len \<le> WEBOS_ADB_MAX_PAYLOAD (conf E) \<Longrightarrow> k_malloc_ok E n len"
    and "concat transfers = concat (map packet_bytes pks)"
  shows "receive_transfers E transfers st = Some (packets_run E pks st)"
  using receive_transfers_run [of E st transfers] byte_run_packets [OF assms(1-4)] assms(1,5) by simp

lemma finish_header_invalid:
  "validate_message (conf E) (decode_message h) \<noteq> 0 \<Longrightarrow> rx st = rx_zero \<Longrightarrow>
    finish_header E (st\<lparr>rx := rx_zero\<lparr>header := h, header_used := n\<rparr>\<rparr>) =
      (validate_message (conf E) (decode_message h), st)"
  by (simp add: finish_header_def decode_header_def Let_def reset_rx_def)

lemma finish_packet_bad_checksum:
  assumes "m_data_check (message (rx st)) \<noteq> payload_checksum (rx st)" "m_command (message (rx st)) \<noteq> ADB_COMMAND_CNXN"
  shows "finish_packet E st = (- EBADMSG, reset_rx st)"
  using assms by (simp add: finish_packet_def dispatch_message_def Let_def)


section \<open>Sample runs\<close>

text \<open>A build with no service, on the transport of \<^const>\<open>sample_link\<close> switched on.\<close>

definition bare_kconfig :: kconfig where
  "bare_kconfig = default_kconfig\<lparr>WEBOS_ADB_SHELL := False, WEBOS_ADB_LOGCAT := False, WEBOS_ADB_SYNC := False\<rparr>"

definition sample_services :: "(unit, (byte list \<times> byte list) list \<times> bool) adb_services" where
  "sample_services =
     \<lparr>conf = bare_kconfig, k_malloc_ok = (\<lambda>_ _. True), k_work_reschedule = (\<lambda>_. 0),
      webos_adb_usb_reset_tx = id, service_close = (\<lambda>_ _ s. s),
      service_open = (\<lambda>_ _ _ st. (- EINVAL, st)), service_write = (\<lambda>_ _ _ _ st. (- EINVAL, st)),
      service_tx_ready = (\<lambda>_ _ st. st)\<rparr>"

definition sample_adb :: "(unit, (byte list \<times> byte list) list \<times> bool) adb" where
  "sample_adb = sample_link\<lparr>link := ([], True)\<rparr>"

definition sample_connect :: control_entry where
  "sample_connect = (ADB_COMMAND_CNXN, ADB_VERSION, 4096, ''host::'')"

lemma sample_adb_idle [simp]: "rx sample_adb = rx_zero" "heap_allocs sample_adb = 0"
  by (simp_all add: sample_adb_def sample_link_def adb_boot_def)

lemma sample_services_simps [simp]:
  "conf sample_services = bare_kconfig" "k_malloc_ok sample_services n len" "kconfig_ok bare_kconfig"
  "WEBOS_ADB_MAX_PAYLOAD bare_kconfig = 4096"
  by (simp_all add: sample_services_def bare_kconfig_def default_kconfig_def kconfig_ok_def)

theorem receive_chunk_independent_witness:
  "\<exists>ret st'. protocol_receive_unlocked sample_services (Some ''CNXN'') (length ''CNXN'') sample_adb = Some (ret, st') \<and>
    rx_ok (conf sample_services) (rx st') \<and>
    protocol_receive_unlocked sample_services (Some (''CNXN'' @ ''rest'')) (length (''CNXN'' @ ''rest'')) sample_adb =
      (if ret \<noteq> 0 then Some (ret, st')
       else protocol_receive_unlocked sample_services (Some ''rest'') (length ''rest'') st')"
  by (rule receive_chunk_independent) simp

lemma sample_connect_result:
  "\<exists>st. packets_run sample_services [sample_connect] sample_adb = (0, st) \<and> online st"
  by (simp add: sample_connect_def packet_ready_def finish_packet_def dispatch_message_def handle_connect_def
      send_connect_def sample_simps sample_adb_def connect_reset_def close_all_streams_def adb_command_defs
      bare_kconfig_def sample_services_def release_stream_def stream_zero_def numeral_2_eq_2 reset_rx_def)

theorem packets_dispatched_in_order_witness:
  "\<exists>st. receive_transfers sample_services
     [take 10 (packet_bytes sample_connect), drop 10 (packet_bytes sample_connect)] sample_adb = Some (0, st) \<and>
     online st"
proof -
  have "receive_transfers sample_services
      [take 10 (packet_bytes sample_connect), drop 10 (packet_bytes sample_connect)] sample_adb =
      Some (packets_run sample_services [sample_connect] sample_adb)"
    by (rule packets_dispatched_in_order) (simp_all add: sample_connect_def)
  with sample_connect_result show ?thesis by auto
qed


end
