(* ===== verification/Adb_System.thy ===== *)
theory Adb_System
  imports Adb_Sync_Inv Adb_Shell_Inv Adb_Logcat_Inv Adb_Parser
begin

text \<open>
  The router together with the services of the firmware: the three services meet the contract of
  \<open>Adb_Contract\<close>, so the invariants of all of them hold in every state the device can reach,
  whatever bytes arrive and whatever the transport, the file system and the shell do.
\<close>

section \<open>The invariant of the router\<close>

text \<open>Between two calls no packet is being dispatched, and every part is in order.\<close>

definition adb_ok :: "('s, 't, 'z) adb_services_scheme \<Rightarrow> ('s \<Rightarrow> bool) \<Rightarrow> ('s, 't) adb \<Rightarrow> bool" where
  "adb_ok E P st \<longleftrightarrow> core_ok E st \<and> P (svc st) \<and> rx_ok (conf E) (rx st) \<and> \<not> dispatching st"

lemma dispatch_ok_simps [simp]:
  "dispatch_ok E P (st\<lparr>rx := r\<rparr>) = dispatch_ok E P st" "dispatch_ok E P (st\<lparr>heap_allocs := n\<rparr>) = dispatch_ok E P st"
  "dispatch_ok E P (reset_rx st) = dispatch_ok E P st" "dispatch_ok E P (put_header bs st) = dispatch_ok E P st"
  "dispatch_ok E P (put_payload bs st) = dispatch_ok E P st"
  by (simp_all add: dispatch_ok_def reset_rx_def put_header_def put_payload_def)

lemma decode_header_dispatch_ok: "decode_header E st = (ret, st') \<Longrightarrow> dispatch_ok E P st' = dispatch_ok E P st"
  by (auto simp: decode_header_def Let_def split: if_splits)

lemma core_ok_boot:
  "0 < WEBOS_ADB_CONTROL_QUEUE_DEPTH (conf E) \<Longrightarrow> core_ok E (adb_boot (conf E) s l)"
  by (simp add: core_ok_def adb_boot_def control_ok_def list_all_length control_packet_ok_def control_packet_zero_def)

lemma decode_header_moved: "decode_header E st = (ret, st') \<Longrightarrow> moved E' st st'"
  by (auto simp: decode_header_def Let_def reset_rx_def split: if_splits intro: moved_same)

context routed_services
begin

lemma finish_packet_dispatch_ok: "dispatch_ok E svc_ok st \<Longrightarrow> dispatch_ok E svc_ok (snd (finish_packet E st))"
proof -
  assume ok: "dispatch_ok E svc_ok st"
  obtain r st1 where "dispatch_message E st = (r, st1)" by fastforce
  then show ?thesis using dispatch_message_ok [OF ok] by (simp add: finish_packet_def)
qed

lemma finish_header_dispatch_ok: "dispatch_ok E svc_ok st \<Longrightarrow> dispatch_ok E svc_ok (snd (finish_header E st))"
proof -
  assume ok: "dispatch_ok E svc_ok st"
  obtain r st1 where d: "decode_header E st = (r, st1)" by fastforce
  then have "dispatch_ok E svc_ok st1" using ok decode_header_dispatch_ok [OF d] by simp
  then show ?thesis using finish_packet_dispatch_ok [of st1] by (simp add: finish_header_def d)
qed

lemma byte_step_dispatch_ok: "dispatch_ok E svc_ok st \<Longrightarrow> dispatch_ok E svc_ok (snd (byte_step E b st))"
  using finish_header_dispatch_ok [of "put_header [b] st"] finish_packet_dispatch_ok [of "put_payload [b] st"]
  by (simp add: byte_step_def Let_def)

lemma byte_run_dispatch_ok: "dispatch_ok E svc_ok st \<Longrightarrow> dispatch_ok E svc_ok (snd (byte_run E data st))"
proof (induction data arbitrary: st)
  case (Cons b data)
  obtain r st1 where "byte_step E b st = (r, st1)" by fastforce
  then show ?case using byte_step_dispatch_ok [OF Cons.prems, of b] Cons.IH [of st1] by simp
qed simp

lemma receive_ok:
  assumes ok: "adb_ok E svc_ok st" and receive: "webos_adb_protocol_receive E data len st = Some (ret, st')"
  shows "adb_ok E svc_ok st'"
proof -
  have rx: "rx_ok (conf E) (rx (st\<lparr>dispatching := True\<rparr>))" using ok by (simp add: adb_ok_def)
  have d: "dispatch_ok E svc_ok (st\<lparr>dispatching := True\<rparr>)" using ok by (simp add: adb_ok_def dispatch_ok_def)
  obtain r st1 where "protocol_receive_unlocked E data len (st\<lparr>dispatching := True\<rparr>) = Some (r, st1)"
    "st' = st1\<lparr>dispatching := False\<rparr>" using receive by (auto simp: webos_adb_protocol_receive_def)
  moreover have "dispatch_ok E svc_ok st1 \<and> rx_ok (conf E) (rx st1)"
    using calculation(1) receive_loop_run [OF rx] byte_run_dispatch_ok [OF d, of "bytes_of data len"]
      byte_run_rx_ok [OF rx, of "bytes_of data len"] d rx
    by (auto simp: protocol_receive_unlocked_def split: if_splits)
  ultimately show ?thesis by (simp add: adb_ok_def dispatch_ok_def)
qed

lemma finish_packet_moved: "dispatch_ok E svc_ok st \<Longrightarrow> moved E st (snd (finish_packet E st))"
proof -
  assume ok: "dispatch_ok E svc_ok st"
  obtain r st1 where "dispatch_message E st = (r, st1)" by fastforce
  then show ?thesis using dispatch_message_ok [OF ok] by (simp add: finish_packet_def reset_rx_def)
qed

lemma finish_header_moved: "dispatch_ok E svc_ok st \<Longrightarrow> moved E st (snd (finish_header E st))"
proof -
  assume ok: "dispatch_ok E svc_ok st"
  obtain r st1 where d: "decode_header E st = (r, st1)" by fastforce
  then have "dispatch_ok E svc_ok st1" "moved E st st1"
    using ok decode_header_dispatch_ok [OF d] decode_header_moved [OF d] by simp_all
  then show ?thesis using finish_packet_moved [of st1] moved_trans by (auto simp: finish_header_def d reset_rx_def)
qed

lemma byte_step_moved: "dispatch_ok E svc_ok st \<Longrightarrow> moved E st (snd (byte_step E b st))"
  using finish_header_moved [of "put_header [b] st"] finish_packet_moved [of "put_payload [b] st"]
  by (auto simp: byte_step_def Let_def put_header_def put_payload_def moved_def link_run.stay)

lemma byte_run_moved: "dispatch_ok E svc_ok st \<Longrightarrow> moved E st (snd (byte_run E data st))"
proof (induction data arbitrary: st)
  case (Cons b data)
  obtain r st1 where "byte_step E b st = (r, st1)" by fastforce
  then show ?case using byte_step_dispatch_ok [OF Cons.prems, of b] byte_step_moved [OF Cons.prems, of b] Cons.IH [of st1]
      moved_trans by fastforce
qed simp

lemma receive_moved:
  assumes ok: "adb_ok E svc_ok st" and receive: "webos_adb_protocol_receive E data len st = Some (ret, st')"
  shows "moved E st st'"
proof -
  have rx: "rx_ok (conf E) (rx (st\<lparr>dispatching := True\<rparr>))" using ok by (simp add: adb_ok_def)
  have d: "dispatch_ok E svc_ok (st\<lparr>dispatching := True\<rparr>)" using ok by (simp add: adb_ok_def dispatch_ok_def)
  obtain r st1 where "protocol_receive_unlocked E data len (st\<lparr>dispatching := True\<rparr>) = Some (r, st1)"
    "st' = st1\<lparr>dispatching := False\<rparr>" using receive by (auto simp: webos_adb_protocol_receive_def)
  then show ?thesis
    using receive_loop_run [OF rx] byte_run_moved [OF d, of "bytes_of data len"]
    by (auto simp: protocol_receive_unlocked_def moved_def link_run.stay split: if_splits)
qed

lemma reset_moved: "core_ok E st \<Longrightarrow> moved E st (webos_adb_protocol_reset E st)"
proof -
  assume ok: "core_ok E st"
  have core: "core_ok E (reset_rx st)" using ok by (simp add: reset_rx_def)
  obtain s where close: "close_all_streams E (reset_rx st) = (reset_rx st)
      \<lparr>svc := s, streams := replicate (WEBOS_ADB_MAX_STREAMS (conf E)) (stream_zero (conf E))\<rparr>"
    using close_all_streams_eq [OF core] by blast
  show ?thesis unfolding webos_adb_protocol_reset_def protocol_reset_unlocked_def close
    by (simp add: reset_rx_def moved_def link_run.stay)
qed

lemma keeps_flush_ready: "set js \<subseteq> {0..<length (streams st)} \<Longrightarrow> keeps E svc_ok st (flush_ready_streams E js st)"
proof (induction js arbitrary: st)
  case (Cons j js)
  obtain r st1 where flush: "flush_stream E j st = (r, st1)" by fastforce
  have k1: "keeps E svc_ok st st1" using Cons.prems by (intro keeps_flush_stream [OF _ flush]) simp
  have "keeps E svc_ok st1 (flush_ready_streams E js st1)"
    using Cons.IH [of st1] Cons.prems keeps_length [OF k1] by simp
  then have "keeps E svc_ok st (flush_ready_streams E js st1)" by (rule keeps_trans [OF k1])
  then show ?case using k1 flush Cons.IH [of st] Cons.prems by simp
qed simp

lemma keeps_tx_ready: "keeps E svc_ok st (webos_adb_protocol_tx_ready E st)"
proof -
  obtain r st1 where pump: "(if online st then pump_controls st else (0, st)) = (r, st1)" by fastforce
  have k1: "keeps E svc_ok st st1"
    using pump keeps_pump by (cases "online st") auto
  then have "keeps E svc_ok st (flush_ready_streams E [0..<length (streams st1)] st1)"
    using keeps_trans keeps_flush_ready [of "[0..<length (streams st1)]" st1] by fastforce
  then show ?thesis using k1 pump by (simp add: webos_adb_protocol_tx_ready_def)
qed

lemma reset_ok:
  assumes "core_ok E st" "svc_ok (svc st)"
  shows "adb_ok E svc_ok (webos_adb_protocol_reset E st)"
proof -
  have core: "core_ok E (reset_rx st)" using assms by (simp add: reset_rx_def)
  obtain s where close: "close_all_streams E (reset_rx st) = (reset_rx st)
      \<lparr>svc := s, streams := replicate (WEBOS_ADB_MAX_STREAMS (conf E)) (stream_zero (conf E))\<rparr>"
    using close_all_streams_eq [OF core] by blast
  have "svc_ok (svc (close_all_streams E (reset_rx st)))"
    using close_all_streams_svc [OF core] assms(2) by (simp add: reset_rx_def)
  then have "svc_ok s" unfolding close by simp
  moreover have "core_ok E (webos_adb_protocol_reset E st)"
    unfolding webos_adb_protocol_reset_def protocol_reset_unlocked_def Let_def close
    by (rule core_ok_fresh [OF assms(1)]) (simp_all add: reset_rx_def)
  ultimately show ?thesis
    unfolding adb_ok_def webos_adb_protocol_reset_def protocol_reset_unlocked_def Let_def close
    by (simp add: reset_rx_def)
qed

lemma keeps_adb_ok: "keeps E svc_ok st st' \<Longrightarrow> adb_ok E svc_ok st \<Longrightarrow> adb_ok E svc_ok st'"
  by (simp add: keeps_def adb_ok_def)

lemma init_ok:
  assumes "0 < WEBOS_ADB_CONTROL_QUEUE_DEPTH (conf E)" "svc_ok s"
  shows "adb_ok E svc_ok (webos_adb_protocol_init E send (adb_boot (conf E) s l))"
proof -
  have "core_ok E ((adb_boot (conf E) s l)\<lparr>transport_send := Some send\<rparr>)"
    using core_ok_boot [OF assms(1), of s l] by (simp add: core_ok_def control_ok_def webos_adb_stream_max_payload_def)
  then show ?thesis unfolding webos_adb_protocol_init_def by (rule reset_ok) (simp add: adb_boot_def assms(2))
qed

end

section \<open>The services of the firmware\<close>

text \<open>
  The callback tables of the three services over one state, the static variables of adb_sync.c,
  adb_shell.c, adb_logcat.c and the log buffer.  The callbacks call the stream operations, which may
  release a stream and so call the close callback: \<open>service_base\<close> is the part they need.
\<close>

definition services_close ::
    "'f zephyr_fs \<Rightarrow> 'b zephyr_shell \<Rightarrow> kconfig \<Rightarrow> service \<Rightarrow> nat \<Rightarrow> ('f, 'b, 'x) logcat_service_scheme \<Rightarrow>
     ('f, 'b, 'x) logcat_service_scheme" where
  "services_close F Z c v i s =
     (case v of
        Shell_service \<Rightarrow> adb_shell_close Z c i s
      | Logcat_service \<Rightarrow> adb_logcat_close i s
      | Sync_service \<Rightarrow> sync_close F c i s)"

definition service_base ::
    "'f zephyr_fs \<Rightarrow> 'b zephyr_shell \<Rightarrow> kconfig \<Rightarrow> (nat \<Rightarrow> nat \<Rightarrow> bool) \<Rightarrow> ('t \<Rightarrow> int) \<Rightarrow> ('t \<Rightarrow> 't) \<Rightarrow>
     (('f, 'b, 'x) logcat_service_scheme, 't) adb_env" where
  "service_base F Z c malloc reschedule reset_tx =
     \<lparr>conf = c, k_malloc_ok = malloc, k_work_reschedule = reschedule, webos_adb_usb_reset_tx = reset_tx,
      service_close = services_close F Z c\<rparr>"

definition webos_services ::
    "'f zephyr_fs \<Rightarrow> 'b zephyr_shell \<Rightarrow> kconfig \<Rightarrow> (nat \<Rightarrow> nat \<Rightarrow> bool) \<Rightarrow> ('t \<Rightarrow> int) \<Rightarrow> ('t \<Rightarrow> 't) \<Rightarrow>
     (('f, 'b, 'x) logcat_service_scheme, 't) adb_services" where
  "webos_services F Z c malloc reschedule reset_tx =
     (let B = service_base F Z c malloc reschedule reset_tx in
      \<lparr>conf = c, k_malloc_ok = malloc, k_work_reschedule = reschedule, webos_adb_usb_reset_tx = reset_tx,
       service_close = services_close F Z c,
       service_open = (\<lambda>v i suffix_bytes st.
         case v of
           Shell_service \<Rightarrow> adb_shell_open Z B i suffix_bytes st
         | Logcat_service \<Rightarrow> adb_logcat_open B i suffix_bytes st
         | Sync_service \<Rightarrow> sync_open B i suffix_bytes st),
       service_write = (\<lambda>v i data len st.
         case v of
           Shell_service \<Rightarrow> adb_shell_write Z B i data len st
         | Logcat_service \<Rightarrow> adb_logcat_write i data len st
         | Sync_service \<Rightarrow> sync_write F B i data len st),
       service_tx_ready = (\<lambda>v i st.
         case v of
           Shell_service \<Rightarrow> adb_shell_tx_ready Z B i st
         | Logcat_service \<Rightarrow> adb_logcat_tx_ready B i st
         | Sync_service \<Rightarrow> sync_tx_ready i st)\<rparr>)"

definition services_ok :: "kconfig \<Rightarrow> ('f, 'b, 'x) logcat_service_scheme \<Rightarrow> bool" where
  "services_ok c s \<longleftrightarrow> kconfig_ok c \<and> sync_ok c s \<and> shell_ok c s \<and> logcat_ok c s"

lemma webos_services_simps [simp]:
  "conf (webos_services F Z c malloc reschedule reset_tx) = c"
  "service_close (webos_services F Z c malloc reschedule reset_tx) = services_close F Z c"
  "conf (service_base F Z c malloc reschedule reset_tx) = c"
  by (simp_all add: webos_services_def service_base_def Let_def)

lemma webos_services_callbacks:
  assumes "E = webos_services F Z c malloc reschedule reset_tx" "B = service_base F Z c malloc reschedule reset_tx"
  shows "service_open E v i suffix_bytes st = (case v of Shell_service \<Rightarrow> adb_shell_open Z B i suffix_bytes st
         | Logcat_service \<Rightarrow> adb_logcat_open B i suffix_bytes st | Sync_service \<Rightarrow> sync_open B i suffix_bytes st)"
    "service_write E v i data len st = (case v of Shell_service \<Rightarrow> adb_shell_write Z B i data len st
         | Logcat_service \<Rightarrow> adb_logcat_write i data len st | Sync_service \<Rightarrow> sync_write F B i data len st)"
    "service_tx_ready E v i st = (case v of Shell_service \<Rightarrow> adb_shell_tx_ready Z B i st
         | Logcat_service \<Rightarrow> adb_logcat_tx_ready B i st | Sync_service \<Rightarrow> sync_tx_ready i st)"
  unfolding assms by (simp_all add: webos_services_def Let_def)

text \<open>Each invariant reads its own variables only.\<close>

lemma services_ok_frame:
  "services_ok c s \<Longrightarrow> sync_ok c s' \<Longrightarrow> sync_service.more s' = sync_service.more s \<Longrightarrow> services_ok c s'"
  "services_ok c s \<Longrightarrow> shell_ok c s' \<Longrightarrow> contexts s' = contexts s \<Longrightarrow> shell_service.more s' = shell_service.more s \<Longrightarrow>
    services_ok c s'"
  "services_ok c s \<Longrightarrow> logcat_ok c s' \<Longrightarrow> contexts s' = contexts s \<Longrightarrow> shell_contexts s' = shell_contexts s \<Longrightarrow>
    services_ok c s'"
  by (cases s; cases s'; simp add: services_ok_def sync_ok_def shell_ok_def logcat_ok_def)+

lemma services_sizes:
  assumes "services_ok c s"
  shows "0 < WEBOS_ADB_SHELL_COMMAND_SIZE c" "0 < WEBOS_ADB_SHELL_OUTPUT_SIZE c" "0 < WEBOS_ADB_LOGCAT_BUFFER_SIZE c"
    "0 < WEBOS_ADB_CONTROL_QUEUE_DEPTH c"
  using assms by (auto simp: services_ok_def kconfig_ok_def)

lemma services_okD: "services_ok c s \<Longrightarrow> sync_ok c s" "services_ok c s \<Longrightarrow> shell_ok c s" "services_ok c s \<Longrightarrow> logcat_ok c s"
  by (simp_all add: services_ok_def)

lemma services_close_ok:
  assumes ok: "services_ok c s"
  shows "services_ok c (services_close F Z c v i s)"
  using shell_close_ok [OF services_okD(2) [OF ok] services_sizes(1) [OF ok], of Z i] services_ok_frame [OF ok]
    logcat_close_ok [OF services_okD(3) [OF ok], of i] sync_close_good [OF services_okD(1) [OF ok], of F i]
  by (cases v) (auto simp: services_close_def)

lemma service_frame_conf: "conf E = conf B \<Longrightarrow> service_frame E i st st' = service_frame B i st st'"
  by (simp add: service_frame_def webos_adb_stream_max_payload_def Let_def)

lemma dispatch_live:
  "dispatch_ok E P st \<Longrightarrow> i < length (streams st) \<Longrightarrow> conf E = conf B \<Longrightarrow> live B i st"
  by (simp add: dispatch_ok_def live_def core_ok_def stream_ok_def list_all_length)

text \<open>The result of a callback, for the whole record.\<close>

lemma callback_results:
  assumes ok: "services_ok (conf B) (svc st)"
  shows "service_frame B i st st' \<and> sync_ok (conf B) (svc st') \<and> sync_service.more (svc st') = sync_service.more (svc st) \<Longrightarrow>
      service_frame B i st st' \<and> services_ok (conf B) (svc st')"
    "shell_result B i st st' \<Longrightarrow> service_frame B i st st' \<and> services_ok (conf B) (svc st')"
    "logcat_result B i st st' \<Longrightarrow> service_frame B i st st' \<and> services_ok (conf B) (svc st')"
  using services_ok_frame [OF ok, of "svc st'"] by (auto simp: shell_result_def logcat_result_def)

lemma services_open_ok:
  assumes live: "live B i st" and ok: "services_ok (conf B) (svc st)"
    and "open": "(case v of Shell_service \<Rightarrow> adb_shell_open Z B i suffix_bytes st
         | Logcat_service \<Rightarrow> adb_logcat_open B i suffix_bytes st
         | Sync_service \<Rightarrow> sync_open B i suffix_bytes st) = (ret, st')"
  shows "service_frame B i st st' \<and> services_ok (conf B) (svc st')"
  using "open" callback_results [OF ok, of i st'] sync_open_good [OF services_okD(1) [OF ok]]
    shell_open_result [OF live services_okD(2) [OF ok] services_sizes(1,2) [OF ok]]
    logcat_open_result [OF live services_okD(3) [OF ok] services_sizes(3) [OF ok]]
  by (cases v) auto

lemma services_write_ok:
  assumes live: "live B i st" and ok: "services_ok (conf B) (svc st)"
    and "write": "(case v of Shell_service \<Rightarrow> adb_shell_write Z B i data len st
         | Logcat_service \<Rightarrow> adb_logcat_write i data len st
         | Sync_service \<Rightarrow> sync_write F B i data len st) = (ret, st')"
  shows "service_frame B i st st' \<and> services_ok (conf B) (svc st')"
  using "write" ok callback_results [OF ok, of i st'] sync_write_good [OF live services_okD(1) [OF ok]]
    shell_write_result [OF live services_okD(2) [OF ok]]
  by (cases v) (auto simp: adb_logcat_write_def)

lemma services_tx_ready_ok:
  assumes live: "live B i st" and ok: "services_ok (conf B) (svc st)"
    and st': "st' = (case v of Shell_service \<Rightarrow> adb_shell_tx_ready Z B i st
         | Logcat_service \<Rightarrow> adb_logcat_tx_ready B i st | Sync_service \<Rightarrow> sync_tx_ready i st)"
  shows "service_frame B i st st' \<and> services_ok (conf B) (svc st')"
  using st' ok callback_results [OF ok, of i st'] shell_tx_ready_result [OF live services_okD(2) [OF ok]]
    logcat_tx_ready_result [OF live services_okD(3) [OF ok]]
  by (cases v) (auto simp: sync_tx_ready_def)

interpretation webos: routed_services "webos_services F Z c malloc reschedule reset_tx" "services_ok c"
  for F :: "'f zephyr_fs" and Z :: "'b zephyr_shell" and c malloc reschedule and reset_tx :: "'t \<Rightarrow> 't"
proof
  let ?E = "webos_services F Z c malloc reschedule reset_tx" and ?B = "service_base F Z c malloc reschedule reset_tx"
  fix st st' :: "('f, 'b, 'x, 't) logcat_adb" and i v ret
  assume "dispatch_ok ?E (services_ok c) st" and i: "i < length (streams st)"
  then have ok: "live ?B i st" "services_ok (conf ?B) (svc st)"
    using dispatch_live [of ?E "services_ok c" st i ?B] by (simp_all add: dispatch_ok_def)
  have frame: "service_frame ?E i st s = service_frame ?B i st s" for s by (rule service_frame_conf) simp
  note callbacks = webos_services_callbacks [OF refl refl, of F Z c malloc reschedule reset_tx]
  show "service_frame ?E i st st' \<and> services_ok c (svc st')" if "service_open ?E v i suffix_bytes st = (ret, st')" for suffix_bytes
    using services_open_ok [OF ok that [unfolded callbacks]] by (simp add: frame)
  show "service_frame ?E i st st' \<and> services_ok c (svc st')" if "service_write ?E v i data len st = (ret, st')" for data len
    using services_write_ok [OF ok that [unfolded callbacks]] by (simp add: frame)
  show "service_frame ?E i st (service_tx_ready ?E v i st) \<and> services_ok c (svc (service_tx_ready ?E v i st))"
    using services_tx_ready_ok [OF ok callbacks(3)] by (simp add: frame)
qed (simp add: services_close_ok)

section \<open>The device\<close>

lemma core_ok_conf: "conf E = conf B \<Longrightarrow> core_ok E st = core_ok B st"
  by (simp add: core_ok_def webos_adb_stream_max_payload_def Let_def)

interpretation base: closing_services "service_base F Z c malloc reschedule reset_tx" "services_ok c"
  for F :: "'f zephyr_fs" and Z :: "'b zephyr_shell" and c malloc reschedule and reset_tx :: "'t \<Rightarrow> 't"
  by unfold_locales (simp add: service_base_def services_close_ok)

lemma keeps_on_svc: "(P (svc st) \<Longrightarrow> P (f (svc st))) \<Longrightarrow> keeps E P st (on_svc f st)"
  by (simp add: keeps_def on_svc_def)

lemma services_ok_logcat:
  "services_ok c s \<Longrightarrow> logcat_ctx_ok c (f (logcat s)) \<Longrightarrow> services_ok c (update_logcat f s)"
  by (rule services_ok_frame(3)) (simp_all add: update_logcat_def services_ok_def logcat_ok_def)

text \<open>The work item of the log stream runs outside a dispatch, on a stream that may have been closed.\<close>

lemma keeps_queue_next:
  assumes ok: "services_ok c (svc st)" and queue: "queue_next (service_base F Z c malloc reschedule reset_tx) st = (ret, st')"
    and len: "length (streams st) = WEBOS_ADB_MAX_STREAMS c"
  shows "keeps (service_base F Z c malloc reschedule reset_tx) (services_ok c) st st'"
proof (cases "g_active (logcat (svc st))")
  case False
  then show ?thesis using queue by (simp add: queue_next_def Let_def)
next
  case active: True
  let ?B = "service_base F Z c malloc reschedule reset_tx"
  define x where "x = logcat (svc st)"
  have x: "logcat_ctx_ok c x" using ok by (simp add: services_ok_def logcat_ok_def x_def)
  then obtain i where i: "g_stream x = Some i" "i < length (streams st)"
    using active len by (auto simp: logcat_ctx_ok_def x_def)
  define n where "n = min (g_ring_len x) (webos_adb_stream_max_payload ?B st)"
  define st1 where "st1 = on_svc (update_logcat (take_chunk n)) st"
  have "n \<le> WEBOS_ADB_TX_PAYLOAD_SIZE c" by (auto simp: n_def webos_adb_stream_max_payload_def Let_def)
  then have "logcat_ctx_ok c (take_chunk n x)" using x active by (intro take_chunk_ok) (simp_all add: n_def x_def)
  then have k1: "keeps ?B (services_ok c) st st1"
    unfolding st1_def using services_ok_logcat [of c "svc st" "take_chunk n"] by (intro keeps_on_svc) (simp add: x_def)
  obtain r2 st2 where w: "webos_adb_stream_write_generation ?B (Some i) (g_stream_generation x)
      (Some (g_tx_chunk (logcat (svc st1)))) n st1 = (r2, st2)" by fastforce
  have k2: "keeps ?B (services_ok c) st1 st2"
    using w i(2) keeps_length [OF k1] unfolding webos_adb_stream_write_generation_def by (intro base.keeps_stream_write) simp_all
  define st3 where "st3 = on_svc (update_logcat (\<lambda>x. x\<lparr>g_sending := False\<rparr>)) st2"
  have k3: "keeps ?B (services_ok c) st2 st3" unfolding st3_def
    by (intro keeps_on_svc services_ok_logcat) (simp_all add: services_ok_def logcat_ok_def)
  have close: "keeps ?B (services_ok c) s (webos_adb_stream_close_generation ?B (Some i) g s)"
    if "keeps ?B (services_ok c) st s" for s g
    unfolding webos_adb_stream_close_generation_def
    using i(2) keeps_length [OF that] by (intro base.keeps_stream_close) simp
  note k4 = keeps_trans [OF k1 keeps_trans [OF k2 k3]]
  have "st' = (if g_sending x then st else if g_ring_len x = 0
        then if g_drain x then webos_adb_stream_close_generation ?B (Some i) (g_stream_generation x) st else st
      else if n = 0 then st1
      else if r2 \<noteq> 0 \<and> g_active (logcat (svc st2)) \<and> g_stream_generation (logcat (svc st2)) = g_stream_generation x
      then webos_adb_stream_close_generation ?B (Some i) (g_stream_generation x) st3 else st2)"
    by (rule queue_next_active [OF active x_def i(1) n_def st1_def w st3_def queue])
  then show ?thesis
    using close [OF keeps_refl] k1 keeps_trans [OF k1 k2] keeps_trans [OF k4 close [OF k4]] by simp
qed

lemma work_handler_ok:
  assumes ok: "adb_ok (webos_services F Z c malloc reschedule reset_tx) (services_ok c) st"
  shows "adb_ok (webos_services F Z c malloc reschedule reset_tx) (services_ok c)
    (logcat_work_handler (service_base F Z c malloc reschedule reset_tx) st)"
proof -
  let ?B = "service_base F Z c malloc reschedule reset_tx"
  define st1 where "st1 = on_svc (\<lambda>s. s\<lparr>logcat_work := False\<rparr>) st"
  obtain r st2 where queue: "queue_next ?B st1 = (r, st2)" by fastforce
  have core: "core_ok (webos_services F Z c malloc reschedule reset_tx) s = core_ok ?B s" for s by (rule core_ok_conf) simp
  have "services_ok c (svc st)" "core_ok ?B st" "rx_ok c (rx st)" "\<not> dispatching st"
    using ok by (simp_all add: adb_ok_def core)
  moreover have "services_ok c (svc st1)"
    using calculation(1) by (simp add: st1_def services_ok_def sync_ok_def shell_ok_def logcat_ok_def)
  moreover have "core_ok ?B st1" "rx st1 = rx st" "dispatching st1 = dispatching st"
    using calculation(2) by (simp_all add: st1_def on_svc_def)
  moreover have "keeps ?B (services_ok c) st1 st2"
    using calculation by (intro keeps_queue_next [OF _ queue]) (simp_all add: core_ok_def)
  ultimately show ?thesis
    by (simp add: logcat_work_handler_def st1_def [symmetric] queue adb_ok_def core keeps_def)
qed

lemma log_message_ok: "services_ok c s \<Longrightarrow> services_ok c (log_message data s)"
proof -
  assume ok: "services_ok c s"
  obtain b call where put: "log_buffer_put (Some data) (length data) (log_buffer s) = (b, call)" by fastforce
  have "log_inv b"
    using push_props(1) [of "log_buffer s" data] put ok by (simp add: log_push_def services_ok_def logcat_ok_def)
  then have ok1: "services_ok c (s\<lparr>log_buffer := b\<rparr>)"
    using ok by (simp add: services_ok_def sync_ok_def shell_ok_def logcat_ok_def)
  have push: "logcat_ctx_ok c (ring_push m x)" if "logcat_ctx_ok c x" "g_active x" for m x
  proof -
    have "logcat_ring_ok x" using that by (simp add: logcat_ctx_ok_def)
    then have push: "logcat_ring_ok (ring_push m x)" by (rule ring_push_props(1))
    obtain r where "g_ring (ring_push m x) = Some r" by (rule logcat_ring_okE [OF push])
    then show ?thesis using that push by (simp add: logcat_ctx_ok_def)
  qed
  have "services_ok c (live_log_listener m (s\<lparr>log_buffer := b\<rparr>))" for m
  proof -
    have "services_ok c (update_logcat (ring_push m) (s\<lparr>log_buffer := b\<rparr>))" if "g_active (logcat s)"
      using ok1 that push by (intro services_ok_logcat) (simp_all add: services_ok_def logcat_ok_def)
    then show ?thesis using ok1
      by (simp add: live_log_listener_def Let_def services_ok_def sync_ok_def shell_ok_def logcat_ok_def)
  qed
  then show ?thesis using ok1 put
    by (auto simp: log_message_def Let_def split: option.splits prod.splits log_listener_fn.splits)
qed

text \<open>
  The static variables at boot, with the file system and the shell backend in given states, and the
  events of the device: a USB transfer arrives, the transport drains or the link is reset, the work
  item of the log stream runs, a message is logged; and the transport, the file system, the shell
  backend and the heap change on their own.
\<close>

definition services_boot :: "kconfig \<Rightarrow> 'f \<Rightarrow> 'b \<Rightarrow> nat \<Rightarrow> ('f, 'b) logcat_service" where
  "services_boot c f b log_size =
     \<lparr>contexts = replicate (WEBOS_ADB_MAX_STREAMS c) (sync_context_zero c), side_nonce = 0, storage = f,
      shell_contexts = replicate (WEBOS_ADB_SHELL_MAX_STREAMS c) (shell_context_zero c), shell_backend = b,
      logcat = logcat_zero c, log_buffer = log_state_init log_size, logcat_work = False\<rparr>"

inductive webos_step ::
    "'f zephyr_fs \<Rightarrow> 'b zephyr_shell \<Rightarrow> kconfig \<Rightarrow> (nat \<Rightarrow> nat \<Rightarrow> bool) \<Rightarrow> ('t \<Rightarrow> int) \<Rightarrow> ('t \<Rightarrow> 't) \<Rightarrow>
     ('f, 'b, 'x, 't) logcat_adb \<Rightarrow> ('f, 'b, 'x, 't) logcat_adb \<Rightarrow> bool"
  for F Z c malloc reschedule reset_tx where
  receive: "webos_adb_protocol_receive (webos_services F Z c malloc reschedule reset_tx) data len st = Some (ret, st') \<Longrightarrow>
    webos_step F Z c malloc reschedule reset_tx st st'"
| tx_ready: "webos_step F Z c malloc reschedule reset_tx st
    (webos_adb_protocol_tx_ready (webos_services F Z c malloc reschedule reset_tx) st)"
| reset: "webos_step F Z c malloc reschedule reset_tx st
    (webos_adb_protocol_reset (webos_services F Z c malloc reschedule reset_tx) st)"
| work: "webos_step F Z c malloc reschedule reset_tx st
    (logcat_work_handler (service_base F Z c malloc reschedule reset_tx) st)"
| log: "webos_step F Z c malloc reschedule reset_tx st (on_svc (log_message data) st)"
| outside: "webos_step F Z c malloc reschedule reset_tx st
    (on_svc (\<lambda>s. s\<lparr>storage := f, shell_backend := b\<rparr>) (st\<lparr>link := l, heap_allocs := n\<rparr>))"

inductive webos_reachable ::
    "'f zephyr_fs \<Rightarrow> 'b zephyr_shell \<Rightarrow> kconfig \<Rightarrow> (nat \<Rightarrow> nat \<Rightarrow> bool) \<Rightarrow> ('t \<Rightarrow> int) \<Rightarrow> ('t \<Rightarrow> 't) \<Rightarrow>
     ('f, 'b, unit, 't) logcat_adb \<Rightarrow> bool"
  for F Z c malloc reschedule reset_tx where
  boot: "0 < log_size \<Longrightarrow> webos_reachable F Z c malloc reschedule reset_tx
    (webos_adb_protocol_init (webos_services F Z c malloc reschedule reset_tx) send
      (adb_boot c (services_boot c f b log_size) l))"
| step: "webos_reachable F Z c malloc reschedule reset_tx st \<Longrightarrow> webos_step F Z c malloc reschedule reset_tx st st' \<Longrightarrow>
    webos_reachable F Z c malloc reschedule reset_tx st'"

inductive_cases webos_stepE: "webos_step F Z c malloc reschedule reset_tx st st'"

lemma services_boot_ok: "kconfig_ok c \<Longrightarrow> 0 < n \<Longrightarrow> services_ok c (services_boot c f b n)"
  using init_inv [of n]
  by (simp add: services_ok_def services_boot_def kconfig_ok_def sync_ok_def shell_ok_def logcat_ok_def list_all_length
      ctx_ok_zero shell_context_zero_ok logcat_ctx_ok_def logcat_zero_def)

lemma webos_step_ok:
  assumes "webos_step F Z c malloc reschedule reset_tx st st'"
    and ok: "adb_ok (webos_services F Z c malloc reschedule reset_tx) (services_ok c) st"
  shows "adb_ok (webos_services F Z c malloc reschedule reset_tx) (services_ok c) st'"
  using assms(1)
proof cases
  case receive
  then show ?thesis by (rule webos.receive_ok [OF ok])
next
  case tx_ready
  then show ?thesis using webos.keeps_adb_ok [OF webos.keeps_tx_ready ok] by simp
next
  case reset
  have "core_ok (webos_services F Z c malloc reschedule reset_tx) st" "services_ok c (svc st)"
    using ok by (simp_all add: adb_ok_def)
  from webos.reset_ok [OF this] show ?thesis using reset by simp
next
  case work
  then show ?thesis using work_handler_ok [OF ok] by simp
next
  case log
  then show ?thesis using ok by (simp add: adb_ok_def on_svc_def log_message_ok)
next
  case outside
  then show ?thesis using ok
    by (simp add: adb_ok_def on_svc_def services_ok_def sync_ok_def shell_ok_def logcat_ok_def)
qed

lemma reachable_ok:
  assumes "kconfig_ok c" and "webos_reachable F Z c malloc reschedule reset_tx st"
  shows "adb_ok (webos_services F Z c malloc reschedule reset_tx) (services_ok c) st"
  using assms(2)
proof induction
  case (boot n send f b l)
  have "services_ok c (services_boot c f b n)" using assms(1) boot by (rule services_boot_ok)
  from webos.init_ok [OF _ this] services_sizes(4) [OF this] show ?case by simp
next
  case (step st st')
  then show ?case by (blast intro: webos_step_ok)
qed


text \<open>
  C11: In every state the device can reach, whatever bytes the host sends, however they are cut into
  transfers, and whatever the transport, the file system, the shell and the heap do, the router and
  its services are in order: the control queue, the stream table, the parser's buffers, the contexts
  of the three services and the log rings are well formed, every index lies inside its array, free
  slots are zero, and no dispatch is left half done.
\<close>

theorem reachable_states_ok:
  assumes "kconfig_ok c" and "webos_reachable F Z c malloc reschedule reset_tx st"
  shows "adb_ok (webos_services F Z c malloc reschedule reset_tx) (services_ok c) st"
  using assms by (rule reachable_ok)

text \<open>A shell backend for the witnesses: each command prints its own name.\<close>

definition echo_shell :: "byte list zephyr_shell" where
  "echo_shell =
     \<lparr>SHELL_PROMPT_DUMMY = ''$ '', shell_lock = (\<lambda>b. (0, b)), shell_unlock = (\<lambda>b. b),
      shell_backend_dummy_clear_output = (\<lambda>_. []), shell_backend_dummy_get_output = (\<lambda>b. (b, [])),
      shell_backend_dummy_push_input = (\<lambda>d b. (0, b @ d)), shell_execute_cmd = (\<lambda>cmd b. (0, b @ cmd)),
      shell_sleep = (\<lambda>b. b)\<rparr>"

lemma default_kconfig_ok [simp]: "kconfig_ok default_kconfig"
  by (simp add: kconfig_ok_def default_kconfig_def)

theorem reachable_states_ok_witness:
  "let E = webos_services memfs echo_shell default_kconfig (\<lambda>_ _. True) (\<lambda>_. 0) (\<lambda>l. l);
       st0 = webos_adb_protocol_init E (\<lambda>_ _ l. (0, l)) (adb_boot default_kconfig (services_boot default_kconfig (Map.empty, Map.empty, 0) [] 64) ());
       st = on_svc (log_message ''hello'') st0
   in kconfig_ok default_kconfig \<and> webos_reachable memfs echo_shell default_kconfig (\<lambda>_ _. True) (\<lambda>_. 0) (\<lambda>l. l) st \<and>
      adb_ok E (services_ok default_kconfig) st"
proof -
  have "webos_reachable memfs echo_shell default_kconfig (\<lambda>_ _. True) (\<lambda>_. 0) (\<lambda>l. l)
      (on_svc (log_message ''hello'') (webos_adb_protocol_init
        (webos_services memfs echo_shell default_kconfig (\<lambda>_ _. True) (\<lambda>_. 0) (\<lambda>l. l)) (\<lambda>_ _ l. (0, l))
        (adb_boot default_kconfig (services_boot default_kconfig (Map.empty, Map.empty, 0) [] 64) ())))"
    by (rule webos_reachable.step [OF webos_reachable.boot webos_step.log]) simp
  then show ?thesis using reachable_states_ok [OF default_kconfig_ok] unfolding Let_def by simp
qed

lemma receive_total:
  assumes "rx_ok (conf E) (rx st)"
  shows "\<exists>ret st'. webos_adb_protocol_receive E data len st = Some (ret, st')"
proof -
  have "rx_ok (conf E) (rx (st\<lparr>dispatching := True\<rparr>))" using assms by simp
  from receive_loop_run [OF this, of "bytes_of data len"] show ?thesis
    by (cases "byte_run E (bytes_of data len) (st\<lparr>dispatching := True\<rparr>)")
      (simp add: webos_adb_protocol_receive_def protocol_receive_unlocked_def)
qed

text \<open>
  C12: The device answers every transfer: from every reachable state the call for one more USB
  transfer, of any bytes, returns, with an error code or not; and afterwards it is ready for the
  next one, in order and with no dispatch pending.
\<close>

theorem receive_returns:
  assumes "kconfig_ok c" and "webos_reachable F Z c malloc reschedule reset_tx st"
  shows "\<exists>ret st'. webos_adb_protocol_receive (webos_services F Z c malloc reschedule reset_tx) data len st = Some (ret, st') \<and>
    webos_reachable F Z c malloc reschedule reset_tx st' \<and>
    adb_ok (webos_services F Z c malloc reschedule reset_tx) (services_ok c) st'"
proof -
  have ok: "adb_ok (webos_services F Z c malloc reschedule reset_tx) (services_ok c) st"
    using assms by (rule reachable_ok)
  then obtain ret st' where r: "webos_adb_protocol_receive (webos_services F Z c malloc reschedule reset_tx) data len st = Some (ret, st')"
    using receive_total [of "webos_services F Z c malloc reschedule reset_tx" st data len] by (auto simp: adb_ok_def)
  then show ?thesis
    using webos_reachable.step [OF assms(2) webos_step.receive] webos.receive_ok [OF ok] by blast
qed

theorem receive_returns_witness:
  "\<exists>ret st'. webos_adb_protocol_receive (webos_services memfs echo_shell default_kconfig (\<lambda>_ _. True) (\<lambda>_. 0) (\<lambda>l. l))
      (Some ''any bytes'') 9
      (webos_adb_protocol_init (webos_services memfs echo_shell default_kconfig (\<lambda>_ _. True) (\<lambda>_. 0) (\<lambda>l. l))
        (\<lambda>_ _ l. (0, l)) (adb_boot default_kconfig (services_boot default_kconfig (Map.empty, Map.empty, 0) [] 64) ()))
    = Some (ret, st')"
  using receive_returns [OF default_kconfig_ok webos_reachable.boot [of 64]] by fastforce

section \<open>A second log stream\<close>

lemma allocate_stream_fields:
  assumes alloc: "allocate_stream E rid v st = (Some j, st')" and "i < length (streams st)" "used (streams st ! i)"
  shows "j < length (streams st)" "j \<noteq> i" "svc st' = svc st" "streams st' ! i = streams st ! i"
    "length (streams st') = length (streams st)" "used (streams st' ! j)" "ops (streams st' ! j) = Some v"
proof -
  obtain k where f: "find (\<lambda>i. \<not> used (streams st ! i)) [0..<length (streams st)] = Some k" "k = j"
    using alloc by (auto simp: allocate_stream_def Let_def split: option.splits prod.splits)
  have j: "j < length (streams st)" "\<not> used (streams st ! j)" using find_index_Some [OF f(1)] f(2) by simp_all
  show "j < length (streams st)" by (rule j(1))
  show ne: "j \<noteq> i" using j(2) assms(3) by blast
  show "svc st' = svc st" "streams st' ! i = streams st ! i" "length (streams st') = length (streams st)"
    "used (streams st' ! j)" "ops (streams st' ! j) = Some v"
    using alloc f j ne by (auto simp: allocate_stream_def Let_def allocate_local_id_def update_stream_def)
qed


definition running_logcat :: "(memfs, byte list, unit, unit) logcat_adb" where
  "running_logcat =
     (adb_boot default_kconfig
       ((services_boot default_kconfig (Map.empty, Map.empty, 0) [] 8)\<lparr>
          logcat := (logcat_zero default_kconfig)\<lparr>g_active := True, g_stream := Some 0\<rparr>,
          log_buffer := (log_state_init 8)\<lparr>log_listener := Some Live_log_listener, log_listener_context := Some ()\<rparr>\<rparr>) ())
     \<lparr>streams := [(stream_zero default_kconfig)\<lparr>used := True, local_id := 1, remote_id := 5, ops := Some Logcat_service\<rparr>,
                 stream_zero default_kconfig]\<rparr>"

end
