(* ===== verification/Adb_Usb.thy ===== *)
theory Adb_Usb
  imports Adb_System
begin

text \<open>
  lib/adb/transports/adb_usb.c and lib/adb/adb.c: the USB transport of the router.  The USB device
  stack is a record of the calls the source makes over a state of its own; a network buffer is a
  number that identifies the allocation.  The bits of the atomic \<open>state\<close> are separate flags.  The
  transport's state is the \<open>link\<close> of the router's state, and each callback of the USB class is one
  step of the whole.
\<close>

section \<open>State\<close>

definition ENODATA :: int where [errno_simps]: "ENODATA = 61"

definition ADB_USB_OUT_EP :: nat where "ADB_USB_OUT_EP = 0x01"
definition ADB_USB_IN_EP :: nat where "ADB_USB_IN_EP = 0x81"
definition ADB_USB_FS_MPS :: nat where "ADB_USB_FS_MPS = 64"
definition ADB_SERIAL_PREFIX :: string where "ADB_SERIAL_PREFIX = ''webos-esp32s3-''"
definition ADB_DEVICE_ID_BYTES :: nat where "ADB_DEVICE_ID_BYTES = 6"
definition ADB_SERIAL_CAPACITY :: nat where "ADB_SERIAL_CAPACITY = length ADB_SERIAL_PREFIX + 1 + ADB_DEVICE_ID_BYTES * 2"

record usb_if_descriptor =
  if_bLength :: nat
  if_bDescriptorType :: nat
  bInterfaceNumber :: nat
  bAlternateSetting :: nat
  bNumEndpoints :: nat
  bInterfaceClass :: nat
  bInterfaceSubClass :: nat
  bInterfaceProtocol :: nat
  iInterface :: nat

record usb_ep_descriptor =
  ep_bLength :: nat
  ep_bDescriptorType :: nat
  bEndpointAddress :: nat
  bmAttributes :: nat
  wMaxPacketSize :: nat
  bInterval :: nat

text \<open>The descriptors of the interface and of its two endpoints; the terminator of the list is all zero.\<close>

record adb_usb_descriptors =
  interface_desc :: usb_if_descriptor
  out_ep :: usb_ep_descriptor
  in_ep :: usb_ep_descriptor

definition USB_DESC_INTERFACE :: nat where "USB_DESC_INTERFACE = 4"
definition USB_DESC_ENDPOINT :: nat where "USB_DESC_ENDPOINT = 5"
definition USB_EP_TYPE_BULK :: nat where "USB_EP_TYPE_BULK = 2"

definition adb_descriptors :: adb_usb_descriptors where
  "adb_descriptors =
     \<lparr>interface_desc =
        \<lparr>if_bLength = 9, if_bDescriptorType = USB_DESC_INTERFACE, bInterfaceNumber = 0, bAlternateSetting = 0, bNumEndpoints = 2,
         bInterfaceClass = 0xff, bInterfaceSubClass = 0x42, bInterfaceProtocol = 0x01, iInterface = 0\<rparr>,
      out_ep =
        \<lparr>ep_bLength = 7, ep_bDescriptorType = USB_DESC_ENDPOINT, bEndpointAddress = ADB_USB_OUT_EP, bmAttributes = USB_EP_TYPE_BULK,
         wMaxPacketSize = ADB_USB_FS_MPS, bInterval = 0\<rparr>,
      in_ep =
        \<lparr>ep_bLength = 7, ep_bDescriptorType = USB_DESC_ENDPOINT, bEndpointAddress = ADB_USB_IN_EP, bmAttributes = USB_EP_TYPE_BULK,
         wMaxPacketSize = ADB_USB_FS_MPS, bInterval = 0\<rparr>\<rparr>"

definition bulk_out_endpoint :: nat where "bulk_out_endpoint = bEndpointAddress (out_ep adb_descriptors)"
definition bulk_in_endpoint :: nat where "bulk_in_endpoint = bEndpointAddress (in_ep adb_descriptors)"

lemma bulk_endpoints_differ: "bulk_in_endpoint \<noteq> bulk_out_endpoint"
  by (simp add: bulk_in_endpoint_def bulk_out_endpoint_def adb_descriptors_def ADB_USB_IN_EP_def ADB_USB_OUT_EP_def)

datatype adb_usb_tx_phase = ADB_USB_TX_IDLE | ADB_USB_TX_HEADER | ADB_USB_TX_PAYLOAD

record adb_usb_tx_packet =
  p_header :: "byte list"
  p_payload :: "byte list"
  p_payload_len :: nat

record 'u adb_usb_data =
  class_data :: bool
  usb_enabled :: bool
  usb_out_engaged :: bool
  usb_in_engaged :: bool
  usb_resetting :: bool
  tx_phase :: adb_usb_tx_phase
  tx_queue :: "adb_usb_tx_packet list"
  tx_head :: nat
  tx_tail :: nat
  tx_count :: nat
  active_in_buffer :: "nat option"
  active_out_buffer :: "nat option"
  usb_stack :: 'u

record 'u usbd =
  usbd_ep_buf_alloc :: "nat \<Rightarrow> nat \<Rightarrow> 'u \<Rightarrow> nat option \<times> 'u"
  usbd_ep_enqueue :: "nat \<Rightarrow> byte list \<Rightarrow> 'u \<Rightarrow> int \<times> 'u"
  net_buf_unref :: "nat \<Rightarrow> 'u \<Rightarrow> 'u"

definition usb_boot :: "kconfig \<Rightarrow> 'u \<Rightarrow> 'u adb_usb_data" where
  "usb_boot c k =
     \<lparr>class_data = False, usb_enabled = False, usb_out_engaged = False, usb_in_engaged = False, usb_resetting = False,
      tx_phase = ADB_USB_TX_IDLE,
      tx_queue = replicate (WEBOS_ADB_USB_TX_QUEUE_DEPTH c)
        \<lparr>p_header = replicate WEBOS_ADB_HEADER_SIZE NUL, p_payload = replicate (WEBOS_ADB_USB_TRANSFER_SIZE c) NUL, p_payload_len = 0\<rparr>,
      tx_head = 0, tx_tail = 0, tx_count = 0, active_in_buffer = None, active_out_buffer = None, usb_stack = k\<rparr>"

section \<open>The two endpoints\<close>

definition submit_out :: "'u usbd \<Rightarrow> kconfig \<Rightarrow> 'u adb_usb_data \<Rightarrow> int \<times> 'u adb_usb_data" where
  "submit_out S c u =
     (if \<not> usb_enabled u \<or> usb_resetting u then (- ENODEV, u)
      else if usb_out_engaged u then (- EBUSY, u)
      else
        (case usbd_ep_buf_alloc S bulk_out_endpoint (WEBOS_ADB_USB_TRANSFER_SIZE c) (usb_stack u) of
           (None, k) \<Rightarrow> (- ENOMEM, u\<lparr>usb_stack := k\<rparr>)
         | (Some b, k) \<Rightarrow>
             let (ret, k) = usbd_ep_enqueue S b [] k in
             if ret \<noteq> 0 then (ret, u\<lparr>active_out_buffer := None, usb_stack := net_buf_unref S b k\<rparr>)
             else (0, u\<lparr>usb_out_engaged := True, active_out_buffer := Some b, usb_stack := k\<rparr>)))"

definition enqueue_in :: "'u usbd \<Rightarrow> byte list \<Rightarrow> 'u adb_usb_data \<Rightarrow> int \<times> 'u adb_usb_data" where
  "enqueue_in S data u =
     (case usbd_ep_buf_alloc S bulk_in_endpoint (length data) (usb_stack u) of
        (None, k) \<Rightarrow> (- ENOMEM, u\<lparr>usb_stack := k\<rparr>)
      | (Some b, k) \<Rightarrow>
          let (ret, k) = usbd_ep_enqueue S b data k in
          if ret \<noteq> 0 then (ret, u\<lparr>active_in_buffer := None, usb_stack := net_buf_unref S b k\<rparr>)
          else (0, u\<lparr>active_in_buffer := Some b, usb_stack := k\<rparr>))"

definition reset_tx_queue_unlocked :: "'u adb_usb_data \<Rightarrow> 'u adb_usb_data" where
  "reset_tx_queue_unlocked u =
     u\<lparr>tx_phase := ADB_USB_TX_IDLE, tx_head := 0, tx_tail := 0, tx_count := 0, active_in_buffer := None, usb_in_engaged := False\<rparr>"

definition reset_tx_queue :: "'u adb_usb_data \<Rightarrow> 'u adb_usb_data" where
  "reset_tx_queue u = reset_tx_queue_unlocked u"

definition reset_usb_queues :: "'u adb_usb_data \<Rightarrow> 'u adb_usb_data" where
  "reset_usb_queues u = (reset_tx_queue_unlocked u)\<lparr>active_out_buffer := None, usb_out_engaged := False\<rparr>"

definition start_tx_packet_unlocked :: "'u usbd \<Rightarrow> 'u adb_usb_data \<Rightarrow> int \<times> 'u adb_usb_data" where
  "start_tx_packet_unlocked S u =
     (if tx_count u = 0 then (- ENOENT, u)
      else if usb_in_engaged u then (- EBUSY, u)
      else
        let (ret, u) = enqueue_in S (p_header (tx_queue u ! tx_head u)) (u\<lparr>usb_in_engaged := True, tx_phase := ADB_USB_TX_HEADER\<rparr>) in
        if ret \<noteq> 0 then (ret, u\<lparr>tx_phase := ADB_USB_TX_IDLE, usb_in_engaged := False\<rparr>)
        else (ret, u))"

definition usb_put :: "byte list \<Rightarrow> byte list \<Rightarrow> 'u adb_usb_data \<Rightarrow> 'u adb_usb_data" where
  "usb_put hdr data u =
     u\<lparr>tx_queue := (tx_queue u)[tx_tail u := (tx_queue u ! tx_tail u)
          \<lparr>p_header := memcpy (p_header (tx_queue u ! tx_tail u)) 0 hdr,
           p_payload := memcpy (p_payload (tx_queue u ! tx_tail u)) 0 data, p_payload_len := length data\<rparr>],
       tx_tail := (tx_tail u + 1) mod length (tx_queue u), tx_count := tx_count u + 1\<rparr>"

definition webos_adb_usb_send ::
    "'u usbd \<Rightarrow> kconfig \<Rightarrow> byte list option \<Rightarrow> nat \<Rightarrow> byte list option \<Rightarrow> nat \<Rightarrow> 'u adb_usb_data \<Rightarrow> int \<times> 'u adb_usb_data" where
  "webos_adb_usb_send S c hdr header_len data payload_len u =
     (if \<not> class_data u \<or> \<not> usb_enabled u \<or> usb_resetting u then (- ENODEV, u)
      else if hdr = None \<or> header_len \<noteq> WEBOS_ADB_HEADER_SIZE \<or> data = None \<and> payload_len \<noteq> 0 then (- EINVAL, u)
      else if WEBOS_ADB_USB_TRANSFER_SIZE c < payload_len then (- EMSGSIZE, u)
      else if tx_count u = length (tx_queue u) then (- ENOSPC, u)
      else
        let start_now = tx_count u = 0;
            u = usb_put (bytes_of hdr header_len) (bytes_of data payload_len) u
        in if start_now then
             let (ret, u) = start_tx_packet_unlocked S u in
             if ret \<noteq> 0 then (ret, reset_tx_queue_unlocked u) else (ret, u)
           else (0, u))"

text \<open>The transport function that the router is given.\<close>

definition usb_transport :: "'u usbd \<Rightarrow> kconfig \<Rightarrow> 'u adb_usb_data webos_adb_send_fn" where
  "usb_transport S c hdr data u =
     webos_adb_usb_send S c (Some hdr) (length hdr) (if data = [] then None else Some data) (length data) u"

section \<open>Completed transfers\<close>

text \<open>
  The part of \<open>adb_usb_request\<close> for the IN endpoint under the lock: the code, whether to tell the
  router that there is room again, and whether to reset the router.
\<close>

definition advance_tx :: "'u usbd \<Rightarrow> 'u adb_usb_data \<Rightarrow> int \<times> bool \<times> bool \<times> 'u adb_usb_data" where
  "advance_tx S u =
     (let u = u\<lparr>tx_head := (tx_head u + 1) mod length (tx_queue u), tx_count := tx_count u - 1,
                tx_phase := ADB_USB_TX_IDLE, usb_in_engaged := False\<rparr>
      in if tx_count u \<noteq> 0 then
           let (ret, u) = start_tx_packet_unlocked S u in
           if ret \<noteq> 0 then (ret, False, True, reset_tx_queue_unlocked u) else (ret, True, False, u)
         else (0, True, False, u))"

definition in_complete :: "'u usbd \<Rightarrow> nat \<Rightarrow> int \<Rightarrow> 'u adb_usb_data \<Rightarrow> int \<times> bool \<times> bool \<times> 'u adb_usb_data" where
  "in_complete S buffer err u =
     (let u = u\<lparr>active_in_buffer := None, usb_stack := net_buf_unref S buffer (usb_stack u)\<rparr>;
          packet = tx_queue u ! tx_head u;
          (ret, notify, reset, u) =
            (if err \<noteq> 0 then (0, False, True, reset_tx_queue_unlocked u)
             else if tx_count u = 0 then (0, False, False, u)
             else if tx_phase u = ADB_USB_TX_HEADER \<and> p_payload_len packet \<noteq> 0 then
               let (ret, u) = enqueue_in S (take (p_payload_len packet) (p_payload packet)) (u\<lparr>tx_phase := ADB_USB_TX_PAYLOAD\<rparr>) in
               if ret \<noteq> 0 then (ret, False, True, reset_tx_queue_unlocked u) else (ret, False, False, u)
             else advance_tx S u)
      in (ret, notify, reset, if reset then u\<lparr>usb_resetting := True\<rparr> else u))"

definition on_link :: "('t \<Rightarrow> 't) \<Rightarrow> ('s, 't) adb \<Rightarrow> ('s, 't) adb" where
  "on_link f st = st\<lparr>link := f (link st)\<rparr>"

text \<open>The four steps that follow a failure: reset of the router and of both queues, with the flag set meanwhile.\<close>

definition reset_link ::
    "('s, 'u adb_usb_data, 'z) adb_env_scheme \<Rightarrow> ('s, 'u adb_usb_data) adb \<Rightarrow> ('s, 'u adb_usb_data) adb" where
  "reset_link E st =
     on_link (\<lambda>u. (reset_usb_queues u)\<lparr>usb_resetting := False\<rparr>)
       (webos_adb_protocol_reset E (on_link (\<lambda>u. u\<lparr>usb_resetting := True\<rparr>) st))"

definition link_call :: "('t \<Rightarrow> int \<times> 't) \<Rightarrow> ('s, 't) adb \<Rightarrow> int \<times> ('s, 't) adb" where
  "link_call f st = (let (ret, l) = f (link st) in (ret, st\<lparr>link := l\<rparr>))"

definition in_request ::
    "('s, 'u adb_usb_data, 'z) adb_services_scheme \<Rightarrow> 'u usbd \<Rightarrow> nat \<Rightarrow> int \<Rightarrow> ('s, 'u adb_usb_data) adb \<Rightarrow>
     int \<times> ('s, 'u adb_usb_data) adb" where
  "in_request E S buffer err st =
     (if active_in_buffer (link st) \<noteq> Some buffer
      then (0, on_link (\<lambda>u. u\<lparr>usb_stack := net_buf_unref S buffer (usb_stack u)\<rparr>) st)
      else
        let (ret, notify, reset, u) = in_complete S buffer err (link st);
            st = st\<lparr>link := u\<rparr>;
            st = (if reset then
                    let st = reset_link E st in
                    if usb_enabled (link st) then snd (link_call (submit_out S (conf E)) st) else st
                  else if notify then webos_adb_protocol_tx_ready E st
                  else st)
        in (if err = - ECONNABORTED then 0 else if err \<noteq> 0 then err else ret, st))"

text \<open>What the bytes of an OUT transfer do; nothing when the router would not return.\<close>

definition out_deliver ::
    "('s, 'u adb_usb_data, 'z) adb_services_scheme \<Rightarrow> byte list \<Rightarrow> int \<Rightarrow> ('s, 'u adb_usb_data) adb \<Rightarrow>
     ('s, 'u adb_usb_data) adb option" where
  "out_deliver E data err st =
     (if err = 0 \<and> data \<noteq> [] \<and> \<not> usb_resetting (link st) then
        (case webos_adb_protocol_receive E (Some data) (length data) st of
           None \<Rightarrow> None
         | Some (ret, st) \<Rightarrow> Some (if ret = - ENOBUFS then reset_link E st else st))
      else Some st)"

definition out_request ::
    "('s, 'u adb_usb_data, 'z) adb_services_scheme \<Rightarrow> 'u usbd \<Rightarrow> nat \<Rightarrow> byte list \<Rightarrow> int \<Rightarrow> ('s, 'u adb_usb_data) adb \<Rightarrow>
     (int \<times> ('s, 'u adb_usb_data) adb) option" where
  "out_request E S buffer data err st =
     (if active_out_buffer (link st) \<noteq> Some buffer
      then Some (0, on_link (\<lambda>u. u\<lparr>usb_stack := net_buf_unref S buffer (usb_stack u)\<rparr>) st)
      else
        (case out_deliver E data err (on_link (\<lambda>u. u\<lparr>active_out_buffer := None, usb_out_engaged := False\<rparr>) st) of
           None \<Rightarrow> None
         | Some st \<Rightarrow>
             let st = on_link (\<lambda>u. u\<lparr>usb_stack := net_buf_unref S buffer (usb_stack u)\<rparr>) st in
             Some
               (if err \<noteq> 0 then (if err = - ECONNABORTED then 0 else err, st)
                else if usb_enabled (link st) \<and> \<not> usb_resetting (link st) then link_call (submit_out S (conf E)) st
                else (0, st))))"

text \<open>A completed transfer of a buffer on an endpoint, with the bytes it holds.\<close>

definition adb_usb_request ::
    "('s, 'u adb_usb_data, 'z) adb_services_scheme \<Rightarrow> 'u usbd \<Rightarrow> nat \<Rightarrow> nat \<Rightarrow> byte list \<Rightarrow> int \<Rightarrow>
     ('s, 'u adb_usb_data) adb \<Rightarrow> (int \<times> ('s, 'u adb_usb_data) adb) option" where
  "adb_usb_request E S endpoint buffer data err st =
     (if endpoint = bulk_in_endpoint then Some (in_request E S buffer err st)
      else if endpoint = bulk_out_endpoint then out_request E S buffer data err st
      else Some (if err = - ECONNABORTED then 0 else err,
                 on_link (\<lambda>u. u\<lparr>usb_stack := net_buf_unref S buffer (usb_stack u)\<rparr>) st))"

section \<open>The other callbacks\<close>

definition adb_usb_class_init :: "('s, 'u adb_usb_data) adb \<Rightarrow> int \<times> ('s, 'u adb_usb_data) adb" where
  "adb_usb_class_init st = (0, on_link (\<lambda>u. u\<lparr>class_data := True\<rparr>) st)"

definition adb_usb_enable ::
    "('s, 'u adb_usb_data, 'z) adb_env_scheme \<Rightarrow> 'u usbd \<Rightarrow> ('s, 'u adb_usb_data) adb \<Rightarrow> ('s, 'u adb_usb_data) adb" where
  "adb_usb_enable E S st =
     snd (link_call (submit_out S (conf E))
       (on_link (\<lambda>u. u\<lparr>usb_enabled := True\<rparr>) (webos_adb_protocol_reset E (on_link reset_usb_queues st))))"

definition adb_usb_disable ::
    "('s, 'u adb_usb_data, 'z) adb_env_scheme \<Rightarrow> ('s, 'u adb_usb_data) adb \<Rightarrow> ('s, 'u adb_usb_data) adb" where
  "adb_usb_disable E st =
     webos_adb_protocol_reset E (on_link (\<lambda>u. reset_usb_queues
       (u\<lparr>usb_enabled := False, usb_out_engaged := False, usb_in_engaged := False, usb_resetting := False\<rparr>)) st)"

datatype usbd_msg_type = USBD_MSG_RESET | USBD_MSG_VBUS_REMOVED | USBD_MSG_UDC_ERROR | USBD_MSG_STACK_ERROR | USBD_MSG_OTHER nat

definition adb_usb_message ::
    "('s, 'u adb_usb_data, 'z) adb_env_scheme \<Rightarrow> usbd_msg_type \<Rightarrow> ('s, 'u adb_usb_data) adb \<Rightarrow> ('s, 'u adb_usb_data) adb" where
  "adb_usb_message E ty st = (if ty = USBD_MSG_RESET \<or> ty = USBD_MSG_VBUS_REMOVED then reset_link E st else st)"

section \<open>Start\<close>

text \<open>The serial number, from what \<open>hwinfo_get_device_id\<close> returns and writes, and the length of its descriptor.\<close>

definition prepare_serial_number :: "int \<Rightarrow> byte list \<Rightarrow> int \<times> (string \<times> nat) option" where
  "prepare_serial_number id_len device_id =
     (if id_len \<le> 0 then (if id_len = 0 then - ENODATA else id_len, None)
      else
        let serial = ADB_SERIAL_PREFIX @
          concat (map (\<lambda>b. [hex_digit (byte_val b div 16), hex_digit (byte_val b mod 16)]) (take (nat id_len) device_id))
        in (0, Some (serial, (2 + length serial * 2) mod 256)))"

datatype usb_setup = Add_Lang | Add_Manufacturer | Add_Product | Add_Serial | Add_Configuration | Register_Class
  | Set_Code_Triple | Register_Message_Callback | Usbd_Init | Usbd_Enable

fun setup_calls :: "(usb_setup \<Rightarrow> 'k \<Rightarrow> int \<times> 'k) \<Rightarrow> usb_setup list \<Rightarrow> 'k \<Rightarrow> int \<times> 'k" where
  "setup_calls call [] k = (0, k)"
| "setup_calls call (x # xs) k = (let (ret, k) = call x k in if ret \<noteq> 0 then (ret, k) else setup_calls call xs k)"

definition webos_adb_usb_init :: "(usb_setup \<Rightarrow> 'k \<Rightarrow> int \<times> 'k) \<Rightarrow> int \<Rightarrow> byte list \<Rightarrow> 'k \<Rightarrow> int \<times> 'k" where
  "webos_adb_usb_init call id_len device_id k =
     (let (ret, serial) = prepare_serial_number id_len device_id in
      if ret \<noteq> 0 then (ret, k)
      else setup_calls call [Add_Lang, Add_Manufacturer, Add_Product, Add_Serial, Add_Configuration, Register_Class,
        Set_Code_Triple, Register_Message_Callback, Usbd_Init, Usbd_Enable] k)"

text \<open>The setup calls run the class callbacks, so they act on the whole state.\<close>

definition webos_adb_init ::
    "('s, 'u adb_usb_data, 'z) adb_env_scheme \<Rightarrow> 'u usbd \<Rightarrow> (usb_setup \<Rightarrow> ('s, 'u adb_usb_data) adb \<Rightarrow> int \<times> ('s, 'u adb_usb_data) adb) \<Rightarrow>
     int \<Rightarrow> byte list \<Rightarrow> ('s, 'u adb_usb_data) adb \<Rightarrow> int \<times> ('s, 'u adb_usb_data) adb" where
  "webos_adb_init E S call id_len device_id st =
     (if \<not> WEBOS_ADB_USB (conf E) then (- ENOTSUP, st)
      else
        let (ret, st) = webos_adb_usb_init call id_len device_id (webos_adb_protocol_init E (usb_transport S (conf E)) st) in
        if ret \<noteq> 0 then (ret, st) else (0, st))"

end
