(* ===== verification/Adb_Usb_Inv.thy ===== *)
theory Adb_Usb_Inv
  imports Adb_Usb
begin

text \<open>
  The transmit queue of the USB transport as a bounded queue, the invariant of the transport and the
  ownership of its network buffers, the order in which transfers are handed to the USB stack, and the
  progress of the queue.
\<close>



section \<open>The transmit queue\<close>

definition usb_entry :: "adb_usb_tx_packet \<Rightarrow> byte list \<times> byte list" where
  "usb_entry p = (p_header p, take (p_payload_len p) (p_payload p))"

definition usb_packets :: "'u adb_usb_data \<Rightarrow> (byte list \<times> byte list) list" where
  "usb_packets u = map usb_entry (fifo_entries (tx_queue u) (tx_head u) (tx_count u))"

definition usb_packet_ok :: "kconfig \<Rightarrow> adb_usb_tx_packet \<Rightarrow> bool" where
  "usb_packet_ok c p \<longleftrightarrow> length (p_header p) = WEBOS_ADB_HEADER_SIZE \<and>
     length (p_payload p) = WEBOS_ADB_USB_TRANSFER_SIZE c \<and> p_payload_len p \<le> WEBOS_ADB_USB_TRANSFER_SIZE c"

definition usb_queue_ok :: "kconfig \<Rightarrow> 'u adb_usb_data \<Rightarrow> bool" where
  "usb_queue_ok c u \<longleftrightarrow>
     0 < length (tx_queue u) \<and> length (tx_queue u) = WEBOS_ADB_USB_TX_QUEUE_DEPTH c \<and> tx_head u < length (tx_queue u) \<and>
     tx_tail u = (tx_head u + tx_count u) mod length (tx_queue u) \<and> tx_count u \<le> length (tx_queue u) \<and>
     list_all (usb_packet_ok c) (tx_queue u)"

definition usb_drop :: "'u adb_usb_data \<Rightarrow> 'u adb_usb_data" where
  "usb_drop u = u\<lparr>tx_head := (tx_head u + 1) mod length (tx_queue u), tx_count := tx_count u - 1\<rparr>"

lemma length_usb_packets [simp]: "length (usb_packets u) = tx_count u"
  by (simp add: usb_packets_def)

lemma usb_put_fifo:
  assumes ok: "usb_queue_ok c u" and room: "tx_count u < length (tx_queue u)"
    and fits: "length hdr = WEBOS_ADB_HEADER_SIZE" "length data \<le> WEBOS_ADB_USB_TRANSFER_SIZE c"
  shows "usb_queue_ok c (usb_put hdr data u) \<and> usb_packets (usb_put hdr data u) = usb_packets u @ [(hdr, data)]"
proof -
  let ?q = "tx_queue u" and ?t = "(tx_head u + tx_count u) mod length (tx_queue u)"
  define p where "p = (?q ! ?t)\<lparr>p_header := memcpy (p_header (?q ! ?t)) 0 hdr,
    p_payload := memcpy (p_payload (?q ! ?t)) 0 data, p_payload_len := length data\<rparr>"
  have q: "0 < length ?q" "list_all (usb_packet_ok c) ?q" "tx_tail u = ?t" using ok by (auto simp: usb_queue_ok_def)
  then have "usb_packet_ok c (?q ! ?t)" by (simp add: list_all_length)
  then have p: "usb_packet_ok c p" "usb_entry p = (hdr, data)"
    using fits by (auto simp: p_def usb_packet_ok_def usb_entry_def take_memcpy_0) (simp_all add: memcpy_def)
  have put: "usb_put hdr data u = u\<lparr>tx_queue := ?q[?t := p], tx_tail := (?t + 1) mod length ?q, tx_count := tx_count u + 1\<rparr>"
    by (simp add: usb_put_def q(3) p_def)
  have "usb_queue_ok c (usb_put hdr data u)"
    using ok room p(1) q by (simp add: put usb_queue_ok_def list_all_update mod_Suc_eq)
  moreover have "usb_packets (usb_put hdr data u) = usb_packets u @ [(hdr, data)]"
    using fifo_entries_put [OF room, of "tx_head u" p] p(2) by (simp add: put usb_packets_def)
  ultimately show ?thesis by blast
qed

lemma usb_drop_fifo:
  assumes ok: "usb_queue_ok c u" and some: "tx_count u \<noteq> 0"
  shows "usb_queue_ok c (usb_drop u) \<and> usb_packets u = usb_entry (tx_queue u ! tx_head u) # usb_packets (usb_drop u)"
proof -
  have "(Suc (tx_head u) mod length (tx_queue u) + (tx_count u - Suc 0)) mod length (tx_queue u) =
      (tx_head u + tx_count u) mod length (tx_queue u)" 
    using some mod_add_left_eq [of "Suc (tx_head u)" "length (tx_queue u)" "tx_count u - 1"] by simp
  then have "usb_queue_ok c (usb_drop u)" using ok some by (auto simp: usb_queue_ok_def usb_drop_def)
  moreover have "tx_head u mod length (tx_queue u) = tx_head u" using ok by (simp add: usb_queue_ok_def)
  ultimately show ?thesis using fifo_entries_drop [of "tx_count u" "tx_queue u" "tx_head u"] some
    by (simp add: usb_packets_def usb_drop_def)
qed

interpretation usb_fifo: bounded_fifo "usb_queue_ok c" "\<lambda>u. length (tx_queue u)" usb_packets
    "\<lambda>u (hdr, data). length hdr = WEBOS_ADB_HEADER_SIZE \<and> length data \<le> WEBOS_ADB_USB_TRANSFER_SIZE c"
    "\<lambda>(hdr, data). usb_put hdr data" usb_drop
proof
  fix q :: "'a adb_usb_data"
  show "usb_queue_ok c q \<Longrightarrow> length (usb_packets q) \<le> length (tx_queue q)" by (simp add: usb_queue_ok_def)
  show "usb_queue_ok c q \<Longrightarrow> usb_packets q \<noteq> [] \<Longrightarrow> usb_queue_ok c (usb_drop q) \<and>
      usb_packets (usb_drop q) = tl (usb_packets q) \<and> length (tx_queue (usb_drop q)) = length (tx_queue q)"
    using usb_drop_fifo [of c q] by (cases "tx_count q = 0") (auto simp: usb_drop_def usb_packets_def)
  fix e :: "byte list \<times> byte list"
  show "usb_queue_ok c q \<Longrightarrow> length (usb_packets q) < length (tx_queue q) \<Longrightarrow>
      (case e of (hdr, data) \<Rightarrow> length hdr = WEBOS_ADB_HEADER_SIZE \<and> length data \<le> WEBOS_ADB_USB_TRANSFER_SIZE c) \<Longrightarrow>
      usb_queue_ok c ((case e of (hdr, data) \<Rightarrow> usb_put hdr data) q) \<and>
      usb_packets ((case e of (hdr, data) \<Rightarrow> usb_put hdr data) q) = usb_packets q @ [e] \<and>
      length (tx_queue ((case e of (hdr, data) \<Rightarrow> usb_put hdr data) q)) = length (tx_queue q)"
    using usb_put_fifo [of c q "fst e" "snd e"] by (cases e) (simp add: usb_put_def)
qed

section \<open>The invariant of the transport\<close>

text \<open>The part that holds also between two transfers, and a queue with no transfer on the way.\<close>

definition usb_base :: "kconfig \<Rightarrow> 'u adb_usb_data \<Rightarrow> bool" where
  "usb_base c u \<longleftrightarrow> usb_queue_ok c u \<and> (usb_out_engaged u \<longleftrightarrow> active_out_buffer u \<noteq> None)"

definition usb_quiet :: "kconfig \<Rightarrow> 'u adb_usb_data \<Rightarrow> bool" where
  "usb_quiet c u \<longleftrightarrow> usb_base c u \<and> \<not> usb_in_engaged u \<and> active_in_buffer u = None \<and> tx_phase u = ADB_USB_TX_IDLE"

text \<open>The queue is never idle while it holds a packet: a transfer is engaged exactly when there is one.\<close>

definition usb_ok :: "kconfig \<Rightarrow> 'u adb_usb_data \<Rightarrow> bool" where
  "usb_ok c u \<longleftrightarrow> usb_base c u \<and>
     (usb_in_engaged u \<longleftrightarrow> tx_count u \<noteq> 0) \<and> (active_in_buffer u \<noteq> None \<longleftrightarrow> tx_count u \<noteq> 0) \<and>
     (tx_phase u = ADB_USB_TX_IDLE \<longleftrightarrow> tx_count u = 0) \<and>
     (tx_phase u = ADB_USB_TX_PAYLOAD \<longrightarrow> p_payload_len (tx_queue u ! tx_head u) \<noteq> 0)"

lemma usb_ok_empty: "tx_count u = 0 \<Longrightarrow> usb_ok c u \<longleftrightarrow> usb_quiet c u"
  by (auto simp: usb_ok_def usb_quiet_def)

lemma usb_base_updates [simp]:
  "usb_base c (u\<lparr>usb_in_engaged := e\<rparr>) = usb_base c u" "usb_base c (u\<lparr>tx_phase := p\<rparr>) = usb_base c u"
  "usb_base c (u\<lparr>active_in_buffer := b\<rparr>) = usb_base c u" "usb_base c (u\<lparr>usb_stack := k\<rparr>) = usb_base c u"
  "usb_base c (u\<lparr>usb_resetting := r\<rparr>) = usb_base c u" "usb_base c (u\<lparr>usb_enabled := r\<rparr>) = usb_base c u"
  "usb_base c (u\<lparr>class_data := r\<rparr>) = usb_base c u"
  by (simp_all add: usb_base_def usb_queue_ok_def)

lemma usb_packets_updates [simp]:
  "usb_packets (u\<lparr>usb_in_engaged := e\<rparr>) = usb_packets u" "usb_packets (u\<lparr>tx_phase := p\<rparr>) = usb_packets u"
  "usb_packets (u\<lparr>active_in_buffer := b\<rparr>) = usb_packets u" "usb_packets (u\<lparr>usb_stack := k\<rparr>) = usb_packets u"
  "usb_packets (u\<lparr>usb_resetting := r\<rparr>) = usb_packets u" "usb_packets (u\<lparr>usb_enabled := r\<rparr>) = usb_packets u"
  "usb_packets (u\<lparr>class_data := r\<rparr>) = usb_packets u" "usb_packets (u\<lparr>active_out_buffer := b\<rparr>) = usb_packets u"
  "usb_packets (u\<lparr>usb_out_engaged := e\<rparr>) = usb_packets u"
  by (simp_all add: usb_packets_def)

section \<open>The USB device stack\<close>

text \<open>
  What the sources rely on in the USB device stack, seen through three observers of its state: the
  endpoint of every buffer that is allocated, the buffers that are in flight, and the bytes handed
  over so far, transfer by transfer.  An allocated buffer is a new one, it stays allocated until its
  reference is dropped, and a successful enqueue puts it in flight with its bytes.
\<close>

definition usbd_lawful :: "'u usbd \<Rightarrow> ('u \<Rightarrow> nat \<rightharpoonup> nat) \<Rightarrow> ('u \<Rightarrow> nat set) \<Rightarrow> ('u \<Rightarrow> byte list list) \<Rightarrow> bool" where
  "usbd_lawful S held flying sent \<longleftrightarrow>
     (\<forall>ep n k r k'. usbd_ep_buf_alloc S ep n k = (r, k') \<longrightarrow> flying k' = flying k \<and> sent k' = sent k \<and>
        (case r of None \<Rightarrow> held k' = held k | Some b \<Rightarrow> b \<notin> dom (held k) \<and> held k' = (held k)(b \<mapsto> ep))) \<and>
     (\<forall>b d k ret k'. usbd_ep_enqueue S b d k = (ret, k') \<longrightarrow> held k' = held k \<and>
        flying k' = (if ret = 0 then insert b (flying k) else flying k) \<and>
        sent k' = (if ret = 0 \<and> d \<noteq> [] then sent k @ [d] else sent k)) \<and>
     (\<forall>b k. held (net_buf_unref S b k) = (held k)(b := None) \<and> flying (net_buf_unref S b k) = flying k \<and>
        sent (net_buf_unref S b k) = sent k)"

text \<open>The end of the transfer of a buffer: the buffer comes back to the class, still allocated.\<close>

definition transfer_done :: "('u \<Rightarrow> nat \<rightharpoonup> nat) \<Rightarrow> ('u \<Rightarrow> nat set) \<Rightarrow> ('u \<Rightarrow> byte list list) \<Rightarrow> nat \<Rightarrow> 'u \<Rightarrow> 'u \<Rightarrow> bool" where
  "transfer_done held flying sent b k k' \<longleftrightarrow>
     b \<in> flying k \<and> held k' = held k \<and> flying k' = flying k - {b} \<and> sent k' = sent k"

text \<open>
  The buffers allocated are those in flight and the set X of those whose completion is being handled;
  an active buffer is in flight on its endpoint.
\<close>

definition buffers_ok :: "('u \<Rightarrow> nat \<rightharpoonup> nat) \<Rightarrow> ('u \<Rightarrow> nat set) \<Rightarrow> nat set \<Rightarrow> 'u adb_usb_data \<Rightarrow> bool" where
  "buffers_ok held flying X u \<longleftrightarrow>
     dom (held (usb_stack u)) = flying (usb_stack u) \<union> X \<and> flying (usb_stack u) \<inter> X = {} \<and>
     (\<forall>b. active_in_buffer u = Some b \<longrightarrow> b \<in> flying (usb_stack u) \<and> held (usb_stack u) b = Some bulk_in_endpoint) \<and>
     (\<forall>b. active_out_buffer u = Some b \<longrightarrow> b \<in> flying (usb_stack u) \<and> held (usb_stack u) b = Some bulk_out_endpoint)"

lemma lawfulD:
  assumes "usbd_lawful S held flying sent"
  shows "usbd_ep_buf_alloc S ep n k = (None, k') \<Longrightarrow> flying k' = flying k \<and> sent k' = sent k \<and> held k' = held k"
    "usbd_ep_buf_alloc S ep n k = (Some b, k') \<Longrightarrow>
      flying k' = flying k \<and> sent k' = sent k \<and> held k' = (held k)(b \<mapsto> ep) \<and> b \<notin> dom (held k)"
    "usbd_ep_enqueue S b d k = (ret, k') \<Longrightarrow> held k' = held k \<and>
      flying k' = (if ret = 0 then insert b (flying k) else flying k) \<and> sent k' = (if ret = 0 \<and> d \<noteq> [] then sent k @ [d] else sent k)"
    "held (net_buf_unref S b k) = (held k)(b := None)" "flying (net_buf_unref S b k) = flying k"
    "sent (net_buf_unref S b k) = sent k"
  using assms unfolding usbd_lawful_def by (fastforce split: option.splits)+

text \<open>One allocation followed by an enqueue, whatever the outcome.\<close>

lemma enqueue_in_step:
  assumes law: "usbd_lawful S held flying sent" and ok: "buffers_ok held flying X u" "active_in_buffer u = None"
    and enq: "enqueue_in S data u = (ret, u')" and data: "data \<noteq> []"
  obtains b k where "u' = u\<lparr>active_in_buffer := b, usb_stack := k\<rparr>" "b \<noteq> None \<longleftrightarrow> ret = 0" "buffers_ok held flying X u'"
    "sent k = (if ret = 0 then sent (usb_stack u) @ [data] else sent (usb_stack u))"
proof -
  obtain b k where alloc: "usbd_ep_buf_alloc S bulk_in_endpoint (length data) (usb_stack u) = (b, k)" by fastforce
  show thesis
  proof (cases b)
    case None
    have u: "ret = - ENOMEM" "u' = u\<lparr>usb_stack := k\<rparr>" using enq alloc None by (simp_all add: enqueue_in_def)
    note l = lawfulD(1) [OF law alloc [unfolded None]]
    show thesis by (rule that [where b = None and k = k]) (use u l ok in \<open>simp_all add: buffers_ok_def errno_simps\<close>)
  next
    case (Some x)
    note a = lawfulD(2) [OF law alloc [unfolded Some]]
    obtain r k2 where e: "usbd_ep_enqueue S x data k = (r, k2)" by fastforce
    note l = lawfulD(3) [OF law e] lawfulD(4-6) [OF law, of x k2]
    show thesis
    proof (cases "r = 0")
      case True
      have u: "ret = 0" "u' = u\<lparr>active_in_buffer := Some x, usb_stack := k2\<rparr>"
        using enq alloc e Some True by (simp_all add: enqueue_in_def)
      show thesis by (rule that [where b = "Some x" and k = k2]) (use u a l ok True data in \<open>auto simp: buffers_ok_def\<close>)
    next
      case False
      have u: "ret = r" "u' = u\<lparr>active_in_buffer := None, usb_stack := net_buf_unref S x k2\<rparr>"
        using enq alloc e Some False by (simp_all add: enqueue_in_def)
      show thesis by (rule that [where b = None and k = "net_buf_unref S x k2"]) (use u a l ok False in \<open>auto simp: buffers_ok_def\<close>)
    qed
  qed
qed

lemma submit_out_step:
  assumes law: "usbd_lawful S held flying sent" and ok: "buffers_ok held flying X u" "usb_base c u"
    and sub: "submit_out S c' u = (ret, u')"
  obtains b e k where "u' = u\<lparr>active_out_buffer := b, usb_out_engaged := e, usb_stack := k\<rparr>" "e \<longleftrightarrow> b \<noteq> None"
    "buffers_ok held flying X u'" "sent k = sent (usb_stack u)" "ret = 0 \<longrightarrow> e"
proof (cases "usb_enabled u \<and> \<not> usb_resetting u \<and> \<not> usb_out_engaged u")
  case True
  then have none: "active_out_buffer u = None" "\<not> usb_out_engaged u" using ok(2) by (simp_all add: usb_base_def)
  obtain b k where alloc: "usbd_ep_buf_alloc S bulk_out_endpoint (WEBOS_ADB_USB_TRANSFER_SIZE c') (usb_stack u) = (b, k)" by fastforce
  show thesis
  proof (cases b)
    case None
    have u: "ret = - ENOMEM" "u' = u\<lparr>usb_stack := k\<rparr>" using sub alloc True None by (simp_all add: submit_out_def)
    note l = lawfulD(1) [OF law alloc [unfolded None]]
    show thesis by (rule that [where b = None and e = False and k = k]) (use u l ok none in \<open>simp_all add: buffers_ok_def errno_simps\<close>)
  next
    case (Some x)
    note a = lawfulD(2) [OF law alloc [unfolded Some]]
    obtain r k2 where e: "usbd_ep_enqueue S x [] k = (r, k2)" by fastforce
    note l = lawfulD(3) [OF law e] lawfulD(4-6) [OF law, of x k2]
    show thesis
    proof (cases "r = 0")
      case r: True
      have u: "ret = 0" "u' = u\<lparr>usb_out_engaged := True, active_out_buffer := Some x, usb_stack := k2\<rparr>"
        using sub alloc e Some True r by (simp_all add: submit_out_def)
      show thesis by (rule that [where b = "Some x" and e = True and k = k2]) (use u a l ok r in \<open>auto simp: buffers_ok_def\<close>)
    next
      case r: False
      have u: "ret = r" "u' = u\<lparr>active_out_buffer := None, usb_stack := net_buf_unref S x k2\<rparr>"
        using sub alloc e Some True r by (simp_all add: submit_out_def)
      show thesis by (rule that [where b = None and e = False and k = "net_buf_unref S x k2"]) (use u a l ok r none in \<open>auto simp: buffers_ok_def\<close>)
    qed
  qed
next
  case False
  then have "u' = u" "ret \<noteq> 0" using sub by (auto simp: submit_out_def errno_simps split: if_splits)
  then show thesis using ok by (intro that [where b = "active_out_buffer u" and e = "usb_out_engaged u" and k = "usb_stack u"]) (simp_all add: usb_base_def)
qed

section \<open>The order of the transfers\<close>

text \<open>A packet is one transfer, or two when it has a payload; what is pending has not been handed over yet.\<close>

fun packet_transfers :: "byte list \<times> byte list \<Rightarrow> byte list list" where
  "packet_transfers (hdr, data) = hdr # (if data = [] then [] else [data])"

definition usb_pending :: "'u adb_usb_data \<Rightarrow> byte list list" where
  "usb_pending u =
     (case tx_phase u of
        ADB_USB_TX_IDLE \<Rightarrow> concat (map packet_transfers (usb_packets u))
      | ADB_USB_TX_HEADER \<Rightarrow> tl (concat (map packet_transfers (usb_packets u)))
      | ADB_USB_TX_PAYLOAD \<Rightarrow> concat (map packet_transfers (tl (usb_packets u))))"

definition usb_good :: "kconfig \<Rightarrow> ('u \<Rightarrow> nat \<rightharpoonup> nat) \<Rightarrow> ('u \<Rightarrow> nat set) \<Rightarrow> nat set \<Rightarrow> 'u adb_usb_data \<Rightarrow> bool" where
  "usb_good c held flying X u \<longleftrightarrow> usb_ok c u \<and> buffers_ok held flying X u"

definition usb_wire :: "('u \<Rightarrow> byte list list) \<Rightarrow> 'u adb_usb_data \<Rightarrow> byte list list" where
  "usb_wire sent u = sent (usb_stack u) @ usb_pending u"

lemma packet_transfers_not_Nil [simp]: "packet_transfers p \<noteq> []"
  by (cases p) simp

lemma usb_pending_empty: "tx_count u = 0 \<Longrightarrow> usb_pending u = []"
  by (simp add: usb_pending_def usb_packets_def split: adb_usb_tx_phase.splits)

lemma usb_head:
  assumes "usb_queue_ok c u" "tx_count u \<noteq> 0"
  obtains h d ps where "usb_packets u = (h, d) # ps" "h = p_header (tx_queue u ! tx_head u)" "h \<noteq> []"
    "d = take (p_payload_len (tx_queue u ! tx_head u)) (p_payload (tx_queue u ! tx_head u))"
    "d = [] \<longleftrightarrow> p_payload_len (tx_queue u ! tx_head u) = 0" "usb_queue_ok c (usb_drop u)" "usb_packets (usb_drop u) = ps"
proof -
  let ?p = "tx_queue u ! tx_head u"
  have "usb_packet_ok c ?p" using assms(1) by (simp add: usb_queue_ok_def list_all_length)
  then have "p_header ?p \<noteq> []" "p_payload_len ?p \<le> length (p_payload ?p)"
    by (auto simp: usb_packet_ok_def WEBOS_ADB_HEADER_SIZE_def)
  moreover from this(2) have "take (p_payload_len ?p) (p_payload ?p) = [] \<longleftrightarrow> p_payload_len ?p = 0" by auto
  ultimately show thesis using usb_drop_fifo [OF assms] that by (simp add: usb_entry_def)
qed

lemma buffers_ok_updates [simp]:
  "buffers_ok held flying X (u\<lparr>usb_in_engaged := e\<rparr>) = buffers_ok held flying X u"
  "buffers_ok held flying X (u\<lparr>tx_phase := p\<rparr>) = buffers_ok held flying X u"
  "buffers_ok held flying X (u\<lparr>usb_resetting := r\<rparr>) = buffers_ok held flying X u"
  "buffers_ok held flying X (u\<lparr>usb_enabled := r\<rparr>) = buffers_ok held flying X u"
  "buffers_ok held flying X (u\<lparr>class_data := r\<rparr>) = buffers_ok held flying X u"
  "buffers_ok held flying X (u\<lparr>usb_out_engaged := e\<rparr>) = buffers_ok held flying X u"
  "buffers_ok held flying X (usb_put hdr data u) = buffers_ok held flying X u"
  "buffers_ok held flying X (usb_drop u) = buffers_ok held flying X u"
  by (simp_all add: buffers_ok_def usb_put_def usb_drop_def)

lemma reset_tx_good:
  "usb_base c u \<Longrightarrow> usb_ok c (reset_tx_queue_unlocked u)"
  "buffers_ok held flying X u \<Longrightarrow> buffers_ok held flying X (reset_tx_queue_unlocked u)"
  "usb_wire sent (reset_tx_queue_unlocked u) = sent (usb_stack u)"
  by (auto simp: usb_ok_def usb_base_def usb_queue_ok_def reset_tx_queue_unlocked_def buffers_ok_def usb_wire_def usb_pending_empty)

text \<open>The flags that only the callbacks change.\<close>

definition same_flags :: "'u adb_usb_data \<Rightarrow> 'u adb_usb_data \<Rightarrow> bool" where
  "same_flags u u' \<longleftrightarrow> usb_resetting u' = usb_resetting u \<and> usb_enabled u' = usb_enabled u \<and> class_data u' = class_data u \<and>
     usb_out_engaged u' = usb_out_engaged u \<and> active_out_buffer u' = active_out_buffer u"

text \<open>Handing over the next transfer: either it is under way, or the queue still holds everything.\<close>

definition handed :: "kconfig \<Rightarrow> ('u \<Rightarrow> nat \<rightharpoonup> nat) \<Rightarrow> ('u \<Rightarrow> nat set) \<Rightarrow> ('u \<Rightarrow> byte list list) \<Rightarrow> nat set \<Rightarrow> int \<Rightarrow>
    'u adb_usb_data \<Rightarrow> 'u adb_usb_data \<Rightarrow> bool" where
  "handed c held flying sent X ret u u' \<longleftrightarrow> usb_base c u' \<and> buffers_ok held flying X u' \<and> same_flags u u' \<and>
     (if ret = 0 then usb_ok c u' \<and> usb_wire sent u' = usb_wire sent u \<and> Suc (length (usb_pending u')) = length (usb_pending u)
      else sent (usb_stack u') = sent (usb_stack u))"

text \<open>The end of a transfer: the next one is under way or the queue is empty, or everything pending is dropped.\<close>

definition advanced :: "kconfig \<Rightarrow> ('u \<Rightarrow> nat \<rightharpoonup> nat) \<Rightarrow> ('u \<Rightarrow> nat set) \<Rightarrow> ('u \<Rightarrow> byte list list) \<Rightarrow> nat set \<Rightarrow> bool \<Rightarrow>
    'u adb_usb_data \<Rightarrow> 'u adb_usb_data \<Rightarrow> bool" where
  "advanced c held flying sent X reset u u' \<longleftrightarrow> usb_good c held flying X u' \<and> same_flags u u' \<and>
     (if reset then usb_wire sent u' = sent (usb_stack u) \<and> tx_count u' = 0
      else usb_wire sent u' = usb_wire sent u \<and> length (usb_pending u') = length (usb_pending u) - 1 \<and>
        (usb_pending u = [] \<longrightarrow> tx_count u' = 0))"

lemma handed_reset:
  "handed c held flying sent X ret u u' \<Longrightarrow> ret \<noteq> 0 \<Longrightarrow> advanced c held flying sent X True u (reset_tx_queue_unlocked u')"
  using reset_tx_good(1) [of c u'] reset_tx_good(2) [of held flying X u'] reset_tx_good(3) [of sent u']
  by (auto simp: handed_def advanced_def usb_good_def same_flags_def) (simp_all add: reset_tx_queue_unlocked_def)

lemma handed_0: "handed c held flying sent X 0 u u' \<Longrightarrow> advanced c held flying sent X False u u'"
  by (auto simp: handed_def advanced_def usb_good_def)

lemma advanced_shift:
  "advanced c held flying sent X rs v w \<Longrightarrow> sent (usb_stack v) = sent (usb_stack u) \<Longrightarrow> usb_pending v = usb_pending u \<Longrightarrow>
    same_flags u v \<Longrightarrow> advanced c held flying sent X rs u w"
  by (simp add: advanced_def usb_wire_def same_flags_def split: if_splits)

lemma start_tx_step:
  assumes law: "usbd_lawful S held flying sent" and ok: "usb_quiet c u" "buffers_ok held flying X u" and some: "tx_count u \<noteq> 0"
    and start: "start_tx_packet_unlocked S u = (ret, u')"
  shows "handed c held flying sent X ret u u'"
proof -
  have q: "usb_queue_ok c u" "usb_base c u" using ok(1) by (auto simp: usb_quiet_def usb_base_def)
  obtain h d ps where h: "usb_packets u = (h, d) # ps" "h = p_header (tx_queue u ! tx_head u)" "h \<noteq> []"
    by (rule usb_head [OF q(1) some]) blast
  let ?u = "u\<lparr>usb_in_engaged := True, tx_phase := ADB_USB_TX_HEADER\<rparr>"
  obtain r u1 where e: "enqueue_in S h ?u = (r, u1)" by fastforce
  have s: "(ret, u') = (if r \<noteq> 0 then (r, u1\<lparr>tx_phase := ADB_USB_TX_IDLE, usb_in_engaged := False\<rparr>) else (r, u1))"
    using start some ok(1) e by (simp add: start_tx_packet_unlocked_def usb_quiet_def h(2))
  have pre: "buffers_ok held flying X ?u" "active_in_buffer ?u = None" using ok by (simp_all add: usb_quiet_def)
  obtain b k where b: "u1 = ?u\<lparr>active_in_buffer := b, usb_stack := k\<rparr>" "b \<noteq> None \<longleftrightarrow> r = 0" "buffers_ok held flying X u1"
    "sent k = (if r = 0 then sent (usb_stack ?u) @ [h] else sent (usb_stack ?u))"
    by (rule enqueue_in_step [OF law pre e h(3)])
  show ?thesis
  proof (cases "r = 0")
    case True
    have "usb_wire sent u1 = usb_wire sent u" "Suc (length (usb_pending u1)) = length (usb_pending u)"
      using True b h ok(1) by (simp_all add: usb_wire_def usb_pending_def usb_quiet_def)
    then show ?thesis using True s b q some by (simp add: usb_ok_def handed_def same_flags_def)
  next
    case False
    then show ?thesis using s b q by (simp add: buffers_ok_def handed_def same_flags_def)
  qed
qed

lemma usb_put_step:
  assumes ok: "usb_good c held flying X u" and room: "tx_count u < length (tx_queue u)"
    and fits: "length hdr = WEBOS_ADB_HEADER_SIZE" "length data \<le> WEBOS_ADB_USB_TRANSFER_SIZE c"
  shows "usb_base c (usb_put hdr data u)" "buffers_ok held flying X (usb_put hdr data u)" "same_flags u (usb_put hdr data u)"
    "usb_wire sent (usb_put hdr data u) = usb_wire sent u @ packet_transfers (hdr, data)"
    "if tx_count u = 0 then usb_quiet c (usb_put hdr data u) else usb_ok c (usb_put hdr data u)"
proof -
  let ?v = "usb_put hdr data u"
  have u: "usb_base c u" "usb_queue_ok c u" "usb_ok c u" "buffers_ok held flying X u"
    using ok by (auto simp: usb_good_def usb_ok_def usb_base_def)
  note v = usb_put_fifo [OF u(2) room fits]
  show b: "usb_base c ?v" "buffers_ok held flying X ?v" "same_flags u ?v"
    using u v by (simp_all add: usb_base_def same_flags_def) (simp_all add: usb_put_def)
  have f: "tx_phase ?v = tx_phase u" "usb_in_engaged ?v = usb_in_engaged u" "active_in_buffer ?v = active_in_buffer u"
    "tx_count ?v = tx_count u + 1" "usb_stack ?v = usb_stack u" by (simp_all add: usb_put_def)
  show "usb_wire sent ?v = usb_wire sent u @ packet_transfers (hdr, data)"
  proof (cases "tx_count u = 0")
    case True
    then show ?thesis using u(3) v f by (auto simp: usb_wire_def usb_pending_def usb_ok_def usb_packets_def)
  next
    case False
    obtain h d ps where h: "usb_packets u = (h, d) # ps" by (rule usb_head [OF u(2) False]) blast
    then show ?thesis using u(3) False v f by (auto simp: usb_wire_def usb_pending_def usb_ok_def split: adb_usb_tx_phase.splits)
  qed
  have "tx_queue ?v ! tx_head ?v = tx_queue u ! tx_head u" if "tx_count u \<noteq> 0"
  proof -
    have "tx_tail u \<noteq> tx_head u" using u(2) room that by (auto simp: usb_queue_ok_def mod_if split: if_splits)
    then show ?thesis by (simp add: usb_put_def)
  qed
  then show "if tx_count u = 0 then usb_quiet c ?v else usb_ok c ?v"
    using u(3) b(1) f by (auto simp: usb_ok_def usb_quiet_def)
qed

lemma send_step:
  assumes law: "usbd_lawful S held flying sent" and ok: "usb_good c held flying X u"
    and snd: "webos_adb_usb_send S c (Some hdr) (length hdr) (if data = [] then None else Some data) (length data) u = (ret, u')"
  shows "usb_good c held flying X u' \<and> same_flags u u' \<and>
    usb_wire sent u' = usb_wire sent u @ (if ret = 0 then packet_transfers (hdr, data) else [])"
proof (cases "class_data u \<and> usb_enabled u \<and> \<not> usb_resetting u \<and> length hdr = WEBOS_ADB_HEADER_SIZE \<and>
    length data \<le> WEBOS_ADB_USB_TRANSFER_SIZE c \<and> tx_count u \<noteq> length (tx_queue u)")
  case False
  then have "u' = u \<and> ret \<noteq> 0" using snd by (auto simp: webos_adb_usb_send_def errno_simps split: if_splits)
  then show ?thesis using ok by (simp add: same_flags_def)
next
  case True
  let ?v = "usb_put hdr data u"
  have room: "tx_count u < length (tx_queue u)" using ok True by (simp add: usb_good_def usb_ok_def usb_base_def usb_queue_ok_def)
  have fits: "length hdr = WEBOS_ADB_HEADER_SIZE" "length data \<le> WEBOS_ADB_USB_TRANSFER_SIZE c" using True by simp_all
  note v = usb_put_step [OF ok room fits]
  have bytes: "bytes_of (Some hdr) (length hdr) = hdr" "bytes_of (if data = [] then None else Some data) (length data) = data"
    "\<not> ((if data = [] then None else Some data) = None \<and> length data \<noteq> 0)"
    by (simp_all add: bytes_of_def)
  have eq: "(ret, u') = (if tx_count u = 0 then let (ret, u) = start_tx_packet_unlocked S ?v in
      if ret \<noteq> 0 then (ret, reset_tx_queue_unlocked u) else (ret, u) else (0, ?v))"
    using snd True bytes by (auto simp: webos_adb_usb_send_def Let_def)
  show ?thesis
  proof (cases "tx_count u = 0")
    case empty: True
    obtain r u1 where s: "start_tx_packet_unlocked S ?v = (r, u1)" by fastforce
    have quiet: "usb_quiet c ?v" "tx_count ?v \<noteq> 0" "usb_stack ?v = usb_stack u" using v(5) empty by simp_all (simp_all add: usb_put_def)
    note st = start_tx_step [OF law quiet(1) v(2) quiet(2) s]
    have wire: "usb_wire sent u = sent (usb_stack u)" using empty by (simp add: usb_wire_def usb_pending_empty)
    show ?thesis
    proof (cases "r = 0")
      case True
      then show ?thesis using st eq s empty v(3) v(4) [of sent] by (auto simp: handed_def usb_good_def same_flags_def)
    next
      case False
      then show ?thesis using handed_reset [OF st False] eq s empty v(3) wire quiet(3) by (simp add: advanced_def same_flags_def)
    qed
  next
    case False
    then show ?thesis using eq v(2,3,5) v(4) [of sent] by (simp add: usb_good_def)
  qed
qed

lemma payload_step:
  assumes law: "usbd_lawful S held flying sent" and ok: "usb_base c u" "buffers_ok held flying X u" "active_in_buffer u = None"
    and phase: "tx_phase u = ADB_USB_TX_HEADER" "usb_in_engaged u" "tx_count u \<noteq> 0" and h: "usb_packets u = (h, d) # ps" "d \<noteq> []"
    and d: "p_payload_len (tx_queue u ! tx_head u) \<noteq> 0"
    and e: "enqueue_in S d (u\<lparr>tx_phase := ADB_USB_TX_PAYLOAD\<rparr>) = (ret, u')"
  shows "handed c held flying sent X ret u u'"
proof -
  have pre: "buffers_ok held flying X (u\<lparr>tx_phase := ADB_USB_TX_PAYLOAD\<rparr>)" "active_in_buffer (u\<lparr>tx_phase := ADB_USB_TX_PAYLOAD\<rparr>) = None"
    using ok by simp_all
  obtain b k where b: "u' = u\<lparr>tx_phase := ADB_USB_TX_PAYLOAD, active_in_buffer := b, usb_stack := k\<rparr>" "b \<noteq> None \<longleftrightarrow> ret = 0"
    "buffers_ok held flying X u'" "sent k = (if ret = 0 then sent (usb_stack u) @ [d] else sent (usb_stack u))"
    by (rule enqueue_in_step [OF law pre e h(2)]) simp
  show ?thesis
  proof (cases "ret = 0")
    case True
    have "usb_wire sent u' = usb_wire sent u" "Suc (length (usb_pending u')) = length (usb_pending u)"
      using True b(1,4) h phase by (simp_all add: usb_wire_def usb_pending_def)
    moreover have "usb_ok c u'" using True b(1,2) ok(1) phase d by (simp add: usb_ok_def)
    ultimately show ?thesis using True b(1,3) ok(1) by (simp add: handed_def same_flags_def)
  next
    case False
    then show ?thesis using b ok(1) by (simp add: handed_def same_flags_def)
  qed
qed

lemma advance_tx_step:
  assumes law: "usbd_lawful S held flying sent" and base: "usb_base c u" "buffers_ok held flying X u" "active_in_buffer u = None"
    and some: "tx_count u \<noteq> 0" and pend: "usb_pending u = concat (map packet_transfers (tl (usb_packets u)))"
    and adv: "advance_tx S u = (ret, notify, reset, u')"
  shows "advanced c held flying sent X reset u u'"
proof -
  have q: "usb_queue_ok c u" using base(1) by (simp add: usb_base_def)
  obtain h d ps where h: "usb_packets u = (h, d) # ps" "usb_queue_ok c (usb_drop u)" "usb_packets (usb_drop u) = ps"
    by (rule usb_head [OF q some]) blast
  define v where "v = (usb_drop u)\<lparr>tx_phase := ADB_USB_TX_IDLE, usb_in_engaged := False\<rparr>"
  have v: "usb_quiet c v" "buffers_ok held flying X v" "usb_pending v = usb_pending u" "usb_stack v = usb_stack u" "same_flags u v"
    using base h pend by (simp_all add: v_def usb_quiet_def usb_base_def usb_pending_def usb_queue_ok_def same_flags_def)
      (simp_all add: usb_drop_def)
  have shift: "advanced c held flying sent X rs v w \<Longrightarrow> advanced c held flying sent X rs u w" for rs w
    using v(3-5) by (simp add: advanced_shift)
  have eq: "(ret, notify, reset, u') = (if tx_count v \<noteq> 0 then let (ret, u) = start_tx_packet_unlocked S v in
      if ret \<noteq> 0 then (ret, False, True, reset_tx_queue_unlocked u) else (ret, True, False, u) else (0, True, False, v))"
    unfolding adv [symmetric] by (simp add: advance_tx_def v_def usb_drop_def Let_def)
  show ?thesis
  proof (cases "tx_count v = 0")
    case True
    then show ?thesis using eq v usb_pending_empty [of v] by (intro shift) (simp add: advanced_def usb_good_def usb_ok_empty same_flags_def)
  next
    case False
    obtain r u1 where s: "start_tx_packet_unlocked S v = (r, u1)" by fastforce
    have st: "handed c held flying sent X r v u1" by (rule start_tx_step [OF law v(1,2) False s])
    show ?thesis
    proof (cases "r = 0")
      case True
      then show ?thesis using eq s False handed_0 [OF st [unfolded True]] by (intro shift) simp
    next
      case F: False
      then show ?thesis using eq s False handed_reset [OF st F] by (intro shift) simp
    qed
  qed
qed

lemma in_complete_step:
  assumes law: "usbd_lawful S held flying sent" and ok: "usb_good c held flying {} u" and act: "active_in_buffer u = Some b"
    and fin: "transfer_done held flying sent b (usb_stack u) k"
    and comp: "in_complete S b err (u\<lparr>usb_stack := k\<rparr>) = (ret, notify, reset, u')"
  shows "\<exists>u1. u' = (if reset then u1\<lparr>usb_resetting := True\<rparr> else u1) \<and> advanced c held flying sent {} reset u u1"
proof -
  let ?p = "tx_queue u ! tx_head u"
  define v where "v = u\<lparr>active_in_buffer := None, usb_stack := net_buf_unref S b k\<rparr>"
  have some: "tx_count u \<noteq> 0" "usb_in_engaged u" and base: "usb_base c u" and q: "usb_queue_ok c u"
    and ph: "tx_phase u = ADB_USB_TX_HEADER \<or> tx_phase u = ADB_USB_TX_PAYLOAD \<and> p_payload_len ?p \<noteq> 0"
    using ok act by (cases "tx_phase u"; auto simp: usb_good_def usb_ok_def usb_base_def)+
  obtain h d ps where h: "usb_packets u = (h, d) # ps" "d = take (p_payload_len ?p) (p_payload ?p)" "d = [] \<longleftrightarrow> p_payload_len ?p = 0"
    using usb_head [OF q some(1)] by metis
  have v: "usb_base c v" "buffers_ok held flying {} v" "active_in_buffer v = None" "sent (usb_stack v) = sent (usb_stack u)"
    "usb_pending v = usb_pending u" "tx_count v = tx_count u" "usb_packets v = usb_packets u" "tx_phase v = tx_phase u"
    "tx_queue v = tx_queue u" "tx_head v = tx_head u" "usb_in_engaged v = usb_in_engaged u" "same_flags u v"
    using base ok act fin lawfulD(4-6) [OF law, of b k]
    by (auto simp: v_def usb_good_def same_flags_def usb_pending_def buffers_ok_def transfer_done_def bulk_endpoints_differ [symmetric]
        split: adb_usb_tx_phase.splits)
  have shift: "advanced c held flying sent {} rs v w \<Longrightarrow> advanced c held flying sent {} rs u w" for rs w
    using v(4,5,12) by (simp add: advanced_shift)
  define w where "w = (if err \<noteq> 0 then (0, False, True, reset_tx_queue_unlocked v)
     else if tx_count v = 0 then (0, False, False, v)
     else if tx_phase v = ADB_USB_TX_HEADER \<and> p_payload_len (tx_queue v ! tx_head v) \<noteq> 0 then
       let (ret, u) = enqueue_in S (take (p_payload_len (tx_queue v ! tx_head v)) (p_payload (tx_queue v ! tx_head v)))
         (v\<lparr>tx_phase := ADB_USB_TX_PAYLOAD\<rparr>) in
       if ret \<noteq> 0 then (ret, False, True, reset_tx_queue_unlocked u) else (ret, False, False, u)
     else advance_tx S v)"
  obtain r n rs u1 where w: "w = (r, n, rs, u1)" by (cases w)
  have "in_complete S b err (u\<lparr>usb_stack := k\<rparr>) =
      (case w of (ret, notify, reset, u) \<Rightarrow> (ret, notify, reset, if reset then u\<lparr>usb_resetting := True\<rparr> else u))"
    by (simp add: in_complete_def v_def w_def Let_def)
  then have eq: "reset = rs" "u' = (if rs then u1\<lparr>usb_resetting := True\<rparr> else u1)" using comp w by simp_all
  consider (failed) "err \<noteq> 0" | (body) "err = 0" "tx_phase u = ADB_USB_TX_HEADER" "d \<noteq> []"
    | (last) "err = 0" "\<not> (tx_phase u = ADB_USB_TX_HEADER \<and> d \<noteq> [])" by blast
  then have "advanced c held flying sent {} rs v u1"
  proof cases
    case failed
    have "handed c held flying sent {} 1 v v" using v by (simp add: handed_def same_flags_def)
    from handed_reset [OF this] show ?thesis using failed w by (simp add: w_def)
  next
    case body
    obtain r2 u2 where e: "enqueue_in S d (v\<lparr>tx_phase := ADB_USB_TX_PAYLOAD\<rparr>) = (r2, u2)" by fastforce
    have w2: "w = (if r2 \<noteq> 0 then (r2, False, True, reset_tx_queue_unlocked u2) else (r2, False, False, u2))"
      using body e some h(3) by (simp add: w_def v h(2) [symmetric])
    have "handed c held flying sent {} r2 v u2"
      by (rule payload_step [OF law v(1-3) _ _ _ _ body(3) _ e]) (use v body some h in simp_all)
    from handed_reset [OF this] handed_0 [of c held flying sent "{}" v u2] this show ?thesis using w w2 by (cases "r2 = 0") simp_all
  next
    case last
    then have "w = advance_tx S v" using h(3) some by (auto simp: w_def v)
    moreover have "usb_pending v = concat (map packet_transfers (tl (usb_packets v)))"
      using ph h last by (auto simp: v usb_pending_def)
    ultimately show ?thesis using advance_tx_step [OF law v(1-3) _ _, of r n rs u1] some w v(6) by simp
  qed
  then show ?thesis using eq shift by blast
qed

section \<open>Runs of the transport\<close>

text \<open>
  Calls of the transport and ends of its transfers, with the packets accepted so far; the flag tells
  that the last transfer failed, or could not be followed by the next one, and that the queue was
  therefore emptied.
\<close>

inductive usb_run ::
    "'u usbd \<Rightarrow> kconfig \<Rightarrow> ('u \<Rightarrow> nat \<rightharpoonup> nat) \<Rightarrow> ('u \<Rightarrow> nat set) \<Rightarrow> ('u \<Rightarrow> byte list list) \<Rightarrow>
     (byte list \<times> byte list) list \<Rightarrow> bool \<Rightarrow> 'u adb_usb_data \<Rightarrow> 'u adb_usb_data \<Rightarrow> bool"
  for S c held flying sent where
  idle: "usb_run S c held flying sent [] False u u"
| send: "usb_run S c held flying sent ps False u u1 \<Longrightarrow> usb_transport S c hdr data u1 = (ret, u2) \<Longrightarrow>
    usb_run S c held flying sent (ps @ (if ret = 0 then [(hdr, data)] else [])) False u u2"
| transferred: "usb_run S c held flying sent ps False u u1 \<Longrightarrow> active_in_buffer u1 = Some b \<Longrightarrow>
    transfer_done held flying sent b (usb_stack u1) k \<Longrightarrow>
    in_complete S b err (u1\<lparr>usb_stack := k\<rparr>) = (ret, notify, lost, u2) \<Longrightarrow> usb_run S c held flying sent ps lost u u2"

lemma usb_run_wire:
  assumes "usb_run S c held flying sent ps lost u u'" and law: "usbd_lawful S held flying sent" and ok: "usb_good c held flying {} u"
  shows "usb_good c held flying {} u' \<and>
    (if lost then \<exists>rest. usb_wire sent u' @ rest = usb_wire sent u @ concat (map packet_transfers ps) \<and> tx_count u' = 0
     else usb_wire sent u' = usb_wire sent u @ concat (map packet_transfers ps))"
  using assms(1) ok
proof induction
  case (send ps u u1 hdr data ret u2)
  have "usb_good c held flying {} u1" using send.IH [OF send.prems] by simp
  from send_step [OF law this send.hyps(2) [unfolded usb_transport_def]] show ?case using send.IH [OF send.prems] by simp
next
  case (transferred ps u u1 b k err ret notify lost u2)
  have g: "usb_good c held flying {} u1" and w: "usb_wire sent u1 = usb_wire sent u @ concat (map packet_transfers ps)"
    using transferred.IH [OF transferred.prems] by simp_all
  obtain v where v: "u2 = (if lost then v\<lparr>usb_resetting := True\<rparr> else v)" "advanced c held flying sent {} lost u1 v"
    using in_complete_step [OF law g transferred.hyps(2-4)] by blast
  have "usb_wire sent (v\<lparr>usb_resetting := True\<rparr>) = usb_wire sent v" "usb_good c held flying {} (v\<lparr>usb_resetting := True\<rparr>) = usb_good c held flying {} v"
    by (simp_all add: usb_wire_def usb_pending_def usb_good_def usb_ok_def split: adb_usb_tx_phase.splits)
  then show ?case using v w by (cases lost) (auto simp: advanced_def usb_wire_def)
qed simp

text \<open>
  C2: The transport refines a queue of transfers.  Over any run of sends and ends of transfers, the
  transfers handed to the USB stack followed by those pending are those at the start followed by the
  header, and the payload when there is one, of every packet for which \<open>webos_adb_usb_send\<close> returned
  0, in this order; when a failure empties the queue, what was handed over is a prefix of that.
\<close>

theorem usb_transfers_in_order:
  assumes "usbd_lawful S held flying sent" and "usb_good c held flying {} u" and "usb_run S c held flying sent ps lost u u'"
  shows "if lost then \<exists>rest. sent (usb_stack u') @ rest = sent (usb_stack u) @ usb_pending u @ concat (map packet_transfers ps)
    else sent (usb_stack u') @ usb_pending u' = sent (usb_stack u) @ usb_pending u @ concat (map packet_transfers ps)"
  using usb_run_wire [OF assms(3,1,2)] by (auto simp: usb_wire_def usb_pending_empty)

section \<open>Progress\<close>

definition usbd_reliable :: "'u usbd \<Rightarrow> bool" where
  "usbd_reliable S \<longleftrightarrow> (\<forall>ep n k. fst (usbd_ep_buf_alloc S ep n k) \<noteq> None) \<and> (\<forall>b d k. fst (usbd_ep_enqueue S b d k) = 0)"

text \<open>The end of the transfer on the way, if there is one; \<open>finish\<close> is what the controller does to the stack.\<close>

definition usb_complete :: "'u usbd \<Rightarrow> (nat \<Rightarrow> 'u \<Rightarrow> 'u) \<Rightarrow> 'u adb_usb_data \<Rightarrow> 'u adb_usb_data" where
  "usb_complete S finish u =
     (case active_in_buffer u of
        None \<Rightarrow> u
      | Some b \<Rightarrow> snd (snd (snd (in_complete S b 0 (u\<lparr>usb_stack := finish b (usb_stack u)\<rparr>)))))"

lemma reliable_enqueue:
  assumes "usbd_reliable S"
  obtains u' where "enqueue_in S data u = (0, u')"
proof -
  obtain b k where a: "usbd_ep_buf_alloc S bulk_in_endpoint (length data) (usb_stack u) = (Some b, k)"
    using assms unfolding usbd_reliable_def by (metis not_None_eq prod.collapse)
  obtain k2 where "usbd_ep_enqueue S b data k = (0, k2)" using assms unfolding usbd_reliable_def by (metis prod.collapse)
  then show thesis using a that by (simp add: enqueue_in_def)
qed

lemma reliable_start:
  assumes "usbd_reliable S" "tx_count u \<noteq> 0" "\<not> usb_in_engaged u"
  obtains u' where "start_tx_packet_unlocked S u = (0, u')"
proof -
  obtain u' where "enqueue_in S (p_header (tx_queue u ! tx_head u)) (u\<lparr>usb_in_engaged := True, tx_phase := ADB_USB_TX_HEADER\<rparr>) = (0, u')"
    by (rule reliable_enqueue [OF assms(1)])
  then show thesis using assms that by (simp add: start_tx_packet_unlocked_def)
qed

lemma reliable_advance:
  assumes "usbd_reliable S"
  obtains u' where "advance_tx S u = (0, True, False, u')"
proof -
  let ?v = "u\<lparr>tx_head := (tx_head u + 1) mod length (tx_queue u), tx_count := tx_count u - 1, tx_phase := ADB_USB_TX_IDLE, usb_in_engaged := False\<rparr>"
  show thesis
  proof (cases "tx_count ?v = 0")
    case True
    then show thesis using that [of ?v] by (simp add: advance_tx_def)
  next
    case False
    obtain u' where "start_tx_packet_unlocked S ?v = (0, u')" by (rule reliable_start [OF assms False]) simp
    then show thesis using that [of u'] False by (simp add: advance_tx_def Let_def)
  qed
qed

lemma reliable_in_complete:
  assumes rel: "usbd_reliable S" and comp: "in_complete S b 0 u = (ret, notify, reset, u')"
  shows "\<not> reset"
proof -
  let ?v = "u\<lparr>active_in_buffer := None, usb_stack := net_buf_unref S b (usb_stack u)\<rparr>"
  let ?p = "tx_queue u ! tx_head u"
  obtain u1 where "advance_tx S ?v = (0, True, False, u1)" by (rule reliable_advance [OF rel])
  moreover obtain u2 where "enqueue_in S (take (p_payload_len ?p) (p_payload ?p)) (?v\<lparr>tx_phase := ADB_USB_TX_PAYLOAD\<rparr>) = (0, u2)"
    by (rule reliable_enqueue [OF rel])
  ultimately show ?thesis using comp by (simp add: in_complete_def Let_def split: if_splits)
qed

lemma usb_complete_step:
  assumes law: "usbd_lawful S held flying sent" and rel: "usbd_reliable S" and ok: "usb_good c held flying {} u"
    and fin: "\<And>b k. b \<in> flying k \<Longrightarrow> transfer_done held flying sent b k (finish b k)"
  shows "usb_good c held flying {} (usb_complete S finish u) \<and> usb_wire sent (usb_complete S finish u) = usb_wire sent u \<and>
    length (usb_pending (usb_complete S finish u)) = length (usb_pending u) - 1 \<and>
    (usb_pending u = [] \<longrightarrow> tx_count (usb_complete S finish u) = 0)"
proof (cases "active_in_buffer u")
  case None
  then have "tx_count u = 0" using ok by (auto simp: usb_good_def usb_ok_def)
  then show ?thesis using None ok by (simp add: usb_complete_def usb_pending_empty)
next
  case (Some b)
  then have k: "transfer_done held flying sent b (usb_stack u) (finish b (usb_stack u))"
    using ok by (intro fin) (simp add: usb_good_def buffers_ok_def)
  obtain ret notify reset u' where comp: "in_complete S b 0 (u\<lparr>usb_stack := finish b (usb_stack u)\<rparr>) = (ret, notify, reset, u')"
    by (metis prod.exhaust)
  show ?thesis using in_complete_step [OF law ok Some k comp] reliable_in_complete [OF rel comp]
    by (auto simp: usb_complete_def Some comp advanced_def)
qed

lemma usb_complete_steps:
  assumes law: "usbd_lawful S held flying sent" and rel: "usbd_reliable S" and ok: "usb_good c held flying {} u"
    and fin: "\<And>b k. b \<in> flying k \<Longrightarrow> transfer_done held flying sent b k (finish b k)"
  shows "usb_good c held flying {} ((usb_complete S finish ^^ n) u) \<and> usb_wire sent ((usb_complete S finish ^^ n) u) = usb_wire sent u \<and>
    length (usb_pending ((usb_complete S finish ^^ n) u)) = length (usb_pending u) - n"
proof (induction n)
  case (Suc n)
  then show ?case using usb_complete_step [OF law rel _ fin, of c "(usb_complete S finish ^^ n) u"] by simp
qed (use ok in simp)

text \<open>
  C3: The queue never stalls: on a USB stack that has memory and accepts every transfer, as many ends
  of transfers as there are pending transfers, and one more, empty the queue, and by then everything
  that was pending has been handed over in order.
\<close>

theorem usb_queue_drains:
  assumes "usbd_lawful S held flying sent" and "usbd_reliable S" and "usb_good c held flying {} u"
    and "\<And>b k. b \<in> flying k \<Longrightarrow> transfer_done held flying sent b k (finish b k)"
  shows "let u' = (usb_complete S finish ^^ Suc (length (usb_pending u))) u in
    tx_count u' = 0 \<and> sent (usb_stack u') = sent (usb_stack u) @ usb_pending u"
proof -
  define v where "v = (usb_complete S finish ^^ length (usb_pending u)) u"
  have v: "usb_good c held flying {} v" "usb_wire sent v = usb_wire sent u" "usb_pending v = []"
    using usb_complete_steps [OF assms, of "length (usb_pending u)"] by (simp_all add: v_def)
  have "tx_count (usb_complete S finish v) = 0" "usb_wire sent (usb_complete S finish v) = usb_wire sent u"
    using usb_complete_step [OF assms(1,2) v(1) assms(4)] v by simp_all
  then show ?thesis by (simp add: v_def usb_wire_def usb_pending_empty)
qed

section \<open>A USB stack for the witnesses\<close>

record sample_usb =
  su_held :: "(nat \<times> nat) list"
  su_flying :: "nat list"
  su_sent :: "byte list list"

definition sample_fresh :: "sample_usb \<Rightarrow> nat" where
  "sample_fresh k = Suc (foldr max (map fst (su_held k)) 0)"

definition sample_usbd :: "sample_usb usbd" where
  "sample_usbd =
     \<lparr>usbd_ep_buf_alloc = (\<lambda>ep n k. (Some (sample_fresh k), k\<lparr>su_held := (sample_fresh k, ep) # su_held k\<rparr>)),
      usbd_ep_enqueue = (\<lambda>b d k. (0, k\<lparr>su_flying := b # su_flying k, su_sent := (if d = [] then su_sent k else su_sent k @ [d])\<rparr>)),
      net_buf_unref = (\<lambda>b k. k\<lparr>su_held := filter (\<lambda>p. fst p \<noteq> b) (su_held k)\<rparr>)\<rparr>"

definition sample_finish :: "nat \<Rightarrow> sample_usb \<Rightarrow> sample_usb" where
  "sample_finish b k = k\<lparr>su_flying := filter (\<lambda>x. x \<noteq> b) (su_flying k)\<rparr>"

abbreviation "sample_held \<equiv> \<lambda>k. map_of (su_held k)"
abbreviation "sample_flying \<equiv> \<lambda>k. set (su_flying k)"

lemma sample_usbd_lawful: "usbd_lawful sample_usbd sample_held sample_flying su_sent"
proof -
  have le: "n \<in> set ns \<Longrightarrow> n \<le> foldr max ns (0 :: nat)" for n ns by (induction ns) auto
  have "b \<in> fst ` set l \<Longrightarrow> b \<le> foldr max (map fst l) 0" for b :: nat and l :: "(nat \<times> nat) list" using le [of b "map fst l"] by simp
  then have "Suc (foldr max (map fst l) 0) \<notin> fst ` set l" for l :: "(nat \<times> nat) list" using not_less_eq_eq by blast
  then have "map_of (su_held k) (sample_fresh k) = None" for k by (simp add: sample_fresh_def map_of_eq_None_iff)
  moreover have "map_of (filter (\<lambda>p. fst p \<noteq> b) l) = (map_of l)(b := None)" for b and l :: "(nat \<times> nat) list"
    by (induction l) auto
  ultimately show ?thesis by (simp add: usbd_lawful_def sample_usbd_def domIff)
qed

lemma sample_usbd_reliable: "usbd_reliable sample_usbd"
  by (simp add: usbd_reliable_def sample_usbd_def)

lemma sample_finish_done: "b \<in> sample_flying k \<Longrightarrow> transfer_done sample_held sample_flying su_sent b k (sample_finish b k)"
  by (auto simp: transfer_done_def sample_finish_def)

definition sample_usb_link :: "sample_usb adb_usb_data" where
  "sample_usb_link = (usb_boot default_kconfig \<lparr>su_held = [], su_flying = [], su_sent = []\<rparr>)\<lparr>class_data := True, usb_enabled := True\<rparr>"

lemma usb_boot_ok: "kconfig_ok c \<Longrightarrow> usb_ok c (usb_boot c k)"
  by (simp add: usb_ok_def usb_base_def usb_queue_ok_def usb_packet_ok_def usb_boot_def kconfig_ok_def list_all_length)

lemma sample_usb_link_good: "usb_good default_kconfig sample_held sample_flying {} sample_usb_link"
  using usb_boot_ok [OF default_kconfig_ok, of "\<lparr>su_held = [], su_flying = [], su_sent = []\<rparr>"]
  by (simp add: usb_good_def sample_usb_link_def usb_ok_def) (simp add: buffers_ok_def usb_boot_def)

lemma sample_send: "\<exists>u. usb_transport sample_usbd default_kconfig (replicate 24 CHR ''h'') ''ping'' sample_usb_link = (0, u) \<and>
    active_in_buffer u = Some 1 \<and> tx_count u = 1"
  by (simp add: usb_transport_def webos_adb_usb_send_def sample_usb_link_def usb_boot_def default_kconfig_def WEBOS_ADB_HEADER_SIZE_def
      start_tx_packet_unlocked_def usb_put_def enqueue_in_def sample_usbd_def sample_fresh_def)

theorem usb_transfers_in_order_witness:
  "\<exists>u u'. usb_run sample_usbd default_kconfig sample_held sample_flying su_sent [(replicate 24 CHR ''h'', ''ping'')] False sample_usb_link u \<and>
     su_sent (usb_stack u) @ usb_pending u = [replicate 24 CHR ''h'', ''ping''] \<and>
     usb_run sample_usbd default_kconfig sample_held sample_flying su_sent [(replicate 24 CHR ''h'', ''ping'')] True sample_usb_link u' \<and>
     (\<exists>rest. su_sent (usb_stack u') @ rest = [replicate 24 CHR ''h'', ''ping''])"
proof -
  let ?p = "[(replicate 24 CHR ''h'', ''ping'')]"
  have none: "su_sent (usb_stack sample_usb_link) = []" "usb_pending sample_usb_link = []"
    by (simp_all add: sample_usb_link_def usb_boot_def usb_pending_empty)
  obtain u where u: "usb_transport sample_usbd default_kconfig (replicate 24 CHR ''h'') ''ping'' sample_usb_link = (0, u)" "active_in_buffer u = Some 1"
    using sample_send by blast
  have run: "usb_run sample_usbd default_kconfig sample_held sample_flying su_sent ?p False sample_usb_link u"
    using usb_run.send [OF usb_run.idle u(1)] by simp
  have "usb_good default_kconfig sample_held sample_flying {} u"
    using send_step [OF sample_usbd_lawful sample_usb_link_good u(1) [unfolded usb_transport_def]] by blast
  then have "1 \<in> sample_flying (usb_stack u)" using u(2) by (simp add: usb_good_def buffers_ok_def)
  note d = sample_finish_done [OF this]
  obtain ret notify lost u' where c: "in_complete sample_usbd 1 (- 5) (u\<lparr>usb_stack := sample_finish 1 (usb_stack u)\<rparr>) = (ret, notify, lost, u')"
    by (metis prod.exhaust)
  have lost by (use c in \<open>auto simp: in_complete_def Let_def\<close>)
  then have run': "usb_run sample_usbd default_kconfig sample_held sample_flying su_sent ?p True sample_usb_link u'"
    using usb_run.transferred [OF run u(2) d c] by simp
  show ?thesis
    using run run' usb_transfers_in_order [OF sample_usbd_lawful sample_usb_link_good run] usb_transfers_in_order [OF sample_usbd_lawful sample_usb_link_good run'] none
    by fastforce
qed

theorem usb_queue_drains_witness:
  "\<exists>u. usb_good default_kconfig sample_held sample_flying {} u \<and> tx_count u = 1 \<and>
     tx_count ((usb_complete sample_usbd sample_finish ^^ Suc (length (usb_pending u))) u) = 0"
proof -
  obtain u where u: "usb_transport sample_usbd default_kconfig (replicate 24 CHR ''h'') ''ping'' sample_usb_link = (0, u)" "tx_count u = 1"
    using sample_send by blast
  have "usb_good default_kconfig sample_held sample_flying {} u"
    using send_step [OF sample_usbd_lawful sample_usb_link_good u(1) [unfolded usb_transport_def]] by blast
  then show ?thesis using u(2) usb_queue_drains [OF sample_usbd_lawful sample_usbd_reliable _ sample_finish_done, of default_kconfig u]
    unfolding Let_def by blast
qed

end
