(* ===== verification/Adb_Usb_System.thy ===== *)
theory Adb_Usb_System
  imports Adb_Usb_Inv
begin

text \<open>
  The whole device over USB: the router with its services, the USB transport and the callbacks of the
  USB class, as one step relation.  The steps keep the invariants of both sides and account for every
  network buffer.
\<close>

section \<open>The router over the transport\<close>

definition device_ok ::
    "('s, 'u adb_usb_data, 'z) adb_services_scheme \<Rightarrow> ('s \<Rightarrow> bool) \<Rightarrow> 'u usbd \<Rightarrow> ('u \<Rightarrow> nat \<rightharpoonup> nat) \<Rightarrow> ('u \<Rightarrow> nat set) \<Rightarrow> nat set \<Rightarrow>
     ('s, 'u adb_usb_data) adb \<Rightarrow> bool" where
  "device_ok E P S held flying X st \<longleftrightarrow> adb_ok E P st \<and> transport_send st = Some (usb_transport S (conf E)) \<and>
     usb_good (conf E) held flying X (link st)"

lemma adb_ok_link [simp]: "adb_ok E P (st\<lparr>link := l\<rparr>) = adb_ok E P st"
  by (simp add: adb_ok_def)

lemma on_link_simps [simp]:
  "link (on_link f st) = f (link st)" "transport_send (on_link f st) = transport_send st"
  "adb_ok E P (on_link f st) = adb_ok E P st" "on_link f (st\<lparr>link := l\<rparr>) = st\<lparr>link := f l\<rparr>" "core_ok E (on_link f st) = core_ok E st"
  "svc (on_link f st) = svc st"
  by (simp_all add: on_link_def)

lemma same_flags_refl [simp]: "same_flags u u"
  by (simp add: same_flags_def)

lemma same_flags_trans: "same_flags u v \<Longrightarrow> same_flags v w \<Longrightarrow> same_flags u w"
  by (simp add: same_flags_def)

lemma reset_tx_queue_good: "usb_good c held flying X u \<Longrightarrow> usb_good c held flying X (reset_tx_queue u)" "same_flags u (reset_tx_queue u)"
  using reset_tx_good(1) [of c u] reset_tx_good(2) [of held flying X u]
  by (auto simp: usb_good_def usb_ok_def reset_tx_queue_def same_flags_def) (simp_all add: reset_tx_queue_unlocked_def)

text \<open>Whatever the router does with the transport, it leaves it in order and does not touch its flags.\<close>

lemma moved_device:
  assumes law: "usbd_lawful S held flying sent" and reset: "webos_adb_usb_reset_tx E = reset_tx_queue"
    and ok: "transport_send st = Some (usb_transport S (conf E))" "usb_good (conf E) held flying X (link st)" and moved: "moved E st st'"
  shows "transport_send st' = Some (usb_transport S (conf E)) \<and> usb_good (conf E) held flying X (link st') \<and> same_flags (link st) (link st')"
proof -
  have sends: "usb_good (conf E) held flying X (snd (usb_transport S (conf E) hdr data l)) \<and> same_flags l (snd (usb_transport S (conf E) hdr data l))"
    if "usb_good (conf E) held flying X l" for hdr data l
    using send_step [OF law that, of hdr data] by (cases "usb_transport S (conf E) hdr data l") (simp add: usb_transport_def)
  have run: "link_run reset_tx_queue (transport_send st) (link st) (link st')" "transport_send st' = transport_send st"
    using moved reset by (simp_all add: moved_def)
  have "usb_good (conf E) held flying X (link st') \<and> same_flags (link st) (link st')"
  proof (rule link_run_invariant [OF run(1), where Q = "\<lambda>l. usb_good (conf E) held flying X l \<and> same_flags (link st) l"])
    fix f hdr data l
    assume "transport_send st = Some f" "usb_good (conf E) held flying X l \<and> same_flags (link st) l"
    then show "usb_good (conf E) held flying X (snd (f hdr data l)) \<and> same_flags (link st) (snd (f hdr data l))"
      using ok(1) sends [of l hdr data] same_flags_trans by auto
  next
    fix l
    assume "usb_good (conf E) held flying X l \<and> same_flags (link st) l"
    then show "usb_good (conf E) held flying X (reset_tx_queue l) \<and> same_flags (link st) (reset_tx_queue l)"
      using reset_tx_queue_good(1) reset_tx_queue_good(2) [of l] same_flags_trans by blast
  qed (use ok in simp)
  then show ?thesis using ok run(2) by simp
qed

lemma reset_usb_queues_good: "usb_base c u \<Longrightarrow> usb_ok c (reset_usb_queues u)"
    "buffers_ok held flying X u \<Longrightarrow> buffers_ok held flying X (reset_usb_queues u)"
  by (auto simp: reset_usb_queues_def reset_tx_queue_unlocked_def usb_ok_def usb_base_def usb_queue_ok_def buffers_ok_def)

lemma usb_good_flags [simp]:
  "usb_good c held flying X (u\<lparr>usb_resetting := r\<rparr>) = usb_good c held flying X u"
  "usb_good c held flying X (u\<lparr>usb_enabled := r\<rparr>) = usb_good c held flying X u"
  "usb_good c held flying X (u\<lparr>class_data := r\<rparr>) = usb_good c held flying X u"
  by (simp_all add: usb_good_def usb_ok_def)

lemma submit_out_good:
  assumes law: "usbd_lawful S held flying sent" and ok: "usb_good c held flying X u" and sub: "submit_out S c u = (ret, u')"
  shows "usb_good c held flying X u' \<and> usb_resetting u' = usb_resetting u \<and> usb_enabled u' = usb_enabled u"
proof -
  have b: "buffers_ok held flying X u" "usb_base c u" "usb_ok c u" using ok by (auto simp: usb_good_def usb_ok_def)
  obtain b e k where "u' = u\<lparr>active_out_buffer := b, usb_out_engaged := e, usb_stack := k\<rparr>" "e \<longleftrightarrow> b \<noteq> None"
    "buffers_ok held flying X u'" "sent k = sent (usb_stack u)" "ret = 0 \<longrightarrow> e"
    by (rule submit_out_step [OF law b(1,2) sub])
  then show ?thesis using b(3) by (auto simp: usb_good_def usb_ok_def usb_base_def usb_queue_ok_def)
qed

text \<open>A buffer that is not an active one is only dropped.\<close>

lemma unref_good:
  assumes "usbd_lawful S held flying sent" "usb_good c held flying {} u" "transfer_done held flying sent b (usb_stack u) k"
    "active_in_buffer u \<noteq> Some b" "active_out_buffer u \<noteq> Some b"
  shows "usb_good c held flying {} (u\<lparr>usb_stack := net_buf_unref S b k\<rparr>)"
  using assms(2-) lawfulD(4-6) [OF assms(1), of b k]
  by (auto simp: usb_good_def usb_ok_def buffers_ok_def transfer_done_def)

section \<open>The callbacks of the class\<close>

abbreviation usb_env ::
    "'f zephyr_fs \<Rightarrow> 'b zephyr_shell \<Rightarrow> kconfig \<Rightarrow> (nat \<Rightarrow> nat \<Rightarrow> bool) \<Rightarrow> ('u adb_usb_data \<Rightarrow> int) \<Rightarrow>
     (('f, 'b) logcat_service, 'u adb_usb_data) adb_services" where
  "usb_env F Z c malloc reschedule \<equiv> webos_services F Z c malloc reschedule reset_tx_queue"

lemma device_moved:
  assumes "usbd_lawful S held flying sent" "webos_adb_usb_reset_tx E = reset_tx_queue" "device_ok E P S held flying X st"
    "adb_ok E P st'" "moved E st st'"
  shows "device_ok E P S held flying X st' \<and> same_flags (link st) (link st')"
  using moved_device [OF assms(1,2) _ _ assms(5), of X] assms(3,4) by (simp add: device_ok_def)

lemma device_link: "device_ok E P S held flying X st \<Longrightarrow> usb_good (conf E) held flying Y (f (link st)) \<Longrightarrow>
    device_ok E P S held flying Y (on_link f st)"
  by (simp add: device_ok_def)

lemma reset_tx_webos [simp]:
  "webos_adb_usb_reset_tx (webos_services F Z c malloc reschedule reset_tx) = reset_tx"
  "webos_adb_usb_reset_tx (service_base F Z c malloc reschedule reset_tx) = reset_tx"
  by (simp_all add: webos_services_def service_base_def Let_def)

lemma work_handler_moved:
  assumes ok: "adb_ok (webos_services F Z c malloc reschedule reset_tx) (services_ok c) st"
  shows "moved (webos_services F Z c malloc reschedule reset_tx) st
    (logcat_work_handler (service_base F Z c malloc reschedule reset_tx) st)"
proof -
  let ?B = "service_base F Z c malloc reschedule reset_tx"
  define st1 where "st1 = on_svc (\<lambda>s. s\<lparr>logcat_work := False\<rparr>) st"
  obtain r st2 where queue: "queue_next ?B st1 = (r, st2)" by fastforce
  have "services_ok c (svc st1)" "length (streams st1) = WEBOS_ADB_MAX_STREAMS c"
    using ok by (simp_all add: st1_def adb_ok_def services_ok_def sync_ok_def shell_ok_def logcat_ok_def core_ok_def on_svc_def)
  then have "moved ?B st1 st2" using keeps_queue_next [OF _ queue] by (simp add: keeps_def)
  then show ?thesis by (simp add: logcat_work_handler_def st1_def [symmetric] queue moved_def) (simp add: st1_def on_svc_def)
qed

lemma device_reset:
  assumes "usbd_lawful S held flying sent" and "device_ok (usb_env F Z c malloc reschedule) (services_ok c) S held flying X st"
  shows "device_ok (usb_env F Z c malloc reschedule) (services_ok c) S held flying X (webos_adb_protocol_reset (usb_env F Z c malloc reschedule) st) \<and>
    same_flags (link st) (link (webos_adb_protocol_reset (usb_env F Z c malloc reschedule) st))"
proof (rule device_moved [OF assms(1) reset_tx_webos(1) assms(2)])
  have core: "core_ok (usb_env F Z c malloc reschedule) st" "services_ok c (svc st)"
    using assms(2) by (simp_all add: device_ok_def adb_ok_def)
  then show "adb_ok (usb_env F Z c malloc reschedule) (services_ok c) (webos_adb_protocol_reset (usb_env F Z c malloc reschedule) st)"
    by (rule webos.reset_ok)
  show "moved (usb_env F Z c malloc reschedule) st (webos_adb_protocol_reset (usb_env F Z c malloc reschedule) st)"
    using core(1) by (rule webos.reset_moved)
qed

lemma device_receive:
  assumes "usbd_lawful S held flying sent" and ok: "device_ok (usb_env F Z c malloc reschedule) (services_ok c) S held flying X st"
    and r: "webos_adb_protocol_receive (usb_env F Z c malloc reschedule) data len st = Some (ret, st')"
  shows "device_ok (usb_env F Z c malloc reschedule) (services_ok c) S held flying X st' \<and> same_flags (link st) (link st')"
  using device_moved [OF assms(1) reset_tx_webos(1) ok] webos.receive_ok [OF _ r] webos.receive_moved [OF _ r] ok
  by (simp add: device_ok_def)

lemma device_tx_ready:
  assumes "usbd_lawful S held flying sent" and ok: "device_ok (usb_env F Z c malloc reschedule) (services_ok c) S held flying X st"
  shows "device_ok (usb_env F Z c malloc reschedule) (services_ok c) S held flying X (webos_adb_protocol_tx_ready (usb_env F Z c malloc reschedule) st) \<and>
    same_flags (link st) (link (webos_adb_protocol_tx_ready (usb_env F Z c malloc reschedule) st))"
proof -
  have k: "keeps (usb_env F Z c malloc reschedule) (services_ok c) st (webos_adb_protocol_tx_ready (usb_env F Z c malloc reschedule) st)"
    by (rule webos.keeps_tx_ready)
  show ?thesis
    by (rule device_moved [OF assms(1) reset_tx_webos(1) ok]) (use k ok in \<open>simp_all add: keeps_def device_ok_def adb_ok_def\<close>)
qed

lemma device_reset_link:
  assumes law: "usbd_lawful S held flying sent" and ok: "device_ok (usb_env F Z c malloc reschedule) (services_ok c) S held flying X st"
  shows "device_ok (usb_env F Z c malloc reschedule) (services_ok c) S held flying X (reset_link (usb_env F Z c malloc reschedule) st) \<and>
    \<not> usb_resetting (link (reset_link (usb_env F Z c malloc reschedule) st))"
proof -
  let ?E = "usb_env F Z c malloc reschedule"
  have "device_ok ?E (services_ok c) S held flying X (on_link (\<lambda>u. u\<lparr>usb_resetting := True\<rparr>) st)"
    using ok by (simp add: device_ok_def)
  from device_reset [OF law this] have "device_ok ?E (services_ok c) S held flying X
      (webos_adb_protocol_reset ?E (on_link (\<lambda>u. u\<lparr>usb_resetting := True\<rparr>) st))" by blast
  then show ?thesis unfolding reset_link_def
    using reset_usb_queues_good by (intro conjI device_link) (auto simp: device_ok_def usb_good_def usb_ok_def)
qed

lemma device_submit:
  assumes law: "usbd_lawful S held flying sent" and ok: "device_ok E P S held flying X st" and sub: "link_call (submit_out S (conf E)) st = (ret, st')"
  shows "device_ok E P S held flying X st' \<and> usb_resetting (link st') = usb_resetting (link st)"
proof -
  obtain u where u: "submit_out S (conf E) (link st) = (ret, u)" "st' = st\<lparr>link := u\<rparr>"
    using sub by (auto simp: link_call_def split: prod.splits)
  show ?thesis using submit_out_good [OF law _ u(1), of X] ok u(2) by (simp add: device_ok_def)
qed

section \<open>Ends of transfers\<close>

lemma in_request_ok:
  assumes law: "usbd_lawful S held flying sent" and ok: "device_ok (usb_env F Z c malloc reschedule) (services_ok c) S held flying {} st"
    and idle: "\<not> usb_resetting (link st)" and fin: "transfer_done held flying sent b (usb_stack (link st)) k"
    and ep: "held (usb_stack (link st)) b = Some bulk_in_endpoint"
    and req: "in_request (usb_env F Z c malloc reschedule) S b err (on_link (\<lambda>u. u\<lparr>usb_stack := k\<rparr>) st) = (ret, st')"
  shows "device_ok (usb_env F Z c malloc reschedule) (services_ok c) S held flying {} st' \<and> \<not> usb_resetting (link st')"
proof (cases "active_in_buffer (link st) = Some b")
  case False
  have good: "usb_good c held flying {} (link st)" using ok by (simp add: device_ok_def)
  have "active_out_buffer (link st) \<noteq> Some b" using good ep bulk_endpoints_differ by (auto simp: usb_good_def buffers_ok_def)
  from unref_good [OF law good fin False this] show ?thesis using False req ok idle by (auto simp: in_request_def device_ok_def)
next
  case True
  let ?E = "usb_env F Z c malloc reschedule"
  have good: "usb_good c held flying {} (link st)" using ok by (simp add: device_ok_def)
  obtain r notify reset u' where comp: "in_complete S b err ((link st)\<lparr>usb_stack := k\<rparr>) = (r, notify, reset, u')" by (metis prod.exhaust)
  obtain u1 where u1: "u' = (if reset then u1\<lparr>usb_resetting := True\<rparr> else u1)" "advanced c held flying sent {} reset (link st) u1"
    using in_complete_step [OF law good True fin comp] by blast
  define st1 where "st1 = st\<lparr>link := u'\<rparr>"
  have d1: "device_ok ?E (services_ok c) S held flying {} st1" "usb_resetting (link st1) = reset"
    using ok u1 idle by (auto simp: st1_def device_ok_def advanced_def same_flags_def)
  have s: "st' = (if reset then
        let st = reset_link ?E st1 in if usb_enabled (link st) then snd (link_call (submit_out S c) st) else st
      else if notify then webos_adb_protocol_tx_ready ?E st1 else st1)"
    using req True comp by (simp add: in_request_def st1_def on_link_def Let_def split: if_splits)
  show ?thesis
  proof (cases reset)
    case True
    note d2 = device_reset_link [OF law d1(1)]
    obtain r2 st2 where sub: "link_call (submit_out S c) (reset_link ?E st1) = (r2, st2)" by fastforce
    show ?thesis using s True d2 sub device_submit [OF law, of ?E "services_ok c" "{}" "reset_link ?E st1" r2 st2] by (auto simp: Let_def)
  next
    case False
    then show ?thesis using s d1 device_tx_ready [OF law d1(1)] by (auto simp: same_flags_def)
  qed
qed

lemma out_deliver_ok:
  assumes law: "usbd_lawful S held flying sent" and ok: "device_ok (usb_env F Z c malloc reschedule) (services_ok c) S held flying X st"
    and idle: "\<not> usb_resetting (link st)"
  shows "\<exists>st'. out_deliver (usb_env F Z c malloc reschedule) data err st = Some st' \<and>
    device_ok (usb_env F Z c malloc reschedule) (services_ok c) S held flying X st' \<and> \<not> usb_resetting (link st')"
proof (cases "err = 0 \<and> data \<noteq> []")
  case True
  let ?E = "usb_env F Z c malloc reschedule"
  obtain ret st1 where r: "webos_adb_protocol_receive ?E (Some data) (length data) st = Some (ret, st1)"
    using receive_total [of ?E st "Some data" "length data"] ok by (auto simp: device_ok_def adb_ok_def)
  note d = device_receive [OF law ok r]
  show ?thesis using True r d idle device_reset_link [OF law, of F Z c malloc reschedule X st1]
    by (auto simp: out_deliver_def same_flags_def)
qed (use ok idle in \<open>auto simp: out_deliver_def\<close>)

lemma out_request_ok:
  assumes law: "usbd_lawful S held flying sent" and ok: "device_ok (usb_env F Z c malloc reschedule) (services_ok c) S held flying {} st"
    and idle: "\<not> usb_resetting (link st)" and fin: "transfer_done held flying sent b (usb_stack (link st)) k"
    and ep: "held (usb_stack (link st)) b = Some bulk_out_endpoint"
  shows "\<exists>ret st'. out_request (usb_env F Z c malloc reschedule) S b data err (on_link (\<lambda>u. u\<lparr>usb_stack := k\<rparr>) st) = Some (ret, st') \<and>
    device_ok (usb_env F Z c malloc reschedule) (services_ok c) S held flying {} st' \<and> \<not> usb_resetting (link st')"
proof (cases "active_out_buffer (link st) = Some b")
  case False
  have good: "usb_good c held flying {} (link st)" using ok by (simp add: device_ok_def)
  have "active_in_buffer (link st) \<noteq> Some b" using good ep bulk_endpoints_differ by (auto simp: usb_good_def buffers_ok_def)
  from unref_good [OF law good fin this False] show ?thesis using False ok idle by (auto simp: out_request_def device_ok_def)
next
  case True
  let ?E = "usb_env F Z c malloc reschedule"
  let ?u = "(link st)\<lparr>usb_stack := k, active_out_buffer := None, usb_out_engaged := False\<rparr>"
  have "active_in_buffer (link st) \<noteq> Some b" using ok ep bulk_endpoints_differ by (auto simp: device_ok_def usb_good_def buffers_ok_def)
  then have "usb_good c held flying {b} ?u" using ok fin True ep
    by (auto simp: device_ok_def usb_good_def usb_ok_def usb_base_def usb_queue_ok_def buffers_ok_def transfer_done_def)
  then have "device_ok ?E (services_ok c) S held flying {b} (st\<lparr>link := ?u\<rparr>)" using ok by (simp add: device_ok_def)
  from out_deliver_ok [OF law this, of data err] obtain st1 where
    st1: "out_deliver ?E data err (st\<lparr>link := ?u\<rparr>) = Some st1" "device_ok ?E (services_ok c) S held flying {b} st1" "\<not> usb_resetting (link st1)"
    using idle by auto
  define st2 where "st2 = on_link (\<lambda>u. u\<lparr>usb_stack := net_buf_unref S b (usb_stack u)\<rparr>) st1"
  have st2: "device_ok ?E (services_ok c) S held flying {} st2" "\<not> usb_resetting (link st2)"
    using st1(2,3) lawfulD(4-6) [OF law, of b "usb_stack (link st1)"]
    by (auto simp: st2_def device_ok_def usb_good_def usb_ok_def buffers_ok_def)
  obtain r3 st3 where sub: "link_call (submit_out S c) st2 = (r3, st3)" by fastforce
  have "out_request ?E S b data err (on_link (\<lambda>u. u\<lparr>usb_stack := k\<rparr>) st) =
      Some (if err \<noteq> 0 then (if err = - ECONNABORTED then 0 else err, st2)
        else if usb_enabled (link st2) \<and> \<not> usb_resetting (link st2) then (r3, st3) else (0, st2))"
    using True st1(1) sub by (simp add: out_request_def on_link_def st2_def Let_def)
  then show ?thesis using st2 device_submit [OF law, of ?E "services_ok c" "{}" st2 r3 st3] sub by auto
qed

section \<open>The device\<close>

text \<open>
  The steps of the device over USB: the end of a transfer of any buffer in flight, the other callbacks
  of the class, the delayed work of the log stream, a log message, and what happens outside: the
  storage, the shell, the heap, and anything in the USB stack that its observers do not see.
\<close>

inductive usb_step ::
    "'f zephyr_fs \<Rightarrow> 'b zephyr_shell \<Rightarrow> kconfig \<Rightarrow> (nat \<Rightarrow> nat \<Rightarrow> bool) \<Rightarrow> ('u adb_usb_data \<Rightarrow> int) \<Rightarrow> 'u usbd \<Rightarrow>
     ('u \<Rightarrow> nat \<rightharpoonup> nat) \<Rightarrow> ('u \<Rightarrow> nat set) \<Rightarrow> ('u \<Rightarrow> byte list list) \<Rightarrow>
     ('f, 'b, unit, 'u adb_usb_data) logcat_adb \<Rightarrow> ('f, 'b, unit, 'u adb_usb_data) logcat_adb \<Rightarrow> bool"
  for F Z c malloc reschedule S held flying sent where
  request: "transfer_done held flying sent b (usb_stack (link st)) k \<Longrightarrow> held (usb_stack (link st)) b = Some ep \<Longrightarrow>
    adb_usb_request (usb_env F Z c malloc reschedule) S ep b data err (on_link (\<lambda>u. u\<lparr>usb_stack := k\<rparr>) st) = Some (ret, st') \<Longrightarrow>
    usb_step F Z c malloc reschedule S held flying sent st st'"
| init: "usb_step F Z c malloc reschedule S held flying sent st (snd (adb_usb_class_init st))"
| enable: "usb_step F Z c malloc reschedule S held flying sent st (adb_usb_enable (usb_env F Z c malloc reschedule) S st)"
| disable: "usb_step F Z c malloc reschedule S held flying sent st (adb_usb_disable (usb_env F Z c malloc reschedule) st)"
| message: "usb_step F Z c malloc reschedule S held flying sent st (adb_usb_message (usb_env F Z c malloc reschedule) ty st)"
| work: "usb_step F Z c malloc reschedule S held flying sent st
    (logcat_work_handler (service_base F Z c malloc reschedule reset_tx_queue) st)"
| log: "usb_step F Z c malloc reschedule S held flying sent st (on_svc (log_message data) st)"
| outside: "held k = held (usb_stack (link st)) \<Longrightarrow> flying k = flying (usb_stack (link st)) \<Longrightarrow>
    usb_step F Z c malloc reschedule S held flying sent st
      (on_link (\<lambda>u. u\<lparr>usb_stack := k\<rparr>) (on_svc (\<lambda>s. s\<lparr>storage := f, shell_backend := b\<rparr>) (st\<lparr>heap_allocs := n\<rparr>)))"

inductive usb_reachable ::
    "'f zephyr_fs \<Rightarrow> 'b zephyr_shell \<Rightarrow> kconfig \<Rightarrow> (nat \<Rightarrow> nat \<Rightarrow> bool) \<Rightarrow> ('u adb_usb_data \<Rightarrow> int) \<Rightarrow> 'u usbd \<Rightarrow>
     ('u \<Rightarrow> nat \<rightharpoonup> nat) \<Rightarrow> ('u \<Rightarrow> nat set) \<Rightarrow> ('u \<Rightarrow> byte list list) \<Rightarrow> ('f, 'b, unit, 'u adb_usb_data) logcat_adb \<Rightarrow> bool"
  for F Z c malloc reschedule S held flying sent where
  boot: "0 < log_size \<Longrightarrow> held k = Map.empty \<Longrightarrow> flying k = {} \<Longrightarrow> usb_reachable F Z c malloc reschedule S held flying sent
    (webos_adb_protocol_init (usb_env F Z c malloc reschedule) (usb_transport S c)
      (adb_boot c (services_boot c f b log_size) (usb_boot c k)))"
| step: "usb_reachable F Z c malloc reschedule S held flying sent st \<Longrightarrow> usb_step F Z c malloc reschedule S held flying sent st st' \<Longrightarrow>
    usb_reachable F Z c malloc reschedule S held flying sent st'"

lemma request_ok:
  assumes law: "usbd_lawful S held flying sent" and ok: "device_ok (usb_env F Z c malloc reschedule) (services_ok c) S held flying {} st"
    and idle: "\<not> usb_resetting (link st)" and fin: "transfer_done held flying sent b (usb_stack (link st)) k"
    and ep: "held (usb_stack (link st)) b = Some ep"
  shows "\<exists>ret st'. adb_usb_request (usb_env F Z c malloc reschedule) S ep b data err (on_link (\<lambda>u. u\<lparr>usb_stack := k\<rparr>) st) = Some (ret, st') \<and>
    device_ok (usb_env F Z c malloc reschedule) (services_ok c) S held flying {} st' \<and> \<not> usb_resetting (link st')"
proof -
  let ?E = "usb_env F Z c malloc reschedule" and ?st = "on_link (\<lambda>u. u\<lparr>usb_stack := k\<rparr>) st"
  consider "ep = bulk_in_endpoint" | "ep = bulk_out_endpoint" | "ep \<noteq> bulk_in_endpoint" "ep \<noteq> bulk_out_endpoint" by blast
  then show ?thesis
  proof cases
    case 1
    obtain ret st' where "in_request ?E S b err ?st = (ret, st')" by fastforce
    then show ?thesis using in_request_ok [OF law ok idle fin ep [unfolded 1]] 1 by (auto simp: adb_usb_request_def)
  next
    case 2
    then show ?thesis using out_request_ok [OF law ok idle fin ep [unfolded 2], of data err] bulk_endpoints_differ
      by (simp add: adb_usb_request_def)
  next
    case 3
    have good: "usb_good c held flying {} (link st)" using ok by (simp add: device_ok_def)
    have "active_in_buffer (link st) \<noteq> Some b" "active_out_buffer (link st) \<noteq> Some b"
      using good ep 3 by (auto simp: usb_good_def buffers_ok_def)
    from unref_good [OF law good fin this] show ?thesis using 3 ok idle by (auto simp: adb_usb_request_def device_ok_def)
  qed
qed

lemma usb_step_ok:
  assumes "usb_step F Z c malloc reschedule S held flying sent st st'" and law: "usbd_lawful S held flying sent"
    and ok: "device_ok (usb_env F Z c malloc reschedule) (services_ok c) S held flying {} st" and idle: "\<not> usb_resetting (link st)"
  shows "device_ok (usb_env F Z c malloc reschedule) (services_ok c) S held flying {} st' \<and> \<not> usb_resetting (link st')"
  using assms(1)
proof cases
  case (request b k ep data err ret)
  then show ?thesis using request_ok [OF law ok idle request(1,2), of data err] by auto
next
  case init
  then show ?thesis using ok idle by (simp add: adb_usb_class_init_def device_ok_def)
next
  case enable
  let ?E = "usb_env F Z c malloc reschedule"
  have "device_ok ?E (services_ok c) S held flying {} (on_link reset_usb_queues st)"
    using ok reset_usb_queues_good by (intro device_link [OF ok]) (auto simp: device_ok_def usb_good_def usb_ok_def)
  note d = device_reset [OF law this]
  define st1 where "st1 = on_link (\<lambda>u. u\<lparr>usb_enabled := True\<rparr>) (webos_adb_protocol_reset ?E (on_link reset_usb_queues st))"
  have d1: "device_ok ?E (services_ok c) S held flying {} st1" using d by (simp add: st1_def device_ok_def)
  obtain r st2 where sub: "link_call (submit_out S (conf ?E)) st1 = (r, st2)" by fastforce
  have "\<not> usb_resetting (link st1)"
    using d idle by (simp add: st1_def same_flags_def reset_usb_queues_def reset_tx_queue_unlocked_def)
  then show ?thesis using enable sub device_submit [OF law d1 sub] by (simp add: adb_usb_enable_def st1_def)
next
  case disable
  let ?u = "reset_usb_queues ((link st)\<lparr>usb_enabled := False, usb_out_engaged := False, usb_in_engaged := False, usb_resetting := False\<rparr>)"
  have u: "usb_good c held flying {} ?u" "\<not> usb_resetting ?u" using ok
    by (auto simp: device_ok_def usb_good_def usb_ok_def usb_base_def usb_queue_ok_def buffers_ok_def reset_usb_queues_def reset_tx_queue_unlocked_def)
  then have "device_ok (usb_env F Z c malloc reschedule) (services_ok c) S held flying {} (st\<lparr>link := ?u\<rparr>)"
    using ok by (simp add: device_ok_def)
  from device_reset [OF law this] show ?thesis using disable u(2) by (simp add: adb_usb_disable_def on_link_def same_flags_def)
next
  case message
  then show ?thesis using device_reset_link [OF law ok] ok idle by (simp add: adb_usb_message_def)
next
  case work
  have "adb_ok (usb_env F Z c malloc reschedule) (services_ok c) st" using ok by (simp add: device_ok_def)
  from device_moved [OF law reset_tx_webos(1) ok work_handler_ok [OF this] work_handler_moved [OF this]]
  show ?thesis using work idle by (simp add: same_flags_def)
next
  case log
  then show ?thesis using ok idle by (simp add: device_ok_def adb_ok_def on_svc_def log_message_ok)
next
  case (outside k f b n)
  then show ?thesis using ok idle
    by (simp add: device_ok_def adb_ok_def on_svc_def on_link_def services_ok_def sync_ok_def shell_ok_def logcat_ok_def
        usb_good_def usb_ok_def buffers_ok_def)
qed

lemma usb_boot_good:
  "kconfig_ok c \<Longrightarrow> held k = Map.empty \<Longrightarrow> flying k = {} \<Longrightarrow> usb_good c held flying {} (usb_boot c k)"
  using usb_boot_ok [of c k] by (simp add: usb_good_def) (simp add: buffers_ok_def usb_boot_def)

lemma boot_core:
  assumes "kconfig_ok c"
  shows "core_ok (webos_services F Z c malloc reschedule reset_tx) ((adb_boot c (services_boot c f b n) l)\<lparr>transport_send := Some s\<rparr>)"
proof -
  have "0 < WEBOS_ADB_CONTROL_QUEUE_DEPTH c" using assms by (simp add: kconfig_ok_def)
  then show ?thesis using core_ok_boot [of "webos_services F Z c malloc reschedule reset_tx" "services_boot c f b n" l]
    by (simp add: core_ok_def control_ok_def webos_adb_stream_max_payload_def)
qed

lemma usb_reachable_ok:
  assumes c: "kconfig_ok c" and law: "usbd_lawful S held flying sent" and r: "usb_reachable F Z c malloc reschedule S held flying sent st"
  shows "device_ok (usb_env F Z c malloc reschedule) (services_ok c) S held flying {} st \<and> \<not> usb_resetting (link st)"
  using r
proof induction
  case (boot n k f b)
  let ?E = "usb_env F Z c malloc reschedule"
  let ?st = "(adb_boot c (services_boot c f b n) (usb_boot c k))\<lparr>transport_send := Some (usb_transport S c)\<rparr>"
  have svc: "services_ok c (services_boot c f b n)" using c boot(1) by (rule services_boot_ok)
  have "core_ok ?E ?st" using c by (rule boot_core)
  then have m: "moved ?E ?st (webos_adb_protocol_reset ?E ?st)" by (rule webos.reset_moved)
  have g: "usb_good (conf ?E) held flying {} (link ?st)" using usb_boot_good [of c held k flying, OF c boot(2,3)] by (simp add: adb_boot_def)
  have t: "transport_send ?st = Some (usb_transport S (conf ?E))" by simp
  have "adb_ok ?E (services_ok c) (webos_adb_protocol_reset ?E ?st)"
    using webos.init_ok [OF _ svc, of F Z malloc reschedule reset_tx_queue] services_sizes(4) [OF svc]
    by (simp add: webos_adb_protocol_init_def)
  moreover note moved_device [OF law reset_tx_webos(1) t g m]
  moreover have "\<not> usb_resetting (link ?st)" by (simp add: adb_boot_def usb_boot_def)
  ultimately show ?case by (simp add: webos_adb_protocol_init_def device_ok_def same_flags_def)
next
  case (step st st')
  then show ?case using usb_step_ok [OF _ law] by blast
qed

text \<open>
  C1: The device over USB stays in order.  In every state it can reach, whatever bytes arrive, whichever
  transfers fail and whenever the interface is enabled, disabled or reset, the router and its services
  satisfy their invariants, the transmit queue has a transfer under way exactly when it holds a packet,
  the buffers allocated from the USB stack are exactly those in flight, so none leaks and none is freed
  twice, and the callback for the end of any transfer returns.
\<close>

theorem usb_device_in_order:
  assumes "kconfig_ok c" and "usbd_lawful S held flying sent" and "usb_reachable F Z c malloc reschedule S held flying sent st"
  shows "adb_ok (usb_env F Z c malloc reschedule) (services_ok c) st \<and> usb_ok c (link st) \<and> \<not> usb_resetting (link st) \<and>
    dom (held (usb_stack (link st))) = flying (usb_stack (link st)) \<and>
    (\<forall>b k ep data err. transfer_done held flying sent b (usb_stack (link st)) k \<and> held (usb_stack (link st)) b = Some ep \<longrightarrow>
      (\<exists>ret st'. adb_usb_request (usb_env F Z c malloc reschedule) S ep b data err (on_link (\<lambda>u. u\<lparr>usb_stack := k\<rparr>) st) = Some (ret, st') \<and>
        usb_reachable F Z c malloc reschedule S held flying sent st'))"
proof -
  have ok: "device_ok (usb_env F Z c malloc reschedule) (services_ok c) S held flying {} st" "\<not> usb_resetting (link st)"
    using usb_reachable_ok [OF assms] by blast+
  have "\<exists>ret st'. adb_usb_request (usb_env F Z c malloc reschedule) S ep b data err (on_link (\<lambda>u. u\<lparr>usb_stack := k\<rparr>) st) = Some (ret, st') \<and>
        usb_reachable F Z c malloc reschedule S held flying sent st'"
    if "transfer_done held flying sent b (usb_stack (link st)) k" "held (usb_stack (link st)) b = Some ep" for b k ep data err
    using request_ok [OF assms(2) ok that, of data err] usb_reachable.step [OF assms(3) usb_step.request [OF that]] by blast
  then show ?thesis using ok by (auto simp: device_ok_def usb_good_def buffers_ok_def)
qed

section \<open>A failed transfer to the host\<close>

lemma enqueue_in_flying:
  assumes law: "usbd_lawful S held flying sent" and "enqueue_in S data u = (ret, u')"
  shows "flying (usb_stack u) \<subseteq> flying (usb_stack u')"
proof -
  obtain b k where a: "usbd_ep_buf_alloc S bulk_in_endpoint (length data) (usb_stack u) = (b, k)" by fastforce
  have k: "flying k = flying (usb_stack u)" using law a by (simp add: usbd_lawful_def)
  show ?thesis
  proof (cases b)
    case None
    then show ?thesis using assms(2) a k by (auto simp: enqueue_in_def)
  next
    case (Some x)
    obtain r k2 where e: "usbd_ep_enqueue S x data k = (r, k2)" by fastforce
    have "flying k \<subseteq> flying k2" "flying (net_buf_unref S x k2) = flying k2" using lawfulD(3) [OF law e] lawfulD(5) [OF law] by auto
    then show ?thesis using assms(2) a e k Some by (auto simp: enqueue_in_def split: if_splits)
  qed
qed

lemma send_flying:
  assumes law: "usbd_lawful S held flying sent"
  shows "flying (usb_stack u) \<subseteq> flying (usb_stack (snd (usb_transport S c hdr data u)))"
proof -
  have start: "flying (usb_stack u) \<subseteq> flying (usb_stack (snd (start_tx_packet_unlocked S u)))" for u
    using enqueue_in_flying [OF law, of "p_header (tx_queue u ! tx_head u)" "u\<lparr>usb_in_engaged := True, tx_phase := ADB_USB_TX_HEADER\<rparr>"]
    by (auto simp: start_tx_packet_unlocked_def Let_def split: prod.splits)
  have put: "flying (usb_stack u) \<subseteq> flying (usb_stack (snd (start_tx_packet_unlocked S (usb_put h d u))))" for h d
    using start [of "usb_put h d u"] by (simp add: usb_put_def)
  have after: "usb_stack (snd (case r of (ret, u) \<Rightarrow> if ret \<noteq> 0 then (ret, reset_tx_queue_unlocked u) else (ret, u))) = usb_stack (snd r)"
    for r :: "int \<times> 'a adb_usb_data" by (cases r) (simp add: reset_tx_queue_unlocked_def)
  have "usb_stack (usb_put h d u) = usb_stack u" for h d by (simp add: usb_put_def)
  then show ?thesis using put by (simp add: usb_transport_def webos_adb_usb_send_def Let_def after)
qed

lemma moved_flying:
  assumes law: "usbd_lawful S held flying sent" and reset: "webos_adb_usb_reset_tx E = reset_tx_queue"
    and send: "transport_send st = Some (usb_transport S c)" and moved: "moved E st st'" and b: "b \<in> flying (usb_stack (link st))"
  shows "b \<in> flying (usb_stack (link st'))"
proof -
  have "link_run reset_tx_queue (transport_send st) (link st) (link st')" using moved reset by (simp add: moved_def)
  then show ?thesis
    by (rule link_run_invariant) (use b send subsetD [OF send_flying [OF law]] in \<open>auto simp: reset_tx_queue_def reset_tx_queue_unlocked_def\<close>)
qed

lemma reset_link_flying:
  assumes law: "usbd_lawful S held flying sent" and ok: "device_ok (usb_env F Z c malloc reschedule) (services_ok c) S held flying X st"
    and b: "b \<in> flying (usb_stack (link st))"
  shows "b \<in> flying (usb_stack (link (reset_link (usb_env F Z c malloc reschedule) st)))"
proof -
  let ?E = "usb_env F Z c malloc reschedule" and ?st = "on_link (\<lambda>u. u\<lparr>usb_resetting := True\<rparr>) st"
  have core: "core_ok ?E ?st" and t: "transport_send ?st = Some (usb_transport S c)" using ok by (simp_all add: device_ok_def adb_ok_def)
  from moved_flying [OF law reset_tx_webos(1) t webos.reset_moved [OF core], of b] b show ?thesis
    by (simp add: reset_link_def reset_usb_queues_def reset_tx_queue_unlocked_def)
qed

lemma submit_out_flying:
  assumes law: "usbd_lawful S held flying sent" and "dom (held (usb_stack u)) = flying (usb_stack u)" "active_out_buffer u = None"
    and b: "b \<in> flying (usb_stack u)" and sub: "submit_out S c u = (ret, u')"
  shows "b \<in> flying (usb_stack u') \<and> active_out_buffer u' \<noteq> Some b"
proof -
  obtain x k where a: "usbd_ep_buf_alloc S bulk_out_endpoint (WEBOS_ADB_USB_TRANSFER_SIZE c) (usb_stack u) = (x, k)" by fastforce
  show ?thesis
  proof (cases x)
    case None
    then show ?thesis using lawfulD(1) [OF law a [unfolded None]] assms a by (auto simp: submit_out_def split: if_splits)
  next
    case (Some y)
    obtain r k2 where e: "usbd_ep_enqueue S y [] k = (r, k2)" by fastforce
    note l = lawfulD(2) [OF law a [unfolded Some]] lawfulD(3) [OF law e] lawfulD(5) [OF law, of y k2]
    then have "y \<noteq> b" "b \<in> flying k2" "b \<in> flying (net_buf_unref S y k2)" using assms(2) b by auto
    then show ?thesis using assms a e Some by (auto simp: submit_out_def split: if_splits)
  qed
qed

text \<open>
  C4: After a failed transfer to the host the next bytes from the host are lost.  The failure empties
  both queues, so the buffer that waits for the host is forgotten while it stays queued in the USB
  stack, and a second one may be queued behind it.  When the first one comes back, with whatever bytes
  the host sent, it is taken for a foreign buffer: it is freed, nothing reaches the router and no other
  transfer is started.
\<close>

theorem failed_transfer_forgets_receive:
  assumes law: "usbd_lawful S held flying sent" and ok: "device_ok (usb_env F Z c malloc reschedule) (services_ok c) S held flying {} st"
    and active: "active_in_buffer (link st) = Some i" "active_out_buffer (link st) = Some b"
    and fin: "transfer_done held flying sent i (usb_stack (link st)) k" and err: "err \<noteq> 0"
    and req: "in_request (usb_env F Z c malloc reschedule) S i err (on_link (\<lambda>u. u\<lparr>usb_stack := k\<rparr>) st) = (ret, st')"
  shows "b \<in> flying (usb_stack (link st')) \<and>
    out_request (usb_env F Z c malloc reschedule) S b data 0 st' =
      Some (0, on_link (\<lambda>u. u\<lparr>usb_stack := net_buf_unref S b (usb_stack u)\<rparr>) st')"
proof -
  let ?E = "usb_env F Z c malloc reschedule"
  have good: "usb_good c held flying {} (link st)" using ok by (simp add: device_ok_def)
  have "i \<noteq> b" "b \<in> flying (usb_stack (link st))"
    using active good bulk_endpoints_differ by (auto simp: usb_good_def buffers_ok_def)
  then have b: "b \<in> flying (net_buf_unref S i k)" using fin lawfulD(5) [OF law, of i k] by (simp add: transfer_done_def)
  obtain r0 notify reset u' where comp: "in_complete S i err ((link st)\<lparr>usb_stack := k\<rparr>) = (r0, notify, reset, u')" by (metis prod.exhaust)
  have u': "reset" "usb_stack u' = net_buf_unref S i k"
    using comp err by (auto simp: in_complete_def Let_def reset_tx_queue_unlocked_def)
  obtain u1 where u1: "u' = u1\<lparr>usb_resetting := True\<rparr>" "advanced c held flying sent {} reset (link st) u1"
    using in_complete_step [OF law good active(1) fin comp] u'(1) by auto
  define st1 where "st1 = st\<lparr>link := u'\<rparr>"
  have d1: "device_ok ?E (services_ok c) S held flying {} st1" "b \<in> flying (usb_stack (link st1))"
    using ok u1 u'(2) b by (auto simp: st1_def device_ok_def advanced_def)
  define st2 where "st2 = reset_link ?E st1"
  have d2: "device_ok ?E (services_ok c) S held flying {} st2" "active_out_buffer (link st2) = None"
    using device_reset_link [OF law d1(1)] by (simp_all add: st2_def reset_link_def reset_usb_queues_def)
  have b2: "b \<in> flying (usb_stack (link st2))" unfolding st2_def by (rule reset_link_flying [OF law d1])
  obtain r3 u3 where sub: "submit_out S c (link st2) = (r3, u3)" by fastforce
  have "dom (held (usb_stack (link st2))) = flying (usb_stack (link st2))" using d2(1) by (simp add: device_ok_def usb_good_def buffers_ok_def)
  note b3 = submit_out_flying [OF law this d2(2) b2 sub]
  have "st' = (if usb_enabled (link st2) then st2\<lparr>link := u3\<rparr> else st2)"
    using req active(1) comp u'(1) sub by (simp add: in_request_def on_link_def Let_def st1_def st2_def link_call_def split: if_splits)
  then show ?thesis using b2 b3 d2(2) by (auto simp: out_request_def)
qed

section \<open>Witnesses\<close>

abbreviation sample_usb_env :: "((memfs, byte list) logcat_service, sample_usb adb_usb_data) adb_services" where
  "sample_usb_env \<equiv> usb_env memfs echo_shell default_kconfig (\<lambda>_ _. True) (\<lambda>_. 0)"

abbreviation sample_usb_reachable :: "(memfs, byte list, unit, sample_usb adb_usb_data) logcat_adb \<Rightarrow> bool" where
  "sample_usb_reachable \<equiv> usb_reachable memfs echo_shell default_kconfig (\<lambda>_ _. True) (\<lambda>_. 0) sample_usbd sample_held sample_flying su_sent"

definition sample_booted :: "(memfs, byte list, unit, sample_usb adb_usb_data) logcat_adb" where
  "sample_booted = webos_adb_protocol_init sample_usb_env (usb_transport sample_usbd default_kconfig)
     (adb_boot default_kconfig (services_boot default_kconfig (Map.empty, Map.empty, 0) [] 64)
       (usb_boot default_kconfig \<lparr>su_held = [], su_flying = [], su_sent = []\<rparr>))"

definition sample_enabled :: "(memfs, byte list, unit, sample_usb adb_usb_data) logcat_adb" where
  "sample_enabled = adb_usb_enable sample_usb_env sample_usbd (snd (adb_usb_class_init sample_booted))"

lemma sample_booted_reachable: "sample_usb_reachable sample_booted"
  unfolding sample_booted_def by (rule usb_reachable.boot) simp_all

lemma sample_enabled_reachable: "sample_usb_reachable sample_enabled"
  unfolding sample_enabled_def using sample_booted_reachable
  by (rule usb_reachable.step [OF usb_reachable.step [OF _ usb_step.init] usb_step.enable])

lemma reset_same_link: "core_ok E st \<Longrightarrow> link (webos_adb_protocol_reset E st) = link st"
proof -
  assume ok: "core_ok E st"
  have core: "core_ok E (reset_rx st)" using ok by (simp add: reset_rx_def)
  obtain s where close: "close_all_streams E (reset_rx st) = (reset_rx st)
      \<lparr>svc := s, streams := replicate (WEBOS_ADB_MAX_STREAMS (conf E)) (stream_zero (conf E))\<rparr>"
    using close_all_streams_eq [OF core] by blast
  show ?thesis unfolding webos_adb_protocol_reset_def protocol_reset_unlocked_def close by (simp add: reset_rx_def)
qed

theorem usb_device_in_order_witness:
  "sample_usb_reachable sample_enabled \<and> adb_ok sample_usb_env (services_ok default_kconfig) sample_enabled \<and>
     dom (sample_held (usb_stack (link sample_enabled))) = sample_flying (usb_stack (link sample_enabled))"
  using usb_device_in_order [OF default_kconfig_ok sample_usbd_lawful sample_enabled_reachable] sample_enabled_reachable by blast

lemma sample_enabled_link:
  "link sample_enabled = (usb_boot default_kconfig \<lparr>su_held = [(1, 1)], su_flying = [1], su_sent = []\<rparr>)
     \<lparr>class_data := True, usb_enabled := True, usb_out_engaged := True, active_out_buffer := Some 1\<rparr>"
proof -
  let ?st = "(adb_boot default_kconfig (services_boot default_kconfig (Map.empty, Map.empty, 0) [] 64)
      (usb_boot default_kconfig \<lparr>su_held = [], su_flying = [], su_sent = []\<rparr>))\<lparr>transport_send := Some (usb_transport sample_usbd default_kconfig)\<rparr>"
  have "core_ok sample_usb_env ?st" by (rule boot_core) simp
  from reset_same_link [OF this] have boot: "link sample_booted = usb_boot default_kconfig \<lparr>su_held = [], su_flying = [], su_sent = []\<rparr>"
    by (simp add: sample_booted_def webos_adb_protocol_init_def) (simp add: adb_boot_def)
  have "core_ok sample_usb_env (on_link reset_usb_queues (snd (adb_usb_class_init sample_booted)))"
    using usb_reachable_ok [OF default_kconfig_ok sample_usbd_lawful sample_booted_reachable]
    by (simp add: device_ok_def adb_ok_def adb_usb_class_init_def)
  from reset_same_link [OF this] boot have "link sample_enabled = snd (submit_out sample_usbd default_kconfig
      ((reset_usb_queues ((usb_boot default_kconfig \<lparr>su_held = [], su_flying = [], su_sent = []\<rparr>)\<lparr>class_data := True\<rparr>))\<lparr>usb_enabled := True\<rparr>))"
    by (simp add: sample_enabled_def adb_usb_enable_def adb_usb_class_init_def link_call_def split: prod.splits)
  then show ?thesis
    by (simp add: submit_out_def usb_boot_def reset_usb_queues_def reset_tx_queue_unlocked_def sample_usbd_def sample_fresh_def
        bulk_out_endpoint_def adb_descriptors_def ADB_USB_OUT_EP_def)
qed

definition sample_sending :: "(memfs, byte list, unit, sample_usb adb_usb_data) logcat_adb" where
  "sample_sending = on_link (\<lambda>u. snd (usb_transport sample_usbd default_kconfig (replicate 24 CHR ''h'') ''ping'' u)) sample_enabled"

theorem failed_transfer_forgets_receive_witness:
  "let st = snd (in_request sample_usb_env sample_usbd 2 (- 5) (on_link (\<lambda>u. u\<lparr>usb_stack := sample_finish 2 (usb_stack u)\<rparr>) sample_sending)) in
   active_out_buffer (link sample_sending) = Some 1 \<and> 1 \<in> sample_flying (usb_stack (link st)) \<and>
   out_request sample_usb_env sample_usbd 1 ''CNXN'' 0 st =
     Some (0, on_link (\<lambda>u. u\<lparr>usb_stack := net_buf_unref sample_usbd 1 (usb_stack u)\<rparr>) st)"
proof -
  have "device_ok sample_usb_env (services_ok default_kconfig) sample_usbd sample_held sample_flying {} sample_enabled"
    using usb_reachable_ok [OF default_kconfig_ok sample_usbd_lawful sample_enabled_reachable] by blast
  moreover obtain ret u where u: "usb_transport sample_usbd default_kconfig (replicate 24 CHR ''h'') ''ping'' (link sample_enabled) = (ret, u)" by fastforce
  ultimately have d: "device_ok sample_usb_env (services_ok default_kconfig) sample_usbd sample_held sample_flying {} sample_sending"
    using send_step [OF sample_usbd_lawful _ u [unfolded usb_transport_def], of "{}"] by (simp add: device_ok_def sample_sending_def)
  have a: "active_in_buffer (link sample_sending) = Some 2" "active_out_buffer (link sample_sending) = Some 1"
    by (simp_all add: sample_sending_def sample_enabled_link usb_transport_def webos_adb_usb_send_def usb_boot_def default_kconfig_def
      WEBOS_ADB_HEADER_SIZE_def start_tx_packet_unlocked_def usb_put_def enqueue_in_def sample_usbd_def sample_fresh_def)
  have "2 \<in> sample_flying (usb_stack (link sample_sending))" using d a(1) by (simp add: device_ok_def usb_good_def buffers_ok_def)
  note f = sample_finish_done [OF this]
  let ?st = "on_link (\<lambda>u. u\<lparr>usb_stack := sample_finish 2 (usb_stack u)\<rparr>) sample_sending"
  obtain r st' where r: "in_request sample_usb_env sample_usbd 2 (- 5) ?st = (r, st')" by fastforce
  then have "in_request sample_usb_env sample_usbd 2 (- 5) (on_link (\<lambda>u. u\<lparr>usb_stack := sample_finish 2 (usb_stack (link sample_sending))\<rparr>) sample_sending) = (r, st')"
    by (simp add: on_link_def)
  from failed_transfer_forgets_receive [OF sample_usbd_lawful d a f _ this, of "''CNXN''"] show ?thesis using a(2) r by simp
qed

end
