(* ===== verification/Devfs.thy ===== *)
theory Devfs
  imports C_Strings Zephyr_Fs
begin

text \<open>
  lib/devfs/devfs.c: the tree of device files mounted at /dev.  A node is named by the list of the
  names on the way from the root; nodes never move, so this list stands for the node's pointer, its
  parent pointer is the list without the last name, and the list of children holds their names in
  order.  The tree lock makes each operation one step.  The drivers' callbacks act on a state of
  their own.
\<close>

section \<open>State\<close>

datatype devfs_node_type = DEVFS_NODE_DIR | DEVFS_NODE_FILE

type_synonym devfs_ptr = "string list"

record 'a devfs_file =
  f_node :: devfs_ptr
  f_data :: "'a option"

text \<open>The callbacks of a device file; a missing one is a NULL pointer.\<close>

record ('u, 'a, 'd) devfs_file_ops =
  op_open :: "('a devfs_file \<Rightarrow> 'u option \<Rightarrow> int \<Rightarrow> 'd \<Rightarrow> int \<times> 'a devfs_file \<times> 'd) option"
  op_read :: "('a devfs_file \<Rightarrow> nat \<Rightarrow> 'd \<Rightarrow> (int \<times> byte list) \<times> 'a devfs_file \<times> 'd) option"
  op_write :: "('a devfs_file \<Rightarrow> byte list \<Rightarrow> 'd \<Rightarrow> int \<times> 'a devfs_file \<times> 'd) option"
  op_close :: "('a devfs_file \<Rightarrow> 'd \<Rightarrow> int \<times> 'd) option"

record ('u, 'a, 'd) devfs_node =
  n_children :: "string list"
  n_ops :: "('u, 'a, 'd) devfs_file_ops"
  n_user_data :: "'u option"
  n_open_count :: "16 word"
  n_type :: devfs_node_type

record devfs_dir =
  dir_node :: devfs_ptr
  dir_last_name :: string
  dir_started :: bool

type_synonym ('u, 'a, 'd) devfs_tree = "devfs_ptr \<rightharpoonup> ('u, 'a, 'd) devfs_node"

definition no_ops :: "('u, 'a, 'd) devfs_file_ops" where
  "no_ops = \<lparr>op_open = None, op_read = None, op_write = None, op_close = None\<rparr>"

definition devfs_root :: "('u, 'a, 'd) devfs_tree" where
  "devfs_root = [[] \<mapsto> \<lparr>n_children = [], n_ops = no_ops, n_user_data = None, n_open_count = 0, n_type = DEVFS_NODE_DIR\<rparr>]"

text \<open>
  The file object is opaque to the drivers: of the object a callback was given, only the data pointer
  can have changed.
\<close>

definition after_callback :: "'a devfs_file \<Rightarrow> 'a devfs_file \<Rightarrow> 'a devfs_file" where
  "after_callback file file' = file\<lparr>f_data := f_data file'\<rparr>"

definition devfs_file_data :: "'a devfs_file \<Rightarrow> 'a option" where
  "devfs_file_data f = f_data f"

definition devfs_file_set_data :: "'a option \<Rightarrow> 'a devfs_file \<Rightarrow> 'a devfs_file" where
  "devfs_file_set_data d f = f\<lparr>f_data := d\<rparr>"

section \<open>Paths\<close>

definition normalize_path :: "string \<Rightarrow> string" where
  "normalize_path path =
     (if strcmp path ''/dev'' = 0 \<or> strcmp path ''/dev/'' = 0 then ''/''
      else if strncmp path ''/dev/'' (length ''/dev'' + 1) = 0 then drop (length ''/dev'') path
      else path)"

text \<open>
  One turn of the loops over a path: the component up to the next slash, and the text after the slash
  when there is one.
\<close>

definition next_component :: "string \<Rightarrow> string \<times> string option" where
  "next_component s =
     (case split_first CHR ''/'' s of None \<Rightarrow> (s, None) | Some (c, rest) \<Rightarrow> (c, Some rest))"

lemma next_component_shorter: "next_component s = (c, Some rest) \<Longrightarrow> length rest < length s"
  by (auto simp: next_component_def dest: split_first_Some split: option.splits)

function components_valid :: "string \<Rightarrow> bool" where
  "components_valid s =
     (if s = [] then True
      else case next_component s of
        (c, rest) \<Rightarrow>
          if c = [] \<or> c = ''.'' \<or> c = ''..'' then False
          else (case rest of None \<Rightarrow> True | Some r \<Rightarrow> components_valid r))"
  by pat_completeness auto
termination by (relation "measure length") (auto simp: next_component_shorter [OF sym])

declare components_valid.simps [simp del]

definition validate_path :: "nat \<Rightarrow> string option \<Rightarrow> bool \<Rightarrow> int \<times> string" where
  "validate_path max_len path allow_trailing_slash =
     (case path of
        None \<Rightarrow> (- EINVAL, [])
      | Some p \<Rightarrow>
          let rel = normalize_path p; len = length rel in
          if len = 0 \<or> max_len \<le> len \<or> c_at rel 0 \<noteq> CHR ''/'' then (- EINVAL, [])
          else if \<not> allow_trailing_slash \<and> 1 < len \<and> c_at rel (len - 1) = CHR ''/'' then (- EINVAL, [])
          else if \<not> components_valid (drop 1 rel) then (- EINVAL, [])
          else (0, rel))"

section \<open>The tree\<close>

text \<open>The loop of \<open>find_child\<close> over the names, which stops at the first name past the one it looks for.\<close>

fun scan_children :: "string list \<Rightarrow> string \<Rightarrow> string option" where
  "scan_children [] name = None"
| "scan_children (c # cs) name =
     (let cmp = strncmp c name (length name) in
      if cmp = 0 \<and> c_at c (length name) = NUL then Some c
      else if cmp > 0 \<or> (cmp = 0 \<and> c_at c (length name) \<noteq> NUL) then None
      else scan_children cs name)"

definition find_child :: "('u, 'a, 'd) devfs_tree \<Rightarrow> devfs_ptr \<Rightarrow> string \<Rightarrow> devfs_ptr option" where
  "find_child t parent name = map_option (\<lambda>c. parent @ [c]) (scan_children (n_children (the (t parent))) name)"

definition alloc_node :: "devfs_node_type \<Rightarrow> ('u, 'a, 'd) devfs_node" where
  "alloc_node ty = \<lparr>n_children = [], n_ops = no_ops, n_user_data = None, n_open_count = 0, n_type = ty\<rparr>"

fun insert_name :: "string \<Rightarrow> string list \<Rightarrow> string list" where
  "insert_name name [] = [name]"
| "insert_name name (c # cs) = (if strcmp name c < 0 then name # c # cs else c # insert_name name cs)"

definition update_node ::
    "devfs_ptr \<Rightarrow> (('u, 'a, 'd) devfs_node \<Rightarrow> ('u, 'a, 'd) devfs_node) \<Rightarrow> ('u, 'a, 'd) devfs_tree \<Rightarrow> ('u, 'a, 'd) devfs_tree" where
  "update_node p f t = t(p := map_option f (t p))"

definition insert_child ::
    "devfs_ptr \<Rightarrow> string \<Rightarrow> ('u, 'a, 'd) devfs_node \<Rightarrow> ('u, 'a, 'd) devfs_tree \<Rightarrow> ('u, 'a, 'd) devfs_tree" where
  "insert_child parent name node t =
     (update_node parent (\<lambda>n. n\<lparr>n_children := insert_name name (n_children n)\<rparr>) t)(parent @ [name] \<mapsto> node)"

text \<open>\<open>unlink_child\<close> followed by \<open>k_free\<close>, as at both of its uses.\<close>

definition unlink_child :: "devfs_ptr \<Rightarrow> ('u, 'a, 'd) devfs_tree \<Rightarrow> ('u, 'a, 'd) devfs_tree" where
  "unlink_child p t =
     (update_node (butlast p) (\<lambda>n. n\<lparr>n_children := remove1 (last p) (n_children n)\<rparr>) t)(p := None)"

definition prunable :: "('u, 'a, 'd) devfs_node \<Rightarrow> bool" where
  "prunable n \<longleftrightarrow> n_type n = DEVFS_NODE_DIR \<and> n_children n = [] \<and> n_open_count n = 0"

function prune_empty_dirs :: "devfs_ptr \<Rightarrow> ('u, 'a, 'd) devfs_tree \<Rightarrow> ('u, 'a, 'd) devfs_tree" where
  "prune_empty_dirs p t =
     (if p \<noteq> [] \<and> prunable (the (t p)) then prune_empty_dirs (butlast p) (unlink_child p t) else t)"
  by pat_completeness auto
termination by (relation "measure (\<lambda>(p, t). length p)") auto

declare prune_empty_dirs.simps [simp del]

function find_walk :: "('u, 'a, 'd) devfs_tree \<Rightarrow> devfs_ptr \<Rightarrow> string \<Rightarrow> devfs_ptr option" where
  "find_walk t node s =
     (if s = [] then Some node
      else case next_component s of
        (c, rest) \<Rightarrow>
          (case find_child t node c of
             None \<Rightarrow> None
           | Some p \<Rightarrow>
               (case rest of
                  None \<Rightarrow> Some p
                | Some r \<Rightarrow> if n_type (the (t p)) \<noteq> DEVFS_NODE_DIR then None else find_walk t p r)))"
  by pat_completeness auto
termination by (relation "measure (\<lambda>(t, p, s). length s)") (auto simp: next_component_shorter [OF sym])

declare find_walk.simps [simp del]

definition find_node :: "nat \<Rightarrow> string option \<Rightarrow> ('u, 'a, 'd) devfs_tree \<Rightarrow> devfs_ptr option" where
  "find_node max_len path t =
     (let (ret, rel) = validate_path max_len path True in
      if ret \<noteq> 0 then None
      else if strcmp rel ''/'' = 0 then Some []
      else find_walk t [] (drop 1 rel))"

section \<open>Registration\<close>

text \<open>
  The loop of \<open>devfs_register_file\<close> from the node \<open>parent\<close> on; \<open>heap n\<close> decides whether allocation n
  succeeds.  It returns the code, the last node reached, the tree and the number of allocations.
\<close>

function register_walk ::
    "(nat \<Rightarrow> bool) \<Rightarrow> devfs_ptr \<Rightarrow> string \<Rightarrow> ('u, 'a, 'd) devfs_tree \<Rightarrow> nat
       \<Rightarrow> int \<times> devfs_ptr \<times> ('u, 'a, 'd) devfs_tree \<times> nat" where
  "register_walk heap parent s t n =
     (if s = [] then (0, parent, t, n)
      else case next_component s of
        (c, rest) \<Rightarrow>
          (case find_child t parent c of
             Some p \<Rightarrow>
               (case rest of
                  None \<Rightarrow> (if n_type (the (t p)) = DEVFS_NODE_FILE then - EEXIST else - EISDIR, parent, t, n)
                | Some r \<Rightarrow>
                    if n_type (the (t p)) \<noteq> DEVFS_NODE_DIR then (- ENOTDIR, parent, t, n)
                    else register_walk heap p r t n)
           | None \<Rightarrow>
               if \<not> heap n then (- ENOMEM, parent, t, n + 1)
               else
                 (case rest of
                    None \<Rightarrow> (0, parent @ [c], insert_child parent c (alloc_node DEVFS_NODE_FILE) t, n + 1)
                  | Some r \<Rightarrow>
                      register_walk heap (parent @ [c]) r (insert_child parent c (alloc_node DEVFS_NODE_DIR) t) (n + 1))))"
  by pat_completeness auto
termination by (relation "measure (\<lambda>(heap, p, s, t, n). length s)") (auto simp: next_component_shorter [OF sym])

declare register_walk.simps [simp del]

definition devfs_register_file ::
    "nat \<Rightarrow> (nat \<Rightarrow> bool) \<Rightarrow> string option \<Rightarrow> ('u, 'a, 'd) devfs_file_ops option \<Rightarrow> 'u option
       \<Rightarrow> ('u, 'a, 'd) devfs_tree \<Rightarrow> int \<times> ('u, 'a, 'd) devfs_tree" where
  "devfs_register_file max_len heap path ops user_data t =
     (case ops of
        None \<Rightarrow> (- EINVAL, t)
      | Some f \<Rightarrow>
          let (ret, rel) = validate_path max_len path False in
          if ret \<noteq> 0 \<or> strcmp rel ''/'' = 0 then (- EINVAL, t)
          else
            let (ret, p, t', n) = register_walk heap [] (drop 1 rel) t 0 in
            if ret = 0 then (0, update_node p (\<lambda>n. n\<lparr>n_ops := f, n_user_data := user_data\<rparr>) t')
            else (ret, prune_empty_dirs p t'))"

definition devfs_unregister_file ::
    "nat \<Rightarrow> string option \<Rightarrow> ('u, 'a, 'd) devfs_tree \<Rightarrow> int \<times> ('u, 'a, 'd) devfs_tree" where
  "devfs_unregister_file max_len path t =
     (case find_node max_len path t of
        None \<Rightarrow> (- ENOENT, t)
      | Some p \<Rightarrow>
          if n_type (the (t p)) \<noteq> DEVFS_NODE_FILE then (- EISDIR, t)
          else if n_open_count (the (t p)) \<noteq> 0 then (- EBUSY, t)
          else (0, prune_empty_dirs (butlast p) (unlink_child p t)))"

section \<open>Files\<close>

definition pin_node :: "devfs_ptr \<Rightarrow> ('u, 'a, 'd) devfs_tree \<Rightarrow> ('u, 'a, 'd) devfs_tree" where
  "pin_node p t = update_node p (\<lambda>n. n\<lparr>n_open_count := n_open_count n + 1\<rparr>) t"

definition unpin_node :: "devfs_ptr \<Rightarrow> ('u, 'a, 'd) devfs_tree \<Rightarrow> ('u, 'a, 'd) devfs_tree" where
  "unpin_node p t = update_node p (\<lambda>n. n\<lparr>n_open_count := n_open_count n - 1\<rparr>) t"

text \<open>\<open>mem\<close> tells whether the allocation of the file object succeeds; \<open>d\<close> is the drivers' state.\<close>

definition devfs_open ::
    "nat \<Rightarrow> bool \<Rightarrow> string option \<Rightarrow> int \<Rightarrow> ('u, 'a, 'd) devfs_tree \<Rightarrow> 'd
       \<Rightarrow> int \<times> 'a devfs_file option \<times> ('u, 'a, 'd) devfs_tree \<times> 'd" where
  "devfs_open max_len mem path flags t d =
     (if \<not> mem then (- ENOMEM, None, t, d)
      else
        (case find_node max_len path t of
           None \<Rightarrow> (- ENOENT, None, t, d)
         | Some p \<Rightarrow>
             if n_type (the (t p)) \<noteq> DEVFS_NODE_FILE then (- EISDIR, None, t, d)
             else
               let t1 = pin_node p t; file = \<lparr>f_node = p, f_data = None\<rparr> in
               (case op_open (n_ops (the (t p))) of
                  None \<Rightarrow> (0, Some file, t1, d)
                | Some f \<Rightarrow>
                    let (ret, file', d') = f file (n_user_data (the (t p))) flags d in
                    if ret \<noteq> 0 then (ret, None, unpin_node p t1, d')
                    else (0, Some (after_callback file file'), t1, d'))))"

definition devfs_read ::
    "'a devfs_file \<Rightarrow> nat \<Rightarrow> ('u, 'a, 'd) devfs_tree \<Rightarrow> 'd \<Rightarrow> (int \<times> byte list) \<times> 'a devfs_file \<times> 'd" where
  "devfs_read file nbytes t d =
     (case op_read (n_ops (the (t (f_node file)))) of
        None \<Rightarrow> ((- ENOTSUP, []), file, d)
      | Some f \<Rightarrow> (case f file nbytes d of (ret, file', d') \<Rightarrow> (ret, after_callback file file', d')))"

definition devfs_write ::
    "'a devfs_file \<Rightarrow> byte list \<Rightarrow> ('u, 'a, 'd) devfs_tree \<Rightarrow> 'd \<Rightarrow> int \<times> 'a devfs_file \<times> 'd" where
  "devfs_write file src t d =
     (case op_write (n_ops (the (t (f_node file)))) of
        None \<Rightarrow> (- ENOTSUP, file, d)
      | Some f \<Rightarrow> (case f file src d of (ret, file', d') \<Rightarrow> (ret, after_callback file file', d')))"

definition devfs_lseek :: "'a devfs_file \<Rightarrow> int \<Rightarrow> int \<Rightarrow> int" where
  "devfs_lseek file off whence = 0"

definition devfs_tell :: "'a devfs_file \<Rightarrow> int" where
  "devfs_tell file = 0"

definition devfs_close ::
    "'a devfs_file \<Rightarrow> ('u, 'a, 'd) devfs_tree \<Rightarrow> 'd \<Rightarrow> int \<times> ('u, 'a, 'd) devfs_tree \<times> 'd" where
  "devfs_close file t d =
     (let (ret, d') =
        (case op_close (n_ops (the (t (f_node file)))) of None \<Rightarrow> (0, d) | Some f \<Rightarrow> f file d)
      in (ret, unpin_node (f_node file) t, d'))"

section \<open>Directories\<close>

definition dirent_type :: "('u, 'a, 'd) devfs_node \<Rightarrow> fs_dir_entry_type" where
  "dirent_type n = (if n_type n = DEVFS_NODE_DIR then FS_DIR_ENTRY_DIR else FS_DIR_ENTRY_FILE)"

definition devfs_stat :: "nat \<Rightarrow> string option \<Rightarrow> ('u, 'a, 'd) devfs_tree \<Rightarrow> int \<times> fs_dirent option" where
  "devfs_stat max_len path t =
     (case find_node max_len path t of
        None \<Rightarrow> (- ENOENT, None)
      | Some p \<Rightarrow> (0, Some \<lparr>entry_type = dirent_type (the (t p)), entry_size = 0\<rparr>))"

definition devfs_opendir ::
    "nat \<Rightarrow> bool \<Rightarrow> string option \<Rightarrow> ('u, 'a, 'd) devfs_tree \<Rightarrow> int \<times> devfs_dir option \<times> ('u, 'a, 'd) devfs_tree" where
  "devfs_opendir max_len mem path t =
     (if \<not> mem then (- ENOMEM, None, t)
      else
        (case find_node max_len path t of
           None \<Rightarrow> (- ENOENT, None, t)
         | Some p \<Rightarrow>
             if n_type (the (t p)) \<noteq> DEVFS_NODE_DIR then (- ENOTDIR, None, t)
             else (0, Some \<lparr>dir_node = p, dir_last_name = [], dir_started = False\<rparr>, pin_node p t)))"

text \<open>
  \<open>name_size\<close> is the size of the name in a directory entry; a name that does not fit is cut.  An empty
  name marks the end.
\<close>

definition devfs_readdir ::
    "nat \<Rightarrow> nat \<Rightarrow> devfs_dir \<Rightarrow> ('u, 'a, 'd) devfs_tree \<Rightarrow> int \<times> (string \<times> fs_dirent option) \<times> devfs_dir" where
  "devfs_readdir max_len name_size dir t =
     (case find (\<lambda>c. \<not> (dir_started dir \<and> strcmp c (dir_last_name dir) \<le> 0)) (n_children (the (t (dir_node dir)))) of
        None \<Rightarrow> (0, ([], None), dir)
      | Some c \<Rightarrow>
          (0, (take (name_size - 1) c, Some \<lparr>entry_type = dirent_type (the (t (dir_node dir @ [c]))), entry_size = 0\<rparr>),
           dir\<lparr>dir_last_name := take (max_len - 1) c, dir_started := True\<rparr>))"

definition devfs_closedir :: "devfs_dir \<Rightarrow> ('u, 'a, 'd) devfs_tree \<Rightarrow> int \<times> ('u, 'a, 'd) devfs_tree" where
  "devfs_closedir dir t = (0, prune_empty_dirs (dir_node dir) (unpin_node (dir_node dir) t))"

section \<open>Mounting\<close>

text \<open>The calls of Zephyr's virtual file system layer, over a state of its own.\<close>

record 'v vfs =
  fs_register :: "'v \<Rightarrow> int \<times> 'v"
  fs_mount :: "'v \<Rightarrow> int \<times> 'v"
  fs_unmount :: "'v \<Rightarrow> int \<times> 'v"
  fs_unregister :: "'v \<Rightarrow> int \<times> 'v"

definition devfs_do_mount :: int where "devfs_do_mount = 0"

definition devfs_unmount :: int where "devfs_unmount = 0"

definition devfs_register :: "'v vfs \<Rightarrow> 'v \<Rightarrow> int \<times> 'v" where
  "devfs_register V v =
     (let (ret, v1) = fs_register V v in
      if ret \<noteq> 0 then (ret, v1)
      else
        let (ret, v2) = fs_mount V v1 in
        if ret \<noteq> 0 then (ret, snd (fs_unregister V v2))
        else (0, v2))"

definition devfs_unregister :: "'v vfs \<Rightarrow> 'v \<Rightarrow> int \<times> 'v" where
  "devfs_unregister V v =
     (let (ret, v1) = fs_unmount V v in
      if ret \<noteq> 0 then (ret, v1) else fs_unregister V v1)"

end
