(* ===== verification/Driver_State.thy ===== *)
theory Driver_State
  imports Devfs
begin

text \<open>
  The static variables of the two device drivers (drivers/webos_gpio, drivers/webos_rgbled), the board
  they drive, and the values that pass through the untyped pointers of the device file system: the
  user data of a device file points to a file description of a GPIO or to an LED, and the data of an
  open file to the driver's own record of it.
\<close>

datatype webos_gpio_file_type = WEBOS_GPIO_VALUE | WEBOS_GPIO_DIRECTION

record gpio_dt_spec =
  port :: nat
  pin :: nat

record webos_gpio_dev =
  spec :: gpio_dt_spec
  value_path :: string
  direction_path :: string
  value_state :: int
  value_set :: bool
  dir_out :: bool
  dir_set :: bool

record webos_rgbled_dev =
  strip :: nat
  webos_pin :: nat
  chain_length :: nat
  led_path :: string
  red :: byte
  green :: byte
  blue :: byte

datatype device_ptr = Gpio_Def nat webos_gpio_file_type | Led_Dev nat

record webos_gpio_open_file =
  gf_gpio :: nat
  gf_type :: webos_gpio_file_type
  gf_read_eof :: bool

record webos_rgbled_open_file =
  lf_led :: nat
  lf_read_eof :: bool

datatype driver_file = Gpio_File webos_gpio_open_file | Led_File webos_rgbled_open_file

text \<open>The drivers' arrays, the state of the hardware and the number of allocations made so far.\<close>

record 'h drivers =
  webos_gpios :: "webos_gpio_dev list"
  webos_rgbleds :: "webos_rgbled_dev list"
  hardware :: 'h
  drv_allocs :: nat

text \<open>The calls into Zephyr's GPIO and LED strip drivers and the heap, and the configured bounds.\<close>

datatype gpio_flags = GPIO_INPUT | GPIO_OUTPUT

record 'h board =
  gpio_is_ready_dt :: "gpio_dt_spec \<Rightarrow> 'h \<Rightarrow> bool"
  gpio_pin_configure_dt :: "gpio_dt_spec \<Rightarrow> gpio_flags \<Rightarrow> 'h \<Rightarrow> int \<times> 'h"
  gpio_pin_set_dt :: "gpio_dt_spec \<Rightarrow> int \<Rightarrow> 'h \<Rightarrow> int \<times> 'h"
  device_is_ready :: "nat \<Rightarrow> 'h \<Rightarrow> bool"
  led_strip_update_rgb :: "nat \<Rightarrow> (byte \<times> byte \<times> byte) list \<Rightarrow> 'h \<Rightarrow> int \<times> 'h"
  board_heap :: "nat \<Rightarrow> bool"
  WEBOS_RGBLED_MAX_PIXELS :: nat
  WEBOS_DEVFS_MAX_PATH_LEN :: nat

type_synonym 'h driver_ops = "(device_ptr, driver_file, 'h drivers) devfs_file_ops"
type_synonym 'h driver_tree = "(device_ptr, driver_file, 'h drivers) devfs_tree"
type_synonym open_dev_file = "driver_file devfs_file"

definition driver_malloc :: "'h board \<Rightarrow> 'h drivers \<Rightarrow> bool \<times> 'h drivers" where
  "driver_malloc B d = (board_heap B (drv_allocs d), d\<lparr>drv_allocs := drv_allocs d + 1\<rparr>)"

text \<open>The text of a buffer of the given size after a copy of at most size - 1 bytes and a terminator.\<close>

definition copied_text :: "nat \<Rightarrow> byte list \<Rightarrow> string" where
  "copied_text cap src = takeWhile (\<lambda>c. c \<noteq> NUL) (take (cap - 1) src)"

text \<open>
  What a read returns of a text of a few bytes: the length, cut to what the caller asked for, and the
  bytes copied.
\<close>

definition read_text :: "string \<Rightarrow> nat \<Rightarrow> int \<times> byte list" where
  "read_text txt nbytes = (int (min (length txt) nbytes), take nbytes txt)"

end
