(* ===== verification/Devfs_Inv.thy ===== *)
theory Devfs_Inv
  imports Devfs
begin

text \<open>
  The shape of the device tree and how the operations change it.  \<open>devfs_wf\<close> says which trees are
  well formed and \<open>idle_dirs\<close> which directories the code has to prune; the views \<open>device_files\<close>,
  \<open>open_count\<close> and \<open>is_dir\<close> abstract from the tree.  The early exit of the child search, the walk along
  a path, pruning and the whole registration are described through these views.
\<close>

section \<open>The order of names\<close>

lemma strcmp_swap: "strcmp b a = - strcmp a b"
  by (induction a b rule: strcmp.induct) auto

lemma strcmp_self [simp]: "strcmp a a = 0"
  by (induction a) auto

lemma strcmp_trans: "no_nul a \<Longrightarrow> no_nul b \<Longrightarrow> no_nul c \<Longrightarrow> strcmp a b < 0 \<Longrightarrow> strcmp b c < 0 \<Longrightarrow> strcmp a c < 0"
proof (induction a arbitrary: b c)
  case Nil
  then show ?case by (cases b; cases c) (auto simp: no_nul_def)
next
  case (Cons x xs)
  obtain y ys where b: "b = y # ys" using Cons.prems(4) by (cases b) auto
  obtain z zs where c: "c = z # zs" using Cons.prems(5) b by (cases c) auto
  have tails: "no_nul xs" "no_nul ys" "no_nul zs" using Cons.prems(1-3) b c by (auto simp: no_nul_def)
  show ?case using Cons.prems(4,5) Cons.IH [OF tails] b c by (auto split: if_splits)
qed

lemma strncmp_strcmp:
  "no_nul a \<Longrightarrow> no_nul b \<Longrightarrow> strncmp a b (length b) = (if prefix b a then 0 else strcmp a b)"
  by (induction a b "length b" rule: strncmp.induct) (auto simp: no_nul_def)

lemma c_at_end: "no_nul a \<Longrightarrow> c_at a n = NUL \<longleftrightarrow> length a \<le> n"
  by (auto simp: c_at_def no_nul_def in_set_conv_nth)

lemma prefix_strcmp: "no_nul a \<Longrightarrow> prefix b a \<Longrightarrow> b \<noteq> a \<Longrightarrow> strcmp b a < 0"
  by (induction b a rule: strcmp.induct) (auto simp: no_nul_def)

definition names_ordered :: "string list \<Rightarrow> bool" where
  "names_ordered cs \<longleftrightarrow> sorted_wrt (\<lambda>a b. strcmp a b < 0) cs \<and> list_all no_nul cs"

lemma names_ordered_Cons: "names_ordered (c # cs) \<longleftrightarrow> no_nul c \<and> (\<forall>x\<in>set cs. strcmp c x < 0) \<and> names_ordered cs"
  by (auto simp: names_ordered_def)

lemma names_ordered_distinct: "names_ordered cs \<Longrightarrow> distinct cs"
  by (induction cs) (auto simp: names_ordered_Cons)

lemma scan_children_lookup:
  "names_ordered cs \<Longrightarrow> no_nul name \<Longrightarrow> scan_children cs name = (if name \<in> set cs then Some name else None)"
proof (induction cs)
  case (Cons c cs)
  have c: "no_nul c" "\<forall>x\<in>set cs. strcmp c x < 0 \<and> no_nul x" "names_ordered cs"
    using Cons.prems(1) by (auto simp: names_ordered_Cons names_ordered_def list_all_iff)
  note cmp = strncmp_strcmp [OF c(1) Cons.prems(2)] c_at_end [OF c(1)]
  have past: "name \<notin> set cs" if "strcmp name c < 0"
    using c strcmp_trans [OF Cons.prems(2) c(1) Cons.prems(2) that] by auto
  consider "c = name" | "prefix name c" "c \<noteq> name" | "\<not> prefix name c" "strcmp c name < 0" | "\<not> prefix name c" "strcmp c name > 0"
    using strcmp_eq_0_iff [OF c(1) Cons.prems(2)] by force
  then show ?case
  proof cases
    case 2
    then have "length name < length c" by (auto simp: prefix_def)
    then show ?thesis using 2 cmp past prefix_strcmp [OF c(1) 2(1)] by simp
  next
    case 3
    then show ?thesis using cmp Cons by (auto simp: c(3))
  next
    case 4
    then show ?thesis using cmp past strcmp_swap [of name c] by auto
  qed (use cmp in auto)
qed simp

lemma set_insert_name [simp]: "set (insert_name name cs) = insert name (set cs)"
  by (induction cs) auto

lemma insert_name_ordered: "names_ordered cs \<Longrightarrow> no_nul name \<Longrightarrow> name \<notin> set cs \<Longrightarrow> names_ordered (insert_name name cs)"
proof (induction cs)
  case (Cons c cs)
  have c: "no_nul c" "\<forall>x\<in>set cs. strcmp c x < 0 \<and> no_nul x" "names_ordered cs"
    using Cons.prems(1) by (auto simp: names_ordered_Cons names_ordered_def list_all_iff)
  show ?case
  proof (cases "strcmp name c < 0")
    case True
    then show ?thesis using Cons.prems c strcmp_trans [OF Cons.prems(2) c(1) _ True] by (auto simp: names_ordered_Cons)
  next
    case False
    then have "strcmp c name < 0"
      using strcmp_swap [of c name] strcmp_eq_0_iff [OF Cons.prems(2) c(1)] Cons.prems(3) by fastforce
    then show ?thesis using False Cons c by (auto simp: names_ordered_Cons)
  qed
qed (simp add: names_ordered_def)

lemma remove_insert_name: "name \<notin> set cs \<Longrightarrow> remove1 name (insert_name name cs) = cs"
  by (induction cs) auto

lemma remove_name_ordered: "names_ordered cs \<Longrightarrow> names_ordered (remove1 name cs)"
  using notin_set_remove1 by (induction cs) (fastforce simp: names_ordered_Cons)+


section \<open>The shape of the tree\<close>

text \<open>
  A node is present exactly when its parent lists its name; names are in order; only directories
  have children, and the root is one.
\<close>

definition devfs_wf :: "('u, 'a, 'd) devfs_tree \<Rightarrow> bool" where
  "devfs_wf t \<longleftrightarrow>
     (\<exists>r. t [] = Some r \<and> n_type r = DEVFS_NODE_DIR) \<and>
     (\<forall>p n. t p = Some n \<longrightarrow> names_ordered (n_children n) \<and> (n_type n = DEVFS_NODE_FILE \<longrightarrow> n_children n = [])) \<and>
     (\<forall>p c. t (p @ [c]) \<noteq> None \<longleftrightarrow> (\<exists>n. t p = Some n \<and> c \<in> set (n_children n)))"

text \<open>The closed directories without children, which the code means not to keep.\<close>

definition idle_dirs :: "('u, 'a, 'd) devfs_tree \<Rightarrow> devfs_ptr set" where
  "idle_dirs t = {p. p \<noteq> [] \<and> (\<exists>n. t p = Some n \<and> prunable n)}"

text \<open>The device files with their callbacks, and how often each node is open.\<close>

definition device_files :: "('u, 'a, 'd) devfs_tree \<Rightarrow> devfs_ptr \<rightharpoonup> ('u, 'a, 'd) devfs_file_ops \<times> 'u option" where
  "device_files t p =
     (case t p of
        None \<Rightarrow> None
      | Some n \<Rightarrow> if n_type n = DEVFS_NODE_FILE then Some (n_ops n, n_user_data n) else None)"

definition open_count :: "('u, 'a, 'd) devfs_tree \<Rightarrow> devfs_ptr \<Rightarrow> nat" where
  "open_count t p = (case t p of None \<Rightarrow> 0 | Some n \<Rightarrow> unat (n_open_count n))"

definition is_dir :: "('u, 'a, 'd) devfs_tree \<Rightarrow> devfs_ptr \<Rightarrow> bool" where
  "is_dir t p \<longleftrightarrow> (\<exists>n. t p = Some n \<and> n_type n = DEVFS_NODE_DIR)"

lemma butlast_neq [simp]: "p \<noteq> [] \<Longrightarrow> butlast p \<noteq> p"
  by (cases p rule: rev_cases) simp_all

lemma devfs_wf_child: "devfs_wf t \<Longrightarrow> t (p @ [c]) \<noteq> None \<longleftrightarrow> (\<exists>n. t p = Some n \<and> c \<in> set (n_children n))"
  unfolding devfs_wf_def by blast

lemma devfs_wf_node:
  "devfs_wf t \<Longrightarrow> t p = Some n \<Longrightarrow> names_ordered (n_children n) \<and> (n_type n = DEVFS_NODE_FILE \<longrightarrow> n_children n = [])"
  unfolding devfs_wf_def by blast

lemma devfs_wf_root: "devfs_wf t \<Longrightarrow> is_dir t []"
  by (auto simp: devfs_wf_def is_dir_def)

lemma devfs_wf_parent:
  assumes "devfs_wf t" "t p = Some n" "p \<noteq> []"
  shows "\<exists>m. t (butlast p) = Some m \<and> n_type m = DEVFS_NODE_DIR \<and> last p \<in> set (n_children m)"
proof -
  obtain m where m: "t (butlast p) = Some m" "last p \<in> set (n_children m)"
    using devfs_wf_child [OF assms(1), of "butlast p" "last p"] assms(2,3) by auto
  then have "n_type m \<noteq> DEVFS_NODE_FILE" using devfs_wf_node [OF assms(1) m(1)] by auto
  then show ?thesis using m by (metis devfs_node_type.exhaust)
qed

lemma find_child_lookup:
  assumes "devfs_wf t" "t p \<noteq> None" "no_nul c"
  shows "find_child t p c = (if t (p @ [c]) \<noteq> None then Some (p @ [c]) else None)"
proof -
  obtain n where n: "t p = Some n" using assms(2) by blast
  then show ?thesis
    using scan_children_lookup [OF conjunct1 [OF devfs_wf_node [OF assms(1) n]] assms(3)] devfs_wf_child [OF assms(1), of p c]
    by (simp add: find_child_def)
qed

lemma insert_child_wf:
  assumes "devfs_wf t" "is_dir t p" "no_nul c" "t (p @ [c]) = None"
  shows "devfs_wf (insert_child p c (alloc_node ty) t)"
proof -
  obtain m where m: "t p = Some m" "n_type m = DEVFS_NODE_DIR" using assms(2) by (auto simp: is_dir_def)
  have fresh: "c \<notin> set (n_children m)" using devfs_wf_child [OF assms(1), of p c] assms(4) m by auto
  have below: "t ((p @ [c]) @ [d]) = None" for d using devfs_wf_child [OF assms(1), of "p @ [c]" d] assms(4) by auto
  let ?t = "insert_child p c (alloc_node ty) t"
  have upd: "?t = t(p \<mapsto> m\<lparr>n_children := insert_name c (n_children m)\<rparr>, p @ [c] \<mapsto> alloc_node ty)"
    by (simp add: insert_child_def update_node_def m)
  have "\<exists>r. ?t [] = Some r \<and> n_type r = DEVFS_NODE_DIR"
    using devfs_wf_root [OF assms(1)] m unfolding upd by (auto simp: is_dir_def)
  moreover have "names_ordered (n_children n) \<and> (n_type n = DEVFS_NODE_FILE \<longrightarrow> n_children n = [])" if "?t q = Some n" for q n
    using that insert_name_ordered [OF _ assms(3) fresh] devfs_wf_node [OF assms(1)] m unfolding upd
    by (auto simp: alloc_node_def names_ordered_def split: if_splits)
  moreover have "?t (q @ [d]) \<noteq> None \<longleftrightarrow> (\<exists>n. ?t q = Some n \<and> d \<in> set (n_children n))" for q d
    using devfs_wf_child [OF assms(1), of q d] m below [of d] unfolding upd
    by (cases "q = p"; cases "q = p @ [c]"; cases "q @ [d] = p") (auto simp: alloc_node_def)
  ultimately show ?thesis unfolding devfs_wf_def by blast
qed

lemma unlink_child_wf:
  assumes "devfs_wf t" "t p = Some n" "n_children n = []" "p \<noteq> []"
  shows "devfs_wf (unlink_child p t)"
proof -
  obtain m where m: "t (butlast p) = Some m" "n_type m = DEVFS_NODE_DIR" "last p \<in> set (n_children m)"
    using devfs_wf_parent [OF assms(1,2,4)] by blast
  let ?t = "unlink_child p t"
  have p: "butlast p \<noteq> p" using assms(4) by simp
  have upd: "?t = t(butlast p \<mapsto> m\<lparr>n_children := remove1 (last p) (n_children m)\<rparr>, p := None)"
    by (simp add: unlink_child_def update_node_def m)
  have rm: "set (remove1 (last p) (n_children m)) = set (n_children m) - {last p}"
    using names_ordered_distinct devfs_wf_node [OF assms(1) m(1)] by (simp add: set_remove1_eq)
  have "\<exists>r. ?t [] = Some r \<and> n_type r = DEVFS_NODE_DIR"
    using devfs_wf_root [OF assms(1)] m(1,2) assms(4) unfolding upd by (auto simp: is_dir_def)
  moreover have "names_ordered (n_children n) \<and> (n_type n = DEVFS_NODE_FILE \<longrightarrow> n_children n = [])" if "?t q = Some n" for q n
    using that remove_name_ordered devfs_wf_node [OF assms(1)] m(1,2) unfolding upd by (auto split: if_splits)
  moreover have "?t (q @ [d]) \<noteq> None \<longleftrightarrow> (\<exists>n. ?t q = Some n \<and> d \<in> set (n_children n))" for q d
  proof (cases "q @ [d] = p")
    case True
    then have "q = butlast p" "d = last p" by auto
    then show ?thesis using p rm True unfolding upd by auto
  next
    case False
    then have d: "q = butlast p \<Longrightarrow> d \<noteq> last p" using assms(4) by auto
    have child: "?t (q @ [d]) \<noteq> None \<longleftrightarrow> t (q @ [d]) \<noteq> None" using False m(1) unfolding upd by simp
    have "(\<exists>n. ?t q = Some n \<and> d \<in> set (n_children n)) \<longleftrightarrow> (\<exists>n. t q = Some n \<and> d \<in> set (n_children n))"
    proof (cases "q = butlast p")
      case True
      then show ?thesis using d m(1) rm p unfolding upd by simp
    next
      case False
      then show ?thesis using assms(2,3) unfolding upd by simp
    qed
    then show ?thesis using child devfs_wf_child [OF assms(1), of q d] by blast
  qed
  ultimately show ?thesis unfolding devfs_wf_def by blast
qed

lemma unlink_insert:
  assumes "t p = Some m" "c \<notin> set (n_children m)" "t (p @ [c]) = None"
  shows "unlink_child (p @ [c]) (insert_child p c node t) = t"
proof -
  have "p \<noteq> p @ [c]" by simp
  then show ?thesis using assms
    by (auto simp: unlink_child_def insert_child_def update_node_def remove_insert_name fun_eq_iff)
qed


section \<open>Insertion, removal and pruning\<close>

lemma insert_child_views:
  "device_files (insert_child p c (alloc_node ty) t) =
     (device_files t)(p @ [c] := if ty = DEVFS_NODE_FILE then Some (no_ops, None) else None)"
  "open_count (insert_child p c (alloc_node ty) t) = (open_count t)(p @ [c] := 0)"
  "is_dir (insert_child p c (alloc_node ty) t) q \<longleftrightarrow> (if q = p @ [c] then ty = DEVFS_NODE_DIR else is_dir t q)"
  by (auto simp: insert_child_def update_node_def alloc_node_def device_files_def open_count_def is_dir_def fun_eq_iff split: option.splits)

lemma insert_name_not_Nil [simp]: "insert_name c cs \<noteq> []"
  by (cases cs) auto

lemma insert_child_idle:
  "idle_dirs (insert_child p c (alloc_node ty) t) \<subseteq> (idle_dirs t - {p}) \<union> (if ty = DEVFS_NODE_DIR then {p @ [c]} else {})"
  by (auto simp: insert_child_def update_node_def alloc_node_def idle_dirs_def prunable_def split: if_splits)

lemma unlink_child_views:
  assumes "p \<noteq> []"
  shows "device_files (unlink_child p t) = (device_files t)(p := None)"
    "open_count (unlink_child p t) = (open_count t)(p := 0)"
    "is_dir (unlink_child p t) q \<longleftrightarrow> is_dir t q \<and> q \<noteq> p"
    "idle_dirs (unlink_child p t) \<subseteq> (idle_dirs t - {p}) \<union> {butlast p}"
    "unlink_child p t (butlast p) = None \<longleftrightarrow> t (butlast p) = None"
  using assms
  by (auto simp: unlink_child_def update_node_def device_files_def open_count_def is_dir_def idle_dirs_def fun_eq_iff
      split: option.splits if_splits)


lemma prunable_node: "t p \<noteq> None \<Longrightarrow> prunable (the (t p)) \<Longrightarrow> device_files t p = None \<and> open_count t p = 0"
  by (auto simp: prunable_def device_files_def open_count_def)

lemma prune_empty_dirs_views:
  assumes "devfs_wf t" "t p \<noteq> None"
  shows "devfs_wf (prune_empty_dirs p t) \<and> device_files (prune_empty_dirs p t) = device_files t \<and>
    open_count (prune_empty_dirs p t) = open_count t \<and>
    (\<forall>q. is_dir t q \<longrightarrow> open_count t q \<noteq> 0 \<longrightarrow> is_dir (prune_empty_dirs p t) q) \<and>
    (idle_dirs t \<subseteq> {p} \<longrightarrow> idle_dirs (prune_empty_dirs p t) = {})"
  using assms
proof (induction p t rule: prune_empty_dirs.induct)
  case (1 p t)
  show ?case
  proof (cases "p \<noteq> [] \<and> prunable (the (t p))")
    case True
    then obtain n where n: "t p = Some n" "n_children n = []" using 1 by (auto simp: prunable_def)
    let ?t = "unlink_child p t"
    have wf: "devfs_wf ?t" using unlink_child_wf [OF 1(2) n] True by simp
    have parent: "?t (butlast p) \<noteq> None" using devfs_wf_parent [OF 1(2) n(1)] True unlink_child_views(5) [of p t] by auto
    note ih = 1(1) [OF True wf parent]
    have same: "device_files ?t = device_files t" "open_count ?t = open_count t"
      using unlink_child_views(1,2) [of p t] True prunable_node [of t p, OF 1(3)] by (auto simp: fun_eq_iff)
    have dirs: "is_dir ?t q" if "is_dir t q" "open_count t q \<noteq> 0" for q
      using that unlink_child_views(3) [of p t q] True prunable_node [of t p, OF 1(3)] by auto
    have idle: "idle_dirs ?t \<subseteq> {butlast p}" if "idle_dirs t \<subseteq> {p}"
      using that unlink_child_views(4) [of p t] True by auto
    have "prune_empty_dirs p t = prune_empty_dirs (butlast p) ?t" using True by (subst prune_empty_dirs.simps) simp
    then show ?thesis using ih same dirs idle by simp
  next
    case False
    then have "prune_empty_dirs p t = t" by (subst prune_empty_dirs.simps) auto
    moreover have "p \<notin> idle_dirs t" using False by (auto simp: idle_dirs_def)
    ultimately show ?thesis using 1(2) by auto
  qed
qed

lemma prune_nothing: "idle_dirs t = {} \<Longrightarrow> t p \<noteq> None \<Longrightarrow> prune_empty_dirs p t = t"
  by (subst prune_empty_dirs.simps) (auto simp: idle_dirs_def)

section \<open>Names of a path\<close>

function path_names :: "string \<Rightarrow> string list" where
  "path_names s =
     (if s = [] then []
      else case next_component s of (c, rest) \<Rightarrow> c # (case rest of None \<Rightarrow> [] | Some r \<Rightarrow> path_names r))"
  by pat_completeness auto
termination by (relation "measure length") (auto simp: next_component_shorter [OF sym])

declare path_names.simps [simp del]

lemma path_names_Nil [simp]: "path_names [] = []"
  by (simp add: path_names.simps)

lemma path_names_step: "s \<noteq> [] \<Longrightarrow> next_component s = (c, rest) \<Longrightarrow>
  path_names s = c # (case rest of None \<Rightarrow> [] | Some r \<Rightarrow> path_names r)"
  by (subst path_names.simps) simp

lemma next_component_parts:
  "next_component s = (c, None) \<Longrightarrow> c = s \<and> CHR ''/'' \<notin> set s"
  "next_component s = (c, Some r) \<Longrightarrow> s = c @ CHR ''/'' # r"
  by (auto simp: next_component_def split_first_None dest: split_first_Some split: option.splits)

lemma devfs_wf_above: "devfs_wf t \<Longrightarrow> t (p @ x # xs) \<noteq> None \<Longrightarrow> is_dir t p"
proof (induction xs rule: rev_induct)
  case Nil
  then show ?case using devfs_wf_parent [of t "p @ [x]"] by (auto simp: is_dir_def)
next
  case (snoc y xs)
  then show ?case using devfs_wf_parent [of t "p @ x # xs @ [y]"] by (auto simp: butlast_append)
qed

definition trailing_slash :: "string \<Rightarrow> bool" where
  "trailing_slash s \<longleftrightarrow> s \<noteq> [] \<and> last s = CHR ''/''"

lemma path_names_empty [simp]: "path_names s = [] \<longleftrightarrow> s = []"
  by (subst path_names.simps) (auto split: prod.splits)

lemma find_walk_last:
  assumes "devfs_wf t" "t p \<noteq> None" "no_nul s" "s \<noteq> []" "next_component s = (c, None)"
  shows "find_walk t p s = (if t (p @ [c]) \<noteq> None then Some (p @ [c]) else None) \<and> path_names s = [c] \<and> \<not> trailing_slash s"
proof -
  have s: "c = s" "CHR ''/'' \<notin> set s" using next_component_parts(1) [OF assms(5)] by auto
  then have "\<not> trailing_slash s" by (metis last_in_set trailing_slash_def)
  then show ?thesis using assms find_child_lookup [OF assms(1,2)] s
    by (simp add: find_walk.simps [of t p s] path_names_step split: option.splits)
qed

lemma find_walk_slash:
  assumes "devfs_wf t" "t p \<noteq> None" "no_nul s" "next_component s = (c, Some r)"
  shows "find_walk t p s = (if is_dir t (p @ [c]) then find_walk t (p @ [c]) r else None)"
    "path_names s = c # path_names r" "trailing_slash s \<longleftrightarrow> r = [] \<or> trailing_slash r" "no_nul c" "no_nul r"
proof -
  have s: "s = c @ CHR ''/'' # r" using next_component_parts(2) [OF assms(4)] .
  show nul: "no_nul c" "no_nul r" using s assms(3) by (auto simp: no_nul_def)
  show "find_walk t p s = (if is_dir t (p @ [c]) then find_walk t (p @ [c]) r else None)"
    using s assms(4) find_child_lookup [OF assms(1,2) nul(1)]
    by (subst find_walk.simps) (auto simp: is_dir_def split: option.splits)
  show "path_names s = c # path_names r" using path_names_step [OF _ assms(4)] s by simp
  show "trailing_slash s \<longleftrightarrow> r = [] \<or> trailing_slash r" using s by (auto simp: trailing_slash_def)
qed

lemma find_walk_lookup:
  assumes "devfs_wf t" "t p \<noteq> None" "no_nul s"
  shows "find_walk t p s =
    (if t (p @ path_names s) \<noteq> None \<and> (trailing_slash s \<longrightarrow> is_dir t (p @ path_names s)) then Some (p @ path_names s) else None)"
  using assms
proof (induction "length s" arbitrary: p s rule: less_induct)
  case less
  obtain c rest where nc: "next_component s = (c, rest)" by (cases "next_component s")
  consider "s = []" | "s \<noteq> []" "rest = None" | r where "s \<noteq> []" "rest = Some r" by (cases rest) auto
  then show ?case
  proof cases
    case 1
    then show ?thesis using less.prems by (simp add: find_walk.simps trailing_slash_def)
  next
    case 2
    then show ?thesis using find_walk_last [OF less.prems] nc by simp
  next
    case 3
    note step = find_walk_slash [OF less.prems nc [unfolded 3(2)]]
    have above: "t (p @ c # path_names r) = None" if "\<not> is_dir t (p @ [c])" "r \<noteq> []"
      using devfs_wf_above [OF less.prems(1), of "p @ [c]" "hd (path_names r)" "tl (path_names r)"] that
      by (cases "t (p @ c # path_names r)") auto
    have ih: "find_walk t (p @ [c]) r = (if t (p @ path_names s) \<noteq> None \<and> (trailing_slash r \<longrightarrow> is_dir t (p @ path_names s))
        then Some (p @ path_names s) else None)" if "is_dir t (p @ [c])"
      using less.hyps [OF next_component_shorter less.prems(1) _ step(5), of c "p @ [c]"] that nc 3(2)
      by (auto simp: step(2) is_dir_def)
    show ?thesis
    proof (cases "is_dir t (p @ [c])")
      case True
      then show ?thesis using ih step(1,3) by (cases "r = []") (auto simp: step(2) trailing_slash_def)
    next
      case False
      then show ?thesis using above step(1-3) by (cases "r = []") (auto simp: is_dir_def)
    qed
  qed
qed


section \<open>Registration\<close>

lemma prune_new:
  assumes "devfs_wf t" "t p = Some m" "t (p @ [c]) = None"
  shows "prune_empty_dirs (p @ [c]) (insert_child p c (alloc_node DEVFS_NODE_DIR) t) = prune_empty_dirs p t"
proof -
  have "c \<notin> set (n_children m)" using devfs_wf_child [OF assms(1), of p c] assms(2,3) by auto
  note undo = unlink_insert [where t = t, OF assms(2) this assms(3)]
  have "prunable (the (insert_child p c (alloc_node DEVFS_NODE_DIR) t (p @ [c])))"
    by (simp add: insert_child_def alloc_node_def prunable_def)
  then show ?thesis by (subst prune_empty_dirs.simps) (simp add: undo)
qed

text \<open>The walk through an existing directory, and below a missing one.\<close>

lemma register_walk_cases:
  assumes "devfs_wf t" "is_dir t p" "no_nul s" "s \<noteq> []" "next_component s = (c, rest)"
  shows "register_walk heap p s t n =
    (if t (p @ [c]) \<noteq> None
     then case rest of
         None \<Rightarrow> (if is_dir t (p @ [c]) then - EISDIR else - EEXIST, p, t, n)
       | Some r \<Rightarrow> if is_dir t (p @ [c]) then register_walk heap (p @ [c]) r t n else (- ENOTDIR, p, t, n)
     else if \<not> heap n then (- ENOMEM, p, t, n + 1)
     else case rest of
         None \<Rightarrow> (0, p @ [c], insert_child p c (alloc_node DEVFS_NODE_FILE) t, n + 1)
       | Some r \<Rightarrow> register_walk heap (p @ [c]) r (insert_child p c (alloc_node DEVFS_NODE_DIR) t) (n + 1))"
proof -
  have "no_nul c" using assms(3) next_component_parts [of s c] assms(5) by (cases rest) (auto simp: no_nul_def)
  moreover have "t p \<noteq> None" using assms(2) by (auto simp: is_dir_def)
  ultimately have find: "find_child t p c = (if t (p @ [c]) \<noteq> None then Some (p @ [c]) else None)"
    using find_child_lookup [OF assms(1)] by blast
  have ty: "n_type (the (t q)) = DEVFS_NODE_DIR \<longleftrightarrow> is_dir t q" "n_type (the (t q)) = DEVFS_NODE_FILE \<longleftrightarrow> \<not> is_dir t q"
    if "t q \<noteq> None" for q using that by (cases "n_type (the (t q))"; auto simp: is_dir_def)+
  show ?thesis unfolding register_walk.simps [of heap p s t n] assms(5) split_conv find using assms(4) ty [of "p @ [c]"]
    by (cases "t (p @ [c])"; cases rest; simp)
qed


lemma alloc_dir:
  assumes "devfs_wf t" "is_dir t p" "no_nul c" "t (p @ [c]) = None"
  shows "devfs_wf (insert_child p c (alloc_node DEVFS_NODE_DIR) t) \<and> is_dir (insert_child p c (alloc_node DEVFS_NODE_DIR) t) (p @ [c])"
  using insert_child_wf [OF assms] by (simp add: insert_child_views(3))

lemma component_no_nul: "no_nul s \<Longrightarrow> next_component s = (c, rest) \<Longrightarrow> no_nul c \<and> (\<forall>r. rest = Some r \<longrightarrow> no_nul r)"
  using next_component_parts [of s c] by (cases rest) (auto simp: no_nul_def)

text \<open>Below a directory that was just made the walk only makes nodes, so a failure removes them all.\<close>

lemma register_walk_new_fails:
  assumes "register_walk heap p s t n = (ret, q, t', n')" "ret \<noteq> 0" "devfs_wf t" "is_dir t p" "n_children (the (t p)) = []" "no_nul s"
  shows "prune_empty_dirs q t' = prune_empty_dirs p t"
  using assms
proof (induction "length s" arbitrary: p s t n rule: less_induct)
  case less
  obtain c rest where nc: "next_component s = (c, rest)" by (cases "next_component s")
  have s: "s \<noteq> []" using less.prems(1,2) by (auto simp: register_walk.simps [of heap p s])
  have leaf: "t (p @ [c]) = None" using devfs_wf_child [OF less.prems(3), of p c] less.prems(5) by auto
  note walk = register_walk_cases [OF less.prems(3,4,6) s nc, of heap n] less.prems(1,2)
  show ?case
  proof (cases "heap n")
    case True
    then obtain r where r: "rest = Some r" using walk leaf by (cases rest) auto
    note dir = alloc_dir [OF less.prems(3,4) _ leaf] component_no_nul [OF less.prems(6) nc]
    have "prune_empty_dirs q t' = prune_empty_dirs (p @ [c]) (insert_child p c (alloc_node DEVFS_NODE_DIR) t)"
      using walk leaf True r dir nc
      by (intro less.hyps [of r "p @ [c]" _ "n + 1"]) (auto simp: insert_child_def alloc_node_def next_component_shorter)
    also have "\<dots> = prune_empty_dirs p t"
      using less.prems(4) prune_new [OF less.prems(3) _ leaf] by (auto simp: is_dir_def)
    finally show ?thesis .
  qed (use walk leaf in simp)
qed

lemma register_walk_fails:
  assumes "register_walk heap p s t n = (ret, q, t', n')" "ret \<noteq> 0" "devfs_wf t" "is_dir t p" "idle_dirs t = {}" "no_nul s"
  shows "prune_empty_dirs q t' = t"
  using assms
proof (induction "length s" arbitrary: p s t n rule: less_induct)
  case less
  obtain c rest where nc: "next_component s = (c, rest)" by (cases "next_component s")
  have s: "s \<noteq> []" using less.prems(1,2) by (auto simp: register_walk.simps [of heap p s])
  have p: "prune_empty_dirs p t = t" using prune_nothing [OF less.prems(5)] less.prems(4) by (auto simp: is_dir_def)
  note nul = component_no_nul [OF less.prems(6) nc]
  note walk = register_walk_cases [OF less.prems(3,4,6) s nc, of heap n] less.prems(1,2)
  consider (enter) r where "is_dir t (p @ [c])" "rest = Some r" | (make) r where "t (p @ [c]) = None" "rest = Some r" "heap n" | (stop) "q = p" "t' = t"
    using walk by (cases rest) (auto split: if_splits)
  then show ?case
  proof cases
    case enter
    then show ?thesis using walk nul nc less.prems(3,5)
      by (intro less.hyps [of r "p @ [c]" t n]) (auto simp: next_component_shorter is_dir_def)
  next
    case make
    have "prune_empty_dirs q t' = prune_empty_dirs (p @ [c]) (insert_child p c (alloc_node DEVFS_NODE_DIR) t)"
      using walk make nul alloc_dir [OF less.prems(3,4) _ make(1)]
      by (intro register_walk_new_fails [of heap "p @ [c]" r _ "n + 1" ret q t' n']) (auto simp: insert_child_def alloc_node_def)
    also have "\<dots> = t"
      using less.prems(4) prune_new [OF less.prems(3) _ make(1)] p by (auto simp: is_dir_def)
    finally show ?thesis .
  qed (simp add: p)
qed


definition grows :: "('u, 'a, 'd) devfs_tree \<Rightarrow> ('u, 'a, 'd) devfs_tree \<Rightarrow> devfs_ptr \<Rightarrow> devfs_ptr \<Rightarrow> bool" where
  "grows t t' p q \<longleftrightarrow> devfs_wf t' \<and> t q = None \<and> device_files t' = (device_files t)(q \<mapsto> (no_ops, None)) \<and>
     open_count t' = open_count t \<and> idle_dirs t' \<subseteq> idle_dirs t - {p} \<and> (\<forall>d. is_dir t d \<longrightarrow> is_dir t' d) \<and>
     strict_prefix p q \<and> (\<forall>d. is_dir t' d \<longrightarrow> is_dir t d \<or> strict_prefix d q)"

lemma open_count_None: "t p = None \<Longrightarrow> open_count t p = 0"
  by (simp add: open_count_def)

lemma device_files_None: "t p = None \<or> is_dir t p \<Longrightarrow> device_files t p = None"
  by (auto simp: device_files_def is_dir_def)

lemma not_idle: "devfs_wf t \<Longrightarrow> t (p @ [c]) \<noteq> None \<Longrightarrow> p \<notin> idle_dirs t"
  using devfs_wf_child [of t p c] by (auto simp: idle_dirs_def prunable_def)

lemma append_one_strict_prefix_below: "strict_prefix (p @ [c]) q \<Longrightarrow> strict_prefix p q"
  by (auto simp: strict_prefix_def prefix_def)

lemma grows_below: "devfs_wf t \<Longrightarrow> t (p @ [c]) \<noteq> None \<Longrightarrow> grows t t' (p @ [c]) q \<Longrightarrow> grows t t' p q"
  using not_idle [of t p c] by (auto simp: grows_def dest: append_one_strict_prefix_below)

lemma grows_insert:
  assumes "t (p @ [c]) = None" "grows (insert_child p c (alloc_node DEVFS_NODE_DIR) t) t' (p @ [c]) q"
  shows "grows t t' p q"
proof -
  let ?t = "insert_child p c (alloc_node DEVFS_NODE_DIR) t"
  have "device_files ?t = device_files t" "open_count ?t = open_count t"
    using assms(1) by (auto simp: insert_child_views open_count_None device_files_None fun_eq_iff)
  moreover have "t q = None" using assms(2) by (auto simp: grows_def insert_child_def update_node_def split: if_splits)
  moreover have "is_dir ?t d" if "is_dir t d" for d
    using that assms(1) unfolding insert_child_views(3) by (auto simp: is_dir_def)
  moreover have "is_dir ?t d \<longrightarrow> d = p @ [c] \<or> is_dir t d" for d by (simp add: insert_child_views)
  then have "is_dir t' d \<longrightarrow> is_dir t d \<or> strict_prefix d q" for d using assms(2) unfolding grows_def by blast
  ultimately show ?thesis using assms(2) insert_child_idle [of p c DEVFS_NODE_DIR t]
    by (auto simp: grows_def dest: append_one_strict_prefix_below)
qed

lemma register_walk_succeeds:
  assumes "register_walk heap p s t n = (0, q, t', n')" "devfs_wf t" "is_dir t p" "no_nul s" "s \<noteq> []" "\<not> trailing_slash s"
  shows "q = p @ path_names s \<and> grows t t' p q"
  using assms
proof (induction "length s" arbitrary: p s t n rule: less_induct)
  case less
  obtain c rest where nc: "next_component s = (c, rest)" by (cases "next_component s")
  note nul = component_no_nul [OF less.prems(4) nc]
  note walk = register_walk_cases [OF less.prems(2-5) nc, of heap n] less.prems(1)
  have dir: "t p \<noteq> None" using less.prems(3) by (auto simp: is_dir_def)
  consider (enter) r where "is_dir t (p @ [c])" "rest = Some r" | (make) r where "t (p @ [c]) = None" "rest = Some r"
    | (last) "t (p @ [c]) = None" "rest = None" "q = p @ [c]" "t' = insert_child p c (alloc_node DEVFS_NODE_FILE) t"
    using walk by (cases rest) (auto simp: errno_simps split: if_splits)
  then show ?case
  proof cases
    case enter
    note step = find_walk_slash [OF less.prems(2) _ less.prems(4) nc [unfolded enter(2)]]
    have "q = (p @ [c]) @ path_names r \<and> grows t t' (p @ [c]) q"
      using walk enter nul nc less.prems step(3) dir
      by (intro less.hyps [of r "p @ [c]" t n]) (auto simp: next_component_shorter is_dir_def)
    then show ?thesis using step(2) dir grows_below [OF less.prems(2), of p c] enter(1) by (auto simp: is_dir_def)
  next
    case make
    note step = find_walk_slash [OF less.prems(2) _ less.prems(4) nc [unfolded make(2)]]
    have "q = (p @ [c]) @ path_names r \<and> grows (insert_child p c (alloc_node DEVFS_NODE_DIR) t) t' (p @ [c]) q"
      using walk make nul nc less.prems step(3) dir alloc_dir [OF less.prems(2,3) _ make(1)]
      by (intro less.hyps [of r "p @ [c]" _ "n + 1"]) (auto simp: next_component_shorter errno_simps split: if_splits)
    then show ?thesis using step(2) dir grows_insert [of t p c] make(1) by auto
  next
    case last
    have "\<not> is_dir t (p @ [c])" using last(1) by (simp add: is_dir_def)
    then have "grows t t' p q" using insert_child_wf [OF less.prems(2,3) conjunct1 [OF nul] last(1)] insert_child_idle [of p c DEVFS_NODE_FILE t]
      by (auto simp: grows_def last insert_child_views open_count_None fun_eq_iff strict_prefix_def)
    then show ?thesis using path_names_step [OF less.prems(5) nc] last by simp
  qed
qed


section \<open>Whole operations\<close>

definition devfs_ok :: "('u, 'a, 'd) devfs_tree \<Rightarrow> bool" where
  "devfs_ok t \<longleftrightarrow> devfs_wf t \<and> idle_dirs t = {}"

text \<open>The names on the path of a device, without the mount point.\<close>

definition device_names :: "string \<Rightarrow> string list" where
  "device_names path = path_names (drop 1 (normalize_path path))"

lemma no_nul_normalize: "no_nul p \<Longrightarrow> no_nul (normalize_path p)"
  by (auto simp: normalize_path_def no_nul_def dest: in_set_dropD)

lemma validate_path_ok:
  assumes "validate_path max_len (Some path) b = (0, rel)" "no_nul path"
  shows "rel = normalize_path path \<and> rel \<noteq> [] \<and> hd rel = CHR ''/'' \<and> no_nul (drop 1 rel) \<and>
    (strcmp rel ''/'' = 0 \<longleftrightarrow> drop 1 rel = []) \<and> (\<not> b \<longrightarrow> \<not> trailing_slash (drop 1 rel))"
proof -
  have rel: "rel = normalize_path path" "rel \<noteq> []" "hd rel = CHR ''/''" "b \<or> \<not> (1 < length rel \<and> c_at rel (length rel - 1) = CHR ''/'')"
    using assms(1) by (auto simp: validate_path_def Let_def errno_simps c_at_def hd_conv_nth split: if_splits)
  have nul: "no_nul rel" using rel(1) no_nul_normalize assms(2) by simp
  have root: "strcmp rel ''/'' = 0 \<longleftrightarrow> drop 1 rel = []"
    using strcmp_eq_0_iff [OF nul, of "''/''"] rel(2,3) by (cases rel) (auto simp: no_nul_def)
  have "b \<or> \<not> trailing_slash (drop 1 rel)"
    using rel(2,4) by (cases rel) (auto simp: trailing_slash_def c_at_def last_conv_nth)
  moreover have "no_nul (drop 1 rel)" using nul by (auto simp: no_nul_def dest: in_set_dropD)
  ultimately show ?thesis using rel root by blast
qed

lemma validate_path_code: "validate_path max_len path b = (ret, rel) \<Longrightarrow> ret = 0 \<or> ret = - EINVAL"
  by (auto simp: validate_path_def Let_def split: option.splits if_splits)

lemma find_node_lookup:
  assumes "devfs_wf t" "no_nul path"
  shows "find_node max_len (Some path) t =
    (if fst (validate_path max_len (Some path) True) = 0 \<and> t (device_names path) \<noteq> None \<and>
        (trailing_slash (drop 1 (normalize_path path)) \<longrightarrow> is_dir t (device_names path))
     then Some (device_names path) else None)"
proof -
  obtain ret rel where v: "validate_path max_len (Some path) True = (ret, rel)" by fastforce
  show ?thesis
  proof (cases "ret = 0")
    case True
    note ok = validate_path_ok [OF v [unfolded True] assms(2)]
    have root: "t [] \<noteq> None" using devfs_wf_root [OF assms(1)] by (auto simp: is_dir_def)
    define s where "s = drop 1 rel"
    have s: "drop 1 (normalize_path path) = s" "device_names path = path_names s" using ok by (simp_all add: s_def device_names_def)
    have "find_node max_len (Some path) t = (if s = [] then Some [] else find_walk t [] s)"
      using ok by (auto simp: find_node_def v True s_def simp del: drop_eq_Nil)
    moreover have "no_nul s" using ok by (auto simp: s_def)
    ultimately show ?thesis using find_walk_lookup [OF assms(1) root, of s] root
      unfolding s v True by (cases "s = []") (auto simp: trailing_slash_def)
  qed (simp add: find_node_def v)
qed

text \<open>The shape of the tree depends only on the children and the type of the nodes.\<close>

definition node_shape :: "('u, 'a, 'd) devfs_tree \<Rightarrow> devfs_ptr \<rightharpoonup> string list \<times> devfs_node_type" where
  "node_shape t p = map_option (\<lambda>n. (n_children n, n_type n)) (t p)"

lemma devfs_wf_shape:
  "devfs_wf t \<longleftrightarrow> (\<exists>cs. node_shape t [] = Some (cs, DEVFS_NODE_DIR)) \<and>
     (\<forall>p cs ty. node_shape t p = Some (cs, ty) \<longrightarrow> names_ordered cs \<and> (ty = DEVFS_NODE_FILE \<longrightarrow> cs = [])) \<and>
     (\<forall>p c. node_shape t (p @ [c]) \<noteq> None \<longleftrightarrow> (\<exists>cs ty. node_shape t p = Some (cs, ty) \<and> c \<in> set cs))"
  unfolding devfs_wf_def node_shape_def by (intro arg_cong2 [where f = conj] iff_allI) auto

lemma update_node_shape:
  "(\<And>n. n_children (f n) = n_children n \<and> n_type (f n) = n_type n) \<Longrightarrow> node_shape (update_node p f t) = node_shape t"
  by (auto simp: node_shape_def update_node_def option.map_comp comp_def fun_eq_iff)

lemma update_node_wf:
  "(\<And>n. n_children (f n) = n_children n \<and> n_type (f n) = n_type n) \<Longrightarrow> devfs_wf (update_node p f t) \<longleftrightarrow> devfs_wf t"
  unfolding devfs_wf_shape by (simp add: update_node_shape)

lemma update_node_dirs:
  "(\<And>n. n_children (f n) = n_children n \<and> n_type (f n) = n_type n) \<Longrightarrow> is_dir (update_node p f t) = is_dir t"
  by (auto simp: is_dir_def update_node_def fun_eq_iff split: option.splits)

lemma update_ops_views:
  "device_files (update_node p (\<lambda>n. n\<lparr>n_ops := f, n_user_data := u\<rparr>) t) =
     (device_files t)(p := map_option (\<lambda>_. (f, u)) (device_files t p))"
  "open_count (update_node p (\<lambda>n. n\<lparr>n_ops := f, n_user_data := u\<rparr>) t) = open_count t"
  "idle_dirs (update_node p (\<lambda>n. n\<lparr>n_ops := f, n_user_data := u\<rparr>) t) = idle_dirs t"
  by (auto simp: update_node_def device_files_def open_count_def idle_dirs_def prunable_def fun_eq_iff split: option.splits)

lemma pin_node_views:
  assumes "t p \<noteq> None" "open_count t p < 65535"
  shows "devfs_wf (pin_node p t) = devfs_wf t" "is_dir (pin_node p t) = is_dir t" "device_files (pin_node p t) = device_files t"
    "open_count (pin_node p t) = (open_count t)(p := open_count t p + 1)" "idle_dirs (pin_node p t) \<subseteq> idle_dirs t"
proof -
  obtain n where n: "t p = Some n" using assms(1) by blast
  have succ: "unat (n_open_count n + 1) = unat (n_open_count n) + 1"
    using assms(2) n by (simp add: open_count_def unat_word_ariths)
  then have "n_open_count n + 1 \<noteq> 0" by (metis Suc_eq_plus1 nat.distinct(1) unat_0)
  then show "idle_dirs (pin_node p t) \<subseteq> idle_dirs t"
    using n by (auto simp: pin_node_def update_node_def idle_dirs_def prunable_def split: if_splits)
  show "open_count (pin_node p t) = (open_count t)(p := open_count t p + 1)"
    using n succ by (auto simp: pin_node_def update_node_def open_count_def fun_eq_iff)
  show "device_files (pin_node p t) = device_files t"
    using n by (auto simp: pin_node_def update_node_def device_files_def fun_eq_iff)
qed (simp_all add: pin_node_def update_node_wf update_node_dirs)

lemma unpin_node_views:
  assumes "0 < open_count t p"
  shows "devfs_wf (unpin_node p t) = devfs_wf t" "is_dir (unpin_node p t) = is_dir t" "device_files (unpin_node p t) = device_files t"
    "open_count (unpin_node p t) = (open_count t)(p := open_count t p - 1)"
    "idle_dirs (unpin_node p t) \<subseteq> idle_dirs t \<union> (if is_dir t p then {p} else {})"
proof -
  obtain n where n: "t p = Some n" using assms by (auto simp: open_count_def split: option.splits)
  then have "n_open_count n \<noteq> 0" using assms by (auto simp: open_count_def)
  then have pred: "unat (n_open_count n - 1) = unat (n_open_count n) - 1" by (rule unat_minus_one)
  show "open_count (unpin_node p t) = (open_count t)(p := open_count t p - 1)"
    using n pred by (auto simp: unpin_node_def update_node_def open_count_def fun_eq_iff)
  show "device_files (unpin_node p t) = device_files t"
    using n by (auto simp: unpin_node_def update_node_def device_files_def fun_eq_iff)
  show "idle_dirs (unpin_node p t) \<subseteq> idle_dirs t \<union> (if is_dir t p then {p} else {})"
    using n by (auto simp: unpin_node_def update_node_def idle_dirs_def prunable_def is_dir_def split: if_splits)
qed (simp_all add: unpin_node_def update_node_wf update_node_dirs)

lemma unpin_pin: "unpin_node p (pin_node p t) = t"
  by (auto simp: pin_node_def unpin_node_def update_node_def option.map_comp comp_def fun_eq_iff option.map_ident)


lemma register_file_cases:
  assumes "devfs_ok t" "no_nul path" "devfs_register_file max_len heap (Some path) (Some ops) u t = (ret, t')"
  shows "if ret = 0
    then fst (validate_path max_len (Some path) False) = 0 \<and> t (device_names path) = None \<and> devfs_ok t' \<and>
      device_files t' = (device_files t)(device_names path \<mapsto> (ops, u)) \<and> open_count t' = open_count t \<and>
      (\<forall>d. is_dir t d \<longrightarrow> is_dir t' d) \<and> (\<forall>d. is_dir t' d \<longrightarrow> is_dir t d \<or> strict_prefix d (device_names path))
    else t' = t"
proof -
  obtain r rel where v: "validate_path max_len (Some path) False = (r, rel)" by fastforce
  show ?thesis
  proof (cases "r = 0 \<and> strcmp rel ''/'' \<noteq> 0")
    case True
    note ok = validate_path_ok [OF v [unfolded conjunct1 [OF True]] assms(2)]
    have root: "is_dir t []" and wf: "devfs_wf t" "idle_dirs t = {}" using assms(1) devfs_wf_root by (auto simp: devfs_ok_def)
    obtain r2 q t2 n where w: "register_walk heap [] (drop 1 rel) t 0 = (r2, q, t2, n)" by (metis prod_cases4)
    show ?thesis
    proof (cases "r2 = 0")
      case zero: True
      have "\<not> trailing_slash (drop 1 rel)" "no_nul (drop 1 rel)" "drop 1 rel \<noteq> []" using ok True by auto
      then have g: "q = device_names path" "grows t t2 [] q"
        using register_walk_succeeds [OF w [unfolded zero] wf(1) root] ok by (auto simp: device_names_def)
      have t': "ret = 0" "t' = update_node q (\<lambda>n. n\<lparr>n_ops := ops, n_user_data := u\<rparr>) t2"
        using assms(3) v w True zero by (auto simp: devfs_register_file_def)
      show ?thesis using g v True wf(2) unfolding t'
        by (auto simp: grows_def devfs_ok_def update_ops_views update_node_wf update_node_dirs)
    next
      case False
      then show ?thesis using register_walk_fails [OF w False wf(1) root wf(2)] ok assms(3) v w True
        by (auto simp: devfs_register_file_def)
    qed
  next
    case False
    then show ?thesis using assms(3) v by (auto simp: devfs_register_file_def errno_simps split: if_splits)
  qed
qed

lemma unregister_file_cases:
  assumes "devfs_ok t" "no_nul path" "devfs_unregister_file max_len (Some path) t = (ret, t')"
  shows "if ret = 0
    then device_files t (device_names path) \<noteq> None \<and> open_count t (device_names path) = 0 \<and> devfs_ok t' \<and>
      device_files t' = (device_files t)(device_names path := None) \<and> open_count t' = open_count t \<and>
      (\<forall>d. is_dir t d \<longrightarrow> open_count t d \<noteq> 0 \<longrightarrow> is_dir t' d)
    else t' = t"
proof (cases "ret = 0")
  case True
  define p where "p = device_names path"
  have wf: "devfs_wf t" "idle_dirs t = {}" using assms(1) by (auto simp: devfs_ok_def)
  note find = find_node_lookup [OF wf(1) assms(2), of max_len]
  obtain n where n: "t p = Some n" "n_type n = DEVFS_NODE_FILE" "n_open_count n = 0"
    and t': "t' = prune_empty_dirs (butlast p) (unlink_child p t)"
    using assms(3) True find unfolding p_def [symmetric]
    by (auto simp: devfs_unregister_file_def errno_simps split: option.splits if_splits)
  have p: "p \<noteq> []" using devfs_wf_root [OF wf(1)] n by (auto simp: is_dir_def)
  have wf': "devfs_wf (unlink_child p t)" using unlink_child_wf [OF wf(1) n(1)] devfs_wf_node [OF wf(1) n(1)] n(2) p by auto
  have parent: "unlink_child p t (butlast p) \<noteq> None"
    using unlink_child_views(5) [OF p, of t] devfs_wf_parent [OF wf(1) n(1) p] by auto
  note views = unlink_child_views [OF p, of t]
  have free: "open_count t p = 0" "device_files t p \<noteq> None" "\<not> is_dir t p"
    using n by (auto simp: open_count_def device_files_def is_dir_def)
  then have "open_count (unlink_child p t) = open_count t" using views(2) by auto
  moreover have "idle_dirs (unlink_child p t) \<subseteq> {butlast p}" using views(4) wf(2) by auto
  ultimately show ?thesis using prune_empty_dirs_views [OF wf' parent] True free views(1,3)
    unfolding t' p_def [symmetric] devfs_ok_def by auto
next
  case False
  then show ?thesis using assms(3) by (auto simp: devfs_unregister_file_def split: option.splits if_splits)
qed

end
