(* ===== verification/Gpio.thy ===== *)
theory Gpio
  imports Driver_State Devfs_Inv
begin

text \<open>
  drivers/webos_gpio/webos_gpio.c: the files /dev/gpio/<pin>/value and /dev/gpio/<pin>/direction.  A
  callback that finds no record of its own in the file object would follow a wild pointer; the model
  answers EFAULT there, and the callbacks' own opening shows that it is never the case.
\<close>

section \<open>Callbacks\<close>

definition webos_gpio_open ::
    "'h board \<Rightarrow> open_dev_file \<Rightarrow> device_ptr option \<Rightarrow> int \<Rightarrow> 'h drivers \<Rightarrow> int \<times> open_dev_file \<times> 'h drivers" where
  "webos_gpio_open B file user_data flags d =
     (case user_data of
        Some (Gpio_Def i ty) \<Rightarrow>
          if \<not> gpio_is_ready_dt B (spec (webos_gpios d ! i)) (hardware d) then (- ENODEV, file, d)
          else
            let (ok, d) = driver_malloc B d in
            if \<not> ok then (- ENOMEM, file, d)
            else (0, devfs_file_set_data (Some (Gpio_File \<lparr>gf_gpio = i, gf_type = ty, gf_read_eof = False\<rparr>)) file, d)
      | _ \<Rightarrow> (- EFAULT, file, d))"

definition gpio_text :: "webos_gpio_file_type \<Rightarrow> webos_gpio_dev \<Rightarrow> string" where
  "gpio_text ty g =
     (case ty of
        WEBOS_GPIO_VALUE \<Rightarrow> if value_set g then dec_int (value_state g) @ [CHR 0x0A] else ''?'' @ [CHR 0x0A]
      | WEBOS_GPIO_DIRECTION \<Rightarrow>
          if dir_set g then (if dir_out g then ''out'' else ''in'') @ [CHR 0x0A] else ''?'' @ [CHR 0x0A])"

definition webos_gpio_read ::
    "open_dev_file \<Rightarrow> nat \<Rightarrow> 'h drivers \<Rightarrow> (int \<times> byte list) \<times> open_dev_file \<times> 'h drivers" where
  "webos_gpio_read file nbytes d =
     (case devfs_file_data file of
        Some (Gpio_File g) \<Rightarrow>
          if nbytes = 0 then ((- EIO, []), file, d)
          else if gf_read_eof g then ((0, []), file, d)
          else (read_text (gpio_text (gf_type g) (webos_gpios d ! gf_gpio g)) nbytes,
                devfs_file_set_data (Some (Gpio_File (g\<lparr>gf_read_eof := True\<rparr>))) file, d)
      | _ \<Rightarrow> ((- EFAULT, []), file, d))"

definition update_gpio :: "nat \<Rightarrow> (webos_gpio_dev \<Rightarrow> webos_gpio_dev) \<Rightarrow> 'h drivers \<Rightarrow> 'h drivers" where
  "update_gpio i f d = d\<lparr>webos_gpios := (webos_gpios d)[i := f (webos_gpios d ! i)]\<rparr>"

definition configure_pin :: "'h board \<Rightarrow> nat \<Rightarrow> gpio_flags \<Rightarrow> 'h drivers \<Rightarrow> int \<times> 'h drivers" where
  "configure_pin B i flags d =
     (let (ret, h) = gpio_pin_configure_dt B (spec (webos_gpios d ! i)) flags (hardware d) in (ret, d\<lparr>hardware := h\<rparr>))"

definition set_pin :: "'h board \<Rightarrow> nat \<Rightarrow> int \<Rightarrow> 'h drivers \<Rightarrow> int \<times> 'h drivers" where
  "set_pin B i v d =
     (let (ret, h) = gpio_pin_set_dt B (spec (webos_gpios d ! i)) v (hardware d) in (ret, d\<lparr>hardware := h\<rparr>))"

text \<open>The target of a write to the value file, from its first byte.\<close>

definition value_target :: "byte \<Rightarrow> int option" where
  "value_target c =
     (if c = CHR ''1'' \<or> c = CHR 0x01 \<or> c = CHR ''o'' then Some 1
      else if c = CHR ''0'' \<or> c = NUL then Some 0
      else None)"

definition write_value :: "'h board \<Rightarrow> nat \<Rightarrow> byte list \<Rightarrow> 'h drivers \<Rightarrow> int \<times> 'h drivers" where
  "write_value B i src d =
     (case value_target (hd src) of
        None \<Rightarrow> (- EINVAL, d)
      | Some target \<Rightarrow>
          let (ret, d) = configure_pin B i GPIO_OUTPUT d in
          if ret < 0 then (ret, d)
          else
            let (ret, d) = set_pin B i target d in
            if ret < 0 then (ret, d)
            else (int (length src), update_gpio i (\<lambda>g. g\<lparr>value_state := target, value_set := True\<rparr>) d))"

definition write_direction :: "'h board \<Rightarrow> nat \<Rightarrow> byte list \<Rightarrow> 'h drivers \<Rightarrow> int \<times> 'h drivers" where
  "write_direction B i src d =
     (let buf = copied_text 16 src in
      if strncmp buf ''out'' 3 = 0 \<or> hd src = CHR 0x01 then
        let (ret, d) = configure_pin B i GPIO_OUTPUT d;
            d = update_gpio i (\<lambda>g. g\<lparr>dir_out := True\<rparr>) d
        in if ret < 0 then (ret, d) else (int (length src), update_gpio i (\<lambda>g. g\<lparr>dir_set := True\<rparr>) d)
      else if strncmp buf ''in'' 2 = 0 \<or> hd src = NUL then
        let (ret, d) = configure_pin B i GPIO_INPUT d;
            d = update_gpio i (\<lambda>g. g\<lparr>dir_out := False\<rparr>) d
        in if ret < 0 then (ret, d) else (int (length src), update_gpio i (\<lambda>g. g\<lparr>dir_set := True\<rparr>) d)
      else (- EINVAL, d))"

definition webos_gpio_write ::
    "'h board \<Rightarrow> open_dev_file \<Rightarrow> byte list \<Rightarrow> 'h drivers \<Rightarrow> int \<times> open_dev_file \<times> 'h drivers" where
  "webos_gpio_write B file src d =
     (case devfs_file_data file of
        Some (Gpio_File g) \<Rightarrow>
          if src = [] then (- EIO, file, d)
          else
            let (ret, d) =
              (case gf_type g of
                 WEBOS_GPIO_VALUE \<Rightarrow> write_value B (gf_gpio g) src d
               | WEBOS_GPIO_DIRECTION \<Rightarrow> write_direction B (gf_gpio g) src d)
            in (ret, file, d)
      | _ \<Rightarrow> (- EFAULT, file, d))"

definition webos_gpio_close :: "open_dev_file \<Rightarrow> 'h drivers \<Rightarrow> int \<times> 'h drivers" where
  "webos_gpio_close file d = (0, d)"

definition webos_gpio_ops :: "'h board \<Rightarrow> 'h driver_ops" where
  "webos_gpio_ops B =
     \<lparr>op_open = Some (webos_gpio_open B), op_read = Some webos_gpio_read, op_write = Some (webos_gpio_write B),
      op_close = Some webos_gpio_close\<rparr>"

section \<open>Registration\<close>

definition gpio_path :: "string \<Rightarrow> nat \<Rightarrow> string" where
  "gpio_path file n = ''/gpio/'' @ dec_digits n @ CHR ''/'' # file"

text \<open>
  The loop over the devices from index i on; \<open>heap\<close> tells for every call of \<open>devfs_register_file\<close> which
  allocations succeed.
\<close>

function gpio_register_loop ::
    "'h board \<Rightarrow> (string \<Rightarrow> nat \<Rightarrow> bool) \<Rightarrow> nat \<Rightarrow> 'h driver_tree \<Rightarrow> 'h drivers \<Rightarrow> int \<times> 'h driver_tree \<times> 'h drivers" where
  "gpio_register_loop B heap i t d =
     (if length (webos_gpios d) \<le> i then (0, t, d)
      else
        let cap = WEBOS_DEVFS_MAX_PATH_LEN B;
            n = pin (spec (webos_gpios d ! i));
            vp = fst (snprintk cap (gpio_path ''value'' n));
            dp = fst (snprintk cap (gpio_path ''direction'' n));
            d = update_gpio i (\<lambda>g. g\<lparr>value_path := vp, direction_path := dp\<rparr>) d;
            (ret, t) = devfs_register_file cap (heap vp) (Some vp) (Some (webos_gpio_ops B)) (Some (Gpio_Def i WEBOS_GPIO_VALUE)) t
        in if ret \<noteq> 0 then (ret, t, d)
           else
             let (ret, t) =
               devfs_register_file cap (heap dp) (Some dp) (Some (webos_gpio_ops B)) (Some (Gpio_Def i WEBOS_GPIO_DIRECTION)) t
             in if ret \<noteq> 0 then (ret, t, d) else gpio_register_loop B heap (i + 1) t d)"
  by pat_completeness auto
termination
  by (relation "measure (\<lambda>(B, heap, i, t, d). length (webos_gpios d) - i)") (auto simp: update_gpio_def)

declare gpio_register_loop.simps [simp del]

definition webos_gpio_register_devfs ::
    "'h board \<Rightarrow> (string \<Rightarrow> nat \<Rightarrow> bool) \<Rightarrow> 'h driver_tree \<Rightarrow> 'h drivers \<Rightarrow> int \<times> 'h driver_tree \<times> 'h drivers" where
  "webos_gpio_register_devfs B heap t d = gpio_register_loop B heap 0 t d"

end
