(* ===== verification/Rgbled.thy ===== *)
theory Rgbled
  imports Driver_State Devfs_Inv
begin

text \<open>
  drivers/webos_rgbled/webos_rgbled.c: the file /dev/led/<pin>/color of an RGB LED strip, with the
  parser of the colours it takes as text.
\<close>

unbundle bit_operations_syntax

type_synonym rgb = "byte \<times> byte \<times> byte"

section \<open>Colours\<close>

definition isxdigit :: "byte \<Rightarrow> bool" where
  "isxdigit c \<longleftrightarrow> (let n = byte_val c in 48 \<le> n \<and> n \<le> 57 \<or> 97 \<le> n \<and> n \<le> 102 \<or> 65 \<le> n \<and> n \<le> 70)"

definition hex_nibble :: "byte \<Rightarrow> int" where
  "hex_nibble c =
     (if 48 \<le> byte_val c \<and> byte_val c \<le> 57 then int (byte_val c) - 48
      else let c = tolower c in
        if 97 \<le> byte_val c \<and> byte_val c \<le> 102 then int (byte_val c) - 97 + 10
        else - EINVAL)"

text \<open>\<open>(uint8_t)((a << 4) | b)\<close>\<close>

definition nibbles_byte :: "int \<Rightarrow> int \<Rightarrow> byte" where
  "nibbles_byte a b = char_of (nat (push_bit 4 a OR b))"

definition parse_hex_color :: "string \<Rightarrow> int \<times> rgb option" where
  "parse_hex_color buf =
     (let buf = (if c_at buf 0 = CHR ''#'' then drop 1 buf else buf);
          n = (\<lambda>i. hex_nibble (c_at buf i))
      in if list_ex (\<lambda>i. n i < 0) [0..<6] then (- EINVAL, None)
         else if isxdigit (c_at buf 6) then (- EINVAL, None)
         else (0, Some (nibbles_byte (n 0) (n 1), nibbles_byte (n 2) (n 3), nibbles_byte (n 4) (n 5))))"

text \<open>One value of the decimal form: the number, when there is one in range, and the rest of the text.\<close>

definition rgb_value :: "string \<Rightarrow> (int \<times> string) option" where
  "rgb_value s =
     (case strtok '', '' s of
        None \<Rightarrow> None
      | Some (token, rest) \<Rightarrow>
          let v = strtol10 token in if v < 0 \<or> 255 < v then None else Some (v, rest))"

definition parse_rgb_color :: "string \<Rightarrow> int \<times> rgb option" where
  "parse_rgb_color buf =
     (case rgb_value buf of
        None \<Rightarrow> (- EINVAL, None)
      | Some (r, s) \<Rightarrow>
          (case rgb_value s of
             None \<Rightarrow> (- EINVAL, None)
           | Some (g, s) \<Rightarrow>
               (case rgb_value s of
                  None \<Rightarrow> (- EINVAL, None)
                | Some (b, s) \<Rightarrow>
                    if strtok '', '' s \<noteq> None then (- EINVAL, None)
                    else (0, Some (char_of (nat r), char_of (nat g), char_of (nat b))))))"

definition trim :: "string \<Rightarrow> string" where
  "trim s = dropWhile isspace (rev (dropWhile isspace (rev s)))"

definition parse_color :: "string \<Rightarrow> int \<times> rgb option" where
  "parse_color buf =
     (let buf = trim buf; off = CHR 0x00; on = CHR 0xFF in
      if strcmp buf ''off'' = 0 \<or> strcmp buf ''clear'' = 0 \<or> strcmp buf ''0'' = 0 then (0, Some (off, off, off))
      else if strcmp buf ''red'' = 0 then (0, Some (on, off, off))
      else if strcmp buf ''green'' = 0 then (0, Some (off, on, off))
      else if strcmp buf ''blue'' = 0 then (0, Some (off, off, on))
      else if strcmp buf ''white'' = 0 then (0, Some (on, on, on))
      else if c_at buf 0 = CHR ''#'' \<or> length buf = 6 then parse_hex_color buf
      else parse_rgb_color buf)"

section \<open>Callbacks\<close>

definition led_colour :: "webos_rgbled_dev \<Rightarrow> rgb" where
  "led_colour l = (red l, green l, blue l)"

definition set_colour :: "nat \<Rightarrow> rgb \<Rightarrow> 'h drivers \<Rightarrow> 'h drivers" where
  "set_colour i c d =
     d\<lparr>webos_rgbleds := (webos_rgbleds d)[i := (webos_rgbleds d ! i)\<lparr>red := fst c, green := fst (snd c), blue := snd (snd c)\<rparr>]\<rparr>"

definition webos_rgbled_show :: "'h board \<Rightarrow> nat \<Rightarrow> 'h drivers \<Rightarrow> int \<times> 'h drivers" where
  "webos_rgbled_show B i d =
     (let led = webos_rgbleds d ! i;
          count = min (chain_length led) (WEBOS_RGBLED_MAX_PIXELS B);
          (ret, h) = led_strip_update_rgb B (strip led) (replicate count (led_colour led)) (hardware d);
          d = d\<lparr>hardware := h\<rparr>
      in if ret < 0 then (ret, d) else (0, d))"

definition webos_rgbled_open ::
    "'h board \<Rightarrow> open_dev_file \<Rightarrow> device_ptr option \<Rightarrow> int \<Rightarrow> 'h drivers \<Rightarrow> int \<times> open_dev_file \<times> 'h drivers" where
  "webos_rgbled_open B file user_data flags d =
     (case user_data of
        Some (Led_Dev i) \<Rightarrow>
          if \<not> device_is_ready B (strip (webos_rgbleds d ! i)) (hardware d) then (- ENODEV, file, d)
          else
            let (ok, d) = driver_malloc B d in
            if \<not> ok then (- ENOMEM, file, d)
            else (0, devfs_file_set_data (Some (Led_File \<lparr>lf_led = i, lf_read_eof = False\<rparr>)) file, d)
      | _ \<Rightarrow> (- EFAULT, file, d))"

definition rgb_text :: "rgb \<Rightarrow> string" where
  "rgb_text c =
     dec_digits (byte_val (fst c)) @ '','' @ dec_digits (byte_val (fst (snd c))) @ '','' @ dec_digits (byte_val (snd (snd c))) @ [CHR 0x0A]"

definition webos_rgbled_read ::
    "open_dev_file \<Rightarrow> nat \<Rightarrow> 'h drivers \<Rightarrow> (int \<times> byte list) \<times> open_dev_file \<times> 'h drivers" where
  "webos_rgbled_read file nbytes d =
     (case devfs_file_data file of
        Some (Led_File l) \<Rightarrow>
          if nbytes = 0 then ((- EIO, []), file, d)
          else if lf_read_eof l then ((0, []), file, d)
          else (read_text (rgb_text (led_colour (webos_rgbleds d ! lf_led l))) nbytes,
                devfs_file_set_data (Some (Led_File (l\<lparr>lf_read_eof := True\<rparr>))) file, d)
      | _ \<Rightarrow> ((- EFAULT, []), file, d))"

text \<open>Each branch of the write sets the colour, shows it, and returns the number of bytes.\<close>

definition show_colour :: "'h board \<Rightarrow> nat \<Rightarrow> rgb \<Rightarrow> nat \<Rightarrow> 'h drivers \<Rightarrow> int \<times> 'h drivers" where
  "show_colour B i c nbytes d =
     (let (ret, d) = webos_rgbled_show B i (set_colour i c d) in
      if ret < 0 then (ret, d) else (int nbytes, d))"

definition webos_rgbled_write ::
    "'h board \<Rightarrow> open_dev_file \<Rightarrow> byte list \<Rightarrow> 'h drivers \<Rightarrow> int \<times> open_dev_file \<times> 'h drivers" where
  "webos_rgbled_write B file src d =
     (case devfs_file_data file of
        Some (Led_File l) \<Rightarrow>
          let i = lf_led l; n = length src;
            (ret, d) =
              (if n = 0 then (- EIO, d)
               else if n = 1 \<and> hd src = NUL then show_colour B i (NUL, NUL, NUL) n d
               else if n = 3 \<and> src \<noteq> ''red'' \<and> src \<noteq> ''off'' then show_colour B i (src ! 0, src ! 1, src ! 2) n d
               else
                 (case parse_color (copied_text 32 src) of
                    (ret, Some c) \<Rightarrow> show_colour B i c n d
                  | (ret, None) \<Rightarrow> (ret, d)))
          in (ret, file, d)
      | _ \<Rightarrow> (- EFAULT, file, d))"

definition webos_rgbled_close :: "open_dev_file \<Rightarrow> 'h drivers \<Rightarrow> int \<times> 'h drivers" where
  "webos_rgbled_close file d = (0, d)"

definition webos_rgbled_ops :: "'h board \<Rightarrow> 'h driver_ops" where
  "webos_rgbled_ops B =
     \<lparr>op_open = Some (webos_rgbled_open B), op_read = Some webos_rgbled_read, op_write = Some (webos_rgbled_write B),
      op_close = Some webos_rgbled_close\<rparr>"

section \<open>Registration\<close>

definition led_file_path :: "nat \<Rightarrow> string" where
  "led_file_path n = ''/led/'' @ dec_digits n @ ''/color''"

function rgbled_register_loop ::
    "'h board \<Rightarrow> (string \<Rightarrow> nat \<Rightarrow> bool) \<Rightarrow> nat \<Rightarrow> 'h driver_tree \<Rightarrow> 'h drivers \<Rightarrow> int \<times> 'h driver_tree \<times> 'h drivers" where
  "rgbled_register_loop B heap i t d =
     (if length (webos_rgbleds d) \<le> i then (0, t, d)
      else
        let cap = WEBOS_DEVFS_MAX_PATH_LEN B;
            path = fst (snprintk cap (led_file_path (webos_pin (webos_rgbleds d ! i))));
            d = d\<lparr>webos_rgbleds := (webos_rgbleds d)[i := (webos_rgbleds d ! i)\<lparr>led_path := path\<rparr>]\<rparr>;
            (ret, t) = devfs_register_file cap (heap path) (Some path) (Some (webos_rgbled_ops B)) (Some (Led_Dev i)) t
        in if ret \<noteq> 0 then (ret, t, d)
           else
             let (ret, d) = webos_rgbled_show B i d in
             if ret \<noteq> 0 then (ret, t, d) else rgbled_register_loop B heap (i + 1) t d)"
  by pat_completeness auto
termination
  by (relation "measure (\<lambda>(B, heap, i, t, d). length (webos_rgbleds d) - i)")
    (auto simp: webos_rgbled_show_def Let_def split: prod.splits if_splits)

declare rgbled_register_loop.simps [simp del]

definition webos_rgbled_register_devfs ::
    "'h board \<Rightarrow> (string \<Rightarrow> nat \<Rightarrow> bool) \<Rightarrow> 'h driver_tree \<Rightarrow> 'h drivers \<Rightarrow> int \<times> 'h driver_tree \<times> 'h drivers" where
  "webos_rgbled_register_devfs B heap t d = rgbled_register_loop B heap 0 t d"

section \<open>Colours as text\<close>

definition hex_value :: "byte \<Rightarrow> nat" where
  "hex_value c = the (digit_value c)"

lemma nibbles_byte_eq:
  assumes "a < 16" "b < 16"
  shows "nibbles_byte (int a) (int b) = char_of (16 * a + b)"
proof -
  have b: "take_bit 4 (int b) = int b" using assms(2) by (simp add: take_bit_int_eq_self)
  have "push_bit 4 (int a) AND take_bit 4 (int b) = 0" by (rule bit_eqI) (auto simp: bit_simps)
  then have "push_bit 4 (int a) OR int b = push_bit 4 (int a) + int b" by (simp add: b disjunctive_add_eq_or)
  then show ?thesis by (simp add: nibbles_byte_def push_bit_eq_mult nat_add_distrib nat_mult_distrib mult.commute)
qed

lemma hex_nibble_xdigit: "isxdigit c \<Longrightarrow> hex_nibble c = int (hex_value c) \<and> hex_value c < 16"
  by (auto simp: isxdigit_def hex_nibble_def tolower_def hex_value_def digit_value_def Let_def)

lemma trim_plain: "s \<noteq> [] \<Longrightarrow> \<not> isspace (hd s) \<Longrightarrow> \<not> isspace (last s) \<Longrightarrow> trim s = s"
proof -
  assume "s \<noteq> []" "\<not> isspace (hd s)" "\<not> isspace (last s)"
  then have "dropWhile isspace (rev s) = rev s" by (cases s rule: rev_cases) auto
  then show ?thesis using \<open>s \<noteq> []\<close> \<open>\<not> isspace (hd s)\<close> by (cases s) (auto simp: trim_def)
qed

lemma trim_newline: "trim (s @ [CHR 0x0A]) = trim s"
  by (simp add: trim_def isspace_def)

definition plain_token :: "string \<Rightarrow> bool" where
  "plain_token s \<longleftrightarrow> s \<noteq> [] \<and> list_all (\<lambda>c. c \<notin> set '', '') s"

lemma strtok_plain:
  assumes "plain_token s"
  shows "strtok '', '' (s @ '','' @ r) = Some (s, r)" "strtok '', '' s = Some (s, [])"
proof -
  have s: "s \<noteq> []" "\<forall>c \<in> set s. c \<notin> set '', ''" using assms by (auto simp: plain_token_def list_all_iff)
  then have d: "dropWhile (\<lambda>c. c \<in> set '', '') (s @ ys) = s @ ys" for ys by (cases s) auto
  have cut: "takeWhile (\<lambda>c. c \<notin> set '', '') (s @ CHR '','' # r) = s" "dropWhile (\<lambda>c. c \<notin> set '', '') (s @ CHR '','' # r) = CHR '','' # r"
    "takeWhile (\<lambda>c. c \<notin> set '', '') s = s" "dropWhile (\<lambda>c. c \<notin> set '', '') s = []"
    using s(2) by (simp_all add: takeWhile_tail dropWhile_append2)
  show "strtok '', '' (s @ '','' @ r) = Some (s, r)"
    using s(1) unfolding strtok_def append.simps d [of "CHR '','' # r"] Let_def cut by simp
  show "strtok '', '' s = Some (s, [])"
    using s(1) unfolding strtok_def d [of "[]", simplified append_Nil2] Let_def cut by simp
qed

lemma dec_digits_plain: "c \<in> set (dec_digits n) \<Longrightarrow> 48 \<le> byte_val c \<and> byte_val c \<le> 57"
proof -
  assume "c \<in> set (dec_digits n)"
  then obtain d :: nat where "d < 10" "c = char_of (48 + d)" using dec_digits_set by blast
  then show ?thesis using digit_char [of d] by simp
qed

lemma dec_digits_token: "plain_token (dec_digits n)"
  using dec_digits_plain [of "CHR '',''" n] dec_digits_plain [of "CHR '' ''" n] by (auto simp: plain_token_def list_all_iff)

lemma strtol10_dec: "n < 2 ^ 31 \<Longrightarrow> strtol10 (dec_digits n) = int n"
proof -
  assume n: "n < 2 ^ 31"
  obtain c cs where d: "dec_digits n = c # cs" by (cases "dec_digits n") auto
  have c: "48 \<le> byte_val c" "byte_val c \<le> 57" using dec_digits_plain [of c n] d by auto
  then have "\<not> isspace c" "c \<noteq> CHR ''-''" "c \<noteq> CHR ''+''" by (auto simp: isspace_def)
  moreover have "fst (read_digits 10 0 (dec_digits n)) = n" using read_dec_digits [of 0 n "[]"] by simp
  ultimately show ?thesis using n by (simp add: strtol10_def d c_at_def)
qed


lemma rgb_value_dec:
  assumes "n < 256"
  shows "rgb_value (dec_digits n @ '','' @ r) = Some (int n, r)" "rgb_value (dec_digits n) = Some (int n, [])"
  using assms strtok_plain(1) [OF dec_digits_token, of n r] strtok_plain(2) [OF dec_digits_token, of n] strtol10_dec [of n] by (simp_all add: rgb_value_def)

definition rgb_body :: "rgb \<Rightarrow> string" where
  "rgb_body c = dec_digits (byte_val (fst c)) @ '','' @ dec_digits (byte_val (fst (snd c))) @ '','' @ dec_digits (byte_val (snd (snd c)))"

lemma parse_rgb_body: "parse_rgb_color (rgb_body c) = (0, Some c)"
proof -
  obtain r g b where c: "c = (r, g, b)" by (cases c)
  have "strtok '', '' [] = None" by (simp add: strtok_def)
  then show ?thesis
    unfolding parse_rgb_color_def rgb_body_def c fst_conv snd_conv rgb_value_dec(1) [OF byte_val_less] rgb_value_dec(2) [OF byte_val_less]
      option.case split_conv by simp
qed

lemma rgb_body_ends: "rgb_body c \<noteq> []" "48 \<le> byte_val (hd (rgb_body c))" "byte_val (hd (rgb_body c)) \<le> 57"
    "48 \<le> byte_val (last (rgb_body c))" "byte_val (last (rgb_body c)) \<le> 57"
proof -
  let ?d = "dec_digits (byte_val (fst c))" let ?e = "dec_digits (byte_val (snd (snd c)))"
  have "hd (rgb_body c) = hd ?d" "last (rgb_body c) = last ?e" by (simp_all add: rgb_body_def)
  then show "48 \<le> byte_val (hd (rgb_body c))" "byte_val (hd (rgb_body c)) \<le> 57" "48 \<le> byte_val (last (rgb_body c))"
    "byte_val (last (rgb_body c)) \<le> 57" 
    using dec_digits_plain [of "hd ?d" "byte_val (fst c)"] dec_digits_plain [of "last ?e" "byte_val (snd (snd c))"] by simp_all
qed (simp add: rgb_body_def)

lemma rgb_body_chars: "c \<in> set (rgb_body x) \<Longrightarrow> c = CHR '','' \<or> 48 \<le> byte_val c \<and> byte_val c \<le> 57"
  using dec_digits_plain by (fastforce simp: rgb_body_def)

lemma rgb_body_length: "5 \<le> length (rgb_body c)"
proof -
  have one: "1 \<le> length (dec_digits n)" for n using dec_digits_not_Nil [of n] by (cases "dec_digits n") auto
  show ?thesis using one [of "byte_val (fst c)"] one [of "byte_val (fst (snd c))"] one [of "byte_val (snd (snd c))"]
    by (simp add: rgb_body_def)
qed


lemma parse_hex_comma:
  assumes "length s = 6" "CHR '','' \<in> set s" "c_at s 0 \<noteq> CHR ''#''"
  shows "parse_hex_color s = (- EINVAL, None)"
proof -
  obtain i where i: "i < 6" "s ! i = CHR '',''" using assms(1,2) by (auto simp: in_set_conv_nth)
  then have "hex_nibble (c_at s i) < 0" using assms(1) by (simp add: c_at_def hex_nibble_def tolower_def errno_simps)
  then have "list_ex (\<lambda>i. hex_nibble (c_at s i) < 0) [0..<6]" using i(1) by (auto simp: list_ex_iff)
  then show ?thesis using assms(3) by (simp add: parse_hex_color_def)
qed

lemma rgb_body_not_name: "rgb_body c \<noteq> [] \<Longrightarrow> CHR '','' \<notin> set s \<Longrightarrow> no_nul s \<Longrightarrow> strcmp (rgb_body c) s \<noteq> 0"
proof -
  assume s: "CHR '','' \<notin> set s" "no_nul s"
  have "no_nul (rgb_body c)" using rgb_body_chars [of NUL c] by (auto simp: no_nul_def)
  moreover have "CHR '','' \<in> set (rgb_body c)" by (simp add: rgb_body_def)
  ultimately show ?thesis using s strcmp_eq_0_iff by metis
qed

lemma parse_rgb_text:
  "parse_color (rgb_body c @ [CHR 0x0A]) = (if length (rgb_body c) = 6 then (- EINVAL, None) else (0, Some c))"
proof -
  have sp: "\<not> isspace (hd (rgb_body c))" "\<not> isspace (last (rgb_body c))" "c_at (rgb_body c) 0 \<noteq> CHR ''#''"
    using rgb_body_ends [of c] by (auto simp: isspace_def c_at_def hd_conv_nth)
  have trim: "trim (rgb_body c @ [CHR 0x0A]) = rgb_body c" using trim_plain [OF rgb_body_ends(1) sp(1,2)] by (simp add: trim_newline)
  note name = rgb_body_not_name [OF rgb_body_ends(1)]
  have "parse_color (rgb_body c @ [CHR 0x0A]) = (if length (rgb_body c) = 6 then parse_hex_color (rgb_body c) else parse_rgb_color (rgb_body c))"
    unfolding parse_color_def trim Let_def using sp(3) by (simp add: name no_nul_def)
  moreover have "CHR '','' \<in> set (rgb_body c)" by (simp add: rgb_body_def)
  ultimately show ?thesis using parse_hex_comma [OF _ _ sp(3)] parse_rgb_body by auto
qed


lemma dec_digits_short: "n < 1000 \<Longrightarrow> length (dec_digits n) \<le> 3"
  by (subst dec_digits.simps, simp, subst dec_digits.simps, simp, subst dec_digits.simps, simp)

lemma rgb_body_short: "length (rgb_body c) \<le> 11"
proof -
  have three: "length (dec_digits (byte_val x)) \<le> 3" for x using dec_digits_short [of "byte_val x"] byte_val_less [of x] by simp
  show ?thesis using three [of "fst c"] three [of "fst (snd c)"] three [of "snd (snd c)"] by (simp add: rgb_body_def)
qed

lemma copied_rgb_text: "copied_text 32 (rgb_body c @ [CHR 0x0A]) = rgb_body c @ [CHR 0x0A]"
proof -
  have "x \<noteq> NUL" if "x \<in> set (rgb_body c @ [CHR 0x0A])" for x using that rgb_body_chars [of x c] by auto
  then show ?thesis using rgb_body_short [of c] by (simp add: copied_text_def takeWhile_eq_all_conv)
qed

text \<open>
  C39: Reading a colour and writing it back.  The text a read of /dev/led/<pin>/color gives sets the
  same colour again when it is written, except when the three numbers and their two commas have six
  characters: then the text is taken for a hexadecimal colour and the write is refused.
\<close>

theorem colour_text_round_trip:
  assumes "devfs_file_data file = Some (Led_File l)"
  shows "webos_rgbled_write B file (rgb_text c) d =
    (if length (rgb_text c) = 7 then (- EINVAL, file, d)
     else case show_colour B (lf_led l) c (length (rgb_text c)) d of (ret, d') \<Rightarrow> (ret, file, d'))"
proof -
  have text_eq: "rgb_text c = rgb_body c @ [CHR 0x0A]" by (simp add: rgb_text_def rgb_body_def)
  have len: "length (rgb_text c) \<ge> 6" using rgb_body_length [of c] by (simp add: text_eq)
  show ?thesis using assms len parse_rgb_text [of c] copied_rgb_text [of c] unfolding webos_rgbled_write_def text_eq
    by (auto simp: Let_def split: prod.splits)
qed

lemma xdigit_plain: "isxdigit c \<Longrightarrow> \<not> isspace c \<and> c \<noteq> CHR ''#'' \<and> c \<noteq> NUL"
  by (auto simp: isxdigit_def isspace_def Let_def)

lemma parse_hex_digits:
  assumes "length h = 6" "list_all isxdigit h"
  shows "parse_hex_color h = (0, Some (char_of (16 * hex_value (h ! 0) + hex_value (h ! 1)),
      char_of (16 * hex_value (h ! 2) + hex_value (h ! 3)), char_of (16 * hex_value (h ! 4) + hex_value (h ! 5))))"
    and "parse_hex_color (CHR ''#'' # h) = parse_hex_color h"
proof -
  have n: "hex_nibble (c_at h i) = int (hex_value (h ! i)) \<and> hex_value (h ! i) < 16" if "i < 6" for i
    using assms that hex_nibble_xdigit [of "h ! i"] by (simp add: c_at_def list_all_length)
  have ok: "\<not> list_ex (\<lambda>i. hex_nibble (c_at h i) < 0) [0..<6]" using n by (auto simp: list_ex_iff)
  have rest: "\<not> isxdigit (c_at h 6)" using assms(1) by (simp add: c_at_def isxdigit_def)
  have "c_at h 0 \<noteq> CHR ''#''" using assms xdigit_plain [of "h ! 0"] by (simp add: c_at_def list_all_length)
  then show "parse_hex_color h = (0, Some (char_of (16 * hex_value (h ! 0) + hex_value (h ! 1)),
      char_of (16 * hex_value (h ! 2) + hex_value (h ! 3)), char_of (16 * hex_value (h ! 4) + hex_value (h ! 5))))"
    "parse_hex_color (CHR ''#'' # h) = parse_hex_color h"
    using ok rest n by (simp_all add: parse_hex_color_def Let_def nibbles_byte_eq c_at_def [of "CHR ''#'' # h" 0])
qed

lemma hex_not_name:
  assumes "s \<in> set [''off'', ''clear'', ''0'', ''red'', ''green'', ''blue'', ''white'']" "length h = 6" "no_nul h"
  shows "strcmp h s \<noteq> 0" "strcmp (CHR ''#'' # h) s \<noteq> 0"
proof -
  have s: "no_nul s" "length s \<noteq> 6" "hd s \<noteq> CHR ''#''" using assms(1) by (auto simp: no_nul_def)
  show "strcmp h s \<noteq> 0" using strcmp_eq_0_iff [OF assms(3) s(1)] s(2) assms(2) by auto
  have "no_nul (CHR ''#'' # h)" using assms(3) by (simp add: no_nul_def)
  then show "strcmp (CHR ''#'' # h) s \<noteq> 0" using strcmp_eq_0_iff [of "CHR ''#'' # h" s] s(1,3) by auto
qed

text \<open>
  C38: Hexadecimal colours.  Six hexadecimal digits of either case, with or without a hash in front,
  give exactly the three bytes they denote.
\<close>

theorem hex_colour:
  assumes "length h = 6" "list_all isxdigit h"
  shows "parse_color (''#'' @ h) = (0, Some (char_of (16 * hex_value (h ! 0) + hex_value (h ! 1)),
      char_of (16 * hex_value (h ! 2) + hex_value (h ! 3)), char_of (16 * hex_value (h ! 4) + hex_value (h ! 5)))) \<and>
    parse_color h = parse_color (''#'' @ h)"
proof -
  have ne: "h \<noteq> []" using assms(1) by auto
  have h: "h \<noteq> []" "isxdigit (hd h)" "isxdigit (last h)" using assms(2) ne by (simp_all add: list_all_iff)
  have nul: "no_nul h" using assms(2) xdigit_plain [of NUL] by (auto simp: no_nul_def list_all_iff)
  have trim: "trim h = h" using trim_plain [OF h(1)] xdigit_plain [OF h(2)] xdigit_plain [OF h(3)] by simp
  have "trim (CHR ''#'' # h) = CHR ''#'' # h"
    using trim_plain [of "CHR ''#'' # h"] h(1) xdigit_plain [OF h(3)] by (simp add: isspace_def)
  note trim = trim this
  note names = hex_not_name [OF _ assms(1) nul]
  have "parse_color h = parse_hex_color h"
    unfolding parse_color_def trim Let_def using assms(1) names(1) by simp
  moreover have "parse_color (CHR ''#'' # h) = parse_hex_color (CHR ''#'' # h)"
    unfolding parse_color_def trim Let_def using names(2) by (simp add: c_at_def)
  ultimately show ?thesis using parse_hex_digits [OF assms] by simp
qed

section \<open>Witnesses\<close>

theorem hex_colour_witness: "parse_color ''#ff8000'' = (0, Some (CHR 0xFF, CHR 0x80, CHR 0x00))"
proof -
  have "length ''ff8000'' = 6 \<and> list_all isxdigit ''ff8000''" by code_simp
  moreover have "char_of (16 * hex_value (''ff8000'' ! 0) + hex_value (''ff8000'' ! 1)) = CHR 0xFF"
    "char_of (16 * hex_value (''ff8000'' ! 2) + hex_value (''ff8000'' ! 3)) = CHR 0x80"
    "char_of (16 * hex_value (''ff8000'' ! 4) + hex_value (''ff8000'' ! 5)) = CHR 0x00" by code_simp+
  ultimately show ?thesis using hex_colour [of "''ff8000''"] by simp
qed

definition sample_led :: "unit drivers" where
  "sample_led = \<lparr>webos_gpios = [], webos_rgbleds = [\<lparr>strip = 0, webos_pin = 48, chain_length = 1, led_path = [],
     red = NUL, green = NUL, blue = NUL\<rparr>], hardware = (), drv_allocs = 0\<rparr>"

definition quiet_board :: "unit board" where
  "quiet_board = \<lparr>gpio_is_ready_dt = (\<lambda>_ _. True), gpio_pin_configure_dt = (\<lambda>_ _ _. (0, ())), gpio_pin_set_dt = (\<lambda>_ _ _. (0, ())),
     device_is_ready = (\<lambda>_ _. True), led_strip_update_rgb = (\<lambda>_ _ _. (0, ())), board_heap = (\<lambda>_. True),
     WEBOS_RGBLED_MAX_PIXELS = 8, WEBOS_DEVFS_MAX_PATH_LEN = 64\<rparr>"

theorem colour_text_round_trip_witness:
  "fst (webos_rgbled_write quiet_board \<lparr>f_node = [], f_data = Some (Led_File \<lparr>lf_led = 0, lf_read_eof = False\<rparr>)\<rparr>
      (rgb_text (CHR 0x05, CHR 0x07, CHR 0x0A)) sample_led) = - EINVAL"
proof -
  have "length (rgb_text (CHR 0x05, CHR 0x07, CHR 0x0A)) = 7" by code_simp
  then show ?thesis
    using colour_text_round_trip [of "\<lparr>f_node = [], f_data = Some (Led_File \<lparr>lf_led = 0, lf_read_eof = False\<rparr>)\<rparr>"
        "\<lparr>lf_led = 0, lf_read_eof = False\<rparr>" quiet_board "(CHR 0x05, CHR 0x07, CHR 0x0A)" sample_led]
    by (simp add: devfs_file_data_def)
qed

end
