(* ===== verification/Devfs_System.thy ===== *)
theory Devfs_System
  imports Devfs_Inv
begin

text \<open>
  The device file system with its open handles: the invariant of every interleaving of calls, the
  names a directory listing reports while the tree changes, and the specifications of registration
  and removal.
\<close>

section \<open>Names that fit\<close>

text \<open>
  The children's names are neither empty nor as long as a path may be, so the copies that a directory
  handle keeps are whole.
\<close>

definition name_fits :: "nat \<Rightarrow> string \<Rightarrow> bool" where
  "name_fits max_len c \<longleftrightarrow> c \<noteq> [] \<and> length c < max_len"

definition names_fit :: "nat \<Rightarrow> ('u, 'a, 'd) devfs_tree \<Rightarrow> bool" where
  "names_fit max_len t \<longleftrightarrow> (\<forall>p n c. t p = Some n \<longrightarrow> c \<in> set (n_children n) \<longrightarrow> name_fits max_len c)"

lemma names_fit_insert:
  "names_fit max_len t \<Longrightarrow> name_fits max_len c \<Longrightarrow> names_fit max_len (insert_child p c (alloc_node ty) t)"
  by (auto simp: names_fit_def insert_child_def update_node_def alloc_node_def)

lemma names_fit_unlink: "names_fit max_len t \<Longrightarrow> names_fit max_len (unlink_child p t)"
  using notin_set_remove1 by (fastforce simp: names_fit_def unlink_child_def update_node_def split: if_splits)

lemma names_fit_prune: "names_fit max_len t \<Longrightarrow> names_fit max_len (prune_empty_dirs p t)"
proof (induction p t rule: prune_empty_dirs.induct)
  case (1 p t)
  then show ?case using names_fit_unlink by (subst prune_empty_dirs.simps) auto
qed

lemma names_fit_update:
  "(\<And>n. n_children (f n) = n_children n) \<Longrightarrow> names_fit max_len t \<Longrightarrow> names_fit max_len (update_node p f t)"
  by (auto simp: names_fit_def update_node_def split: if_splits)

lemma components_valid_step:
  "components_valid s \<Longrightarrow> s \<noteq> [] \<Longrightarrow> next_component s = (c, rest) \<Longrightarrow>
     c \<noteq> [] \<and> length c \<le> length s \<and> (\<forall>r. rest = Some r \<longrightarrow> components_valid r \<and> length r < length s)"
  using next_component_parts [of s c] by (subst (asm) components_valid.simps) (cases rest; auto split: if_splits)

lemma names_fit_walk:
  assumes "register_walk heap p s t n = (ret, q, t', n')" "names_fit max_len t" "components_valid s" "length s < max_len"
  shows "names_fit max_len t'"
  using assms
proof (induction "length s" arbitrary: p s t n rule: less_induct)
  case less
  obtain c rest where nc: "next_component s = (c, rest)" by (cases "next_component s")
  show ?case
  proof (cases "s = []")
    case False
    note c = components_valid_step [OF less.prems(3) False nc]
    then have fits: "names_fit max_len (insert_child p c (alloc_node ty) t)" for ty
      using names_fit_insert [OF less.prems(2)] less.prems(4) by (simp add: name_fits_def)
    have rec: "names_fit max_len t'" if "rest = Some r" "register_walk heap p' r u m = (ret, q, t', n')" "names_fit max_len u" for p' r u m
      using less.hyps [OF _ that(2,3)] c that(1) less.prems(4) by auto
    show ?thesis using less.prems(1,2) False nc fits rec
      unfolding register_walk.simps [of heap p s] by (auto split: option.splits if_splits)
  qed (use less.prems in \<open>simp add: register_walk.simps\<close>)
qed

lemma names_fit_register:
  assumes "devfs_register_file max_len heap path ops u t = (ret, t')" "names_fit max_len t"
  shows "names_fit max_len t'"
proof -
  obtain r rel where v: "validate_path max_len path False = (r, rel)" by fastforce
  obtain r2 q t2 n where w: "register_walk heap [] (drop 1 rel) t 0 = (r2, q, t2, n)" by (metis prod_cases4)
  have "names_fit max_len t2" if "r = 0"
    using v that by (intro names_fit_walk [OF w assms(2)]) (auto simp: validate_path_def Let_def errno_simps split: option.splits if_splits)
  then show ?thesis using assms v w
    by (auto simp: devfs_register_file_def names_fit_prune names_fit_update split: option.splits if_splits)
qed

lemma names_fit_unregister:
  "devfs_unregister_file max_len path t = (ret, t') \<Longrightarrow> names_fit max_len t \<Longrightarrow> names_fit max_len t'"
  by (auto simp: devfs_unregister_file_def names_fit_prune names_fit_unlink split: option.splits if_splits)


section \<open>Open handles\<close>

text \<open>The device file system with the file and directory objects that are open.\<close>

record ('u, 'a, 'd) devfs_sys =
  ds_tree :: "('u, 'a, 'd) devfs_tree"
  ds_files :: "'a devfs_file list"
  ds_dirs :: "devfs_dir list"
  ds_drivers :: 'd

definition handles :: "('u, 'a, 'd) devfs_sys \<Rightarrow> devfs_ptr list" where
  "handles s = map f_node (ds_files s) @ map dir_node (ds_dirs s)"

text \<open>
  The steps of the system: any call, with any path, callbacks, driver state and allocation results.  A
  node counts its handles in 16 bits; the steps that open one have fewer than 65535 open.
\<close>

inductive devfs_step :: "nat \<Rightarrow> nat \<Rightarrow> ('u, 'a, 'd) devfs_sys \<Rightarrow> ('u, 'a, 'd) devfs_sys \<Rightarrow> bool"
  for max_len name_size where
  register: "no_nul path \<Longrightarrow> devfs_register_file max_len heap (Some path) (Some ops) u (ds_tree s) = (ret, t') \<Longrightarrow>
    devfs_step max_len name_size s (s\<lparr>ds_tree := t'\<rparr>)"
| unregister: "no_nul path \<Longrightarrow> devfs_unregister_file max_len (Some path) (ds_tree s) = (ret, t') \<Longrightarrow>
    devfs_step max_len name_size s (s\<lparr>ds_tree := t'\<rparr>)"
| open_file: "no_nul path \<Longrightarrow> length (handles s) < 65535 \<Longrightarrow>
    devfs_open max_len mem (Some path) flags (ds_tree s) (ds_drivers s) = (ret, f, t', d') \<Longrightarrow>
    devfs_step max_len name_size s (s\<lparr>ds_tree := t', ds_files := (case f of None \<Rightarrow> [] | Some x \<Rightarrow> [x]) @ ds_files s, ds_drivers := d'\<rparr>)"
| read_file: "ds_files s = xs @ f # ys \<Longrightarrow> devfs_read f n (ds_tree s) (ds_drivers s) = (res, f', d') \<Longrightarrow>
    devfs_step max_len name_size s (s\<lparr>ds_files := xs @ f' # ys, ds_drivers := d'\<rparr>)"
| write_file: "ds_files s = xs @ f # ys \<Longrightarrow> devfs_write f src (ds_tree s) (ds_drivers s) = (ret, f', d') \<Longrightarrow>
    devfs_step max_len name_size s (s\<lparr>ds_files := xs @ f' # ys, ds_drivers := d'\<rparr>)"
| close_file: "ds_files s = xs @ f # ys \<Longrightarrow> devfs_close f (ds_tree s) (ds_drivers s) = (ret, t', d') \<Longrightarrow>
    devfs_step max_len name_size s (s\<lparr>ds_tree := t', ds_files := xs @ ys, ds_drivers := d'\<rparr>)"
| open_dir: "no_nul path \<Longrightarrow> length (handles s) < 65535 \<Longrightarrow> devfs_opendir max_len mem (Some path) (ds_tree s) = (ret, d, t') \<Longrightarrow>
    devfs_step max_len name_size s (s\<lparr>ds_tree := t', ds_dirs := (case d of None \<Rightarrow> [] | Some x \<Rightarrow> [x]) @ ds_dirs s\<rparr>)"
| read_dir: "ds_dirs s = xs @ d # ys \<Longrightarrow> devfs_readdir max_len name_size d (ds_tree s) = (ret, e, d') \<Longrightarrow>
    devfs_step max_len name_size s (s\<lparr>ds_dirs := xs @ d' # ys\<rparr>)"
| close_dir: "ds_dirs s = xs @ d # ys \<Longrightarrow> devfs_closedir d (ds_tree s) = (ret, t') \<Longrightarrow>
    devfs_step max_len name_size s (s\<lparr>ds_tree := t', ds_dirs := xs @ ys\<rparr>)"

inductive devfs_reachable :: "nat \<Rightarrow> nat \<Rightarrow> ('u, 'a, 'd) devfs_sys \<Rightarrow> bool" for max_len name_size where
  start: "devfs_reachable max_len name_size \<lparr>ds_tree = devfs_root, ds_files = [], ds_dirs = [], ds_drivers = d\<rparr>"
| step: "devfs_reachable max_len name_size s \<Longrightarrow> devfs_step max_len name_size s s' \<Longrightarrow> devfs_reachable max_len name_size s'"

definition handles_ok :: "('u, 'a, 'd) devfs_sys \<Rightarrow> bool" where
  "handles_ok s \<longleftrightarrow>
     (\<forall>p. open_count (ds_tree s) p = count_list (handles s) p) \<and>
     (\<forall>f \<in> set (ds_files s). device_files (ds_tree s) (f_node f) \<noteq> None) \<and>
     (\<forall>d \<in> set (ds_dirs s). is_dir (ds_tree s) (dir_node d))"

definition devfs_sys_ok :: "nat \<Rightarrow> ('u, 'a, 'd) devfs_sys \<Rightarrow> bool" where
  "devfs_sys_ok max_len s \<longleftrightarrow> devfs_ok (ds_tree s) \<and> names_fit max_len (ds_tree s) \<and> handles_ok s"

lemma count_pos: "x \<in> set xs \<Longrightarrow> 0 < count_list xs x"
  using count_list_0_iff [of xs x] by linarith

lemma handle_counted:
  assumes "handles_ok s"
  shows "f \<in> set (ds_files s) \<Longrightarrow> 0 < open_count (ds_tree s) (f_node f)"
    "d \<in> set (ds_dirs s) \<Longrightarrow> 0 < open_count (ds_tree s) (dir_node d)"
  using assms count_pos [of "f_node f" "handles s"] count_pos [of "dir_node d" "handles s"]
  by (auto simp: handles_ok_def handles_def)

lemma count_bound: "count_list xs p \<le> length xs"
  by (induction xs) auto

text \<open>A change of the tree that keeps every device and every open node keeps the handles valid.\<close>

lemma handles_keep:
  assumes "handles_ok s" "open_count t' = open_count (ds_tree s)"
    "\<And>p. open_count (ds_tree s) p \<noteq> 0 \<Longrightarrow> device_files (ds_tree s) p \<noteq> None \<Longrightarrow> device_files t' p \<noteq> None"
    "\<And>p. open_count (ds_tree s) p \<noteq> 0 \<Longrightarrow> is_dir (ds_tree s) p \<Longrightarrow> is_dir t' p"
  shows "handles_ok (s\<lparr>ds_tree := t'\<rparr>)"
  using assms handle_counted [OF assms(1)] by (auto simp: handles_ok_def handles_def)

lemma register_step:
  assumes "devfs_sys_ok max_len s" "no_nul path" "devfs_register_file max_len heap (Some path) (Some ops) u (ds_tree s) = (ret, t')"
  shows "devfs_sys_ok max_len (s\<lparr>ds_tree := t'\<rparr>)"
proof -
  have ok: "devfs_ok (ds_tree s)" "names_fit max_len (ds_tree s)" "handles_ok s" using assms(1) by (auto simp: devfs_sys_ok_def)
  note r = register_file_cases [OF ok(1) assms(2,3)] names_fit_register [OF assms(3) ok(2)]
  show ?thesis
  proof (cases "ret = 0")
    case True
    then have "handles_ok (s\<lparr>ds_tree := t'\<rparr>)" using r(1) by (intro handles_keep [OF ok(3)]) auto
    then show ?thesis using True r by (simp add: devfs_sys_ok_def)
  qed (use r(1) assms(1) in simp)
qed

lemma unregister_step:
  assumes "devfs_sys_ok max_len s" "no_nul path" "devfs_unregister_file max_len (Some path) (ds_tree s) = (ret, t')"
  shows "devfs_sys_ok max_len (s\<lparr>ds_tree := t'\<rparr>)"
proof -
  have ok: "devfs_ok (ds_tree s)" "names_fit max_len (ds_tree s)" "handles_ok s" using assms(1) by (auto simp: devfs_sys_ok_def)
  note r = unregister_file_cases [OF ok(1) assms(2,3)] names_fit_unregister [OF assms(3) ok(2)]
  show ?thesis
  proof (cases "ret = 0")
    case True
    then have "handles_ok (s\<lparr>ds_tree := t'\<rparr>)" using r(1) by (intro handles_keep [OF ok(3)]) auto
    then show ?thesis using True r by (simp add: devfs_sys_ok_def)
  qed (use r(1) assms(1) in simp)
qed


lemma names_fit_pin:
  "names_fit max_len t \<Longrightarrow> names_fit max_len (pin_node p t)" "names_fit max_len t \<Longrightarrow> names_fit max_len (unpin_node p t)"
  by (simp_all add: pin_node_def unpin_node_def names_fit_update)

lemma find_node_there: "devfs_ok t \<Longrightarrow> no_nul path \<Longrightarrow> find_node max_len (Some path) t = Some p \<Longrightarrow> t p \<noteq> None"
  using find_node_lookup [of t path max_len] by (auto simp: devfs_ok_def split: if_splits)

lemma open_room: "handles_ok s \<Longrightarrow> length (handles s) < 65535 \<Longrightarrow> open_count (ds_tree s) p < 65535"
  using count_bound [of "handles s" p] by (simp add: handles_ok_def)

lemma open_file_step:
  assumes "devfs_sys_ok max_len s" "no_nul path" "length (handles s) < 65535"
    "devfs_open max_len mem (Some path) flags (ds_tree s) (ds_drivers s) = (ret, f, t', d')"
  shows "devfs_sys_ok max_len (s\<lparr>ds_tree := t', ds_files := (case f of None \<Rightarrow> [] | Some x \<Rightarrow> [x]) @ ds_files s, ds_drivers := d'\<rparr>)"
proof (cases f)
  case None
  then have "t' = ds_tree s" using assms(4)
    by (auto simp: devfs_open_def unpin_pin Let_def split: option.splits if_splits prod.splits)
  then show ?thesis using assms(1) None by (simp add: devfs_sys_ok_def handles_ok_def handles_def)
next
  case (Some x)
  have ok: "devfs_ok (ds_tree s)" "names_fit max_len (ds_tree s)" "handles_ok s" using assms(1) by (auto simp: devfs_sys_ok_def)
  obtain p where p: "find_node max_len (Some path) (ds_tree s) = Some p" "n_type (the (ds_tree s p)) = DEVFS_NODE_FILE"
    "f_node x = p" "t' = pin_node p (ds_tree s)"
    using assms(4) Some by (auto simp: devfs_open_def Let_def after_callback_def split: option.splits if_splits prod.splits)
  have there: "ds_tree s p \<noteq> None" using find_node_there [OF ok(1) assms(2) p(1)] .
  note views = pin_node_views [OF there open_room [OF ok(3) assms(3)]]
  have "device_files (ds_tree s) p \<noteq> None" using there p(2) by (auto simp: device_files_def)
  then show ?thesis using ok views Some p by (auto simp: devfs_sys_ok_def devfs_ok_def handles_ok_def handles_def names_fit_pin)
qed


lemma open_dir_step:
  assumes "devfs_sys_ok max_len s" "no_nul path" "length (handles s) < 65535"
    "devfs_opendir max_len mem (Some path) (ds_tree s) = (ret, d, t')"
  shows "devfs_sys_ok max_len (s\<lparr>ds_tree := t', ds_dirs := (case d of None \<Rightarrow> [] | Some x \<Rightarrow> [x]) @ ds_dirs s\<rparr>)"
proof (cases d)
  case None
  then have "t' = ds_tree s" using assms(4) by (auto simp: devfs_opendir_def split: option.splits if_splits)
  then show ?thesis using assms(1) None by (simp add: devfs_sys_ok_def handles_ok_def handles_def)
next
  case (Some x)
  have ok: "devfs_ok (ds_tree s)" "names_fit max_len (ds_tree s)" "handles_ok s" using assms(1) by (auto simp: devfs_sys_ok_def)
  obtain p where p: "find_node max_len (Some path) (ds_tree s) = Some p" "n_type (the (ds_tree s p)) = DEVFS_NODE_DIR"
    "dir_node x = p" "t' = pin_node p (ds_tree s)"
    using assms(4) Some by (auto simp: devfs_opendir_def split: option.splits if_splits)
  have there: "ds_tree s p \<noteq> None" using find_node_there [OF ok(1) assms(2) p(1)] .
  note views = pin_node_views [OF there open_room [OF ok(3) assms(3)]]
  have "is_dir (ds_tree s) p" using there p(2) by (auto simp: is_dir_def)
  then show ?thesis using ok views Some p by (auto simp: devfs_sys_ok_def devfs_ok_def handles_ok_def handles_def names_fit_pin)
qed

lemma device_not_dir: "device_files t p \<noteq> None \<Longrightarrow> \<not> is_dir t p"
  by (auto simp: device_files_def is_dir_def split: option.splits if_splits)

lemma close_file_step:
  assumes "devfs_sys_ok max_len s" "ds_files s = xs @ f # ys" "devfs_close f (ds_tree s) (ds_drivers s) = (ret, t', d')"
  shows "devfs_sys_ok max_len (s\<lparr>ds_tree := t', ds_files := xs @ ys, ds_drivers := d'\<rparr>)"
proof -
  have ok: "devfs_ok (ds_tree s)" "names_fit max_len (ds_tree s)" "handles_ok s" using assms(1) by (auto simp: devfs_sys_ok_def)
  have t': "t' = unpin_node (f_node f) (ds_tree s)" using assms(3) by (auto simp: devfs_close_def split: prod.splits)
  have "0 < open_count (ds_tree s) (f_node f)" using handle_counted(1) [OF ok(3), of f] assms(2) by simp
  note views = unpin_node_views [OF this]
  have "\<not> is_dir (ds_tree s) (f_node f)" using ok(3) assms(2) device_not_dir by (auto simp: handles_ok_def)
  then show ?thesis using ok views assms(2)
    by (auto simp: t' devfs_sys_ok_def devfs_ok_def handles_ok_def handles_def names_fit_pin)
qed

lemma close_dir_step:
  assumes "devfs_sys_ok max_len s" "ds_dirs s = xs @ d # ys" "devfs_closedir d (ds_tree s) = (ret, t')"
  shows "devfs_sys_ok max_len (s\<lparr>ds_tree := t', ds_dirs := xs @ ys\<rparr>)"
proof -
  let ?p = "dir_node d" let ?u = "unpin_node ?p (ds_tree s)"
  have ok: "devfs_ok (ds_tree s)" "names_fit max_len (ds_tree s)" "handles_ok s" using assms(1) by (auto simp: devfs_sys_ok_def)
  have t': "t' = prune_empty_dirs ?p ?u" using assms(3) by (auto simp: devfs_closedir_def)
  have "0 < open_count (ds_tree s) ?p" using handle_counted(2) [OF ok(3), of d] assms(2) by simp
  note views = unpin_node_views [OF this]
  have u: "handles_ok (s\<lparr>ds_tree := ?u, ds_dirs := xs @ ys\<rparr>)" (is "handles_ok ?s") using ok(3) views assms(2)
    by (auto simp: handles_ok_def handles_def)
  have wf: "devfs_wf ?u" "idle_dirs ?u \<subseteq> {?p}" "is_dir ?u ?p"
    using ok views assms(2) by (auto simp: devfs_ok_def handles_ok_def split: if_splits)
  then have there: "?u ?p \<noteq> None" by (auto simp: is_dir_def)
  note prune = prune_empty_dirs_views [OF wf(1) there]
  have "handles_ok (?s\<lparr>ds_tree := t'\<rparr>)" using prune by (intro handles_keep [OF u]) (auto simp: t')
  moreover have "s\<lparr>ds_tree := t', ds_dirs := xs @ ys\<rparr> = ?s\<lparr>ds_tree := t'\<rparr>" by simp
  ultimately show ?thesis using prune wf(2) names_fit_prune [OF names_fit_pin(2) [OF ok(2)]]
    unfolding devfs_sys_ok_def by (metis (no_types) devfs_ok_def devfs_sys.select_convs(1) devfs_sys.surjective devfs_sys.update_convs(1) t')
qed

lemma devfs_step_ok: "devfs_step max_len name_size s s' \<Longrightarrow> devfs_sys_ok max_len s \<Longrightarrow> devfs_sys_ok max_len s'"
proof (induction rule: devfs_step.induct)
  case (read_file s xs f ys n res f' d')
  then have "f_node f' = f_node f" by (auto simp: devfs_read_def after_callback_def split: option.splits prod.splits)
  then show ?case using read_file by (simp add: devfs_sys_ok_def handles_ok_def handles_def)
next
  case (write_file s xs f ys src ret f' d')
  then have "f_node f' = f_node f" by (auto simp: devfs_write_def after_callback_def split: option.splits prod.splits)
  then show ?case using write_file by (simp add: devfs_sys_ok_def handles_ok_def handles_def)
next
  case (read_dir s xs d ys ret e d')
  then have "dir_node d' = dir_node d" by (auto simp: devfs_readdir_def split: option.splits)
  then show ?case using read_dir by (simp add: devfs_sys_ok_def handles_ok_def handles_def)
qed (blast intro: register_step unregister_step open_file_step open_dir_step close_file_step close_dir_step)+

lemma devfs_start_ok: "devfs_sys_ok max_len \<lparr>ds_tree = devfs_root, ds_files = [], ds_dirs = [], ds_drivers = d\<rparr>"
  by (auto simp: devfs_sys_ok_def devfs_ok_def devfs_wf_def idle_dirs_def devfs_root_def names_fit_def handles_ok_def handles_def
      names_ordered_def open_count_def)

lemma devfs_reachable_ok: "devfs_reachable max_len name_size s \<Longrightarrow> devfs_sys_ok max_len s"
  by (induction rule: devfs_reachable.induct) (auto intro: devfs_step_ok devfs_start_ok)


section \<open>Listing a directory\<close>

text \<open>The names that successive calls of \<open>readdir\<close> report, each call on the tree of its time.\<close>

fun readdir_run :: "nat \<Rightarrow> nat \<Rightarrow> devfs_dir \<Rightarrow> ('u, 'a, 'd) devfs_tree list \<Rightarrow> string list" where
  "readdir_run max_len name_size dir [] = []"
| "readdir_run max_len name_size dir (t # ts) =
     (case devfs_readdir max_len name_size dir t of
        (ret, (name, e), dir') \<Rightarrow> name # readdir_run max_len name_size dir' ts)"

definition dir_children :: "devfs_dir \<Rightarrow> ('u, 'a, 'd) devfs_tree \<Rightarrow> string set" where
  "dir_children dir t = set (n_children (the (t (dir_node dir))))"

definition passed :: "devfs_dir \<Rightarrow> string \<Rightarrow> bool" where
  "passed dir c \<longleftrightarrow> dir_started dir \<and> strcmp c (dir_last_name dir) \<le> 0"

lemma find_first:
  "names_ordered cs \<Longrightarrow> find P cs = Some c \<Longrightarrow> c \<in> set cs \<and> P c \<and> (\<forall>x\<in>set cs. P x \<longrightarrow> x = c \<or> strcmp c x < 0)"
  by (induction cs) (auto simp: names_ordered_Cons split: if_splits)

lemma readdir_next:
  assumes "devfs_ok t" "names_fit max_len t" "max_len \<le> name_size" "is_dir t (dir_node dir)"
    "devfs_readdir max_len name_size dir t = (ret, (name, e), dir')"
  shows "ret = 0" "name = [] \<Longrightarrow> dir' = dir \<and> (\<forall>c\<in>dir_children dir t. passed dir c)"
    "name \<noteq> [] \<Longrightarrow> name \<in> dir_children dir t \<and> \<not> passed dir name \<and>
       (\<forall>c\<in>dir_children dir t. passed dir c \<or> c = name \<or> strcmp name c < 0) \<and>
       dir' = dir\<lparr>dir_last_name := name, dir_started := True\<rparr> \<and> no_nul name"
proof -
  obtain n where n: "t (dir_node dir) = Some n" using assms(4) by (auto simp: is_dir_def)
  have ord: "names_ordered (n_children n)" using devfs_wf_node [where t = t, OF _ n] assms(1) by (auto simp: devfs_ok_def)
  have len: "c \<noteq> [] \<and> length c < max_len \<and> no_nul c" if "c \<in> set (n_children n)" for c
    using assms(2) n that ord by (auto simp: names_fit_def name_fits_def names_ordered_def list_all_iff)
  show "ret = 0" using assms(5) by (auto simp: devfs_readdir_def split: option.splits)
  let ?find = "find (\<lambda>c. \<not> (dir_started dir \<and> strcmp c (dir_last_name dir) \<le> 0)) (n_children n)"
  have entry: "case ?find of None \<Rightarrow> name = [] \<and> dir' = dir
      | Some c \<Rightarrow> name = c \<and> c \<noteq> [] \<and> no_nul c \<and> dir' = dir\<lparr>dir_last_name := c, dir_started := True\<rparr>"
    using assms(3,5) n len find_first [OF ord] by (fastforce simp: devfs_readdir_def split: option.splits)
  show "dir' = dir \<and> (\<forall>c\<in>dir_children dir t. passed dir c)" if "name = []"
    using entry that n by (auto simp: dir_children_def passed_def find_None_iff split: option.splits)
  show "name \<in> dir_children dir t \<and> \<not> passed dir name \<and>
       (\<forall>c\<in>dir_children dir t. passed dir c \<or> c = name \<or> strcmp name c < 0) \<and>
       dir' = dir\<lparr>dir_last_name := name, dir_started := True\<rparr> \<and> no_nul name" if "name \<noteq> []"
    using entry that n find_first [OF ord, of _ name] by (auto simp: dir_children_def passed_def split: option.splits)
qed


lemma not_passed_trans:
  assumes "\<not> passed dir a" "strcmp a b < 0" "no_nul a" "no_nul b" "dir_started dir \<Longrightarrow> no_nul (dir_last_name dir)"
  shows "\<not> passed dir b"
  using assms strcmp_trans [of "dir_last_name dir" a b] strcmp_swap [of a "dir_last_name dir"] strcmp_swap [of b "dir_last_name dir"]
  by (auto simp: passed_def)

text \<open>
  A listing from the position of \<open>dir\<close> on: names in strict order, past the position, and, when it
  ended, with every name past the position that was there all the time.
\<close>

definition listing_ok :: "devfs_dir \<Rightarrow> ('u, 'a, 'd) devfs_tree list \<Rightarrow> string list \<Rightarrow> bool" where
  "listing_ok dir ts names \<longleftrightarrow>
     names_ordered (filter (\<lambda>n. n \<noteq> []) names) \<and> (\<forall>n \<in> set names. n \<noteq> [] \<longrightarrow> \<not> passed dir n) \<and>
     (names \<noteq> [] \<longrightarrow> last names = [] \<longrightarrow>
        (\<forall>c. (\<forall>t \<in> set ts. c \<in> dir_children dir t) \<longrightarrow> \<not> passed dir c \<longrightarrow> c \<in> set names))"

lemma listing_next:
  assumes "listing_ok (dir\<lparr>dir_last_name := name, dir_started := True\<rparr>) ts names" "name \<noteq> []" "no_nul name" "\<not> passed dir name"
    "\<forall>c\<in>dir_children dir t. passed dir c \<or> c = name \<or> strcmp name c < 0" "dir_started dir \<Longrightarrow> no_nul (dir_last_name dir)"
  shows "listing_ok dir (t # ts) (name # names)"
proof -
  let ?dir = "dir\<lparr>dir_last_name := name, dir_started := True\<rparr>"
  have past: "passed ?dir c \<longleftrightarrow> \<not> strcmp name c < 0" for c using strcmp_swap [of c name] by (auto simp: passed_def)
  have ord: "names_ordered (filter (\<lambda>n. n \<noteq> []) names)" using assms(1) by (simp add: listing_ok_def)
  have later: "strcmp name n < 0 \<and> no_nul n" if "n \<in> set names" "n \<noteq> []" for n
  proof
    show "strcmp name n < 0" using assms(1) that unfolding listing_ok_def past by blast
    show "no_nul n" using ord that by (simp add: names_ordered_def list_all_iff)
  qed
  have "names_ordered (filter (\<lambda>n. n \<noteq> []) (name # names))" using ord later assms(2,3) by (auto simp: names_ordered_Cons)
  moreover have "\<not> passed dir n" if "n \<in> set (name # names)" "n \<noteq> []" for n
  proof (cases "n = name")
    case False
    then have "strcmp name n < 0 \<and> no_nul n" using that later by simp
    then show ?thesis using not_passed_trans [OF assms(4) _ assms(3) _ assms(6)] by blast
  qed (simp add: assms(4))
  moreover have "c \<in> set (name # names)" if "last (name # names) = []" "\<forall>u \<in> set (t # ts). c \<in> dir_children dir u" "\<not> passed dir c" for c
  proof -
    have "names \<noteq> [] \<and> last names = []" using that(1) assms(2) by (auto split: if_splits)
    moreover have "c = name \<or> \<not> passed ?dir c" using that(2,3) assms(5) unfolding past by auto
    moreover have "\<forall>u \<in> set ts. c \<in> dir_children ?dir u" using that(2) by (simp add: dir_children_def)
    ultimately have "c = name \<or> c \<in> set names" using assms(1) unfolding listing_ok_def by blast
    then show ?thesis by auto
  qed
  ultimately show ?thesis unfolding listing_ok_def by blast
qed

lemma readdir_run_listing:
  assumes "\<forall>t \<in> set ts. devfs_ok t \<and> names_fit max_len t \<and> is_dir t (dir_node dir)" "max_len \<le> name_size"
    "dir_started dir \<Longrightarrow> no_nul (dir_last_name dir)"
  shows "listing_ok dir ts (readdir_run max_len name_size dir ts)"
  using assms(1,3)
proof (induction ts arbitrary: dir)
  case Nil
  show ?case by (simp add: listing_ok_def names_ordered_def)
next
  case (Cons t ts)
  obtain ret name e dir' where r: "devfs_readdir max_len name_size dir t = (ret, (name, e), dir')" by (metis prod_cases4 surj_pair)
  have t: "devfs_ok t" "names_fit max_len t" "is_dir t (dir_node dir)" using Cons.prems(1) by auto
  note nxt = readdir_next [OF t(1,2) assms(2) t(3) r]
  show ?case
  proof (cases "name = []")
    case True
    then have "listing_ok dir ts (readdir_run max_len name_size dir' ts)" using Cons nxt(2) by auto
    then show ?thesis using True nxt(2) r by (auto simp: listing_ok_def)
  next
    case False
    note entry = nxt(3) [OF False]
    have "listing_ok dir' ts (readdir_run max_len name_size dir' ts)" using Cons entry by auto
    then show ?thesis using listing_next [where dir = dir and name = name and t = t and ts = ts] entry False Cons.prems(2) r by simp
  qed
qed

section \<open>Registration undone\<close>

lemma unlink_update: "p \<noteq> [] \<Longrightarrow> unlink_child p (update_node p f t) = unlink_child p t"
  by (auto simp: unlink_child_def update_node_def fun_eq_iff)

lemma alloc_dir_empty: "n_children (the (insert_child p c (alloc_node ty) t (p @ [c]))) = []"
  by (simp add: insert_child_def alloc_node_def)

lemma leaf_undo:
  assumes "devfs_wf t" "is_dir t p" "t (p @ [c]) = None"
  shows "unlink_child (p @ [c]) (insert_child p c node t) = t"
proof -
  obtain m where m: "t p = Some m" using assms(2) by (auto simp: is_dir_def)
  then have "c \<notin> set (n_children m)" using devfs_wf_child [OF assms(1), of p c] assms(3) by auto
  then show ?thesis using unlink_insert [where t = t, OF m _ assms(3)] by simp
qed

lemma register_walk_new_undone:
  assumes "register_walk heap p s t n = (0, q, t', n')" "devfs_wf t" "is_dir t p" "n_children (the (t p)) = []" "no_nul s" "s \<noteq> []"
    "\<not> trailing_slash s"
  shows "prune_empty_dirs (butlast q) (unlink_child q t') = prune_empty_dirs p t"
  using assms
proof (induction "length s" arbitrary: p s t n rule: less_induct)
  case less
  obtain c rest where nc: "next_component s = (c, rest)" by (cases "next_component s")
  have leaf: "t (p @ [c]) = None" using devfs_wf_child [OF less.prems(2), of p c] less.prems(4) by auto
  note walk = register_walk_cases [OF less.prems(2,3,5,6) nc, of heap n] less.prems(1)
  have heap: "heap n" using walk leaf by (auto simp: errno_simps split: if_splits)
  note nul = component_no_nul [OF less.prems(5) nc]
  show ?case
  proof (cases rest)
    case None
    then show ?thesis using walk leaf heap leaf_undo [OF less.prems(2,3) leaf] by auto
  next
    case (Some r)
    have r: "r \<noteq> []" "\<not> trailing_slash r" "length r < length s"
      using less.prems(7) nc Some next_component_parts(2) [of s c r] by (auto simp: trailing_slash_def)
    have "prune_empty_dirs (butlast q) (unlink_child q t') = prune_empty_dirs (p @ [c]) (insert_child p c (alloc_node DEVFS_NODE_DIR) t)"
      using walk leaf heap Some nul r alloc_dir [OF less.prems(2,3) _ leaf]
      by (intro less.hyps [of r "p @ [c]" _ "n + 1"]) (auto simp: alloc_dir_empty)
    also have "\<dots> = prune_empty_dirs p t"
      using less.prems(3) prune_new [OF less.prems(2) _ leaf] by (auto simp: is_dir_def)
    finally show ?thesis .
  qed
qed

lemma register_walk_undone:
  assumes "register_walk heap p s t n = (0, q, t', n')" "devfs_wf t" "is_dir t p" "idle_dirs t = {}" "no_nul s" "s \<noteq> []"
    "\<not> trailing_slash s"
  shows "prune_empty_dirs (butlast q) (unlink_child q t') = t"
  using assms
proof (induction "length s" arbitrary: p s t n rule: less_induct)
  case less
  obtain c rest where nc: "next_component s = (c, rest)" by (cases "next_component s")
  have p: "prune_empty_dirs p t = t" using prune_nothing [OF less.prems(4)] less.prems(3) by (auto simp: is_dir_def)
  note nul = component_no_nul [OF less.prems(5) nc]
  note walk = register_walk_cases [OF less.prems(2,3,5,6) nc, of heap n] less.prems(1)
  have r: "r \<noteq> [] \<and> \<not> trailing_slash r \<and> length r < length s \<and> no_nul r" if "rest = Some r" for r
    using less.prems(7) nc that next_component_parts(2) [of s c r] nul by (auto simp: trailing_slash_def)
  consider (enter) r where "is_dir t (p @ [c])" "rest = Some r" | (make) r where "t (p @ [c]) = None" "rest = Some r" "heap n"
    | (last) "t (p @ [c]) = None" "q = p @ [c]" "t' = insert_child p c (alloc_node DEVFS_NODE_FILE) t"
    using walk by (cases rest) (auto simp: errno_simps split: if_splits)
  then show ?case
  proof cases
    case enter
    then show ?thesis using walk r less.prems(2,4)
      by (intro less.hyps [of r "p @ [c]" t n]) (auto simp: is_dir_def)
  next
    case make
    have "prune_empty_dirs (butlast q) (unlink_child q t') = prune_empty_dirs (p @ [c]) (insert_child p c (alloc_node DEVFS_NODE_DIR) t)"
      using walk make r nul alloc_dir [OF less.prems(2,3) _ make(1)]
      by (intro register_walk_new_undone [of heap "p @ [c]" r _ "n + 1" q t' n']) (auto simp: alloc_dir_empty)
    also have "\<dots> = t"
      using less.prems(3) prune_new [OF less.prems(2) _ make(1)] p by (auto simp: is_dir_def)
    finally show ?thesis .
  next
    case last
    then show ?thesis using leaf_undo [OF less.prems(2,3) last(1)] p by simp
  qed
qed


section \<open>Properties\<close>

lemma validate_weaken: "fst (validate_path max_len path False) = 0 \<Longrightarrow> fst (validate_path max_len path True) = 0"
  by (auto simp: validate_path_def Let_def errno_simps split: option.splits if_splits)

lemma register_finds:
  assumes "devfs_ok t" "no_nul path" "devfs_register_file max_len heap (Some path) (Some ops) u t = (0, t')"
  shows "find_node max_len (Some path) t' = Some (device_names path) \<and> open_count t' (device_names path) = 0"
proof -
  note r = register_file_cases [OF assms, simplified]
  have wf: "devfs_wf t'" using r by (simp add: devfs_ok_def)
  have "device_files t' (device_names path) \<noteq> None" using r by simp
  then have there: "t' (device_names path) \<noteq> None" by (auto simp: device_files_def split: option.splits)
  have "\<not> trailing_slash (drop 1 (normalize_path path))"
    using r validate_path_ok [of max_len path False] assms(2) by (metis fst_conv prod.collapse)
  moreover have "open_count t' (device_names path) = 0" using r open_count_None by metis
  ultimately show ?thesis using find_node_lookup [OF wf assms(2), of max_len] there validate_weaken r by auto
qed

text \<open>
  C30: Registering a device.  When \<open>devfs_register_file\<close> succeeds, the set of device files has gained
  exactly the new one, under a path that was free, a lookup of the path finds it, and the tree is in
  order; when it fails, for whatever reason and after however many directories it had made, the tree
  is the one from before.
\<close>

theorem register_file_spec:
  assumes "devfs_ok t" "no_nul path" "devfs_register_file max_len heap (Some path) (Some ops) u t = (ret, t')"
  shows "if ret = 0
    then devfs_ok t' \<and> device_files t (device_names path) = None \<and>
      device_files t' = (device_files t)(device_names path \<mapsto> (ops, u)) \<and>
      find_node max_len (Some path) t' = Some (device_names path)
    else t' = t"
proof (cases "ret = 0")
  case True
  then show ?thesis using register_file_cases [OF assms] register_finds [OF assms(1,2)] assms(3) device_files_None
    by (metis (no_types, lifting))
next
  case False
  then show ?thesis using register_file_cases [OF assms] by simp
qed

text \<open>
  C31: A device that is registered and then unregistered leaves no trace: the second call succeeds and
  the tree is the one from before, with every directory the first call made removed again.
\<close>

theorem register_unregister:
  assumes "devfs_ok t" "no_nul path" "devfs_register_file max_len heap (Some path) (Some ops) u t = (0, t')"
  shows "devfs_unregister_file max_len (Some path) t' = (0, t)"
proof -
  define p where "p = device_names path"
  note r = register_file_cases [OF assms, simplified] register_finds [OF assms]
  obtain rel where v: "validate_path max_len (Some path) False = (0, rel)" using r(1) by (metis fst_conv prod.collapse)
  note rel = validate_path_ok [OF v assms(2)]
  obtain r2 q t2 n where w: "register_walk heap [] (drop 1 rel) t 0 = (r2, q, t2, n)" by (metis prod_cases4)
  have t': "r2 = 0" "strcmp rel ''/'' \<noteq> 0" "t' = update_node q (\<lambda>n. n\<lparr>n_ops := ops, n_user_data := u\<rparr>) t2"
    using assms(3) v w by (auto simp: devfs_register_file_def errno_simps split: if_splits)
  have root: "is_dir t []" and wf: "devfs_wf t" "idle_dirs t = {}" using assms(1) devfs_wf_root by (auto simp: devfs_ok_def)
  have s: "drop 1 rel \<noteq> []" "no_nul (drop 1 rel)" "\<not> trailing_slash (drop 1 rel)" using rel t'(2) by auto
  have q: "q = p" using register_walk_succeeds [OF w [unfolded t'(1)] wf(1) root s(2,1,3)] rel by (simp add: p_def device_names_def)
  have undo: "prune_empty_dirs (butlast p) (unlink_child p t2) = t"
    using register_walk_undone [OF w [unfolded t'(1)] wf(1) root wf(2) s(2,1,3)] q by simp
  have "p \<noteq> []" using q register_walk_succeeds [OF w [unfolded t'(1)] wf(1) root s(2,1,3)] s(1) by auto
  then have "prune_empty_dirs (butlast p) (unlink_child p t') = t" using undo by (simp add: t'(3) q unlink_update)
  moreover have "device_files t' p \<noteq> None" using r(1) by (simp add: p_def)
  then have "n_type (the (t' p)) = DEVFS_NODE_FILE \<and> n_open_count (the (t' p)) = 0"
    using r(2) by (auto simp: device_files_def open_count_def p_def unat_eq_zero split: option.splits if_splits)
  ultimately show ?thesis using r(2) by (simp add: devfs_unregister_file_def p_def)
qed

text \<open>
  C29: No dangling handle.  However calls are interleaved, every open file belongs to a device that is
  still registered, every open directory is still there, each node counts exactly the handles on it,
  and no empty directory is left behind.  (Fewer than 65535 handles are open whenever one is opened.)
\<close>

theorem open_handles_valid:
  assumes "devfs_reachable max_len name_size s"
  shows "devfs_ok (ds_tree s) \<and> (\<forall>p. open_count (ds_tree s) p = count_list (handles s) p) \<and>
    (\<forall>f \<in> set (ds_files s). device_files (ds_tree s) (f_node f) \<noteq> None) \<and> (\<forall>d \<in> set (ds_dirs s). is_dir (ds_tree s) (dir_node d))"
  using devfs_reachable_ok [OF assms] unfolding devfs_sys_ok_def handles_ok_def by blast


text \<open>
  C33: Listing a directory that changes meanwhile.  The calls of \<open>readdir\<close> on a fresh handle report
  names in strictly increasing order, so none twice, whatever is registered and unregistered between
  them; and once the end is reported, every name that was there all the time has been reported.
\<close>

theorem readdir_listing:
  assumes "\<forall>t \<in> set ts. devfs_ok t \<and> names_fit max_len t \<and> is_dir t p" "max_len \<le> name_size"
  defines "names \<equiv> readdir_run max_len name_size \<lparr>dir_node = p, dir_last_name = [], dir_started = False\<rparr> ts"
  shows "sorted_wrt (\<lambda>a b. strcmp a b < 0) (filter (\<lambda>n. n \<noteq> []) names) \<and>
    (names \<noteq> [] \<and> last names = [] \<longrightarrow> (\<forall>c. (\<forall>t \<in> set ts. c \<in> set (n_children (the (t p)))) \<longrightarrow> c \<in> set names))"
proof -
  let ?dir = "\<lparr>dir_node = p, dir_last_name = [], dir_started = False\<rparr>"
  have "listing_ok ?dir ts names" unfolding names_def using assms(1,2) by (intro readdir_run_listing) auto
  then show ?thesis by (auto simp: listing_ok_def names_ordered_def dir_children_def passed_def)
qed


section \<open>Witnesses\<close>

definition sample_register :: "int \<times> (unit, unit, unit) devfs_tree" where
  "sample_register = devfs_register_file 64 (\<lambda>_. True) (Some ''/dev/bus/led'') (Some no_ops) None devfs_root"

definition sample_open :: "int \<times> unit devfs_file option \<times> (unit, unit, unit) devfs_tree \<times> unit" where
  "sample_open = devfs_open 64 True (Some ''/dev/bus/led'') 0 (snd sample_register) ()"

definition sample_state :: "(unit, unit, unit) devfs_sys" where
  "sample_state = \<lparr>ds_tree = fst (snd (snd sample_open)), ds_files = [\<lparr>f_node = [''bus'', ''led''], f_data = None\<rparr>], ds_dirs = [],
     ds_drivers = ()\<rparr>"

lemma sample_names: "device_names ''/dev/bus/led'' = [''bus'', ''led'']" "no_nul ''/dev/bus/led''"
  by code_simp+

lemma devfs_root_ok: "devfs_ok devfs_root"
  by (auto simp: devfs_ok_def devfs_wf_def idle_dirs_def devfs_root_def names_ordered_def)

lemma sample_register_eq: "sample_register = (0, snd sample_register)"
proof -
  have "fst sample_register = 0" by code_simp
  then show ?thesis by (simp add: prod_eq_iff)
qed

lemma sample_registered:
  "devfs_register_file 64 (\<lambda>_. True) (Some ''/dev/bus/led'') (Some no_ops) None devfs_root = (0, snd sample_register)"
  using sample_register_eq unfolding sample_register_def .

lemma sample_state_reachable: "devfs_reachable 64 64 sample_state"
proof -
  let ?s0 = "\<lparr>ds_tree = devfs_root, ds_files = [], ds_dirs = [], ds_drivers = ()\<rparr>"
  have "devfs_register_file 64 (\<lambda>_. True) (Some ''/dev/bus/led'') (Some no_ops) None (ds_tree ?s0) = (0, snd sample_register)"
    by (simp add: sample_registered)
  note s1 = devfs_reachable.step [OF devfs_reachable.start devfs_step.register [OF sample_names(2) this], of 64]
  have f: "fst (snd sample_open) = Some \<lparr>f_node = [''bus'', ''led''], f_data = None\<rparr>" by code_simp
  have o: "devfs_open 64 True (Some ''/dev/bus/led'') 0 (snd sample_register) () =
      (fst sample_open, Some \<lparr>f_node = [''bus'', ''led''], f_data = None\<rparr>, fst (snd (snd sample_open)), ())"
    unfolding sample_open_def [symmetric] using f by (simp add: prod_eq_iff)
  show ?thesis using devfs_reachable.step [OF s1 devfs_step.open_file [OF sample_names(2)],
      of True 0 "fst sample_open" "Some \<lparr>f_node = [''bus'', ''led''], f_data = None\<rparr>" "fst (snd (snd sample_open))" "()"] o
    by (simp add: sample_state_def handles_def)
qed

theorem register_file_spec_witness:
  "devfs_ok (snd sample_register) \<and> device_files (snd sample_register) [''bus'', ''led''] = Some (no_ops, None) \<and>
   find_node 64 (Some ''/dev/bus/led'') (snd sample_register) = Some [''bus'', ''led'']"
  using register_file_spec [OF devfs_root_ok sample_names(2) sample_registered] by (simp add: sample_names)

theorem register_unregister_witness:
  "devfs_unregister_file 64 (Some ''/dev/bus/led'') (snd sample_register) = (0, devfs_root)"
  by (rule register_unregister [OF devfs_root_ok sample_names(2) sample_registered])

theorem open_handles_valid_witness:
  "device_files (ds_tree sample_state) [''bus'', ''led''] \<noteq> None \<and> open_count (ds_tree sample_state) [''bus'', ''led''] = 1"
  using open_handles_valid [OF sample_state_reachable] by (simp add: sample_state_def handles_def)


theorem readdir_listing_witness:
  "set (readdir_run 64 64 \<lparr>dir_node = [''bus''], dir_last_name = [], dir_started = False\<rparr> [snd sample_register, snd sample_register])
   \<supseteq> {''led''}"
proof -
  have ok: "devfs_sys_ok 64 \<lparr>ds_tree = snd sample_register, ds_files = [], ds_dirs = [], ds_drivers = ()\<rparr>"
    using register_step [OF devfs_start_ok sample_names(2)] sample_registered by auto
  have c: "n_children (the (snd sample_register [''bus''])) = [''led'']" "n_type (the (snd sample_register [''bus''])) = DEVFS_NODE_DIR"
    "snd sample_register [''bus''] \<noteq> None"
    "readdir_run 64 64 \<lparr>dir_node = [''bus''], dir_last_name = [], dir_started = False\<rparr> [snd sample_register, snd sample_register] = [''led'', []]"
    by code_simp+
  have "is_dir (snd sample_register) [''bus'']" using c(2,3) by (auto simp: is_dir_def)
  then show ?thesis
    using readdir_listing [of "[snd sample_register, snd sample_register]" 64 "[''bus'']" 64] ok c(1,4)
    by (auto simp: devfs_sys_ok_def)
qed

end
