(* ===== verification/Drivers.thy ===== *)
theory Drivers
  imports Gpio Rgbled Devfs_System
begin

text \<open>
  The two device drivers under the device file system: the contract of a driver's callbacks as a
  locale with the lemmas on whole sessions, its interpretations by the GPIO and the LED driver,
  registration that succeeds, and what the files report after a write.
\<close>

section \<open>Sessions on a device file\<close>

text \<open>
  What the device file system relies on in a driver: a file its \<open>open\<close> accepted carries a record of
  the driver's own for that device, and the other callbacks keep it; a read returns no more bytes than
  were asked for, and a write that succeeds takes all of them.
\<close>

locale device_class =
  fixes ops :: "('u, 'a, 'd) devfs_file_ops" and mine :: "'u \<Rightarrow> 'a \<Rightarrow> bool"
  assumes has_ops: "op_open ops \<noteq> None" "op_read ops \<noteq> None" "op_write ops \<noteq> None"
    and open_mine: "op_open ops = Some f \<Longrightarrow> f file (Some u) flags d = (0, file', d') \<Longrightarrow> \<exists>x. f_data file' = Some x \<and> mine u x"
    and read_mine: "op_read ops = Some g \<Longrightarrow> f_data file = Some x \<Longrightarrow> mine u x \<Longrightarrow> g file n d = ((ret, bs), file', d') \<Longrightarrow>
      (\<exists>y. f_data file' = Some y \<and> mine u y) \<and> (ret = - EIO \<and> n = 0 \<or> ret = int (length bs) \<and> length bs \<le> n)"
    and write_mine: "op_write ops = Some h \<Longrightarrow> f_data file = Some x \<Longrightarrow> mine u x \<Longrightarrow> h file src d = (ret, file', d') \<Longrightarrow>
      (\<exists>y. f_data file' = Some y \<and> mine u y) \<and> (0 \<le> ret \<longrightarrow> ret = int (length src))"
begin

definition serves :: "('u, 'a, 'd) devfs_tree \<Rightarrow> 'u \<Rightarrow> 'a devfs_file \<Rightarrow> bool" where
  "serves t u file \<longleftrightarrow> device_files t (f_node file) = Some (ops, Some u) \<and> (\<exists>x. f_data file = Some x \<and> mine u x)"

lemma node_ops: "device_files t p = Some (ops, u) \<Longrightarrow> n_ops (the (t p)) = ops \<and> n_user_data (the (t p)) = u \<and> n_type (the (t p)) = DEVFS_NODE_FILE"
  by (auto simp: device_files_def split: option.splits if_splits)

lemma open_serves:
  assumes "device_files t p = Some (ops, Some u)" "find_node max_len path t = Some p" "open_count t p < 65535"
    "devfs_open max_len mem path flags t d = (0, file, t', d')"
  shows "\<exists>f. file = Some f \<and> f_node f = p \<and> serves t' u f"
proof -
  have there: "t p \<noteq> None" using assms(1) by (auto simp: device_files_def split: option.splits)
  note node = node_ops [OF assms(1)]
  obtain h where h: "op_open ops = Some h" using has_ops by blast
  obtain ret f2 d2 where r: "h \<lparr>f_node = p, f_data = None\<rparr> (Some u) flags d = (ret, f2, d2)" by (metis prod_cases3)
  have ok: "ret = 0" "file = Some (after_callback \<lparr>f_node = p, f_data = None\<rparr> f2)" "t' = pin_node p t"
    using assms(2,4) node h r by (auto simp: devfs_open_def errno_simps Let_def split: if_splits)
  have "device_files t' p = Some (ops, Some u)" using pin_node_views(3) [OF there assms(3)] assms(1) ok(3) by simp
  then show ?thesis using open_mine [OF h] r ok by (auto simp: serves_def after_callback_def)
qed

lemma read_serves:
  assumes "serves t u file" "devfs_read file n t d = ((ret, bs), file', d')"
  shows "serves t u file' \<and> (ret = - EIO \<and> n = 0 \<or> ret = int (length bs) \<and> length bs \<le> n)"
proof -
  obtain h where h: "op_read ops = Some h" using has_ops by blast
  obtain r2 b2 f2 d2 where r: "h file n d = ((r2, b2), f2, d2)" by (metis prod_cases3 surj_pair)
  obtain x where x: "f_data file = Some x" "mine u x" using assms(1) by (auto simp: serves_def)
  have "device_files t (f_node file) = Some (ops, Some u)" using assms(1) by (simp add: serves_def)
  then show ?thesis using read_mine [OF h x r] assms(2) node_ops h r
    by (auto simp: devfs_read_def serves_def after_callback_def)
qed

lemma write_serves:
  assumes "serves t u file" "devfs_write file src t d = (ret, file', d')"
  shows "serves t u file' \<and> (0 \<le> ret \<longrightarrow> ret = int (length src))"
proof -
  obtain h where h: "op_write ops = Some h" using has_ops by blast
  obtain r2 f2 d2 where r: "h file src d = (r2, f2, d2)" by (metis prod_cases3)
  obtain x where x: "f_data file = Some x" "mine u x" using assms(1) by (auto simp: serves_def)
  have "device_files t (f_node file) = Some (ops, Some u)" using assms(1) by (simp add: serves_def)
  then show ?thesis using write_mine [OF h x r] assms(2) node_ops h r
    by (auto simp: devfs_write_def serves_def after_callback_def)
qed

end

text \<open>The calls on one open file, in order.\<close>

datatype io = Read nat | Write "byte list"

fun io_run :: "('u, 'a, 'd) devfs_tree \<Rightarrow> io list \<Rightarrow> 'a devfs_file \<Rightarrow> 'd \<Rightarrow> 'a devfs_file \<times> 'd" where
  "io_run t [] file d = (file, d)"
| "io_run t (Read n # ios) file d = (case devfs_read file n t d of (res, file', d') \<Rightarrow> io_run t ios file' d')"
| "io_run t (Write src # ios) file d = (case devfs_write file src t d of (ret, file', d') \<Rightarrow> io_run t ios file' d')"

lemma io_run_node: "io_run t ios f d = (f', d') \<Longrightarrow> f_node f' = f_node f"
proof (induction t ios f d rule: io_run.induct)
  case (2 t n ios f d)
  then show ?case by (auto simp: devfs_read_def after_callback_def split: option.splits prod.splits)
next
  case (3 t src ios f d)
  then show ?case by (auto simp: devfs_write_def after_callback_def split: option.splits prod.splits)
qed simp

context device_class
begin

lemma session_serves: "serves t u file \<Longrightarrow> io_run t ios file d = (file', d') \<Longrightarrow> serves t u file'"
proof (induction ios arbitrary: "file" d)
  case (Cons io ios)
  show ?case
  proof (cases io)
    case (Read n)
    obtain ret bs f2 d2 where r: "devfs_read file n t d = ((ret, bs), f2, d2)" by (metis prod_cases3 surj_pair)
    then show ?thesis using Cons Read read_serves [OF Cons.prems(1) r] by auto
  next
    case (Write src)
    obtain ret f2 d2 where r: "devfs_write file src t d = (ret, f2, d2)" by (metis prod_cases3)
    then show ?thesis using Cons Write write_serves [OF Cons.prems(1) r] by auto
  qed
qed simp

lemma session_typed:
  assumes "device_files t p = Some (ops, Some u)" "find_node max_len path t = Some p" "open_count t p < 65535"
    and "devfs_open max_len mem path flags t d = (0, opened, t1, d1)" "io_run t1 ios (the opened) d1 = (f2, d2)"
    and "devfs_read f2 n t1 d2 = ((ret, bs), f3, d3)"
  shows "f_node f2 = p \<and> (\<exists>x. f_data f2 = Some x \<and> mine u x) \<and> (ret = - EIO \<and> n = 0 \<or> ret = int (length bs) \<and> length bs \<le> n)"
proof -
  obtain f where f: "opened = Some f" "f_node f = p" "serves t1 u f" using open_serves [OF assms(1-4)] by blast
  have s: "serves t1 u f2" using session_serves [OF f(3)] assms(5) f(1) by simp
  have "f_node f2 = p" using io_run_node [OF assms(5)] f by simp
  then show ?thesis using read_serves [OF s assms(6)] s by (simp add: serves_def)
qed

end

fun gpio_mine :: "device_ptr \<Rightarrow> driver_file \<Rightarrow> bool" where
  "gpio_mine (Gpio_Def i ty) (Gpio_File g) \<longleftrightarrow> gf_gpio g = i \<and> gf_type g = ty"
| "gpio_mine u x \<longleftrightarrow> False"

fun led_mine :: "device_ptr \<Rightarrow> driver_file \<Rightarrow> bool" where
  "led_mine (Led_Dev i) (Led_File l) \<longleftrightarrow> lf_led l = i"
| "led_mine u x \<longleftrightarrow> False"

lemma read_text_bounds: "read_text txt n = (ret, bs) \<Longrightarrow> ret = int (length bs) \<and> length bs \<le> n"
  by (auto simp: read_text_def)

lemma gpio_write_length:
  "write_value B i src d = (ret, d') \<Longrightarrow> 0 \<le> ret \<Longrightarrow> ret = int (length src)"
  "write_direction B i src d = (ret, d') \<Longrightarrow> 0 \<le> ret \<Longrightarrow> ret = int (length src)"
  by (auto simp: write_value_def write_direction_def Let_def errno_simps split: prod.splits if_splits option.splits)

lemma led_write_length: "show_colour B i c n d = (ret, d') \<Longrightarrow> 0 \<le> ret \<Longrightarrow> ret = int n"
  by (auto simp: show_colour_def split: prod.splits if_splits)

lemma parse_colour_code: "parse_color s = (ret, None) \<Longrightarrow> ret = - EINVAL"
  by (auto simp: parse_color_def parse_hex_color_def parse_rgb_color_def Let_def split: if_splits option.splits prod.splits)

lemma led_write_result:
  assumes "webos_rgbled_write B file src d = (ret, file', d')" "f_data file = Some (Led_File l)"
  shows "file' = file \<and> (0 \<le> ret \<longrightarrow> ret = int (length src))"
proof -
  obtain r c where p: "parse_color (copied_text 32 src) = (r, c)" by fastforce
  have text_ok: "ret = int (length src)"
    if "(case c of None \<Rightarrow> (r, d) | Some x \<Rightarrow> show_colour B (lf_led l) x (length src) d) = (ret, d2)" "0 \<le> ret" for d2
    using that led_write_length parse_colour_code p by (cases c) (fastforce simp: errno_simps)+
  show ?thesis using assms p led_write_length text_ok unfolding webos_rgbled_write_def devfs_file_data_def Let_def
    by (fastforce simp: errno_simps split: if_splits prod.splits option.splits)
qed

lemma led_write_shows:
  assumes "webos_rgbled_write B file src d = (ret, file', d')" "f_data file = Some (Led_File l)" "0 \<le> ret"
  shows "\<exists>c. show_colour B (lf_led l) c (length src) d = (ret, d')"
proof -
  obtain r c where p: "parse_color (copied_text 32 src) = (r, c)" by fastforce
  have none: "r = - EINVAL" if "c = None" using p that parse_colour_code by blast
  show ?thesis using assms p none unfolding webos_rgbled_write_def devfs_file_data_def Let_def
    by (cases c) (auto simp: errno_simps split: if_splits prod.splits)
qed

lemma gpio_mine_cases: "gpio_mine u x \<Longrightarrow> \<exists>g. x = Gpio_File g \<and> u = Gpio_Def (gf_gpio g) (gf_type g)"
  by (cases "(u, x)" rule: gpio_mine.cases) auto

lemma led_mine_cases: "led_mine u x \<Longrightarrow> \<exists>l. x = Led_File l \<and> u = Led_Dev (lf_led l)"
  by (cases "(u, x)" rule: led_mine.cases) auto

interpretation gpio_class: device_class "webos_gpio_ops B" gpio_mine
proof unfold_locales
  show "op_open (webos_gpio_ops B) \<noteq> None" "op_read (webos_gpio_ops B) \<noteq> None" "op_write (webos_gpio_ops B) \<noteq> None"
    by (simp_all add: webos_gpio_ops_def)
qed (auto simp: webos_gpio_ops_def webos_gpio_open_def webos_gpio_read_def webos_gpio_write_def devfs_file_data_def devfs_file_set_data_def
    errno_simps Let_def read_text_def split: option.splits device_ptr.splits if_splits prod.splits webos_gpio_file_type.splits
    dest!: gpio_mine_cases dest: gpio_write_length)


interpretation led_class: device_class "webos_rgbled_ops B" led_mine
proof unfold_locales
  show "op_open (webos_rgbled_ops B) \<noteq> None" "op_read (webos_rgbled_ops B) \<noteq> None" "op_write (webos_rgbled_ops B) \<noteq> None"
    by (simp_all add: webos_rgbled_ops_def)
qed (auto simp: webos_rgbled_ops_def webos_rgbled_open_def webos_rgbled_read_def devfs_file_data_def devfs_file_set_data_def
    errno_simps Let_def read_text_def split: option.splits device_ptr.splits if_splits prod.splits
    dest!: led_mine_cases dest: led_write_result)

section \<open>Registration that succeeds\<close>

text \<open>A path whose nodes above the last are directories or missing, and whose last node is missing, can be registered.\<close>

definition path_free :: "('u, 'a, 'd) devfs_tree \<Rightarrow> string list \<Rightarrow> bool" where
  "path_free t ns \<longleftrightarrow> t ns = None \<and> (\<forall>k<length ns. t (take k ns) = None \<or> is_dir t (take k ns))"

lemma path_free_insert:
  assumes "path_free t (p @ c # xs)" "xs \<noteq> []"
  shows "path_free (insert_child p c (alloc_node DEVFS_NODE_DIR) t) (p @ c # xs)"
proof -
  let ?t = "insert_child p c (alloc_node DEVFS_NODE_DIR) t"
  have none: "?t q = None \<longleftrightarrow> t q = None" if "q \<noteq> p @ [c]" for q
    using that by (auto simp: insert_child_def update_node_def)
  have "?t q = None \<or> is_dir ?t q" if "t q = None \<or> is_dir t q" for q
    using that none [of q] unfolding insert_child_views(3) by (cases "q = p @ [c]") simp_all
  moreover have "p @ c # xs \<noteq> p @ [c]" using assms(2) by simp
  ultimately show ?thesis using assms(1) none [of "p @ c # xs"] unfolding path_free_def by blast
qed

lemma register_walk_total:
  assumes "devfs_wf t" "is_dir t p" "no_nul s" "s \<noteq> []" "\<not> trailing_slash s" "path_free t (p @ path_names s)" "\<forall>m. heap m"
  shows "fst (register_walk heap p s t n) = 0"
  using assms
proof (induction "length s" arbitrary: p s t n rule: less_induct)
  case less
  obtain c rest where nc: "next_component s = (c, rest)" by (cases "next_component s")
  note nul = component_no_nul [OF less.prems(3) nc]
  note walk = register_walk_cases [OF less.prems(1-4) nc, of heap n]
  show ?case
  proof (cases rest)
    case None
    then have "t (p @ [c]) = None" using less.prems(6) path_names_step [OF less.prems(4) nc] by (simp add: path_free_def)
    then show ?thesis using walk less.prems(7) None by simp
  next
    case (Some r)
    have r: "r \<noteq> []" "\<not> trailing_slash r" "length r < length s"
      using less.prems(5) nc Some next_component_parts(2) [of s c r] by (auto simp: trailing_slash_def)
    have names: "path_names s = c # path_names r" using path_names_step [OF less.prems(4) nc] Some by simp
    have free: "t (p @ c # path_names r) = None" "\<forall>k<length (p @ path_names s). t (take k (p @ path_names s)) = None \<or> is_dir t (take k (p @ path_names s))"
      using less.prems(6) unfolding path_free_def names by auto
    have c: "t (p @ [c]) = None \<or> is_dir t (p @ [c])"
      using free(2) r(1) by (auto simp: names dest!: spec [of _ "length p + 1"])
    from c show ?thesis
    proof
      assume True: "t (p @ [c]) = None"
      let ?t = "insert_child p c (alloc_node DEVFS_NODE_DIR) t"
      have "path_free ?t ((p @ [c]) @ path_names r)" using path_free_insert [of t p c "path_names r"] less.prems(6) r(1) by (simp add: names)
      then have "fst (register_walk heap (p @ [c]) r ?t (n + 1)) = 0"
        using less.hyps [OF r(3), of ?t "p @ [c]"] alloc_dir [OF less.prems(1,2) _ True] nul Some r less.prems(7) by blast
      then show ?thesis using walk True Some less.prems(7) by simp
    next
      assume dir: "is_dir t (p @ [c])"
      moreover have "path_free t ((p @ [c]) @ path_names r)" using less.prems(6) by (simp add: names)
      ultimately have "fst (register_walk heap (p @ [c]) r t n) = 0"
        using less.hyps [OF r(3) less.prems(1), of "p @ [c]"] nul Some r less.prems(7) by blast
      moreover have "t (p @ [c]) \<noteq> None" using dir by (auto simp: is_dir_def)
      ultimately show ?thesis using walk dir Some by simp
    qed
  qed
qed

lemma register_file_total:
  assumes "devfs_ok t" "no_nul path" "fst (validate_path max_len (Some path) False) = 0" "device_names path \<noteq> []"
    "path_free t (device_names path)" "\<forall>m. heap m"
  shows "fst (devfs_register_file max_len heap (Some path) (Some ops) u t) = 0"
proof -
  obtain rel where v: "validate_path max_len (Some path) False = (0, rel)" using assms(3) by (metis fst_conv prod.collapse)
  note rel = validate_path_ok [OF v assms(2)]
  have s: "drop 1 rel \<noteq> []" "no_nul (drop 1 rel)" "\<not> trailing_slash (drop 1 rel)" "device_names path = path_names (drop 1 rel)"
    using rel assms(4) by (auto simp: device_names_def)
  have wf: "devfs_wf t" "is_dir t []" using assms(1) devfs_wf_root by (auto simp: devfs_ok_def)
  have "fst (register_walk heap [] (drop 1 rel) t 0) = 0"
    using register_walk_total [OF wf s(2,1,3) _ assms(6)] assms(5) s(4) by simp
  moreover have "strcmp rel ''/'' \<noteq> 0" using rel s(1) by blast
  ultimately show ?thesis using v by (auto simp: devfs_register_file_def split: prod.splits)
qed

section \<open>Paths of the devices\<close>

lemma path_names_slash: "CHR ''/'' \<notin> set c \<Longrightarrow> path_names (c @ CHR ''/'' # r) = c # path_names r"
  using path_names_step [of "c @ CHR ''/'' # r" c "Some r"] by (simp add: next_component_def split_first_append)

lemma path_names_single: "CHR ''/'' \<notin> set c \<Longrightarrow> c \<noteq> [] \<Longrightarrow> path_names c = [c]"
  using path_names_step [of c c None] split_first_None [of "CHR ''/''" c] by (simp add: next_component_def)

lemma components_valid_slash:
  "CHR ''/'' \<notin> set c \<Longrightarrow> c \<noteq> [] \<Longrightarrow> c \<noteq> ''.'' \<Longrightarrow> c \<noteq> ''..'' \<Longrightarrow> components_valid (c @ CHR ''/'' # r) = components_valid r"
  by (subst components_valid.simps) (simp add: next_component_def split_first_append)

lemma components_valid_single:
  "CHR ''/'' \<notin> set c \<Longrightarrow> c \<noteq> [] \<Longrightarrow> c \<noteq> ''.'' \<Longrightarrow> c \<noteq> ''..'' \<Longrightarrow> components_valid c"
  using split_first_None [of "CHR ''/''" c] by (subst components_valid.simps) (simp add: next_component_def)

text \<open>A path of three plain names in the device file system.\<close>

definition plain_name :: "string \<Rightarrow> bool" where
  "plain_name c \<longleftrightarrow> c \<noteq> [] \<and> list_all (\<lambda>x. x \<noteq> CHR ''/'' \<and> x \<noteq> CHR ''.'' \<and> x \<noteq> NUL) c"

definition three_path :: "string \<Rightarrow> string \<Rightarrow> string \<Rightarrow> string" where
  "three_path a b c = CHR ''/'' # a @ CHR ''/'' # b @ CHR ''/'' # c"

lemma plain_nameD: "plain_name c \<Longrightarrow> CHR ''/'' \<notin> set c \<and> c \<noteq> [] \<and> c \<noteq> ''.'' \<and> c \<noteq> ''..'' \<and> NUL \<notin> set c"
proof -
  assume c: "plain_name c"
  then have "CHR ''.'' \<notin> set c" by (auto simp: plain_name_def list_all_iff)
  moreover have "CHR ''.'' \<in> set ''.''" "CHR ''.'' \<in> set ''..''" by simp_all
  ultimately have "c \<noteq> ''.''" "c \<noteq> ''..''" by metis+
  then show ?thesis using c by (auto simp: plain_name_def list_all_iff simp del: char.inject)
qed

lemma dec_digits_name: "plain_name (dec_digits n)"
proof -
  have "x \<noteq> CHR ''/'' \<and> x \<noteq> CHR ''.'' \<and> x \<noteq> NUL" if "x \<in> set (dec_digits n)" for x
    using dec_digits_plain [OF that] by auto
  then show ?thesis by (simp add: plain_name_def list_all_iff)
qed

lemma three_path_valid:
  assumes "plain_name a" "plain_name b" "plain_name c" "length (three_path a b c) < max_len" "hd a \<noteq> CHR ''d''"
  shows "no_nul (three_path a b c)" "validate_path max_len (Some (three_path a b c)) False = (0, three_path a b c)"
    "device_names (three_path a b c) = [a, b, c]"
proof -
  note p = plain_nameD [OF assms(1)] plain_nameD [OF assms(2)] plain_nameD [OF assms(3)]
  show nul: "no_nul (three_path a b c)" using p by (simp add: no_nul_def three_path_def)
  obtain x xs where a: "a = x # xs" "x \<noteq> CHR ''d''" using p(1) assms(5) by (cases a) auto
  then have "\<not> prefix ''/dev/'' (three_path a b c)" "three_path a b c \<noteq> ''/dev''" "three_path a b c \<noteq> ''/dev/''"
    by (simp_all add: three_path_def)
  then have norm: "normalize_path (three_path a b c) = three_path a b c"
    using strcmp_eq_0_iff [OF nul] strncmp_prefix [OF nul, of "''/dev/''"] by (simp add: normalize_path_def no_nul_def)
  have "last c \<in> set c" using p(3) by simp
  then have last: "last (three_path a b c) \<noteq> CHR ''/''" using p(3) by (metis last_ConsR last_appendR list.distinct(1) three_path_def append_is_Nil_conv)
  define q where "q = three_path a b c"
  have q: "q \<noteq> []" "c_at q 0 = CHR ''/''" "c_at q (length q - 1) \<noteq> CHR ''/''" "length q < max_len" "normalize_path q = q"
    using last assms(4) norm by (simp_all add: q_def c_at_def last_conv_nth three_path_def)
  have "components_valid (drop 1 q)"
    using p by (simp add: q_def three_path_def components_valid_slash components_valid_single)
  with q show "validate_path max_len (Some (three_path a b c)) False = (0, three_path a b c)"
    unfolding q_def [symmetric] by (simp add: validate_path_def Let_def)
  show "device_names (three_path a b c) = [a, b, c]"
    using p by (simp add: device_names_def norm) (simp add: three_path_def path_names_slash path_names_single)
qed

lemma free_or_dir: "t p = None \<or> is_dir t p \<longleftrightarrow> device_files t p = None"
proof (cases "t p")
  case (Some n)
  then show ?thesis by (cases "n_type n") (auto simp: device_files_def is_dir_def)
qed (simp add: device_files_def)

lemma register_three:
  assumes "devfs_ok t" "plain_name a" "plain_name b" "plain_name c" "length (three_path a b c) < max_len" "hd a \<noteq> CHR ''d''"
    "path_free t [a, b, c]" "\<forall>m. heap m"
  shows "\<exists>t'. devfs_register_file max_len heap (Some (three_path a b c)) (Some ops) u t = (0, t') \<and> devfs_ok t' \<and>
    device_files t' = (device_files t)([a, b, c] \<mapsto> (ops, u)) \<and>
    (\<forall>ns. length ns = 3 \<longrightarrow> ns \<noteq> [a, b, c] \<longrightarrow> path_free t ns \<longrightarrow> path_free t' ns)"
proof -
  note path = three_path_valid [OF assms(2-6)]
  obtain t' where r: "devfs_register_file max_len heap (Some (three_path a b c)) (Some ops) u t = (0, t')"
    using register_file_total [OF assms(1) path(1) _ _ _ assms(8), of max_len ops u] path(2,3) assms(7)
    by (metis fst_conv list.distinct(1) prod.collapse)
  note views = register_file_cases [OF assms(1) path(1) r, simplified, unfolded path(3)]
  have "path_free t' ns" if ns: "length ns = 3" "ns \<noteq> [a, b, c]" "path_free t ns" for ns
  proof -
    have files: "device_files t' q = device_files t q" if "q \<noteq> [a, b, c]" for q using views that by simp
    have "\<not> strict_prefix ns [a, b, c]" using ns(1) by (auto dest: prefix_length_less)
    moreover have "\<not> is_dir t ns" "device_files t ns = None" using ns(3) by (auto simp: path_free_def is_dir_def device_files_def)
    ultimately have "\<not> is_dir t' ns" "device_files t' ns = None" using views files [OF ns(2)] by auto
    then have "t' ns = None" using free_or_dir [of t' ns] by blast
    moreover have "t' (take k ns) = None \<or> is_dir t' (take k ns)" if "k < length ns" for k
    proof -
      have "length (take k ns) \<noteq> length [a, b, c]" using that ns(1) by simp
      then have "take k ns \<noteq> [a, b, c]" by metis
      then show ?thesis using files [of "take k ns"] ns(3) that unfolding free_or_dir path_free_def by metis
    qed
    ultimately show ?thesis by (simp add: path_free_def)
  qed
  then show ?thesis using r views by auto
qed

definition gpio_pin :: "'h drivers \<Rightarrow> nat \<Rightarrow> nat" where
  "gpio_pin d i = pin (spec (webos_gpios d ! i))"

definition gpio_names :: "'h drivers \<Rightarrow> string \<Rightarrow> nat \<Rightarrow> string list" where
  "gpio_names d f i = [''gpio'', dec_digits (gpio_pin d i), f]"

definition gpio_file :: "webos_gpio_file_type \<Rightarrow> string" where
  "gpio_file ty = (case ty of WEBOS_GPIO_VALUE \<Rightarrow> ''value'' | WEBOS_GPIO_DIRECTION \<Rightarrow> ''direction'')"

definition gpio_paths_free :: "nat \<Rightarrow> 'h drivers \<Rightarrow> 'h driver_tree \<Rightarrow> bool" where
  "gpio_paths_free i d t \<longleftrightarrow> (\<forall>j ty. i \<le> j \<longrightarrow> j < length (webos_gpios d) \<longrightarrow> path_free t (gpio_names d (gpio_file ty) j))"

definition gpio_board_ok :: "'h board \<Rightarrow> 'h drivers \<Rightarrow> bool" where
  "gpio_board_ok B d \<longleftrightarrow> 32 \<le> WEBOS_DEVFS_MAX_PATH_LEN B \<and> (\<forall>i<length (webos_gpios d). gpio_pin d i < 256) \<and>
     (\<forall>i<length (webos_gpios d). \<forall>j<length (webos_gpios d). gpio_pin d i = gpio_pin d j \<longrightarrow> i = j)"

lemma gpio_file_name: "plain_name (gpio_file ty)" "length (gpio_file ty) \<le> 9"
  by (cases ty; simp add: gpio_file_def plain_name_def)+

lemma gpio_file_inj: "gpio_file ty = gpio_file ty' \<longleftrightarrow> ty = ty'"
  by (cases ty; cases ty') (simp_all add: gpio_file_def)

lemma gpio_path_three: "gpio_path f n = three_path ''gpio'' (dec_digits n) f"
  by (simp add: gpio_path_def three_path_def)

lemma gpio_path_fits: "n < 256 \<Longrightarrow> length (gpio_path (gpio_file ty) n) < 31"
  using dec_digits_short [of n] gpio_file_name(2) [of ty] by (simp add: gpio_path_def)

lemma gpio_names_inj:
  "gpio_board_ok B d \<Longrightarrow> i < length (webos_gpios d) \<Longrightarrow> j < length (webos_gpios d) \<Longrightarrow>
   gpio_names d (gpio_file ty) i = gpio_names d (gpio_file ty') j \<longleftrightarrow> i = j \<and> ty = ty'"
  by (auto simp: gpio_names_def gpio_file_inj gpio_board_ok_def dest: dec_digits_inj)

text \<open>One registration of the loop.\<close>

lemma gpio_register_one:
  assumes "gpio_board_ok B d" "i < length (webos_gpios d)" "devfs_ok t" "path_free t (gpio_names d (gpio_file ty) i)" "\<forall>m. heap m"
  defines "p \<equiv> fst (snprintk (WEBOS_DEVFS_MAX_PATH_LEN B) (gpio_path (gpio_file ty) (gpio_pin d i)))"
  shows "\<exists>t'. devfs_register_file (WEBOS_DEVFS_MAX_PATH_LEN B) heap (Some p) (Some ops) u t = (0, t') \<and> devfs_ok t' \<and>
    device_files t' = (device_files t)(gpio_names d (gpio_file ty) i \<mapsto> (ops, u)) \<and>
    (\<forall>ns. length ns = 3 \<longrightarrow> ns \<noteq> gpio_names d (gpio_file ty) i \<longrightarrow> path_free t ns \<longrightarrow> path_free t' ns)"
proof -
  have len: "length (gpio_path (gpio_file ty) (gpio_pin d i)) < 31" "32 \<le> WEBOS_DEVFS_MAX_PATH_LEN B"
    using assms(1,2) gpio_path_fits by (auto simp: gpio_board_ok_def)
  then have p: "p = three_path ''gpio'' (dec_digits (gpio_pin d i)) (gpio_file ty)" by (simp add: p_def snprintk_def gpio_path_three)
  have "plain_name ''gpio''" by (simp add: plain_name_def)
  then show ?thesis unfolding p gpio_names_def
    using len assms(4) by (intro register_three [OF assms(3) _ dec_digits_name gpio_file_name(1) _ _ _ assms(5)])
      (simp_all add: gpio_path_three gpio_names_def)
qed

lemma gpio_pin_update: "(\<And>g. spec (f g) = spec g) \<Longrightarrow> gpio_pin (update_gpio i f d) = gpio_pin d"
proof
  fix j
  assume f: "\<And>g. spec (f g) = spec g"
  show "gpio_pin (update_gpio i f d) j = gpio_pin d j"
    using f by (cases "j = i"; cases "i < length (webos_gpios d)") (simp_all add: gpio_pin_def update_gpio_def list_update_beyond)
qed

lemma length_update_gpio [simp]: "length (webos_gpios (update_gpio i f d)) = length (webos_gpios d)"
  by (simp add: update_gpio_def)

text \<open>One turn of the loop: two registrations, then the rest.\<close>

lemma gpio_register_turn:
  assumes "gpio_board_ok B d" "i < length (webos_gpios d)" "devfs_ok t" "gpio_paths_free i d t" "\<forall>p m. heap p m"
  shows "\<exists>t' d'. gpio_register_loop B heap i t d = gpio_register_loop B heap (i + 1) t' d' \<and> devfs_ok t' \<and>
    gpio_pin d' = gpio_pin d \<and> length (webos_gpios d') = length (webos_gpios d) \<and> gpio_paths_free (i + 1) d' t' \<and>
    device_files t' = (device_files t)(gpio_names d ''value'' i \<mapsto> (webos_gpio_ops B, Some (Gpio_Def i WEBOS_GPIO_VALUE)),
      gpio_names d ''direction'' i \<mapsto> (webos_gpio_ops B, Some (Gpio_Def i WEBOS_GPIO_DIRECTION)))"
proof -
  let ?V = WEBOS_GPIO_VALUE and ?D = WEBOS_GPIO_DIRECTION
  let ?cap = "WEBOS_DEVFS_MAX_PATH_LEN B"
  define vp where "vp = fst (snprintk ?cap (gpio_path (gpio_file ?V) (gpio_pin d i)))"
  define dp where "dp = fst (snprintk ?cap (gpio_path (gpio_file ?D) (gpio_pin d i)))"
  define d' where "d' = update_gpio i (\<lambda>g. g\<lparr>value_path := vp, direction_path := dp\<rparr>) d"
  have free: "path_free t (gpio_names d (gpio_file ty) i)" for ty using assms(2,4) by (simp add: gpio_paths_free_def)
  have heap: "\<forall>m. heap p m" for p using assms(5) by blast
  obtain t1 where t1: "devfs_register_file ?cap (heap vp) (Some vp) (Some (webos_gpio_ops B)) (Some (Gpio_Def i ?V)) t = (0, t1)" "devfs_ok t1"
    "device_files t1 = (device_files t)(gpio_names d (gpio_file ?V) i \<mapsto> (webos_gpio_ops B, Some (Gpio_Def i ?V)))"
    "\<forall>ns. length ns = 3 \<longrightarrow> ns \<noteq> gpio_names d (gpio_file ?V) i \<longrightarrow> path_free t ns \<longrightarrow> path_free t1 ns"
    using gpio_register_one [OF assms(1-3) free heap] unfolding vp_def by blast
  have "path_free t1 (gpio_names d (gpio_file ?D) i)"
    using t1(4) free [of ?D] gpio_names_inj [OF assms(1,2,2)] by (auto simp: gpio_names_def)
  from gpio_register_one [OF assms(1,2) t1(2) this heap] obtain t2 where t2:
    "devfs_register_file ?cap (heap dp) (Some dp) (Some (webos_gpio_ops B)) (Some (Gpio_Def i ?D)) t1 = (0, t2)" "devfs_ok t2"
    "device_files t2 = (device_files t1)(gpio_names d (gpio_file ?D) i \<mapsto> (webos_gpio_ops B, Some (Gpio_Def i ?D)))"
    "\<forall>ns. length ns = 3 \<longrightarrow> ns \<noteq> gpio_names d (gpio_file ?D) i \<longrightarrow> path_free t1 ns \<longrightarrow> path_free t2 ns"
    unfolding dp_def by blast
  have pins: "gpio_pin d' = gpio_pin d" by (simp add: d'_def gpio_pin_update)
  have "path_free t2 (gpio_names d (gpio_file ty) j)" if "i + 1 \<le> j" "j < length (webos_gpios d)" for ty j
  proof -
    have "gpio_names d (gpio_file ty) j \<noteq> gpio_names d (gpio_file ty') i" for ty' using gpio_names_inj [OF assms(1) that(2) assms(2)] that(1) by auto
    moreover have "path_free t (gpio_names d (gpio_file ty) j)" using assms(4) that by (simp add: gpio_paths_free_def)
    ultimately show ?thesis using t1(4) t2(4) by (simp add: gpio_names_def)
  qed
  then have "gpio_paths_free (i + 1) d' t2" by (simp add: gpio_paths_free_def gpio_names_def pins) (simp add: d'_def)
  moreover have "gpio_register_loop B heap i t d = gpio_register_loop B heap (i + 1) t2 d'"
    using assms(2) t1(1) t2(1) unfolding gpio_register_loop.simps [of B heap i t d]
    by (simp add: vp_def dp_def d'_def gpio_file_def gpio_pin_def Let_def)
  moreover have "length (webos_gpios d') = length (webos_gpios d)" by (simp add: d'_def)
  moreover have "device_files t2 = (device_files t)(gpio_names d ''value'' i \<mapsto> (webos_gpio_ops B, Some (Gpio_Def i ?V)),
      gpio_names d ''direction'' i \<mapsto> (webos_gpio_ops B, Some (Gpio_Def i ?D)))" using t2(3) t1(3) by (simp add: gpio_file_def)
  ultimately show ?thesis using pins t2(2) by blast
qed

definition gpio_view :: "'h board \<Rightarrow> 'h drivers \<Rightarrow> nat \<Rightarrow> 'h driver_tree \<Rightarrow> 'h driver_tree \<Rightarrow> bool" where
  "gpio_view B d i t t' \<longleftrightarrow>
     (\<forall>j ty. i \<le> j \<longrightarrow> j < length (webos_gpios d) \<longrightarrow>
        device_files t' (gpio_names d (gpio_file ty) j) = Some (webos_gpio_ops B, Some (Gpio_Def j ty))) \<and>
     (\<forall>p. (\<forall>j ty. i \<le> j \<longrightarrow> j < length (webos_gpios d) \<longrightarrow> p \<noteq> gpio_names d (gpio_file ty) j) \<longrightarrow>
        device_files t' p = device_files t p)"

lemma gpio_loop_registers:
  assumes "gpio_board_ok B d" "devfs_ok t" "gpio_paths_free i d t" "\<forall>p m. heap p m"
  shows "\<exists>t' d'. gpio_register_loop B heap i t d = (0, t', d') \<and> devfs_ok t' \<and> gpio_view B d i t t'"
  using assms
proof (induction "length (webos_gpios d) - i" arbitrary: i t d)
  case 0
  then have "gpio_register_loop B heap i t d = (0, t, d)" by (simp add: gpio_register_loop.simps [of B heap i])
  moreover have "gpio_view B d i t t" using 0 by (simp add: gpio_view_def)
  ultimately show ?case using 0 by blast
next
  case (Suc n)
  then have i: "i < length (webos_gpios d)" by simp
  obtain t1 d1 where turn: "gpio_register_loop B heap i t d = gpio_register_loop B heap (i + 1) t1 d1" "devfs_ok t1"
    "gpio_pin d1 = gpio_pin d" "length (webos_gpios d1) = length (webos_gpios d)" "gpio_paths_free (i + 1) d1 t1"
    "device_files t1 = (device_files t)(gpio_names d ''value'' i \<mapsto> (webos_gpio_ops B, Some (Gpio_Def i WEBOS_GPIO_VALUE)),
      gpio_names d ''direction'' i \<mapsto> (webos_gpio_ops B, Some (Gpio_Def i WEBOS_GPIO_DIRECTION)))"
    using gpio_register_turn [OF Suc.prems(1) i Suc.prems(2-4)] by blast
  have names: "gpio_names d1 = gpio_names d" by (simp add: gpio_names_def turn(3) fun_eq_iff)
  have board: "gpio_board_ok B d1" using Suc.prems(1) by (simp add: gpio_board_ok_def turn(3,4))
  have "n = length (webos_gpios d1) - (i + 1)" using Suc.hyps(2) turn(4) by simp
  from Suc.hyps(1) [OF this board turn(2,5) Suc.prems(4)] obtain t2 d2 where
    rest: "gpio_register_loop B heap (i + 1) t1 d1 = (0, t2, d2)" "devfs_ok t2" "gpio_view B d1 (i + 1) t1 t2" by blast
  note view = rest(3) [unfolded gpio_view_def names turn(4)]
  have inj: "gpio_names d (gpio_file ty) i \<noteq> gpio_names d (gpio_file ty') j" if "i + 1 \<le> j" "j < length (webos_gpios d)" for ty ty' j
    using gpio_names_inj [OF Suc.prems(1) i that(2)] that(1) by simp
  have here: "device_files t1 (gpio_names d (gpio_file ty) i) = Some (webos_gpio_ops B, Some (Gpio_Def i ty))" for ty
    by (cases ty) (simp_all add: turn(6) gpio_file_def gpio_names_def)
  have "device_files t2 (gpio_names d (gpio_file ty) j) = Some (webos_gpio_ops B, Some (Gpio_Def j ty))"
    if "i \<le> j" "j < length (webos_gpios d)" for ty j
    using view here [of ty] inj that by (cases "j = i") auto
  moreover have "device_files t2 p = device_files t p"
    if p: "\<forall>j ty. i \<le> j \<longrightarrow> j < length (webos_gpios d) \<longrightarrow> p \<noteq> gpio_names d (gpio_file ty) j" for p
  proof -
    have "p \<noteq> gpio_names d (gpio_file ty) i" for ty using p i by simp
    from this [of WEBOS_GPIO_VALUE] this [of WEBOS_GPIO_DIRECTION] have "device_files t1 p = device_files t p"
      by (simp add: turn(6) gpio_file_def)
    moreover have "device_files t2 p = device_files t1 p" using view p by simp
    ultimately show ?thesis by simp
  qed
  ultimately have "gpio_view B d i t t2" by (simp add: gpio_view_def)
  then show ?case using turn(1) rest(1,2) by auto
qed

section \<open>Properties\<close>

text \<open>
  C34: Typed pointers.  A file that a driver's \<open>open\<close> accepted carries, after any sequence of reads and
  writes through the device file system, the driver's own record for the very device the path names,
  so no callback follows a pointer of the other driver; and every read of it returns at most the
  bytes that were asked for, or EIO when that is none.
\<close>

theorem driver_sessions_typed:
  assumes "ops = webos_gpio_ops B \<and> mine = gpio_mine \<or> ops = webos_rgbled_ops B \<and> mine = led_mine"
    and "device_files t p = Some (ops, Some u)" "find_node max_len path t = Some p" "open_count t p < 65535"
    and "devfs_open max_len mem path flags t d = (0, opened, t1, d1)" "io_run t1 ios (the opened) d1 = (f2, d2)"
    and "devfs_read f2 n t1 d2 = ((ret, bs), f3, d3)"
  shows "f_node f2 = p \<and> (\<exists>x. f_data f2 = Some x \<and> mine u x) \<and> (ret = - EIO \<and> n = 0 \<or> ret = int (length bs) \<and> length bs \<le> n)"
  using assms(1) gpio_class.session_typed [OF _ assms(3-7)] led_class.session_typed [OF _ assms(3-7)] assms(2) by blast

text \<open>
  C35: Registration of the GPIO pins.  On a tree without /dev/gpio, with distinct pin numbers and
  memory, registration succeeds, every pin gets its value and its direction file with the driver's
  callbacks and the pin's own description, and the other device files stay as they were.
\<close>

theorem gpio_devices_registered:
  assumes "gpio_board_ok B d" "devfs_ok t" "\<forall>p. prefix [''gpio''] p \<longrightarrow> t p = None" "\<forall>p m. heap p m"
  shows "\<exists>t' d'. webos_gpio_register_devfs B heap t d = (0, t', d') \<and> devfs_ok t' \<and>
    (\<forall>i ty. i < length (webos_gpios d) \<longrightarrow>
       device_files t' [''gpio'', dec_digits (pin (spec (webos_gpios d ! i))), gpio_file ty] = Some (webos_gpio_ops B, Some (Gpio_Def i ty))) \<and>
    (\<forall>p. \<not> prefix [''gpio''] p \<longrightarrow> device_files t' p = device_files t p)"
proof -
  have root: "is_dir t []" using assms(2) devfs_wf_root by (auto simp: devfs_ok_def)
  have "t (take k (gpio_names d f j)) = None \<or> is_dir t (take k (gpio_names d f j))" for k f j
    using assms(3) root by (cases k) (simp_all add: gpio_names_def)
  moreover have "t (gpio_names d f j) = None" for f j using assms(3) by (simp add: gpio_names_def)
  ultimately have "gpio_paths_free 0 d t" by (simp add: gpio_paths_free_def path_free_def)
  from gpio_loop_registers [OF assms(1,2) this assms(4)] obtain t' d' where
    r: "gpio_register_loop B heap 0 t d = (0, t', d')" "devfs_ok t'" "gpio_view B d 0 t t'" by blast
  have "device_files t' p = device_files t p" if "\<not> prefix [''gpio''] p" for p
  proof -
    have "p \<noteq> [''gpio'', x, y]" for x y using that by auto
    then show ?thesis using r(3) unfolding gpio_view_def gpio_names_def by blast
  qed
  then show ?thesis using r unfolding webos_gpio_register_devfs_def gpio_view_def gpio_names_def gpio_pin_def by auto
qed

text \<open>
  C36: What the value file reports.  When a write to a pin's value file succeeds, the pin was configured
  as an output and set to 0 or 1, in this order, and the next fresh read of the file gives this value;
  the direction file still reports what it reported before.
\<close>

theorem gpio_value_reported:
  assumes "device_files t p = Some (webos_gpio_ops B, Some (Gpio_Def i WEBOS_GPIO_VALUE))" "i < length (webos_gpios d)"
    and "devfs_write \<lparr>f_node = p, f_data = Some (Gpio_File \<lparr>gf_gpio = i, gf_type = WEBOS_GPIO_VALUE, gf_read_eof = e\<rparr>)\<rparr> src t d = (ret, f', d')"
    and "0 \<le> ret" "2 \<le> n"
  shows "(\<exists>v h r r'. (v = 0 \<or> v = 1) \<and> gpio_pin_configure_dt B (spec (webos_gpios d ! i)) GPIO_OUTPUT (hardware d) = (r, h) \<and>
      gpio_pin_set_dt B (spec (webos_gpios d ! i)) v h = (r', hardware d') \<and>
      fst (devfs_read \<lparr>f_node = p, f_data = Some (Gpio_File \<lparr>gf_gpio = i, gf_type = WEBOS_GPIO_VALUE, gf_read_eof = False\<rparr>)\<rparr> n t d')
        = (2, dec_int v @ [CHR 0x0A])) \<and>
    gpio_text WEBOS_GPIO_DIRECTION (webos_gpios d' ! i) = gpio_text WEBOS_GPIO_DIRECTION (webos_gpios d ! i)"
proof -
  have ops: "n_ops (the (t p)) = webos_gpio_ops B" using gpio_class.node_ops [OF assms(1)] by blast
  have w: "write_value B i src d = (ret, d')" using assms(3,4)
    by (auto simp: devfs_write_def ops webos_gpio_ops_def webos_gpio_write_def devfs_file_data_def errno_simps split: if_splits prod.splits)
  obtain v h r r' h' where v: "value_target (hd src) = Some v"
    "gpio_pin_configure_dt B (spec (webos_gpios d ! i)) GPIO_OUTPUT (hardware d) = (r, h)" "0 \<le> r"
    "gpio_pin_set_dt B (spec (webos_gpios d ! i)) v h = (r', h')" "0 \<le> r'"
    "d' = update_gpio i (\<lambda>g. g\<lparr>value_state := v, value_set := True\<rparr>) (d\<lparr>hardware := h'\<rparr>)"
    using w assms(4) by (auto simp: write_value_def configure_pin_def set_pin_def errno_simps split: option.splits prod.splits if_splits)
  have bit: "v = 0 \<or> v = 1" using v(1) by (auto simp: value_target_def split: if_splits)
  then have text_v: "length (dec_int v) = 1" by (auto simp: dec_int_def dec_digits.simps [of 0] dec_digits.simps [of "Suc 0"])
  have g: "webos_gpios d' ! i = (webos_gpios d ! i)\<lparr>value_state := v, value_set := True\<rparr>" "hardware d' = h'"
    using v(6) assms(2) by (simp_all add: update_gpio_def)
  have "fst (devfs_read \<lparr>f_node = p, f_data = Some (Gpio_File \<lparr>gf_gpio = i, gf_type = WEBOS_GPIO_VALUE, gf_read_eof = False\<rparr>)\<rparr> n t d')
        = (2, dec_int v @ [CHR 0x0A])"
    using assms(5) text_v
    by (auto simp: devfs_read_def ops webos_gpio_ops_def webos_gpio_read_def devfs_file_data_def gpio_text_def g read_text_def)
  moreover have "gpio_text WEBOS_GPIO_DIRECTION (webos_gpios d' ! i) = gpio_text WEBOS_GPIO_DIRECTION (webos_gpios d ! i)"
    by (simp add: g gpio_text_def)
  ultimately show ?thesis using v(2,4) bit g(2) by blast
qed


section \<open>Witnesses\<close>

definition sample_devices :: "unit drivers" where
  "sample_devices = sample_led\<lparr>webos_gpios := [\<lparr>spec = \<lparr>port = 0, pin = 2\<rparr>, value_path = [], direction_path = [], value_state = 0,
     value_set = False, dir_out = False, dir_set = False\<rparr>]\<rparr>"

text \<open>A tree with the one device file /dev/x.\<close>

definition sample_tree :: "unit driver_ops \<Rightarrow> device_ptr \<Rightarrow> unit driver_tree" where
  "sample_tree ops u = [[] \<mapsto> (alloc_node DEVFS_NODE_DIR)\<lparr>n_children := [''x'']\<rparr>,
     [''x''] \<mapsto> (alloc_node DEVFS_NODE_FILE)\<lparr>n_ops := ops, n_user_data := Some u\<rparr>]"

lemma sample_tree_file: "device_files (sample_tree ops u) [''x''] = Some (ops, Some u)" "open_count (sample_tree ops u) [''x''] = 0"
  by (simp_all add: sample_tree_def device_files_def open_count_def alloc_node_def)

lemma sample_tree_find: "find_node 64 (Some ''/dev/x'') (sample_tree ops u) = Some [''x'']"
proof -
  have v: "validate_path 64 (Some ''/dev/x'') True = (0, ''/x'')" by code_simp
  have nc: "next_component ''x'' = (''x'', None)" by code_simp
  have "find_child (sample_tree ops u) [] ''x'' = Some [''x'']"
    by (simp add: find_child_def sample_tree_def c_at_def)
  then show ?thesis by (simp add: find_node_def v find_walk.simps nc)
qed

theorem driver_sessions_typed_witness:
  "\<exists>f2 d2. io_run (pin_node [''x''] (sample_tree (webos_rgbled_ops quiet_board) (Led_Dev 0))) [Write ''red'']
       \<lparr>f_node = [''x''], f_data = Some (Led_File \<lparr>lf_led = 0, lf_read_eof = False\<rparr>)\<rparr> (sample_devices\<lparr>drv_allocs := 1\<rparr>) = (f2, d2) \<and>
     f_node f2 = [''x''] \<and> (\<exists>x. f_data f2 = Some x \<and> led_mine (Led_Dev 0) x)"
proof -
  let ?B = quiet_board and ?t = "sample_tree (webos_rgbled_ops quiet_board) (Led_Dev 0)"
  let ?f = "\<lparr>f_node = [''x''], f_data = Some (Led_File \<lparr>lf_led = 0, lf_read_eof = False\<rparr>)\<rparr>"
  have open_eq: "devfs_open 64 True (Some ''/dev/x'') 0 ?t sample_devices = (0, Some ?f, pin_node [''x''] ?t, sample_devices\<lparr>drv_allocs := 1\<rparr>)"
    using led_class.node_ops [OF sample_tree_file(1)]
    by (simp add: devfs_open_def sample_tree_find webos_rgbled_ops_def webos_rgbled_open_def Let_def driver_malloc_def quiet_board_def
        devfs_file_set_data_def after_callback_def sample_devices_def sample_led_def)
  obtain f2 d2 where run: "io_run (pin_node [''x''] ?t) [Write ''red''] (the (Some ?f)) (sample_devices\<lparr>drv_allocs := 1\<rparr>) = (f2, d2)" by fastforce
  obtain ret bs f3 d3 where rd: "devfs_read f2 5 (pin_node [''x''] ?t) d2 = ((ret, bs), f3, d3)" by (metis prod_cases3 surj_pair)
  show ?thesis
    using driver_sessions_typed [OF _ sample_tree_file(1) sample_tree_find _ open_eq run rd, of ?B led_mine] run sample_tree_file(2) by auto
qed

theorem gpio_devices_registered_witness:
  "\<exists>t' d'. webos_gpio_register_devfs quiet_board (\<lambda>_ _. True) devfs_root sample_devices = (0, t', d') \<and>
     device_files t' [''gpio'', dec_digits 2, ''value''] = Some (webos_gpio_ops quiet_board, Some (Gpio_Def 0 WEBOS_GPIO_VALUE))"
proof -
  have "gpio_board_ok quiet_board sample_devices"
    by (simp add: gpio_board_ok_def gpio_pin_def quiet_board_def sample_devices_def sample_led_def)
  moreover have "\<forall>p. prefix [''gpio''] p \<longrightarrow> devfs_root p = None" by (auto simp: devfs_root_def)
  ultimately obtain t' d' where r: "webos_gpio_register_devfs quiet_board (\<lambda>_ _. True) devfs_root sample_devices = (0, t', d')"
    "\<forall>i ty. i < length (webos_gpios sample_devices) \<longrightarrow>
       device_files t' [''gpio'', dec_digits (pin (spec (webos_gpios sample_devices ! i))), gpio_file ty] = Some (webos_gpio_ops quiet_board, Some (Gpio_Def i ty))"
    using gpio_devices_registered [OF _ devfs_root_ok, of quiet_board sample_devices "\<lambda>_ _. True"] by blast
  from r(2) [rule_format, of 0 WEBOS_GPIO_VALUE] show ?thesis using r(1) by (simp add: sample_devices_def gpio_file_def)
qed

theorem gpio_value_reported_witness:
  "fst (devfs_read \<lparr>f_node = [''x''], f_data = Some (Gpio_File \<lparr>gf_gpio = 0, gf_type = WEBOS_GPIO_VALUE, gf_read_eof = False\<rparr>)\<rparr> 8
     (sample_tree (webos_gpio_ops quiet_board) (Gpio_Def 0 WEBOS_GPIO_VALUE))
     (update_gpio 0 (\<lambda>g. g\<lparr>value_state := 1, value_set := True\<rparr>) sample_devices)) \<in> {(2, dec_int 0 @ [CHR 0x0A]), (2, dec_int 1 @ [CHR 0x0A])}"
proof -
  let ?t = "sample_tree (webos_gpio_ops quiet_board) (Gpio_Def 0 WEBOS_GPIO_VALUE)"
  let ?f = "\<lparr>f_node = [''x''], f_data = Some (Gpio_File \<lparr>gf_gpio = 0, gf_type = WEBOS_GPIO_VALUE, gf_read_eof = False\<rparr>)\<rparr>"
  have w: "devfs_write ?f ''1'' ?t sample_devices = (1, ?f, update_gpio 0 (\<lambda>g. g\<lparr>value_state := 1, value_set := True\<rparr>) sample_devices)"
    using gpio_class.node_ops [OF sample_tree_file(1)]
    by (simp add: devfs_write_def webos_gpio_ops_def webos_gpio_write_def devfs_file_data_def write_value_def value_target_def configure_pin_def
        set_pin_def quiet_board_def after_callback_def sample_devices_def sample_led_def)
  have "0 < length (webos_gpios sample_devices)" by (simp add: sample_devices_def)
  from gpio_value_reported [OF sample_tree_file(1) this w, of 8] show ?thesis by auto
qed


end
