(* ===== verification/Zephyr_Http.thy ===== *)
theory Zephyr_Http
  imports Webos_Prelude
begin

text \<open>The request methods of Zephyr's HTTP library that the sources name.\<close>

datatype http_method = HTTP_DELETE | HTTP_GET | HTTP_HEAD | HTTP_POST | HTTP_PUT | HTTP_PATCH | HTTP_METHOD_END_VALUE

end
