(* ===== verification/App_Storage.thy ===== *)
theory App_Storage
  imports Zephyr_Fs C_Strings
begin

text \<open>
  app/src/services/fs/fs.c: the path policy of the device's own services, writing a whole file with the
  directories above it, and the directory layout made at start.  The file system is Zephyr's.
\<close>

section \<open>Interface\<close>

text \<open>The further calls of the file system that the services make, and the passing of time.\<close>

datatype fs_whence = FS_SEEK_SET | FS_SEEK_END

record 'f app_fs = "'f zephyr_fs" +
  fs_mkdir :: "string \<Rightarrow> 'f \<Rightarrow> int \<times> 'f"
  fs_read :: "nat \<Rightarrow> nat \<Rightarrow> 'f \<Rightarrow> int \<times> byte list \<times> 'f"
  fs_seek :: "nat \<Rightarrow> nat \<Rightarrow> fs_whence \<Rightarrow> 'f \<Rightarrow> int \<times> 'f"
  fs_tell :: "nat \<Rightarrow> 'f \<Rightarrow> int"
  fs_filep :: "nat \<Rightarrow> 'f \<Rightarrow> bool"
  fs_sleep :: "nat \<Rightarrow> 'f \<Rightarrow> 'f"

definition FS_O_RDWR :: nat where "FS_O_RDWR = FS_O_READ + FS_O_WRITE"

definition WEBOS_MOUNT_POINT :: string where "WEBOS_MOUNT_POINT = ''/STORAGE:''"

section \<open>Operations\<close>

definition webos_path_allowed :: "string \<Rightarrow> bool" where
  "webos_path_allowed path \<longleftrightarrow>
     (strncmp path (WEBOS_MOUNT_POINT @ ''/'') (length (WEBOS_MOUNT_POINT @ ''/'')) = 0 \<or> strncmp path ''/dev/'' (length ''/dev/'') = 0) \<and>
     strstr path ''..'' = None"

definition ensure_dir :: "'f app_fs \<Rightarrow> string \<Rightarrow> 'f \<Rightarrow> int \<times> 'f" where
  "ensure_dir A path f = (if fst (fs_stat A path f) = 0 then (0, f) else fs_mkdir A path f)"

text \<open>The loop of \<open>ensure_parent_dirs\<close>: the part of the path before the cursor, and the rest.\<close>

fun ensure_prefixes :: "'f app_fs \<Rightarrow> string \<Rightarrow> string \<Rightarrow> 'f \<Rightarrow> int \<times> 'f" where
  "ensure_prefixes A before [] f = (0, f)"
| "ensure_prefixes A before (c # cs) f =
     (if c = CHR ''/'' \<and> length WEBOS_MOUNT_POINT < length before then
        let (ret, f) = ensure_dir A before f in
        if ret \<noteq> 0 then (ret, f) else ensure_prefixes A (before @ [c]) cs f
      else ensure_prefixes A (before @ [c]) cs f)"

definition ensure_parent_dirs :: "'f app_fs \<Rightarrow> string \<Rightarrow> 'f \<Rightarrow> int \<times> 'f" where
  "ensure_parent_dirs A path f =
     (case split_last CHR ''/'' path of
        None \<Rightarrow> (0, f)
      | Some (parent, _) \<Rightarrow>
          if parent = [] then (0, f)
          else if 128 \<le> length parent then (- ENAMETOOLONG, f)
          else if strncmp parent WEBOS_MOUNT_POINT (length WEBOS_MOUNT_POINT) \<noteq> 0 then (- EINVAL, f)
          else
            let (ret, f) = ensure_prefixes A (take (length WEBOS_MOUNT_POINT) parent) (drop (length WEBOS_MOUNT_POINT) parent) f in
            if ret \<noteq> 0 then (ret, f) else ensure_dir A parent f)"

definition write_file_bin :: "'f app_fs \<Rightarrow> string \<Rightarrow> byte list \<Rightarrow> 'f \<Rightarrow> int \<times> 'f" where
  "write_file_bin A path data f =
     (if \<not> webos_path_allowed path then (- EINVAL, f)
      else
        let device = strncmp path ''/dev/'' (length ''/dev/'') = 0;
            flags = FS_O_CREATE + FS_O_RDWR + (if device then 0 else FS_O_TRUNC);
            (ret, f) = (if device then (0, f) else ensure_parent_dirs A path f)
        in if ret \<noteq> 0 then (ret, f)
           else let (ret, file_obj, f) = fs_open A path flags f in
             if ret \<noteq> 0 then (ret, f)
             else let (ret, f) = fs_write A file_obj data f;
                      ret = (if 0 \<le> ret \<and> ret \<noteq> int (length data) then - EIO else ret);
                      (close_ret, f) = fs_close A file_obj f
                  in (if ret < 0 then ret else close_ret, f))"

definition write_file :: "'f app_fs \<Rightarrow> string \<Rightarrow> string \<Rightarrow> 'f \<Rightarrow> int \<times> 'f" where
  "write_file A path data f = write_file_bin A path data f"

definition layout_directories :: "string list" where
  "layout_directories = map (\<lambda>d. WEBOS_MOUNT_POINT @ d) [''/apps'', ''/config'', ''/logs'', ''/ota'', ''/www'']"

text \<open>Up to n further attempts to find the mount point, half a second apart.\<close>

fun wait_mounted :: "'f app_fs \<Rightarrow> nat \<Rightarrow> int \<Rightarrow> 'f \<Rightarrow> int \<times> 'f" where
  "wait_mounted A 0 ret f = (ret, f)"
| "wait_mounted A (Suc n) ret f =
     (let ret = fst (fs_stat A WEBOS_MOUNT_POINT f) in
      if ret = 0 then (0, f) else wait_mounted A n ret (fs_sleep A 500 f))"

fun ensure_all :: "'f app_fs \<Rightarrow> string list \<Rightarrow> int \<Rightarrow> 'f \<Rightarrow> int \<times> 'f" where
  "ensure_all A [] first_error f = (first_error, f)"
| "ensure_all A (d # ds) first_error f =
     (let (ret, f) = ensure_dir A d f in ensure_all A ds (if ret \<noteq> 0 \<and> first_error = 0 then ret else first_error) f)"

definition init_filesystem_layout :: "'f app_fs \<Rightarrow> 'f \<Rightarrow> int \<times> 'f" where
  "init_filesystem_layout A f =
     (let (ret, f) = wait_mounted A 20 (- ENODEV) f in
      if ret \<noteq> 0 then (ret, f) else ensure_all A layout_directories 0 f)"

section \<open>Documented behaviour\<close>

text \<open>
  What the sources rely on: \<open>files\<close> are the contents of the regular files, \<open>dirs\<close> the directories and
  \<open>opened\<close> the paths of the open file objects.  A file opened with CREATE, RDWR and TRUNC starts empty.
\<close>

definition on_storage :: "'f file_view \<Rightarrow> ('f \<Rightarrow> string set) \<Rightarrow> string \<Rightarrow> 'f \<Rightarrow> bool" where
  "on_storage files dirs p f \<longleftrightarrow> files f p \<noteq> None \<or> p \<in> dirs f"

definition storage_dir_law :: "'f app_fs \<Rightarrow> 'f file_view \<Rightarrow> ('f \<Rightarrow> string set) \<Rightarrow> 'f open_view \<Rightarrow> bool" where
  "storage_dir_law A files dirs opened \<longleftrightarrow>
     (\<forall>p f. (fst (fs_stat A p f) = 0) = on_storage files dirs p f) \<and>
     (\<forall>p f ret f'. fs_mkdir A p f = (ret, f') \<longrightarrow> files f' = files f \<and> opened f' = opened f \<and>
        dirs f' = (if ret = 0 then insert p (dirs f) else dirs f))"

definition storage_open_law :: "'f app_fs \<Rightarrow> 'f file_view \<Rightarrow> ('f \<Rightarrow> string set) \<Rightarrow> 'f open_view \<Rightarrow> bool" where
  "storage_open_law A files dirs opened \<longleftrightarrow>
     (\<forall>p f ret h f'. fs_open A p (FS_O_CREATE + FS_O_RDWR + FS_O_TRUNC) f = (ret, h, f') \<longrightarrow> dirs f' = dirs f \<and>
        (if ret = 0 then files f' = (files f)(p \<mapsto> []) \<and> opened f h = None \<and> opened f' = (opened f)(h \<mapsto> p)
         else files f' = files f \<and> opened f' = opened f))"

definition storage_io_law :: "'f app_fs \<Rightarrow> 'f file_view \<Rightarrow> ('f \<Rightarrow> string set) \<Rightarrow> 'f open_view \<Rightarrow> bool" where
  "storage_io_law A files dirs opened \<longleftrightarrow>
     (\<forall>h p d bs f ret f'. opened f h = Some p \<longrightarrow> files f p = Some d \<longrightarrow> fs_write A h bs f = (ret, f') \<longrightarrow>
        dirs f' = dirs f \<and> opened f' = opened f \<and> (\<forall>q. q \<noteq> p \<longrightarrow> files f' q = files f q) \<and> files f' p \<noteq> None \<and>
        (0 \<le> ret \<longrightarrow> ret \<le> int (length bs) \<and> files f' p = Some (d @ take (nat ret) bs))) \<and>
     (\<forall>h f ret f'. fs_close A h f = (ret, f') \<longrightarrow> dirs f' = dirs f \<and> files f' = files f \<and> opened f' = (opened f)(h := None))"

definition storage_lawful :: "'f app_fs \<Rightarrow> 'f file_view \<Rightarrow> ('f \<Rightarrow> string set) \<Rightarrow> 'f open_view \<Rightarrow> bool" where
  "storage_lawful A files dirs opened \<longleftrightarrow>
     storage_dir_law A files dirs opened \<and> storage_open_law A files dirs opened \<and> storage_io_law A files dirs opened"

lemma storage_stat: "storage_lawful A files dirs opened \<Longrightarrow> (fst (fs_stat A p f) = 0) = on_storage files dirs p f"
  by (simp add: storage_lawful_def storage_dir_law_def)

lemma storage_mkdir: "storage_lawful A files dirs opened \<Longrightarrow> fs_mkdir A p f = (ret, f') \<Longrightarrow>
    files f' = files f \<and> opened f' = opened f \<and> dirs f' = (if ret = 0 then insert p (dirs f) else dirs f)"
  by (simp add: storage_lawful_def storage_dir_law_def)

lemma storage_open: "storage_lawful A files dirs opened \<Longrightarrow>
    fs_open A p (FS_O_CREATE + FS_O_RDWR + FS_O_TRUNC) f = (ret, h, f') \<Longrightarrow> dirs f' = dirs f \<and>
    (if ret = 0 then files f' = (files f)(p \<mapsto> []) \<and> opened f h = None \<and> opened f' = (opened f)(h \<mapsto> p)
     else files f' = files f \<and> opened f' = opened f)"
  unfolding storage_lawful_def storage_open_law_def by blast

lemma storage_write: "storage_lawful A files dirs opened \<Longrightarrow> opened f h = Some p \<Longrightarrow> files f p = Some d \<Longrightarrow>
    fs_write A h bs f = (ret, f') \<Longrightarrow>
    dirs f' = dirs f \<and> opened f' = opened f \<and> (\<forall>q. q \<noteq> p \<longrightarrow> files f' q = files f q) \<and> files f' p \<noteq> None \<and>
    (0 \<le> ret \<longrightarrow> ret \<le> int (length bs) \<and> files f' p = Some (d @ take (nat ret) bs))"
  unfolding storage_lawful_def storage_io_law_def by blast

lemma storage_close: "storage_lawful A files dirs opened \<Longrightarrow> fs_close A h f = (ret, f') \<Longrightarrow>
    dirs f' = dirs f \<and> files f' = files f \<and> opened f' = (opened f)(h := None)"
  unfolding storage_lawful_def storage_io_law_def by blast

text \<open>Directories are only added.\<close>

definition dirs_grow :: "'f file_view \<Rightarrow> ('f \<Rightarrow> string set) \<Rightarrow> 'f open_view \<Rightarrow> 'f \<Rightarrow> 'f \<Rightarrow> bool" where
  "dirs_grow files dirs opened f f' \<longleftrightarrow> files f' = files f \<and> opened f' = opened f \<and> dirs f \<subseteq> dirs f'"

lemma dirs_grow_trans: "dirs_grow files dirs opened f g \<Longrightarrow> dirs_grow files dirs opened g h \<Longrightarrow> dirs_grow files dirs opened f h"
  by (auto simp: dirs_grow_def)

lemma dirs_grow_there: "dirs_grow files dirs opened f g \<Longrightarrow> on_storage files dirs p f \<Longrightarrow> on_storage files dirs p g"
  by (auto simp: dirs_grow_def on_storage_def)

lemma ensure_dir_there:
  assumes law: "storage_lawful A files dirs opened" and "ensure_dir A p f = (ret, f')"
  shows "dirs_grow files dirs opened f f' \<and> (ret = 0 \<longrightarrow> on_storage files dirs p f')"
  using assms(2) storage_stat [OF law, of p f] storage_mkdir [OF law, of p f]
  by (auto simp: ensure_dir_def dirs_grow_def on_storage_def split: if_splits)

lemma ensure_prefixes_there:
  assumes law: "storage_lawful A files dirs opened"
  shows "ensure_prefixes A before rest f = (ret, f') \<Longrightarrow> dirs_grow files dirs opened f f' \<and>
    (ret = 0 \<longrightarrow> (\<forall>i. length before \<le> i \<and> length WEBOS_MOUNT_POINT < i \<and> i < length (before @ rest) \<and> (before @ rest) ! i = CHR ''/'' \<longrightarrow>
       on_storage files dirs (take i (before @ rest)) f'))"
proof (induction rest arbitrary: before f)
  case (Cons c cs)
  define slash where "slash \<longleftrightarrow> c = CHR ''/'' \<and> length WEBOS_MOUNT_POINT < length before"
  obtain r f1 where e: "(if slash then ensure_dir A before f else (0, f)) = (r, f1)" by fastforce
  have d: "dirs_grow files dirs opened f f1 \<and> (r = 0 \<and> slash \<longrightarrow> on_storage files dirs before f1)"
  proof (cases slash)
    case True
    then show ?thesis using ensure_dir_there [OF law, of before f r f1] e by simp
  qed (use e in \<open>simp add: dirs_grow_def\<close>)
  have step: "(ret, f') = (if r \<noteq> 0 then (r, f1) else ensure_prefixes A (before @ [c]) cs f1)"
    using Cons.prems e by (cases slash) (simp_all add: slash_def [symmetric])
  show ?case
  proof (cases "r = 0")
    case True
    then have "ensure_prefixes A (before @ [c]) cs f1 = (ret, f')" using step by simp
    note IH = Cons.IH [OF this]
    have first: "on_storage files dirs before f'" if slash
      using dirs_grow_there [of files dirs opened f1 f' before] d True that IH by simp
    have "on_storage files dirs (take i (before @ c # cs)) f'"
      if "ret = 0" "length before \<le> i" "length WEBOS_MOUNT_POINT < i" "i < length (before @ c # cs)" "(before @ c # cs) ! i = CHR ''/''" for i
    proof (cases "i = length before")
      case True
      then show ?thesis using first that by (simp add: slash_def)
    next
      case False
      then show ?thesis using conjunct2 [OF IH, rule_format, of i] that by simp
    qed
    then show ?thesis using IH dirs_grow_trans [OF conjunct1 [OF d]] by blast
  next
    case False
    then show ?thesis using step d by simp
  qed
qed (auto simp: dirs_grow_def)

lemma ensure_parent_dirs_there:
  assumes law: "storage_lawful A files dirs opened" and nul: "no_nul path" and mount: "prefix (WEBOS_MOUNT_POINT @ ''/'') path"
    and e: "ensure_parent_dirs A path f = (ret, f')"
  shows "dirs_grow files dirs opened f f' \<and>
    (ret = 0 \<longrightarrow> (\<forall>i. length WEBOS_MOUNT_POINT < i \<and> i < length path \<and> path ! i = CHR ''/'' \<longrightarrow> on_storage files dirs (take i path) f'))"
proof -
  let ?m = "length WEBOS_MOUNT_POINT"
  obtain rest where rest: "path = WEBOS_MOUNT_POINT @ ''/'' @ rest" using mount by (auto simp: prefix_def)
  obtain parent name where p: "split_last CHR ''/'' path = Some (parent, name)"
    using split_last_None [of "CHR ''/''" path] rest by (cases "split_last CHR ''/'' path") auto
  note sp = split_last_Some [OF p]
  have path: "path = parent @ CHR ''/'' # name" "CHR ''/'' \<notin> set name" using sp by simp_all
  have len: "?m \<le> length parent"
  proof (rule ccontr)
    assume short: "\<not> ?m \<le> length parent"
    have "path ! ?m = CHR ''/''" using rest by simp
    then have "name ! (?m - length parent - 1) = CHR ''/''" using short path(1) by (simp add: nth_append)
    moreover have "length path = length parent + Suc (length name)" by (simp add: path(1))
    moreover have "?m < length path" by (simp add: rest)
    ultimately have "name ! (?m - length parent - 1) = CHR ''/''" "?m - length parent - 1 < length name" using short by (blast, linarith)
    then show False using path(2) nth_mem [of "?m - length parent - 1" name] by simp
  qed
  have "take ?m path = WEBOS_MOUNT_POINT" by (simp add: rest)
  then have pre: "take ?m parent = WEBOS_MOUNT_POINT" using len by (simp add: path(1))
  then have split: "WEBOS_MOUNT_POINT @ drop ?m parent = parent" using append_take_drop_id [of ?m parent] by simp
  have "no_nul parent" using nul by (simp add: no_nul_def path(1))
  moreover have "no_nul WEBOS_MOUNT_POINT" by (simp add: no_nul_def WEBOS_MOUNT_POINT_def)
  ultimately have cmp: "strncmp parent WEBOS_MOUNT_POINT ?m = 0" using split by (simp add: strncmp_prefix prefix_def) metis
  obtain r f1 where pf: "ensure_prefixes A WEBOS_MOUNT_POINT (drop ?m parent) f = (r, f1)" by fastforce
  note d1 = ensure_prefixes_there [OF law pf, unfolded split]
  have ne: "parent \<noteq> []" using len by (auto simp: WEBOS_MOUNT_POINT_def)
  have eq: "(ret, f') = (if 128 \<le> length parent then (- ENAMETOOLONG, f) else if r \<noteq> 0 then (r, f1) else ensure_dir A parent f1)"
    using e p ne cmp pf by (simp add: ensure_parent_dirs_def pre split: if_splits)
  show ?thesis
  proof (cases "128 \<le> length parent \<or> r \<noteq> 0")
    case True
    then show ?thesis using eq d1 by (auto simp: dirs_grow_def errno_simps split: if_splits)
  next
    case False
    then have "ensure_dir A parent f1 = (ret, f')" using eq by simp
    note d2 = ensure_dir_there [OF law this]
    have "on_storage files dirs (take i path) f'" if "ret = 0" "?m < i" "i < length path" "path ! i = CHR ''/''" for i
    proof (cases "i < length parent")
      case True
      then have "on_storage files dirs (take i path) f1" using d1 False that path(1) by (simp add: nth_append)
      then show ?thesis using d2 dirs_grow_there [of files dirs opened f1 f' "take i path"] by simp
    next
      case F: False
      have "i = length parent"
      proof (rule ccontr)
        assume "i \<noteq> length parent"
        then have "name ! (i - length parent - 1) = CHR ''/''" "i - length parent - 1 < length name"
          using F that path(1) by (auto simp: nth_append)
        then show False using path(2) nth_mem [of "i - length parent - 1" name] by simp
      qed
      then show ?thesis using d2 that(1) path(1) by simp
    qed
    then show ?thesis using d1 d2 dirs_grow_trans [of files dirs opened f f1 f'] by simp
  qed
qed

lemma mount_not_dev: "prefix (WEBOS_MOUNT_POINT @ ''/'') path \<Longrightarrow> strncmp path ''/dev/'' (length ''/dev/'') \<noteq> 0"
  by (auto simp: prefix_def WEBOS_MOUNT_POINT_def)


section \<open>A storage in memory\<close>

text \<open>The files, the directories, and the file objects with the number of the next one.\<close>

type_synonym memstore = "(string \<rightharpoonup> byte list) \<times> string list \<times> (nat \<times> string) list"

definition store_next :: "(nat \<times> string) list \<Rightarrow> nat" where
  "store_next ob = Suc (foldr max (map fst ob) 0)"

definition memstore :: "memstore app_fs" where
  "memstore =
     \<lparr>fs_stat = (\<lambda>p (m, ds, ob). if m p \<noteq> None then (0, \<lparr>entry_type = FS_DIR_ENTRY_FILE, entry_size = length (the (m p))\<rparr>)
        else if p \<in> set ds then (0, \<lparr>entry_type = FS_DIR_ENTRY_DIR, entry_size = 0\<rparr>)
        else (- ENOENT, \<lparr>entry_type = FS_DIR_ENTRY_FILE, entry_size = 0\<rparr>)),
      fs_open = (\<lambda>p flags (m, ds, ob). (0, store_next ob, m(p \<mapsto> []), ds, (store_next ob, p) # ob)),
      fs_write = (\<lambda>h bs (m, ds, ob). case map_of ob h of
          None \<Rightarrow> (- EINVAL, m, ds, ob)
        | Some p \<Rightarrow> (int (length bs), m(p \<mapsto> (case m p of None \<Rightarrow> [] | Some d \<Rightarrow> d) @ bs), ds, ob)),
      fs_close = (\<lambda>h (m, ds, ob). (0, m, ds, filter (\<lambda>x. fst x \<noteq> h) ob)),
      fs_unlink = (\<lambda>p (m, ds, ob). (0, m(p := None), ds, ob)),
      fs_rename = (\<lambda>p q (m, ds, ob). (0, m(q := m p, p := None), ds, ob)),
      fs_mkdir = (\<lambda>p (m, ds, ob). (0, m, p # ds, ob)),
      fs_read = (\<lambda>h n (m, ds, ob). case map_of ob h of
          None \<Rightarrow> (- EINVAL, [], m, ds, ob)
        | Some p \<Rightarrow> (let d = take n (case m p of None \<Rightarrow> [] | Some d \<Rightarrow> d) in (int (length d), d, m, ds, ob))),
      fs_seek = (\<lambda>h n w f. (0, f)), fs_tell = (\<lambda>h f. 0), fs_filep = (\<lambda>h (m, ds, ob). map_of ob h \<noteq> None), fs_sleep = (\<lambda>n f. f)\<rparr>"

lemma store_next_fresh: "map_of ob (store_next ob) = None"
proof -
  have le: "n \<in> set ns \<Longrightarrow> n \<le> foldr max ns (0 :: nat)" for n ns by (induction ns) auto
  have "n \<noteq> store_next ob" if "n \<in> fst ` set ob" for n using le [of n "map fst ob"] that by (auto simp: store_next_def)
  then show ?thesis by (auto simp: map_of_eq_None_iff)
qed

lemma map_of_filter_key: "map_of (filter (\<lambda>x. fst x \<noteq> h) l) = (map_of l)(h := None)"
  by (induction l) auto

lemma memstore_lawful: "storage_lawful memstore fst (\<lambda>f. set (fst (snd f))) (\<lambda>f. map_of (snd (snd f)))"
proof -
  have "storage_dir_law memstore fst (\<lambda>f. set (fst (snd f))) (\<lambda>f. map_of (snd (snd f)))"
    by (auto simp: storage_dir_law_def memstore_def on_storage_def errno_simps)
  moreover have "storage_open_law memstore fst (\<lambda>f. set (fst (snd f))) (\<lambda>f. map_of (snd (snd f)))"
    by (auto simp: storage_open_law_def memstore_def store_next_fresh)
  moreover have "storage_io_law memstore fst (\<lambda>f. set (fst (snd f))) (\<lambda>f. map_of (snd (snd f)))"
    by (auto simp: storage_io_law_def memstore_def map_of_filter_key)
  ultimately show ?thesis by (simp add: storage_lawful_def)
qed


end
