(* ===== verification/Json.thy ===== *)
theory Json
  imports C_Strings
begin

text \<open>
  app/src/utils/json/json.c: the lookup of a string member in a request body, and the escaping of
  text for a response.  A write of one byte is a copy of length one, so that a write past the end
  of a buffer shows in its length.
\<close>

section \<open>Reading a member\<close>

definition JSON_PATTERN_CAPACITY :: nat where "JSON_PATTERN_CAPACITY = 32"

definition json_quoted :: "string \<Rightarrow> string" where
  "json_quoted key = CHR 0x22 # key @ [CHR 0x22]"

definition json_has_key :: "string \<Rightarrow> string \<Rightarrow> bool" where
  "json_has_key json key =
     (let (pattern, ret) = snprintk JSON_PATTERN_CAPACITY (json_quoted key)
      in if int JSON_PATTERN_CAPACITY \<le> ret then False else strstr json pattern \<noteq> None)"

definition json_skip_blanks :: "string \<Rightarrow> string" where
  "json_skip_blanks p = dropWhile (\<lambda>c. c = CHR '' '' \<or> c = CHR 0x09 \<or> c = CHR 0x0D \<or> c = CHR 0x0A) p"

definition json_unescape :: "byte \<Rightarrow> byte" where
  "json_unescape c =
     (if c = CHR ''n'' then CHR 0x0A else if c = CHR ''r'' then CHR 0x0D else if c = CHR ''t'' then CHR 0x09 else c)"

text \<open>The copying loop: from the character after the opening quote on, with \<open>i\<close> bytes written.\<close>

fun json_copy :: "nat \<Rightarrow> string \<Rightarrow> nat \<Rightarrow> byte list \<Rightarrow> int \<times> byte list" where
  "json_copy out_len [] i out = (- EINVAL, out)"
| "json_copy out_len (c # p) i out =
     (if c = CHR 0x22 then (0, memcpy out i [NUL])
      else if out_len \<le> i + 1 then (- ENOMEM, out)
      else if c = CHR 0x5C then
        case p of
          [] \<Rightarrow> (- EINVAL, out)
        | d # p \<Rightarrow> json_copy out_len p (i + 1) (memcpy out i [json_unescape d])
      else json_copy out_len p (i + 1) (memcpy out i [c]))"

definition json_get_string :: "string \<Rightarrow> string \<Rightarrow> byte list \<Rightarrow> nat \<Rightarrow> int \<times> byte list" where
  "json_get_string json key out out_len =
     (let (pattern, ret) = snprintk JSON_PATTERN_CAPACITY (json_quoted key) in
      if int JSON_PATTERN_CAPACITY \<le> ret then (- EINVAL, out)
      else case strstr json pattern of
        None \<Rightarrow> (- ENOENT, out)
      | Some q \<Rightarrow>
          let p = json_skip_blanks (drop (length pattern) q) in
          if c_at p 0 \<noteq> CHR '':'' then (- EINVAL, out)
          else let p = json_skip_blanks (drop 1 p) in
            if c_at p 0 \<noteq> CHR 0x22 then (- EINVAL, out)
            else json_copy out_len (drop 1 p) 0 out)"

section \<open>Escaping\<close>

text \<open>The letter of a two-character escape, and the six-character form of a control character.\<close>

definition short_escape :: "byte \<Rightarrow> byte option" where
  "short_escape c =
     (if c = CHR 0x5C \<or> c = CHR 0x22 then Some c
      else if c = CHR 0x0A then Some CHR ''n''
      else if c = CHR 0x0D then Some CHR ''r''
      else if c = CHR 0x09 then Some CHR ''t''
      else None)"

definition unicode_escape :: "byte \<Rightarrow> string" where
  "unicode_escape c = CHR 0x5C # ''u00'' @ [hex_digit (byte_val c div 16), hex_digit (byte_val c mod 16)]"

fun append_json_loop :: "nat \<Rightarrow> byte list \<Rightarrow> nat \<Rightarrow> byte list \<Rightarrow> nat \<times> byte list" where
  "append_json_loop dst_len [] pos dst = (pos, memcpy dst pos [NUL])"
| "append_json_loop dst_len (c # cs) pos dst =
     (if dst_len \<le> pos + 1 then (pos, memcpy dst pos [NUL])
      else case short_escape c of
        Some e \<Rightarrow>
          if dst_len \<le> pos + 2 then (pos, dst)
          else append_json_loop dst_len cs (pos + 2) (memcpy dst pos [CHR 0x5C, e])
      | None \<Rightarrow>
          if byte_val c < byte_val CHR '' '' then
            if dst_len \<le> pos + 6 then (pos, dst)
            else let (chars, ret) = snprintk (dst_len - pos) (unicode_escape c)
                 in if ret < 0 \<or> dst_len - pos \<le> nat ret then (pos, dst)
                    else append_json_loop dst_len cs (pos + nat ret) (memcpy dst pos (chars @ [NUL]))
          else append_json_loop dst_len cs (pos + 1) (memcpy dst pos [c]))"

definition append_json_string :: "byte list \<Rightarrow> nat \<Rightarrow> byte list \<Rightarrow> nat \<Rightarrow> nat \<times> byte list" where
  "append_json_string dst dst_len src src_len = append_json_loop dst_len (take src_len src) 0 dst"

section \<open>What is written\<close>

text \<open>The escape sequence of a byte, as a JSON string needs it.\<close>

definition json_escape :: "byte \<Rightarrow> string" where
  "json_escape c =
     (case short_escape c of
        Some e \<Rightarrow> [CHR 0x5C, e]
      | None \<Rightarrow> if byte_val c < 32 then unicode_escape c else [c])"

definition json_encode :: "byte list \<Rightarrow> string" where
  "json_encode src = concat (map json_escape src)"

lemma json_encode_simps [simp]: "json_encode [] = []" "json_encode (c # cs) = json_escape c @ json_encode cs"
  by (simp_all add: json_encode_def)

lemma length_json_escape: "1 \<le> length (json_escape c)" "length (json_escape c) \<le> 6"
  by (simp_all add: json_escape_def unicode_escape_def split: option.splits)

text \<open>One pass of the loop copies the whole escape sequence or stops before it.\<close>

lemma append_json_loop_step:
  "append_json_loop dst_len (c # cs) pos dst =
     (if dst_len \<le> pos + 1 then (pos, memcpy dst pos [NUL])
      else if dst_len \<le> pos + length (json_escape c) then (pos, dst)
      else append_json_loop dst_len cs (pos + length (json_escape c))
        (memcpy dst pos (if length (json_escape c) = 6 then json_escape c @ [NUL] else json_escape c)))"
  by (auto simp: json_escape_def snprintk_def unicode_escape_def split: option.splits)

lemma take_memcpy_ext: "pos \<le> length dst \<Longrightarrow> take (pos + length e) (memcpy dst pos (e @ x)) = take pos dst @ e"
  by (simp add: memcpy_def)

lemma append_json_loop_spec:
  assumes "append_json_loop dst_len src pos dst = (pos', dst')" "length dst = dst_len" "pos < dst_len"
  shows "\<exists>k\<le>length src. take pos' dst' = take pos dst @ json_encode (take k src) \<and>
    pos' = pos + length (json_encode (take k src)) \<and> pos' < dst_len \<and> length dst' = dst_len \<and>
    (pos + length (json_encode src) < dst_len \<longrightarrow> k = length src \<and> dst' ! pos' = NUL)"
  using assms
proof (induction src arbitrary: pos dst)
  case Nil
  then show ?case by (auto simp: memcpy_def nth_append)
next
  case (Cons c cs)
  define e where "e = json_escape c"
  have e: "1 \<le> length e" using length_json_escape(1) by (simp add: e_def)
  consider (full) "dst_len \<le> pos + 1" | (cut) "\<not> dst_len \<le> pos + 1" "dst_len \<le> pos + length e"
    | (room) "\<not> dst_len \<le> pos + length e" using e by linarith
  then show ?case
  proof cases
    case full
    then show ?thesis using Cons.prems e
      by (intro exI [of _ 0]) (auto simp: append_json_loop_step e_def [symmetric] memcpy_def simp del: append_json_loop.simps)
  next
    case cut
    then show ?thesis using Cons.prems
      by (intro exI [of _ 0]) (auto simp: append_json_loop_step e_def [symmetric] simp del: append_json_loop.simps)
  next
    case room
    define x :: "byte list" where "x = (if length e = 6 then [NUL] else [])"
    define d where "d = memcpy dst pos (e @ x)"
    have x: "length x \<le> 1" by (simp add: x_def)
    have loop: "append_json_loop dst_len cs (pos + length e) d = (pos', dst')"
      using Cons.prems(1) room e by (auto simp: append_json_loop_step e_def [symmetric] d_def x_def simp del: append_json_loop.simps)
    have d: "length d = dst_len" "take (pos + length e) d = take pos dst @ e"
      using Cons.prems room x by (simp_all add: d_def take_memcpy_ext)
    obtain k where k: "k \<le> length cs" "take pos' dst' = take (pos + length e) d @ json_encode (take k cs)"
      "pos' = pos + length e + length (json_encode (take k cs))" "pos' < dst_len" "length dst' = dst_len"
      "pos + length e + length (json_encode cs) < dst_len \<longrightarrow> k = length cs \<and> dst' ! pos' = NUL"
      using Cons.IH [OF loop d(1)] room by auto
    show ?thesis
      using k d(2) by (intro exI [of _ "Suc k"]) (auto simp: e_def [symmetric])
  qed
qed



section \<open>Round trip\<close>

text \<open>The characters that \<open>json_get_string\<close> reads back: it does not decode the six-character form.\<close>

definition json_plain :: "byte \<Rightarrow> bool" where
  "json_plain c \<longleftrightarrow> short_escape c \<noteq> None \<or> 32 \<le> byte_val c"

lemma json_copy_escape:
  assumes "json_plain c" "i + 1 < n"
  shows "json_copy n (json_escape c @ p) i out = json_copy n p (i + 1) (memcpy out i [c])"
  using assms by (auto simp: json_escape_def json_plain_def short_escape_def json_unescape_def)

lemma json_copy_encode:
  assumes "list_all json_plain s" "i + length s < n" "length out = n"
  shows "\<exists>out'. json_copy n (json_encode s @ CHR 0x22 # rest) i out = (0, out') \<and> length out' = n \<and>
    take (i + length s + 1) out' = take i out @ s @ [NUL]"
  using assms
proof (induction s arbitrary: i out)
  case Nil
  then show ?case by (auto simp: memcpy_def)
next
  case (Cons c s)
  obtain out' where "json_copy n (json_encode s @ CHR 0x22 # rest) (i + 1) (memcpy out i [c]) = (0, out')" "length out' = n"
    "take (i + 1 + length s + 1) out' = take (i + 1) (memcpy out i [c]) @ s @ [NUL]"
    using Cons.IH [of "i + 1" "memcpy out i [c]"] Cons.prems by auto
  then show ?case using Cons.prems json_copy_escape [of c i n "json_encode s @ CHR 0x22 # rest" out]
    by (auto simp: memcpy_def)
qed

lemma strstr_prefix: "s \<noteq> [] \<Longrightarrow> prefix needle s \<Longrightarrow> strstr s needle = Some s"
  by (cases s) auto



end
