(* ===== verification/Ota.thy ===== *)
theory Ota
  imports Webos_Prelude
begin

text \<open>
  app/src/services/ota/ota.c: the upload of a firmware image.  The image writer and the boot loader are
  Zephyr's and MCUboot's: a record of the calls on a state \<open>'i\<close>.  The mutex is held for the whole of
  every operation, so it is left out; the delayed reboot is a flag.
\<close>

section \<open>State\<close>

record 'i flash_api =
  flash_img_init :: "'i \<Rightarrow> int \<times> 'i"
  flash_img_buffered_write :: "byte list \<Rightarrow> bool \<Rightarrow> 'i \<Rightarrow> int \<times> 'i"
  flash_img_bytes_written :: "'i \<Rightarrow> nat"
  boot_request_upgrade :: "'i \<Rightarrow> int \<times> 'i"

record 'i ota_state =
  ota_flash_ctx :: 'i
  ota_active :: bool
  ota_reboot_work :: bool

definition WEBOS_OTA_REBOOT_DELAY_MS :: nat where "WEBOS_OTA_REBOOT_DELAY_MS = 2000"

section \<open>Operations\<close>

definition ota_init :: "'i ota_state \<Rightarrow> 'i ota_state" where
  "ota_init s = s\<lparr>ota_reboot_work := False\<rparr>"

definition ota_begin :: "'i flash_api \<Rightarrow> 'i ota_state \<Rightarrow> int \<times> 'i ota_state" where
  "ota_begin G s =
     (if ota_active s then (0, s)
      else let (ret, i) = flash_img_init G (ota_flash_ctx s); s = s\<lparr>ota_flash_ctx := i\<rparr> in
        if ret \<noteq> 0 then (ret, s) else (0, s\<lparr>ota_active := True\<rparr>))"

definition ota_write :: "'i flash_api \<Rightarrow> byte list \<Rightarrow> bool \<Rightarrow> 'i ota_state \<Rightarrow> int \<times> 'i ota_state" where
  "ota_write G data fin s =
     (if data = [] then (0, s)
      else if \<not> ota_active s then (- ECANCELED, s)
      else let (ret, i) = flash_img_buffered_write G data fin (ota_flash_ctx s) in (ret, s\<lparr>ota_flash_ctx := i\<rparr>))"

text \<open>The result is the return code and \<open>*written\<close>.\<close>

definition ota_finish :: "'i flash_api \<Rightarrow> 'i ota_state \<Rightarrow> (int \<times> nat) \<times> 'i ota_state" where
  "ota_finish G s =
     (let written = flash_img_bytes_written G (ota_flash_ctx s);
          s = s\<lparr>ota_active := False\<rparr>;
          (ret, i) = boot_request_upgrade G (ota_flash_ctx s);
          s = s\<lparr>ota_flash_ctx := i\<rparr>
      in ((ret, written), if ret = 0 then s\<lparr>ota_reboot_work := True\<rparr> else s))"

text \<open>The handler of the delayed work, over Zephyr's \<open>sys_reboot\<close>.\<close>

definition ota_reboot_handler :: "('m \<Rightarrow> 'm) \<Rightarrow> 'm \<Rightarrow> 'm" where
  "ota_reboot_handler sys_reboot m = sys_reboot m"

definition ota_abort :: "'i ota_state \<Rightarrow> 'i ota_state" where
  "ota_abort s = s\<lparr>ota_active := False\<rparr>"

section \<open>Documented behaviour\<close>

text \<open>
  What the sources rely on in the image writer, seen through the bytes in flash, the bytes still
  buffered and whether an upgrade was requested: initialisation starts an empty image, a write appends
  to the image, and the bytes are all in flash after a write that flushes.
\<close>

definition flash_lawful ::
    "'i flash_api \<Rightarrow> ('i \<Rightarrow> byte list) \<Rightarrow> ('i \<Rightarrow> byte list) \<Rightarrow> ('i \<Rightarrow> bool) \<Rightarrow> bool" where
  "flash_lawful G flashed buffered pending \<longleftrightarrow>
     (\<forall>i i'. flash_img_init G i = (0, i') \<longrightarrow> flashed i' = [] \<and> buffered i' = [] \<and> pending i' = pending i) \<and>
     (\<forall>i ret i'. flash_img_init G i = (ret, i') \<longrightarrow> pending i' = pending i) \<and>
     (\<forall>data fin i ret i'. flash_img_buffered_write G data fin i = (ret, i') \<longrightarrow> pending i' = pending i \<and>
        (ret = 0 \<longrightarrow> flashed i' @ buffered i' = flashed i @ buffered i @ data \<and> (fin \<longrightarrow> buffered i' = []))) \<and>
     (\<forall>i. flash_img_bytes_written G i = length (flashed i)) \<and>
     (\<forall>i ret i'. boot_request_upgrade G i = (ret, i') \<longrightarrow> flashed i' = flashed i \<and> buffered i' = buffered i \<and>
        pending i' = (pending i \<or> ret = 0))"

lemma flash_lawfulD:
  assumes "flash_lawful G flashed buffered pending"
  shows "flash_img_init G i = (ret, i') \<Longrightarrow> pending i' = pending i \<and> (ret = 0 \<longrightarrow> flashed i' = [] \<and> buffered i' = [])"
    "flash_img_buffered_write G data fin i = (ret, i') \<Longrightarrow> pending i' = pending i \<and>
      (ret = 0 \<longrightarrow> flashed i' @ buffered i' = flashed i @ buffered i @ data \<and> (fin \<longrightarrow> buffered i' = []))"
    "flash_img_bytes_written G i = length (flashed i)"
    "boot_request_upgrade G i = (ret, i') \<Longrightarrow> flashed i' = flashed i \<and> buffered i' = buffered i \<and> pending i' = (pending i \<or> ret = 0)"
  using assms unfolding flash_lawful_def by (metis, metis, metis, metis)

end
