(* ===== verification/App_Context.thy ===== *)
theory App_Context
  imports C_Strings
begin

text \<open>
  app/src/services/app/app_context.c: what a sandboxed application may name.  An application has a
  storage directory and lists of granted path prefixes and HTTP origins; the host checks every path
  and URL an application passes against them.  The constants are those of sdk/c/webos.h.
\<close>

unbundle bit_operations_syntax

definition WEBOS_APP_MAX_ID :: nat where "WEBOS_APP_MAX_ID = 48"
definition WEBOS_APP_MAX_GRANTS :: nat where "WEBOS_APP_MAX_GRANTS = 8"
definition WEBOS_ABI_MAX_PATH_BYTES :: nat where "WEBOS_ABI_MAX_PATH_BYTES = 255"
definition WEBOS_ABI_MAX_IO_BYTES :: u32 where "WEBOS_ABI_MAX_IO_BYTES = 65536"
definition WEBOS_ABI_MAJOR :: u32 where "WEBOS_ABI_MAJOR = 1"
definition WEBOS_ABI_MINOR :: u32 where "WEBOS_ABI_MINOR = 0"

definition WEBOS_OK :: int where [errno_simps]: "WEBOS_OK = 0"
definition WEBOS_INVALID :: int where [errno_simps]: "WEBOS_INVALID = - 1"
definition WEBOS_DENIED :: int where [errno_simps]: "WEBOS_DENIED = - 2"
definition WEBOS_NOT_FOUND :: int where [errno_simps]: "WEBOS_NOT_FOUND = - 3"
definition WEBOS_IO :: int where [errno_simps]: "WEBOS_IO = - 4"
definition WEBOS_TOO_LARGE :: int where [errno_simps]: "WEBOS_TOO_LARGE = - 5"
definition WEBOS_BUSY :: int where [errno_simps]: "WEBOS_BUSY = - 6"
definition WEBOS_UNSUPPORTED :: int where [errno_simps]: "WEBOS_UNSUPPORTED = - 7"

section \<open>State\<close>

text \<open>The two grant arrays hold pointers that may be NULL; their counts may be larger than the arrays.\<close>

record webos_app_context =
  app_id :: string
  app_version :: string
  storage_root :: string
  path_grants :: "string option list"
  path_grant_count :: nat
  http_origins :: "string option list"
  http_origin_count :: nat
  max_io_bytes :: u32
  app_ready :: bool
  ready_at_ms :: int
  heartbeat_at_ms :: int

definition app_context_zero :: webos_app_context where
  "app_context_zero =
     \<lparr>app_id = [], app_version = [], storage_root = [], path_grants = replicate WEBOS_APP_MAX_GRANTS None,
      path_grant_count = 0, http_origins = replicate WEBOS_APP_MAX_GRANTS None, http_origin_count = 0,
      max_io_bytes = 0, app_ready = False, ready_at_ms = 0, heartbeat_at_ms = 0\<rparr>"

section \<open>Checks on strings\<close>

definition valid_component :: "string option \<Rightarrow> bool" where
  "valid_component v =
     (case v of
        None \<Rightarrow> False
      | Some s \<Rightarrow>
          if s = [] \<or> WEBOS_APP_MAX_ID \<le> length s then False
          else list_all (\<lambda>c. (byte_val CHR ''a'' \<le> byte_val c \<and> byte_val c \<le> byte_val CHR ''z'') \<or>
                             (byte_val CHR ''0'' \<le> byte_val c \<and> byte_val c \<le> byte_val CHR ''9'') \<or>
                             c = CHR ''-'' \<or> c = CHR ''_'') s)"

definition prefix_boundary :: "string \<Rightarrow> string \<Rightarrow> bool" where
  "prefix_boundary v pfx =
     (let n = length pfx in
      0 < n \<and> strncmp v pfx n = 0 \<and> (c_at v n = NUL \<or> c_at v n = CHR ''/'' \<or> pfx ! (n - 1) = CHR ''/''))"

text \<open>The payload bits and the number of continuation bytes that a first byte announces.\<close>

definition utf8_lead :: "nat \<Rightarrow> (nat \<times> nat) option" where
  "utf8_lead first =
     (if 0xc2 \<le> first \<and> first \<le> 0xdf then Some (first AND 0x1f, 1)
      else if 0xe0 \<le> first \<and> first \<le> 0xef then Some (first AND 0x0f, 2)
      else if 0xf0 \<le> first \<and> first \<le> 0xf4 then Some (first AND 0x07, 3)
      else None)"

fun utf8_continue :: "nat \<Rightarrow> nat \<Rightarrow> byte list \<Rightarrow> (nat \<times> byte list) option" where
  "utf8_continue 0 codepoint bytes = Some (codepoint, bytes)"
| "utf8_continue (Suc n) codepoint [] = None"
| "utf8_continue (Suc n) codepoint (b # bytes) =
     (if byte_val b AND 0xc0 \<noteq> 0x80 then None
      else utf8_continue n (push_bit 6 codepoint OR (byte_val b AND 0x3f)) bytes)"

lemma utf8_continue_length: "utf8_continue n c bs = Some (d, rest) \<Longrightarrow> length bs = n + length rest"
  by (induction n c bs rule: utf8_continue.induct) (auto split: if_splits)

definition utf8_bad :: "nat \<Rightarrow> nat \<Rightarrow> bool" where
  "utf8_bad first codepoint \<longleftrightarrow>
     (0xd800 \<le> codepoint \<and> codepoint \<le> 0xdfff) \<or> 0x10ffff < codepoint \<or>
     (codepoint < 0x800 \<and> 0xe0 \<le> first) \<or> (codepoint < 0x10000 \<and> 0xf0 \<le> first)"

function valid_utf8 :: "byte list \<Rightarrow> bool" where
  "valid_utf8 [] = True"
| "valid_utf8 (b # bytes) =
     (if byte_val b < 0x80 then valid_utf8 bytes
      else case utf8_lead (byte_val b) of
        None \<Rightarrow> False
      | Some (bits, continuation) \<Rightarrow>
          if length bytes < continuation then False
          else case utf8_continue continuation bits bytes of
            None \<Rightarrow> False
          | Some (codepoint, rest) \<Rightarrow> if utf8_bad (byte_val b) codepoint then False else valid_utf8 rest)"
  by pat_completeness auto
termination by (relation "measure length") (auto dest: utf8_continue_length)

text \<open>The loop over the characters of a path; \<open>start\<close> says that the character begins a component.\<close>

fun path_chars_ok :: "bool \<Rightarrow> string \<Rightarrow> bool" where
  "path_chars_ok start [] = True"
| "path_chars_ok start (c # p) =
     (if byte_val c < 0x20 \<or>
         (c = CHR ''.'' \<and> c_at p 0 = CHR ''.'' \<and> start \<and> (c_at p 1 = NUL \<or> c_at p 1 = CHR ''/'')) then False
      else path_chars_ok (c = CHR ''/'') p)"

definition valid_path :: "string option \<Rightarrow> bool" where
  "valid_path path =
     (case path of
        None \<Rightarrow> False
      | Some p \<Rightarrow>
          let n = min (length p) (WEBOS_ABI_MAX_PATH_BYTES + 1) in
          if c_at p 0 \<noteq> CHR ''/'' \<or> n = 0 \<or> WEBOS_ABI_MAX_PATH_BYTES < n \<or> c_at p (n - 1) = CHR ''/'' then False
          else if \<not> valid_utf8 (take n p) \<or> strstr p ''//'' \<noteq> None then False
          else path_chars_ok True p)"

section \<open>Operations\<close>

text \<open>The constructor; a context pointer is an optional context.\<close>

definition webos_app_context_init ::
    "webos_app_context option \<Rightarrow> string option \<Rightarrow> string option \<Rightarrow> int \<times> webos_app_context option" where
  "webos_app_context_init context ident version =
     (if context = None \<or> \<not> valid_component ident \<or> version = None \<or> version = Some [] then (WEBOS_INVALID, context)
      else
        let (root, ret) = snprintk (WEBOS_ABI_MAX_PATH_BYTES + 1) (''/STORAGE:/apps/'' @ the ident @ ''/data'');
            x = app_context_zero\<lparr>app_id := the ident, app_version := the version,
                  max_io_bytes := WEBOS_ABI_MAX_IO_BYTES, storage_root := root\<rparr>
        in (if ret < 0 \<or> WEBOS_ABI_MAX_PATH_BYTES + 1 \<le> nat ret then WEBOS_TOO_LARGE else WEBOS_OK, Some x))"

definition webos_app_path_allowed :: "webos_app_context option \<Rightarrow> string option \<Rightarrow> bool" where
  "webos_app_path_allowed context path =
     (case context of
        None \<Rightarrow> False
      | Some x \<Rightarrow>
          if \<not> valid_path path then False
          else if prefix_boundary (the path) (storage_root x) then True
          else list_ex (\<lambda>i. case path_grants x ! i of None \<Rightarrow> False | Some g \<Rightarrow> prefix_boundary (the path) g)
                 [0..<min (path_grant_count x) WEBOS_APP_MAX_GRANTS])"

definition origin_allows :: "string option \<Rightarrow> byte list \<Rightarrow> bool" where
  "origin_allows origin url =
     (case origin of
        None \<Rightarrow> False
      | Some g \<Rightarrow>
          let n = length g; url_len = length url in
          if n = 1 \<and> g ! 0 = CHR ''*'' \<and>
             ((7 < url_len \<and> take 7 url = ''http://'') \<or> (8 < url_len \<and> take 8 url = ''https://'')) then True
          else n \<noteq> 0 \<and> n \<le> url_len \<and> take n url = g \<and>
               (url_len = n \<or> url ! n = CHR ''/'' \<or> url ! n = CHR ''?'' \<or> url ! n = CHR ''#''))"

definition webos_app_url_allowed :: "webos_app_context option \<Rightarrow> byte list option \<Rightarrow> nat \<Rightarrow> bool" where
  "webos_app_url_allowed context url url_len =
     (case (context, url) of
        (Some x, Some u) \<Rightarrow>
          if url_len = 0 \<or> NUL \<in> set (take url_len u) then False
          else list_ex (\<lambda>i. origin_allows (http_origins x ! i) (take url_len u))
                 [0..<min (http_origin_count x) WEBOS_APP_MAX_GRANTS]
      | _ \<Rightarrow> False)"

definition webos_abi_validate_buffer ::
    "webos_app_context option \<Rightarrow> 'p option \<Rightarrow> u32 \<Rightarrow> ('p \<Rightarrow> u32 \<Rightarrow> bool) option \<Rightarrow> int" where
  "webos_abi_validate_buffer context data len validator =
     (case (context, validator) of
        (Some x, Some v) \<Rightarrow>
          if max_io_bytes x < len then WEBOS_TOO_LARGE
          else if len = 0 then WEBOS_OK
          else case data of None \<Rightarrow> WEBOS_INVALID | Some p \<Rightarrow> if v p len then WEBOS_OK else WEBOS_INVALID
      | _ \<Rightarrow> WEBOS_INVALID)"

definition webos_abi_check_version :: "u32 \<Rightarrow> int" where
  "webos_abi_check_version requested =
     (let major = drop_bit 16 requested; minor = requested AND 0xffff
      in if major = WEBOS_ABI_MAJOR \<and> minor \<le> WEBOS_ABI_MINOR then WEBOS_OK else WEBOS_UNSUPPORTED)"

definition webos_abi_map_errno :: "int \<Rightarrow> int" where
  "webos_abi_map_errno err =
     (if 0 \<le> err then err
      else if - err = EINVAL \<or> - err = EFAULT \<or> - err = ENAMETOOLONG then WEBOS_INVALID
      else if - err = EACCES \<or> - err = EPERM then WEBOS_DENIED
      else if - err = ENOENT then WEBOS_NOT_FOUND
      else if - err = EFBIG \<or> - err = ENOSPC then WEBOS_TOO_LARGE
      else if - err = EBUSY \<or> - err = EAGAIN then WEBOS_BUSY
      else if - err = ENOTSUP then WEBOS_UNSUPPORTED
      else WEBOS_IO)"

definition webos_app_mark_ready :: "webos_app_context option \<Rightarrow> int \<Rightarrow> webos_app_context option" where
  "webos_app_mark_ready context now_ms = map_option (\<lambda>x. x\<lparr>app_ready := True, ready_at_ms := now_ms\<rparr>) context"

definition webos_app_mark_heartbeat :: "webos_app_context option \<Rightarrow> int \<Rightarrow> webos_app_context option" where
  "webos_app_mark_heartbeat context now_ms = map_option (\<lambda>x. x\<lparr>heartbeat_at_ms := now_ms\<rparr>) context"

section \<open>UTF-8\<close>

text \<open>The encoding of a Unicode scalar value, as the standard defines it.\<close>

definition scalar_value :: "nat \<Rightarrow> bool" where
  "scalar_value cp \<longleftrightarrow> cp < 0xd800 \<or> 0xdfff < cp \<and> cp \<le> 0x10ffff"

definition utf8_encode :: "nat \<Rightarrow> byte list" where
  "utf8_encode cp =
     (if cp < 0x80 then [char_of cp]
      else if cp < 0x800 then [char_of (0xc0 + cp div 64), char_of (0x80 + cp mod 64)]
      else if cp < 0x10000 then
        [char_of (0xe0 + cp div 4096), char_of (0x80 + cp div 64 mod 64), char_of (0x80 + cp mod 64)]
      else [char_of (0xf0 + cp div 262144), char_of (0x80 + cp div 4096 mod 64), char_of (0x80 + cp div 64 mod 64),
            char_of (0x80 + cp mod 64)])"

lemma and_masks:
  "(n::nat) AND 0x3f = n mod 64" "(n::nat) AND 0x1f = n mod 32" "(n::nat) AND 0x0f = n mod 16" "(n::nat) AND 0x07 = n mod 8"
  using take_bit_eq_mask [of 6 n] take_bit_eq_mask [of 5 n] take_bit_eq_mask [of 4 n] take_bit_eq_mask [of 3 n]
  by (simp_all add: take_bit_eq_mod mask_eq_exp_minus_1)

lemma shift_or: "push_bit 6 (c::nat) OR (b mod 64) = c * 64 + b mod 64"
proof -
  have "push_bit 6 c + take_bit 6 b = push_bit 6 c OR take_bit 6 b"
    by (rule disjunctive_add) (auto simp: bit_simps)
  then show ?thesis by (simp add: push_bit_eq_mult take_bit_eq_mod)
qed

lemma and_push_bit: "(n::nat) AND push_bit k m = push_bit k (drop_bit k n AND m)"
  by (rule bit_eqI) (auto simp: bit_simps)

lemma top_bits: "(n::nat) < 256 \<Longrightarrow> n AND 0xc0 = 0x80 \<longleftrightarrow> 128 \<le> n \<and> n < 192"
proof -
  have "drop_bit 6 n AND 3 = n div 64 mod 4"
    using take_bit_eq_mask [of 2 "drop_bit 6 n"] by (simp add: take_bit_eq_mod drop_bit_eq_div mask_eq_exp_minus_1)
  then have "n AND 0xc0 = 64 * (n div 64 mod 4)"
    using and_push_bit [of n 6 3] by (simp add: push_bit_eq_mult)
  moreover assume "n < 256"
  ultimately show ?thesis by auto
qed

text \<open>One continuation byte, in arithmetic.\<close>

definition is_cont :: "byte \<Rightarrow> bool" where
  "is_cont b \<longleftrightarrow> 128 \<le> byte_val b \<and> byte_val b < 192"

lemma utf8_continue_step:
  "utf8_continue (Suc n) c (b # bs) = (if is_cont b then utf8_continue n (c * 64 + (byte_val b - 128)) bs else None)"
proof -
  have "byte_val b mod 64 = byte_val b - 128" if "is_cont b"
  proof -
    define x where "x = byte_val b - 128"
    have "byte_val b = x + 2 * 64" "x < 64" using that by (auto simp: is_cont_def x_def)
    then show ?thesis using mod_mult_self1 [of x 2 64] by (simp add: x_def)
  qed
  then have "push_bit 6 c OR (byte_val b AND 0x3f) = c * 64 + (byte_val b - 128)" if "is_cont b"
    unfolding and_masks shift_or using that by simp
  then show ?thesis using top_bits [OF byte_val_less, of b] by (simp add: is_cont_def)
qed

lemma cont_char: "x < 64 \<Longrightarrow> is_cont (char_of (128 + x)) \<and> byte_val (char_of (128 + x) :: byte) = 128 + x"
  by (simp add: is_cont_def)

lemma cont_obtain:
  assumes "is_cont b" obtains x :: nat where "x < 64" "b = char_of (128 + x)"
proof
  show "byte_val b - 128 < 64" "b = char_of (128 + (byte_val b - 128))" using assms by (auto simp: is_cont_def)
qed

lemma utf8_continue_chars:
  "x < 64 \<Longrightarrow> utf8_continue (Suc n) c (char_of (128 + x) # bs) = utf8_continue n (c * 64 + x) bs"
  using cont_char [of x] by (simp add: utf8_continue_step del: utf8_continue.simps)

lemma utf8_lead_chars:
  "2 \<le> f \<Longrightarrow> f < 32 \<Longrightarrow> utf8_lead (0xc0 + f) = Some (f, 1)"
  "f < 16 \<Longrightarrow> utf8_lead (0xe0 + f) = Some (f, 2)"
  "f < 5 \<Longrightarrow> utf8_lead (0xf0 + f) = Some (f, 3)"
  by (simp_all add: utf8_lead_def and_masks mod_if)

lemma valid_utf8_multi:
  assumes "0x80 \<le> v" "v < 256" "utf8_lead v = Some (bits, n)" "utf8_continue n bits bs = Some (cp, rest)"
  shows "valid_utf8 (char_of v # bs) = (\<not> utf8_bad v cp \<and> valid_utf8 rest)"
  using assms utf8_continue_length [OF assms(4)] by simp

text \<open>The acceptance of a sequence of each length, by its payload.\<close>

lemma valid_utf8_2:
  fixes f x :: nat
  assumes "2 \<le> f" "f < 32" "x < 64"
  shows "valid_utf8 (char_of (0xc0 + f) # char_of (128 + x) # rest) = valid_utf8 rest"
proof -
  have "utf8_continue 1 f (char_of (128 + x) # rest) = Some (f * 64 + x, rest)"
    using utf8_continue_chars [OF assms(3), of 0] by simp
  from valid_utf8_multi [OF _ _ utf8_lead_chars(1) [OF assms(1,2)] this] assms show ?thesis by (simp add: utf8_bad_def)
qed

lemma valid_utf8_3:
  fixes f x y :: nat
  assumes "f < 16" "x < 64" "y < 64"
  shows "valid_utf8 (char_of (0xe0 + f) # char_of (128 + x) # char_of (128 + y) # rest) =
    (0x800 \<le> f * 4096 + x * 64 + y \<and> scalar_value (f * 4096 + x * 64 + y) \<and> valid_utf8 rest)"
proof -
  have "utf8_continue 2 f (char_of (128 + x) # char_of (128 + y) # rest) = Some ((f * 64 + x) * 64 + y, rest)"
    using assms by (simp add: utf8_continue_chars numeral_2_eq_2 del: utf8_continue.simps(3))
  from valid_utf8_multi [OF _ _ utf8_lead_chars(2) [OF assms(1)] this] assms show ?thesis
    by (auto simp: utf8_bad_def scalar_value_def algebra_simps)
qed

lemma valid_utf8_4:
  fixes f x y z :: nat
  assumes "f < 5" "x < 64" "y < 64" "z < 64"
  shows "valid_utf8 (char_of (0xf0 + f) # char_of (128 + x) # char_of (128 + y) # char_of (128 + z) # rest) =
    (0x10000 \<le> f * 262144 + x * 4096 + y * 64 + z \<and> scalar_value (f * 262144 + x * 4096 + y * 64 + z) \<and> valid_utf8 rest)"
proof -
  have "utf8_continue 3 f (char_of (128 + x) # char_of (128 + y) # char_of (128 + z) # rest) =
      Some (((f * 64 + x) * 64 + y) * 64 + z, rest)"
    using assms by (simp add: utf8_continue_chars numeral_3_eq_3 del: utf8_continue.simps(3))
  from valid_utf8_multi [OF _ _ utf8_lead_chars(3) [OF assms(1)] this] assms show ?thesis
    by (auto simp: utf8_bad_def scalar_value_def algebra_simps)
qed

lemma utf8_accepts:
  assumes "scalar_value cp"
  shows "valid_utf8 (utf8_encode cp @ rest) = valid_utf8 rest"
proof -
  have digits: "cp = cp div 64 * 64 + cp mod 64" "cp div 64 = cp div 4096 * 64 + cp div 64 mod 64"
    "cp div 4096 = cp div 262144 * 64 + cp div 4096 mod 64"
    using div_mult_mod_eq [of "cp div 64" 64] div_mult_mod_eq [of "cp div 4096" 64] by (simp_all flip: div_mult2_eq)
  consider "cp < 0x80" | "0x80 \<le> cp" "cp < 0x800" | "0x800 \<le> cp" "cp < 0x10000" | "0x10000 \<le> cp" by linarith
  then show ?thesis
  proof cases
    case 1
    then show ?thesis by (simp add: utf8_encode_def)
  next
    case 2
    then have "2 \<le> cp div 64" "cp div 64 < 32" using digits(1) by linarith+
    with 2 show ?thesis using valid_utf8_2 [of "cp div 64" "cp mod 64" rest] by (simp add: utf8_encode_def)
  next
    case 3
    then have "cp div 4096 < 16" using digits by linarith
    moreover have "cp div 4096 * 4096 + cp div 64 mod 64 * 64 + cp mod 64 = cp" using digits by linarith
    ultimately show ?thesis using 3 assms valid_utf8_3 [of "cp div 4096" "cp div 64 mod 64" "cp mod 64" rest]
      by (simp add: utf8_encode_def)
  next
    case 4
    have "cp div 262144 < 5" using assms digits by (auto simp: scalar_value_def)
    moreover have "cp div 262144 * 262144 + cp div 4096 mod 64 * 4096 + cp div 64 mod 64 * 64 + cp mod 64 = cp"
      using digits by linarith
    ultimately show ?thesis
      using 4 assms valid_utf8_4 [of "cp div 262144" "cp div 4096 mod 64" "cp div 64 mod 64" "cp mod 64" rest]
      by (simp add: utf8_encode_def)
  qed
qed

lemma utf8_lead_cases:
  assumes "utf8_lead v = Some (bits, n)"
  obtains (two) f where "v = 0xc0 + f" "2 \<le> f" "f < 32" "n = 1" | (three) f where "v = 0xe0 + f" "f < 16" "n = 2"
    | (four) f where "v = 0xf0 + f" "f < 5" "n = 3"
proof -
  have "0xc2 \<le> v \<and> v \<le> 0xdf \<and> n = 1 \<or> 0xe0 \<le> v \<and> v \<le> 0xef \<and> n = 2 \<or> 0xf0 \<le> v \<and> v \<le> 0xf4 \<and> n = 3"
    using assms by (auto simp: utf8_lead_def split: if_splits)
  then show thesis
    using two [of "v - 0xc0"] three [of "v - 0xe0"] four [of "v - 0xf0"] by auto
qed

lemma utf8_continue_Some:
  "utf8_continue n c bs = Some r \<Longrightarrow> n \<le> length bs \<and> list_all is_cont (take n bs)"
proof (induction n arbitrary: c bs)
  case (Suc n)
  then show ?case by (cases bs) (auto simp: utf8_continue_step simp del: utf8_continue.simps(3) split: if_splits)
qed simp

text \<open>A sequence with the right shape is the encoding of its payload.\<close>

lemma utf8_encode_2:
  fixes f x :: nat
  assumes "2 \<le> f" "f < 32" "x < 64"
  shows "utf8_encode (f * 64 + x) = [char_of (0xc0 + f), char_of (128 + x)]"
  using assms by (simp add: utf8_encode_def)

lemma base64_digit: "(cp :: nat) = q * 64 + r \<Longrightarrow> r < 64 \<Longrightarrow> cp div 64 = q \<and> cp mod 64 = r"
  by simp

lemma utf8_encode_3:
  fixes f x y :: nat
  assumes "f < 16" "x < 64" "y < 64" "0x800 \<le> f * 4096 + x * 64 + y"
  shows "utf8_encode (f * 4096 + x * 64 + y) = [char_of (0xe0 + f), char_of (128 + x), char_of (128 + y)]"
proof -
  define cp where "cp = f * 4096 + x * 64 + y"
  have "cp = (f * 64 + x) * 64 + y" by (simp add: cp_def)
  then have "cp div 64 = f * 64 + x" "cp mod 64 = y" using base64_digit [of cp "f * 64 + x" y] assms(3) by blast+
  moreover from this have "cp div 4096 = f" "cp div 64 mod 64 = x" using assms(2) div_mult2_eq [of cp 64 64] by simp_all
  moreover have "0x800 \<le> cp" "cp < 0x10000" using assms by (simp_all add: cp_def)
  ultimately have "utf8_encode cp = [char_of (0xe0 + f), char_of (128 + x), char_of (128 + y)]"
    by (simp add: utf8_encode_def)
  then show ?thesis by (simp add: cp_def)
qed

lemma utf8_encode_4:
  fixes f x y z :: nat
  assumes "x < 64" "y < 64" "z < 64" "0x10000 \<le> f * 262144 + x * 4096 + y * 64 + z"
  shows "utf8_encode (f * 262144 + x * 4096 + y * 64 + z) =
    [char_of (0xf0 + f), char_of (128 + x), char_of (128 + y), char_of (128 + z)]"
proof -
  define cp where "cp = f * 262144 + x * 4096 + y * 64 + z"
  have "cp = ((f * 64 + x) * 64 + y) * 64 + z" by (simp add: cp_def)
  then have "cp div 64 = (f * 64 + x) * 64 + y" "cp mod 64 = z"
    using base64_digit [of cp "(f * 64 + x) * 64 + y" z] assms(3) by blast+
  moreover from this have "cp div 4096 = f * 64 + x" "cp div 64 mod 64 = y"
    using assms(2) div_mult2_eq [of cp 64 64] base64_digit [of "cp div 64" "f * 64 + x" y] by simp_all
  moreover from this have "cp div 262144 = f" "cp div 4096 mod 64 = x"
    using assms(1) div_mult2_eq [of cp 4096 64] by simp_all
  moreover have "0x10000 \<le> cp" using assms by (simp add: cp_def)
  ultimately have "utf8_encode cp = [char_of (0xf0 + f), char_of (128 + x), char_of (128 + y), char_of (128 + z)]"
    by (simp add: utf8_encode_def)
  then show ?thesis by (simp add: cp_def)
qed

lemma cont_list:
  assumes "n \<le> length bs" "list_all is_cont (take n bs)"
  obtains xs rest :: "byte list" where "bs = xs @ rest" "length xs = n" "list_all is_cont xs"
  using assms that [of "take n bs" "drop n bs"] by simp

lemma utf8_decodes:
  assumes "valid_utf8 (b # bs)"
  shows "\<exists>cp rest. scalar_value cp \<and> b # bs = utf8_encode cp @ rest \<and> valid_utf8 rest"
proof (cases "byte_val b < 0x80")
  case True
  then show ?thesis using assms by (intro exI [of _ "byte_val b"] exI [of _ bs]) (simp add: scalar_value_def utf8_encode_def)
next
  case False
  then obtain bits n r where lead: "utf8_lead (byte_val b) = Some (bits, n)" and "utf8_continue n bits bs = Some r"
    using assms by (auto split: option.splits if_splits)
  then obtain xs rest where bs: "bs = xs @ rest" "length xs = n" "list_all is_cont xs"
    using utf8_continue_Some cont_list by metis
  have b: "char_of (byte_val b) = b" by simp
  from lead show ?thesis
  proof (cases rule: utf8_lead_cases)
    case (two f)
    then obtain c1 where c1: "xs = [c1]" "is_cont c1" using bs by (cases xs) auto
    obtain x :: nat where x: "x < 64" "c1 = char_of (128 + x)" using c1(2) by (rule cont_obtain)
    show ?thesis using assms bs c1 x b [unfolded two(1)] two(2,3) valid_utf8_2 [OF two(2,3) x(1), of rest]
      by (intro exI [of _ "f * 64 + x"] exI [of _ rest]) (auto simp: scalar_value_def utf8_encode_2)
  next
    case (three f)
    then obtain c1 c2 where c: "xs = [c1, c2]" "is_cont c1" "is_cont c2"
      using bs by (auto simp: numeral_2_eq_2 length_Suc_conv)
    obtain x :: nat where x: "x < 64" "c1 = char_of (128 + x)" using c(2) by (rule cont_obtain)
    obtain y :: nat where y: "y < 64" "c2 = char_of (128 + y)" using c(3) by (rule cont_obtain)
    show ?thesis using assms bs c x y b [unfolded three(1)] three(2) valid_utf8_3 [OF three(2) x(1) y(1), of rest]
      by (intro exI [of _ "f * 4096 + x * 64 + y"] exI [of _ rest]) (auto simp: utf8_encode_3)
  next
    case (four f)
    then obtain c1 c2 c3 where c: "xs = [c1, c2, c3]" "is_cont c1" "is_cont c2" "is_cont c3"
      using bs by (auto simp: numeral_3_eq_3 length_Suc_conv)
    obtain x :: nat where x: "x < 64" "c1 = char_of (128 + x)" using c(2) by (rule cont_obtain)
    obtain y :: nat where y: "y < 64" "c2 = char_of (128 + y)" using c(3) by (rule cont_obtain)
    obtain z :: nat where z: "z < 64" "c3 = char_of (128 + z)" using c(4) by (rule cont_obtain)
    show ?thesis using assms bs c x y z b [unfolded four(1)] valid_utf8_4 [OF four(2) x(1) y(1) z(1), of rest]
      by (intro exI [of _ "f * 262144 + x * 4096 + y * 64 + z"] exI [of _ rest]) (auto simp: utf8_encode_4)
  qed
qed

text \<open>
  C26: The hand-written UTF-8 validator is exact: it accepts a byte sequence precisely when it is the
  concatenation of the encodings of Unicode scalar values, so it refuses overlong forms, surrogates,
  values past the last code point, stray continuation bytes and truncated sequences, and nothing
  else.
\<close>

theorem valid_utf8_exact:
  "valid_utf8 bs \<longleftrightarrow> (\<exists>cps. list_all scalar_value cps \<and> bs = concat (map utf8_encode cps))"
proof
  show "valid_utf8 bs \<Longrightarrow> \<exists>cps. list_all scalar_value cps \<and> bs = concat (map utf8_encode cps)"
  proof (induction "length bs" arbitrary: bs rule: less_induct)
    case (less bs)
    show ?case
    proof (cases bs)
      case Nil
      then show ?thesis by (intro exI [of _ "[]"]) simp
    next
      case (Cons b cs)
      then obtain cp rest where d: "scalar_value cp" "bs = utf8_encode cp @ rest" "valid_utf8 rest"
        using utf8_decodes less.prems by blast
      have "length rest < length bs" using d(2) by (auto simp: utf8_encode_def)
      then obtain cps where "list_all scalar_value cps" "rest = concat (map utf8_encode cps)" using less.hyps d(3) by blast
      then show ?thesis using d by (intro exI [of _ "cp # cps"]) simp
    qed
  qed
  show "\<exists>cps. list_all scalar_value cps \<and> bs = concat (map utf8_encode cps) \<Longrightarrow> valid_utf8 bs"
  proof (elim exE conjE)
    fix cps show "list_all scalar_value cps \<Longrightarrow> bs = concat (map utf8_encode cps) \<Longrightarrow> valid_utf8 bs"
      by (induction cps arbitrary: bs) (simp_all add: utf8_accepts)
  qed
qed

section \<open>Confinement\<close>

text \<open>Where a path leads: empty and dot components stay, dot-dot goes up, any other name goes down.\<close>

definition path_resolve :: "string list \<Rightarrow> string list" where
  "path_resolve cs =
     rev (foldl (\<lambda>st c. if c = [] \<or> c = ''.'' then st else if c = ''..'' then tl st else c # st) [] cs)"

lemma path_resolve_plain: "''..'' \<notin> set cs \<Longrightarrow> path_resolve cs = filter (\<lambda>c. c \<noteq> [] \<and> c \<noteq> ''.'') cs"
proof -
  have "foldl (\<lambda>st c. if c = [] \<or> c = ''.'' then st else if c = ''..'' then tl st else c # st) st cs =
      rev (filter (\<lambda>c. c \<noteq> [] \<and> c \<noteq> ''.'') cs) @ st" if "''..'' \<notin> set cs" for st
    using that by (induction cs arbitrary: st) auto
  then show "''..'' \<notin> set cs \<Longrightarrow> path_resolve cs = filter (\<lambda>c. c \<noteq> [] \<and> c \<noteq> ''.'') cs"
    by (simp add: path_resolve_def)
qed

lemma path_chars_components:
  "path_chars_ok start p \<Longrightarrow> ''..'' \<notin> set (tl (components p)) \<and> (start \<longrightarrow> hd (components p) \<noteq> ''..'')"
proof (induction start p rule: path_chars_ok.induct)
  case (2 start c p)
  have IH: "''..'' \<notin> set (tl (components p)) \<and> (c = CHR ''/'' \<longrightarrow> hd (components p) \<noteq> ''..'')"
    using 2 by (auto split: if_splits)
  obtain x xs where comps: "components p = x # xs" by (cases "components p") auto
  show ?case
  proof (cases "c = CHR ''/''")
    case True
    then show ?thesis using IH comps by (auto simp: comps)
  next
    case False
    have "c # x \<noteq> ''..''" if start
    proof
      assume eq: "c # x = ''..''"
      then have "takeWhile (\<lambda>c. c \<noteq> CHR ''/'') p = ''.''" using hd_components [of p] comps by simp
      from single_component [OF this] show False using 2(2) eq that by (auto split: if_splits)
    qed
    then show ?thesis using False IH comps by simp
  qed
qed simp

lemma valid_path_components: "valid_path (Some p) \<Longrightarrow> ''..'' \<notin> set (components p)"
  using path_chars_components [of True p] by (cases "components p") (auto simp: valid_path_def Let_def split: if_splits)

lemma prefix_boundary_components:
  assumes "prefix_boundary p g" "no_nul p" "no_nul g"
  obtains r where "filter (\<lambda>c. c \<noteq> [] \<and> c \<noteq> ''.'') (components p) =
      filter (\<lambda>c. c \<noteq> [] \<and> c \<noteq> ''.'') (components g) @ r" "set (components g) \<subseteq> insert [] (set (components p))"
proof -
  have g: "g \<noteq> []" "prefix g p" and b: "c_at p (length g) = NUL \<or> c_at p (length g) = CHR ''/'' \<or> last g = CHR ''/''"
    using assms strncmp_prefix [of p g] by (auto simp: prefix_boundary_def Let_def last_conv_nth)
  obtain r where p: "p = g @ r" using g(2) by (auto elim: prefixE)
  consider "r = []" | r' where "r = CHR ''/'' # r'" | g' where "g = g' @ [CHR ''/'']"
    using b p assms(2) append_butlast_last_id [OF g(1), symmetric] by (cases r) (auto simp: c_at_def no_nul_def)
  then show thesis
  proof cases
    case 1
    then show ?thesis using that [of "[]"] p by auto
  next
    case 2
    then show ?thesis using that [of "filter (\<lambda>c. c \<noteq> [] \<and> c \<noteq> ''.'') (components r')"] p by (auto simp: components_slash)
  next
    case 3
    have "components g = components g' @ [[]]" "components p = components g' @ components r"
      using components_slash [of g' "[]"] components_slash [of g' r] 3 p by simp_all
    then show ?thesis using that [of "filter (\<lambda>c. c \<noteq> [] \<and> c \<noteq> ''.'') (components r)"] by auto
  qed
qed

text \<open>The directories an application may use.\<close>

definition app_roots :: "webos_app_context \<Rightarrow> string set" where
  "app_roots x = insert (storage_root x)
     {g. \<exists>i < min (path_grant_count x) WEBOS_APP_MAX_GRANTS. path_grants x ! i = Some g}"

lemma path_allowed_root:
  assumes "webos_app_path_allowed (Some x) (Some p)"
  obtains g where "g \<in> app_roots x" "prefix_boundary p g" "valid_path (Some p)"
proof -
  have "valid_path (Some p)" "prefix_boundary p (storage_root x) \<or>
      (\<exists>i g. i < min (path_grant_count x) WEBOS_APP_MAX_GRANTS \<and> path_grants x ! i = Some g \<and> prefix_boundary p g)"
    using assms by (auto simp: webos_app_path_allowed_def list_ex_iff split: if_splits option.splits)
  then show thesis using that by (auto simp: app_roots_def)
qed

lemma allowed_confined:
  assumes "webos_app_path_allowed (Some x) (Some p)" "no_nul p" "\<forall>g \<in> app_roots x. no_nul g"
  shows "\<exists>g \<in> app_roots x. prefix (path_resolve (components g)) (path_resolve (components p)) \<and> ''..'' \<notin> set (components p)"
proof -
  obtain g where g: "g \<in> app_roots x" "prefix_boundary p g" "valid_path (Some p)" using assms(1) by (rule path_allowed_root)
  obtain r where r: "filter (\<lambda>c. c \<noteq> [] \<and> c \<noteq> ''.'') (components p) =
      filter (\<lambda>c. c \<noteq> [] \<and> c \<noteq> ''.'') (components g) @ r" "set (components g) \<subseteq> insert [] (set (components p))"
    using prefix_boundary_components [OF g(2) assms(2)] assms(3) g(1) by blast
  have up: "''..'' \<notin> set (components p)" using valid_path_components [OF g(3)] .
  then have "''..'' \<notin> set (components g)" using r(2) by blast
  then show ?thesis using g(1) up r(1) by (intro bexI [OF _ g(1)]) (simp add: path_resolve_plain)
qed

text \<open>
  C23: Confinement.  A path the host accepts resolves, whatever dot components it has, to a place
  inside one of the directories granted to the application: the resolved directory is a prefix of the
  resolved path, component by component, and the path never goes up.
\<close>

theorem path_allowed_confined:
  assumes "webos_app_path_allowed (Some x) (Some p)" "no_nul p" "\<forall>g \<in> app_roots x. no_nul g"
  shows "\<exists>g \<in> app_roots x. prefix (path_resolve (components g)) (path_resolve (components p)) \<and> ''..'' \<notin> set (components p)"
  using assms by (rule allowed_confined)

text \<open>The context of a fresh application without grants.\<close>

lemma app_init_root:
  assumes "webos_app_context_init context (Some a) version = (WEBOS_OK, Some x)"
  shows "storage_root x = ''/STORAGE:/apps/'' @ a @ ''/data'' \<and> path_grant_count x = 0 \<and> valid_component (Some a)"
  using assms by (auto simp: webos_app_context_init_def snprintk_def app_context_zero_def WEBOS_ABI_MAX_PATH_BYTES_def
      errno_simps split: if_splits)

lemma valid_component_chars: "valid_component (Some a) \<Longrightarrow> CHR ''/'' \<notin> set a \<and> CHR ''.'' \<notin> set a \<and> NUL \<notin> set a \<and> a \<noteq> []"
  by (auto simp: valid_component_def list_all_iff split: if_splits)

lemma app_root_resolve:
  assumes "valid_component (Some a)"
  shows "path_resolve (components (''/STORAGE:/apps/'' @ a @ ''/data'')) = [''STORAGE:'', ''apps'', a, ''data'']"
proof -
  note a = valid_component_chars [OF assms]
  have "components (''/STORAGE:/apps/'' @ a @ ''/data'') = [[], ''STORAGE:'', ''apps''] @ components (a @ CHR ''/'' # ''data'')"
    using components_slash [of "''/STORAGE:/apps''" "a @ ''/data''"] by simp
  also have "components (a @ CHR ''/'' # ''data'') = [a, ''data'']"
    unfolding components_slash using a components_plain [of a] by simp
  finally show ?thesis using a by (simp add: path_resolve_def) auto
qed

text \<open>
  C24: Isolation.  Two applications with different identifiers and no grants share no path: no path is
  accepted for both, although each has its own storage directory.
\<close>

theorem applications_isolated:
  assumes "webos_app_context_init context (Some a) version = (WEBOS_OK, Some x)"
    and "webos_app_context_init context' (Some b) version' = (WEBOS_OK, Some y)"
    and "a \<noteq> b" "no_nul p" "webos_app_path_allowed (Some x) (Some p)"
  shows "\<not> webos_app_path_allowed (Some y) (Some p)"
proof
  assume "webos_app_path_allowed (Some y) (Some p)"
  moreover have "prefix [''STORAGE:'', ''apps'', c, ''data''] (path_resolve (components p))"
    if init: "webos_app_context_init k (Some c) v = (WEBOS_OK, Some z)" and allowed: "webos_app_path_allowed (Some z) (Some p)"
    for k c v z
  proof -
    note z = app_init_root [OF init]
    have roots: "app_roots z = {''/STORAGE:/apps/'' @ c @ ''/data''}" using z by (simp add: app_roots_def)
    moreover have "no_nul (''/STORAGE:/apps/'' @ c @ ''/data'')"
      using valid_component_chars [of c] z by (simp add: no_nul_def)
    ultimately show ?thesis
      using allowed_confined [OF allowed assms(4)] app_root_resolve [of c] z by simp
  qed
  ultimately have "prefix [''STORAGE:'', ''apps'', a, ''data''] (path_resolve (components p))"
    "prefix [''STORAGE:'', ''apps'', b, ''data''] (path_resolve (components p))" using assms(1,2,5) by blast+
  then show False using assms(3) by (auto simp: prefix_def)
qed

definition sample_app :: "string \<Rightarrow> webos_app_context" where
  "sample_app a = the (snd (webos_app_context_init (Some app_context_zero) (Some a) (Some ''1'')))"

lemma sample_app_init:
  "webos_app_context_init (Some app_context_zero) (Some ''clock'') (Some ''1'') = (WEBOS_OK, Some (sample_app ''clock''))"
  "webos_app_context_init (Some app_context_zero) (Some ''radio'') (Some ''1'') = (WEBOS_OK, Some (sample_app ''radio''))"
  "webos_app_path_allowed (Some (sample_app ''clock'')) (Some ''/STORAGE:/apps/clock/data/./a'')"
  unfolding sample_app_def by code_simp+

theorem path_allowed_confined_witness:
  "\<exists>g \<in> app_roots (sample_app ''clock''). prefix (path_resolve (components g))
      (path_resolve (components ''/STORAGE:/apps/clock/data/./a''))"
proof -
  have "app_roots (sample_app ''clock'') = {''/STORAGE:/apps/clock/data''}"
    using app_init_root [OF sample_app_init(1)] by (simp add: app_roots_def)
  then show ?thesis using path_allowed_confined [OF sample_app_init(3)] by (simp add: no_nul_def)
qed

theorem applications_isolated_witness:
  "\<not> webos_app_path_allowed (Some (sample_app ''radio'')) (Some ''/STORAGE:/apps/clock/data/./a'')"
  using applications_isolated [OF sample_app_init(1,2) _ _ sample_app_init(3)] by (simp add: no_nul_def)

section \<open>Origins\<close>

text \<open>The origin of a URL: the scheme and the authority, up to the first slash, query or fragment mark.\<close>

definition url_origin :: "string \<Rightarrow> string" where
  "url_origin u =
     (case strstr u ''://'' of
        None \<Rightarrow> u
      | Some r \<Rightarrow> take (length u - length r) u @ ''://'' @
          takeWhile (\<lambda>c. c \<noteq> CHR ''/'' \<and> c \<noteq> CHR ''?'' \<and> c \<noteq> CHR ''#'') (drop 3 r))"

definition bare_origin :: "string \<Rightarrow> bool" where
  "bare_origin g \<longleftrightarrow> strstr g ''://'' \<noteq> None \<and> url_origin g = g"

lemma takeWhile_stop: "takeWhile P xs = xs \<Longrightarrow> ys = [] \<or> \<not> P (hd ys) \<Longrightarrow> takeWhile P (xs @ ys) = xs"
  by (cases ys) (auto simp: takeWhile_append takeWhile_eq_all_conv)

lemma bare_origin_extends:
  assumes bare: "bare_origin g" and t: "t = [] \<or> hd t = CHR ''/'' \<or> hd t = CHR ''?'' \<or> hd t = CHR ''#''"
  shows "url_origin (g @ t) = g"
proof -
  obtain r where r: "strstr g ''://'' = Some r" using bare by (auto simp: bare_origin_def)
  obtain b rest where g: "g = b @ r" "r = ''://'' @ rest"
    using strstr_split [OF r] by (auto simp: prefix_def)
  have whole: "takeWhile (\<lambda>c. c \<noteq> CHR ''/'' \<and> c \<noteq> CHR ''?'' \<and> c \<noteq> CHR ''#'') rest = rest"
    using bare unfolding bare_origin_def url_origin_def r option.case by (simp add: g)
  have "strstr (g @ t) ''://'' = Some (r @ t)" using strstr_append [OF r] by simp
  then show ?thesis using takeWhile_stop [OF whole, of t] t by (auto simp: url_origin_def g)
qed

text \<open>
  C25: No origin confusion.  When the granted origins are bare (a scheme and an authority), a URL the
  host accepts has one of them as its origin, or the grant is the wildcard and the URL is http or
  https (or spells the wildcard itself); an authority that merely begins with a granted one is
  refused.
\<close>

theorem url_allowed_origin:
  assumes "webos_app_url_allowed (Some x) (Some u) (length u)"
    and "\<And>i g. i < WEBOS_APP_MAX_GRANTS \<Longrightarrow> http_origins x ! i = Some g \<Longrightarrow> g = ''*'' \<or> bare_origin g"
  shows "\<exists>i g. i < min (http_origin_count x) WEBOS_APP_MAX_GRANTS \<and> http_origins x ! i = Some g \<and>
    (url_origin u = g \<or> g = ''*'' \<and> (prefix ''http://'' u \<or> prefix ''https://'' u) \<or> g = ''*'' \<and> hd u = CHR ''*'')"
proof -
  obtain i where i: "i < min (http_origin_count x) WEBOS_APP_MAX_GRANTS" "origin_allows (http_origins x ! i) u"
    using assms(1) by (auto simp: webos_app_url_allowed_def list_ex_iff split: if_splits)
  then obtain g where g: "http_origins x ! i = Some g" by (auto simp: origin_allows_def split: option.splits)
  consider "g = ''*''" "take 7 u = ''http://'' \<or> take 8 u = ''https://''"
    | "g \<noteq> []" "take (length g) u = g" "length u = length g \<or> u ! length g = CHR ''/'' \<or> u ! length g = CHR ''?'' \<or> u ! length g = CHR ''#''"
      "length g \<le> length u"
    using i(2) g by (auto simp: origin_allows_def Let_def length_Suc_conv split: if_splits)
  then show ?thesis
  proof cases
    case 1
    then have "prefix ''http://'' u \<or> prefix ''https://'' u" by (metis take_is_prefix)
    then show ?thesis using i(1) g 1 by blast
  next
    case 2
    define t where "t = drop (length g) u"
    have u: "u = g @ t" using 2(2) by (metis t_def append_take_drop_id)
    have t: "t = [] \<or> hd t = CHR ''/'' \<or> hd t = CHR ''?'' \<or> hd t = CHR ''#''"
      using 2(3,4) by (auto simp: t_def hd_drop_conv_nth)
    show ?thesis
    proof (cases "g = ''*''")
      case True
      then show ?thesis using i(1) g u by auto
    next
      case False
      then have "bare_origin g" using assms(2) [OF _ g] i(1) by simp
      from bare_origin_extends [OF this t] show ?thesis using i(1) g u by blast
    qed
  qed
qed

theorem url_allowed_origin_witness:
  "url_origin ''https://a.b/c?d'' = ''https://a.b''"
proof -
  define g0 where "g0 = ''https://a.b''"
  define x where "x = app_context_zero\<lparr>http_origins := Some g0 # replicate 7 None, http_origin_count := 1\<rparr>"
  have bare: "bare_origin g0" by (simp add: bare_origin_def url_origin_def g0_def)
  have grants: "g = ''*'' \<or> bare_origin g" if "i < WEBOS_APP_MAX_GRANTS" "http_origins x ! i = Some g" for i g
    using that bare by (cases i) (auto simp: x_def WEBOS_APP_MAX_GRANTS_def)
  have allowed: "webos_app_url_allowed (Some x) (Some ''https://a.b/c?d'') (length ''https://a.b/c?d'')"
    unfolding x_def g0_def by code_simp
  obtain i g where i: "i < min (http_origin_count x) WEBOS_APP_MAX_GRANTS" "http_origins x ! i = Some g"
    "url_origin ''https://a.b/c?d'' = g \<or> g = ''*''"
    using url_allowed_origin [OF allowed] grants by blast
  then have "i = 0" by (simp add: x_def)
  then have "g = g0" using i(2) by (simp add: x_def)
  then show ?thesis using i(3) by (auto simp: g0_def)
qed

end
