(* ===== verification/Http.thy ===== *)
theory Http
  imports Zephyr_Http App_Storage Shell_Exec Log_Buffer Json Ota App_Context
begin

text \<open>
  app/src/services/http/http.c and http_handlers.c: the resources of the device's HTTP server.  The
  server is Zephyr's; it calls a handler for every piece of a request, with the status of the
  transaction, and sends the response the handler describes.  A response keeps the array its body
  points to and the length apart, so a length beyond the array is visible.  The static variables of
  the handlers are fields of one state, next to the state of the services they use.
\<close>

section \<open>Requests and responses\<close>

datatype http_transaction_status = HTTP_SERVER_TRANSACTION_ABORTED | HTTP_SERVER_REQUEST_DATA_MORE
  | HTTP_SERVER_REQUEST_DATA_FINAL | HTTP_SERVER_TRANSACTION_COMPLETE

record http_header =
  header_name :: "string option"
  header_value :: "string option"

record http_request_ctx =
  rq_data :: "byte list"
  rq_headers :: "http_header list option"

record http_response_ctx =
  rsp_status :: nat
  rsp_headers :: "http_header list"
  rsp_body :: "byte list"
  rsp_body_len :: nat
  rsp_final_chunk :: bool

definition HTTP_200_OK :: nat where "HTTP_200_OK = 200"
definition HTTP_400_BAD_REQUEST :: nat where "HTTP_400_BAD_REQUEST = 400"
definition HTTP_413_PAYLOAD_TOO_LARGE :: nat where "HTTP_413_PAYLOAD_TOO_LARGE = 413"
definition HTTP_500_INTERNAL_SERVER_ERROR :: nat where "HTTP_500_INTERNAL_SERVER_ERROR = 500"

definition WEBOS_HTTP_BODY_MAX :: nat where "WEBOS_HTTP_BODY_MAX = 4096"
definition WEBOS_JSON_VALUE_MAX :: nat where "WEBOS_JSON_VALUE_MAX = 1536"

definition json_headers :: "http_header list" where
  "json_headers = [\<lparr>header_name = Some ''Content-Type'', header_value = Some ''application/json''\<rparr>]"

definition text_headers :: "http_header list" where
  "text_headers = [\<lparr>header_name = Some ''Content-Type'', header_value = Some ''text/plain; charset=utf-8''\<rparr>]"

definition set_json_response :: "nat \<Rightarrow> byte list \<Rightarrow> nat \<Rightarrow> http_response_ctx" where
  "set_json_response status body len =
     \<lparr>rsp_status = status, rsp_headers = json_headers, rsp_body = body, rsp_body_len = len, rsp_final_chunk = True\<rparr>"

definition set_text_response :: "nat \<Rightarrow> byte list \<Rightarrow> nat \<Rightarrow> http_response_ctx" where
  "set_text_response status body len =
     \<lparr>rsp_status = status, rsp_headers = text_headers, rsp_body = body, rsp_body_len = len, rsp_final_chunk = True\<rparr>"

text \<open>A string literal as the array it is, and \<open>snprintk\<close> into an array: the array and the length it returns.\<close>

definition literal :: "string \<Rightarrow> byte list" where
  "literal s = s @ [NUL]"

definition format_into :: "byte list \<Rightarrow> string \<Rightarrow> byte list \<times> nat" where
  "format_into dst s = (let (chars, ret) = snprintk (length dst) s in (memcpy dst 0 (chars @ [NUL]), nat ret))"

definition quoted :: "string \<Rightarrow> string" where
  "quoted s = CHR 0x22 # s @ [CHR 0x22]"

section \<open>State\<close>

text \<open>The array and the cursor that collect the body of a request.\<close>

record body_buffer =
  bb_body :: "byte list"
  bb_cursor :: nat

record webos_health_status =
  filesystem :: int
  devfs :: int
  gpio :: int
  led :: int
  iwasm :: int
  wifi :: int

record ('f, 'b, 'i, 'l, 'c) http_state =
  health_status :: webos_health_status
  root_body :: "byte list"
  health_body :: "byte list"
  push_buffer :: body_buffer
  push_response :: "byte list"
  pushbin_path :: "byte list"
  pushbin_buffer :: body_buffer
  pushbin_response :: "byte list"
  shell_buffer :: body_buffer
  shell_cmd :: "byte list"
  shell_input :: "byte list"
  shell_response :: "byte list"
  shell_escaped :: "byte list"
  shell_output :: "byte list"
  log_body_buffer :: body_buffer
  log_response :: "byte list"
  log_messages :: "byte list"
  log_escaped :: "byte list"
  ota_response :: "byte list"
  h_storage :: 'f
  h_shell :: 'b
  h_ota :: "'i ota_state"
  h_log :: "('l, 'c) log_state"

text \<open>The libraries that the handlers call, and the two build options they use.\<close>

record ('f, 'b, 'i) http_env =
  he_fs :: "'f app_fs"
  he_shell :: "'b zephyr_shell"
  he_flash :: "'i flash_api"
  APP_VERSION_STRING :: string

type_synonym ('f, 'b, 'i, 'l, 'c) http_handler =
  "http_transaction_status \<Rightarrow> http_request_ctx \<Rightarrow> ('f, 'b, 'i, 'l, 'c) http_state \<Rightarrow>
   http_response_ctx option \<times> ('f, 'b, 'i, 'l, 'c) http_state"

definition webos_health_set :: "webos_health_status \<Rightarrow> ('f, 'b, 'i, 'l, 'c) http_state \<Rightarrow> ('f, 'b, 'i, 'l, 'c) http_state" where
  "webos_health_set status h = h\<lparr>health_status := status\<rparr>"

definition webos_health_get :: "('f, 'b, 'i, 'l, 'c) http_state \<Rightarrow> webos_health_status" where
  "webos_health_get h = health_status h"

section \<open>Collecting the body\<close>

text \<open>What the common start of the POST handlers finds: the request ended, is too large, has more to come, or is complete.\<close>

datatype body_event = Body_ended | Body_too_large | Body_more | Body_complete string

definition collect_body :: "http_transaction_status \<Rightarrow> byte list \<Rightarrow> body_buffer \<Rightarrow> body_event \<times> body_buffer" where
  "collect_body status data bb =
     (if status = HTTP_SERVER_TRANSACTION_ABORTED \<or> status = HTTP_SERVER_TRANSACTION_COMPLETE then (Body_ended, bb\<lparr>bb_cursor := 0\<rparr>)
      else if length (bb_body bb) \<le> bb_cursor bb + length data then (Body_too_large, bb\<lparr>bb_cursor := 0\<rparr>)
      else
        let bb = bb\<lparr>bb_body := memcpy (bb_body bb) (bb_cursor bb) data, bb_cursor := bb_cursor bb + length data\<rparr> in
        if status \<noteq> HTTP_SERVER_REQUEST_DATA_FINAL then (Body_more, bb)
        else let body = (bb_body bb)[bb_cursor bb := NUL]
             in (Body_complete (c_string body), bb\<lparr>bb_body := body, bb_cursor := 0\<rparr>))"

text \<open>The answer to a body that is too large.\<close>

definition too_large :: http_response_ctx where
  "too_large =
     (let s = ''{'' @ quoted ''error'' @ '':'' @ quoted ''request too large'' @ ''}'' @ [CHR 0x0A]
      in set_json_response HTTP_413_PAYLOAD_TOO_LARGE (literal s) (length s))"

section \<open>The handlers\<close>

definition root_handler :: "('f, 'b, 'i) http_env \<Rightarrow> ('f, 'b, 'i, 'l, 'c) http_handler" where
  "root_handler H status rq h =
     (if status = HTTP_SERVER_REQUEST_DATA_FINAL then
        let (body, ret) = format_into (root_body h) (''Hello from WebOS '' @ APP_VERSION_STRING H @ [CHR 0x0A])
        in (Some (set_text_response HTTP_200_OK body ret), h\<lparr>root_body := body\<rparr>)
      else (None, h))"

definition healthy :: "webos_health_status \<Rightarrow> bool" where
  "healthy s \<longleftrightarrow> filesystem s = 0 \<and> devfs s = 0 \<and> gpio s = 0 \<and> led s = 0 \<and> iwasm s = 0 \<and> wifi s = 0"

definition json_number :: "string \<Rightarrow> int \<Rightarrow> string" where
  "json_number name i = quoted name @ '':'' @ dec_int i"

definition health_handler :: "('f, 'b, 'i, 'l, 'c) http_handler" where
  "health_handler status rq h =
     (if status = HTTP_SERVER_REQUEST_DATA_FINAL then
        let s = webos_health_get h;
            (body, len) = format_into (health_body h)
              (''{'' @ quoted ''status'' @ '':'' @ quoted (if healthy s then ''ok'' else ''degraded'') @ '','' @
               json_number ''filesystem'' (filesystem s) @ '','' @ json_number ''devfs'' (devfs s) @ '','' @ json_number ''gpio'' (gpio s) @ '','' @
               json_number ''led'' (led s) @ '','' @ json_number ''iwasm'' (iwasm s) @ '','' @ json_number ''wifi'' (wifi s) @ '','' @
               quoted ''abi'' @ '':'' @ quoted (dec_digits (unat WEBOS_ABI_MAJOR) @ ''.'' @ dec_digits (unat WEBOS_ABI_MINOR)) @ ''}'' @ [CHR 0x0A])
        in (Some (set_json_response HTTP_200_OK body len), h\<lparr>health_body := body\<rparr>)
      else (None, h))"

definition path_reply :: "string \<Rightarrow> string" where
  "path_reply path = ''{'' @ quoted ''ok'' @ '':true,'' @ quoted ''path'' @ '':'' @ quoted path @ ''}'' @ [CHR 0x0A]"

definition error_reply :: "int \<Rightarrow> string" where
  "error_reply ret = ''{'' @ json_number ''error'' ret @ ''}'' @ [CHR 0x0A]"

definition push_complete ::
    "('f, 'b, 'i) http_env \<Rightarrow> string \<Rightarrow> ('f, 'b, 'i, 'l, 'c) http_state \<Rightarrow> http_response_ctx option \<times> ('f, 'b, 'i, 'l, 'c) http_state" where
  "push_complete H body h =
     (let (ret, path) = json_get_string body ''path'' (replicate 128 NUL) 128;
         (ret, file_text) =
           (if ret = 0 then json_get_string body ''file'' (replicate WEBOS_JSON_VALUE_MAX NUL) WEBOS_JSON_VALUE_MAX else (ret, []));
         (ret, f) = (if ret = 0 then write_file (he_fs H) (c_string path) (c_string file_text) (h_storage h) else (ret, h_storage h));
         h = h\<lparr>h_storage := f\<rparr>;
         (response, len) = format_into (push_response h) (if ret = 0 then path_reply (c_string path) else error_reply ret)
     in (Some (set_json_response (if ret = 0 then HTTP_200_OK else HTTP_400_BAD_REQUEST) response len), h\<lparr>push_response := response\<rparr>))"

definition push_handler :: "('f, 'b, 'i) http_env \<Rightarrow> ('f, 'b, 'i, 'l, 'c) http_handler" where
  "push_handler H status rq h =
     (let (event, bb) = collect_body status (rq_data rq) (push_buffer h); h = h\<lparr>push_buffer := bb\<rparr> in
      case event of
        Body_complete body \<Rightarrow> push_complete H body h
      | Body_too_large \<Rightarrow> (Some too_large, h)
      | _ \<Rightarrow> (None, h))"

definition brief_error :: "string \<Rightarrow> string" where
  "brief_error what = ''{'' @ quoted ''error'' @ '':'' @ quoted what @ ''}'' @ [CHR 0x0A]"

text \<open>\<open>strncpy(path, value, sizeof(path) - 1)\<close> and the terminator.\<close>

definition copy_path :: "string \<Rightarrow> byte list \<Rightarrow> byte list" where
  "copy_path val path = (let n = length path - 1 in take n (val @ replicate n NUL) @ [NUL])"

fun path_header :: "http_header list \<Rightarrow> byte list \<Rightarrow> byte list" where
  "path_header [] path = path"
| "path_header (x # xs) path =
     (case (header_name x, header_value x) of
        (Some name, Some val) \<Rightarrow> if strcmp name ''X-Webos-Path'' = 0 then copy_path val path else path_header xs path
      | _ \<Rightarrow> path_header xs path)"

definition clear_path :: "byte list \<Rightarrow> byte list" where
  "clear_path path = path[0 := NUL]"

text \<open>The end of \<open>pushbin_handler\<close>: the path is known, the data are in the array up to the cursor.\<close>

definition pushbin_write :: "('f, 'b, 'i) http_env \<Rightarrow> ('f, 'b, 'i, 'l, 'c) http_state \<Rightarrow> http_response_ctx option \<times> ('f, 'b, 'i, 'l, 'c) http_state" where
  "pushbin_write H h =
     (let bb = pushbin_buffer h;
          path = c_string (pushbin_path h);
          (ret, f) = write_file_bin (he_fs H) path (take (bb_cursor bb) (bb_body bb)) (h_storage h);
          h = h\<lparr>h_storage := f, pushbin_buffer := bb\<lparr>bb_cursor := 0\<rparr>\<rparr>
      in if ret = 0 then
           let (response, len) = format_into (pushbin_response h) (path_reply path)
           in (Some (set_json_response HTTP_200_OK response len), h\<lparr>pushbin_response := response, pushbin_path := clear_path (pushbin_path h)\<rparr>)
         else (Some (set_json_response HTTP_500_INTERNAL_SERVER_ERROR (literal (brief_error ''write failed'')) 23),
               h\<lparr>pushbin_path := clear_path (pushbin_path h)\<rparr>))"

text \<open>A body that starts with the path and a newline.\<close>

definition pushbin_split :: "('f, 'b, 'i) http_env \<Rightarrow> ('f, 'b, 'i, 'l, 'c) http_state \<Rightarrow> http_response_ctx option \<times> ('f, 'b, 'i, 'l, 'c) http_state" where
  "pushbin_split H h =
     (let bb = pushbin_buffer h in
      case split_first CHR 0x0A (take (bb_cursor bb) (bb_body bb)) of
        None \<Rightarrow> (Some (set_json_response HTTP_400_BAD_REQUEST (literal (brief_error ''no path'')) 19), h\<lparr>pushbin_buffer := bb\<lparr>bb_cursor := 0\<rparr>\<rparr>)
      | Some (path, rest) \<Rightarrow>
          if length (pushbin_path h) \<le> length path
          then (Some (set_json_response HTTP_400_BAD_REQUEST (literal (brief_error ''bad path'')) 19), h\<lparr>pushbin_buffer := bb\<lparr>bb_cursor := 0\<rparr>\<rparr>)
          else pushbin_write H (h\<lparr>pushbin_path := (memcpy (pushbin_path h) 0 path)[length path := NUL],
                 pushbin_buffer := bb\<lparr>bb_body := memcpy (bb_body bb) 0 rest, bb_cursor := bb_cursor bb - (length path + 1)\<rparr>\<rparr>))"

definition pushbin_handler :: "('f, 'b, 'i) http_env \<Rightarrow> ('f, 'b, 'i, 'l, 'c) http_handler" where
  "pushbin_handler H status rq h =
     (let bb = pushbin_buffer h in
      if status = HTTP_SERVER_TRANSACTION_ABORTED \<or> status = HTTP_SERVER_TRANSACTION_COMPLETE
      then (None, h\<lparr>pushbin_buffer := bb\<lparr>bb_cursor := 0\<rparr>, pushbin_path := clear_path (pushbin_path h)\<rparr>)
      else
        let h = (case rq_headers rq of
                   Some hs \<Rightarrow> if pushbin_path h ! 0 = NUL then h\<lparr>pushbin_path := path_header hs (pushbin_path h)\<rparr> else h
                 | None \<Rightarrow> h)
        in if length (bb_body bb) \<le> bb_cursor bb + length (rq_data rq)
           then (Some (set_json_response HTTP_413_PAYLOAD_TOO_LARGE (literal (brief_error ''too large'')) 20),
                 h\<lparr>pushbin_buffer := bb\<lparr>bb_cursor := 0\<rparr>, pushbin_path := clear_path (pushbin_path h)\<rparr>)
           else
             let h = h\<lparr>pushbin_buffer :=
                   bb\<lparr>bb_body := memcpy (bb_body bb) (bb_cursor bb) (rq_data rq), bb_cursor := bb_cursor bb + length (rq_data rq)\<rparr>\<rparr>
             in if status \<noteq> HTTP_SERVER_REQUEST_DATA_FINAL then (None, h)
                else if pushbin_path h ! 0 = NUL then pushbin_split H h
                else pushbin_write H h)"

text \<open>
  The commands of the shell resource: the code, the number of bytes of output, and the state.  When the
  executor fails before it writes, the output array keeps what it held and the length is 0.
\<close>

definition shell_outcome ::
    "(int \<times> (byte list \<times> nat \<times> bool) option) \<times> 'b \<Rightarrow> ('f, 'b, 'i, 'l, 'c) http_state \<Rightarrow> int \<times> nat \<times> ('f, 'b, 'i, 'l, 'c) http_state" where
  "shell_outcome r h =
     (case r of
        ((ret, Some (out, len, truncated)), b) \<Rightarrow> (ret, len, h\<lparr>shell_output := out, h_shell := b\<rparr>)
      | ((ret, None), b) \<Rightarrow> (ret, 0, h\<lparr>h_shell := b\<rparr>))"

definition shell_run ::
    "'b zephyr_shell \<Rightarrow> string \<Rightarrow> ('f, 'b, 'i, 'l, 'c) http_state \<Rightarrow> int \<times> nat \<times> ('f, 'b, 'i, 'l, 'c) http_state" where
  "shell_run Z body h =
     (if json_has_key body ''cmd'' then
        let (ret, cmd) = json_get_string body ''cmd'' (shell_cmd h) (length (shell_cmd h)); h = h\<lparr>shell_cmd := cmd\<rparr> in
        if ret = 0 then
          shell_outcome (webos_shell_execute Z (Some (c_string cmd)) (Some (shell_output h)) (length (shell_output h)) (h_shell h)) h
        else (ret, 0, h)
      else if json_has_key body ''input'' then
        let (ret, inp) = json_get_string body ''input'' (shell_input h) (length (shell_input h)); h = h\<lparr>shell_input := inp\<rparr> in
        if ret = 0 then
          shell_outcome (webos_shell_push_input Z (Some (c_string inp)) (length (c_string inp)) (Some (shell_output h)) (length (shell_output h)) (h_shell h)) h
        else (ret, 0, h)
      else (0, 0, h\<lparr>h_shell := webos_shell_clear_output Z (h_shell h), shell_output := (shell_output h)[0 := NUL]\<rparr>))"

definition shell_complete ::
    "('f, 'b, 'i) http_env \<Rightarrow> string \<Rightarrow> ('f, 'b, 'i, 'l, 'c) http_state \<Rightarrow> http_response_ctx option \<times> ('f, 'b, 'i, 'l, 'c) http_state" where
  "shell_complete H body h =
     (let (ret, output_len, h) = shell_run (he_shell H) body h;
         (n, escaped) = append_json_string (shell_escaped h) (length (shell_escaped h)) (shell_output h) output_len;
         (response, len) = format_into (shell_response h)
           (''{'' @ json_number ''rc'' ret @ '','' @ quoted ''output'' @ '':'' @ quoted (c_string escaped) @ '','' @
            quoted ''attached'' @ '':'' @ (if json_has_key body ''cmd'' then ''false'' else ''true'') @ ''}'' @ [CHR 0x0A])
     in (Some (set_json_response HTTP_200_OK response len), h\<lparr>shell_escaped := escaped, shell_response := response\<rparr>))"

definition shell_handler :: "('f, 'b, 'i) http_env \<Rightarrow> ('f, 'b, 'i, 'l, 'c) http_handler" where
  "shell_handler H status rq h =
     (let (event, bb) = collect_body status (rq_data rq) (shell_buffer h); h = h\<lparr>shell_buffer := bb\<rparr> in
      case event of
        Body_complete body \<Rightarrow> shell_complete H body h
      | Body_too_large \<Rightarrow> (Some too_large, h)
      | _ \<Rightarrow> (None, h))"

definition log_complete ::
    "string \<Rightarrow> ('f, 'b, 'i, 'l, 'c) http_state \<Rightarrow> http_response_ctx option \<times> ('f, 'b, 'i, 'l, 'c) http_state" where
  "log_complete body h =
     (let (msg_len, messages) = log_buffer_read (h_log h) (Some (log_messages h)) (length (log_messages h));
         h = h\<lparr>log_messages := the messages\<rparr>;
         h = (if json_has_key body ''clear'' then h\<lparr>h_log := log_buffer_clear (h_log h)\<rparr> else h);
         (n, escaped) = append_json_string (log_escaped h) (length (log_escaped h)) (log_messages h) msg_len;
         (response, len) = format_into (log_response h)
           (''{'' @ quoted ''messages'' @ '':'' @ quoted (c_string escaped) @ ''}'' @ [CHR 0x0A])
     in (Some (set_json_response HTTP_200_OK response len), h\<lparr>log_escaped := escaped, log_response := response\<rparr>))"

definition log_handler :: "('f, 'b, 'i, 'l, 'c) http_handler" where
  "log_handler status rq h =
     (let (event, bb) = collect_body status (rq_data rq) (log_body_buffer h); h = h\<lparr>log_body_buffer := bb\<rparr> in
      case event of
        Body_complete body \<Rightarrow> log_complete body h
      | Body_too_large \<Rightarrow> (Some too_large, h)
      | _ \<Rightarrow> (None, h))"

text \<open>The answers of the upload resource.\<close>

definition ota_reply :: "nat \<Rightarrow> string \<Rightarrow> ('f, 'b, 'i, 'l, 'c) http_state \<Rightarrow> http_response_ctx option \<times> ('f, 'b, 'i, 'l, 'c) http_state" where
  "ota_reply status s h =
     (let (response, len) = format_into (ota_response h) s
      in (Some (set_json_response status response len), h\<lparr>ota_response := response\<rparr>))"

definition ota_handler :: "('f, 'b, 'i) http_env \<Rightarrow> ('f, 'b, 'i, 'l, 'c) http_handler" where
  "ota_handler H status rq h =
     (if status = HTTP_SERVER_TRANSACTION_ABORTED then (None, h\<lparr>h_ota := ota_abort (h_ota h)\<rparr>)
      else if status = HTTP_SERVER_TRANSACTION_COMPLETE then (None, h)
      else
        let (ret, s) = ota_begin (he_flash H) (h_ota h); h = h\<lparr>h_ota := s\<rparr> in
        if ret \<noteq> 0 then ota_reply HTTP_500_INTERNAL_SERVER_ERROR (error_reply ret) h
        else
          let (ret, s) = (if rq_data rq \<noteq> [] then ota_write (he_flash H) (rq_data rq) (status = HTTP_SERVER_REQUEST_DATA_FINAL) (h_ota h)
                          else (0, h_ota h));
              h = h\<lparr>h_ota := s\<rparr>
          in if ret = 0 \<and> status = HTTP_SERVER_REQUEST_DATA_FINAL then
               let ((ret, written), s) = ota_finish (he_flash H) (h_ota h); h = h\<lparr>h_ota := s\<rparr> in
               if ret = 0 then
                 ota_reply HTTP_200_OK (''{'' @ quoted ''ok'' @ '':true,'' @ quoted ''bytes'' @ '':'' @ dec_digits written @ '','' @
                   quoted ''reboot_ms'' @ '':'' @ dec_digits WEBOS_OTA_REBOOT_DELAY_MS @ ''}'' @ [CHR 0x0A]) h
               else ota_reply HTTP_500_INTERNAL_SERVER_ERROR (error_reply ret) h
             else if ret \<noteq> 0 then ota_reply HTTP_500_INTERNAL_SERVER_ERROR (error_reply ret) (h\<lparr>h_ota := ota_abort (h_ota h)\<rparr>)
             else (None, h))"

section \<open>The resources\<close>

definition http_resources :: "('f, 'b, 'i) http_env \<Rightarrow> (string \<times> http_method \<times> ('f, 'b, 'i, 'l, 'c) http_handler) list" where
  "http_resources H =
     [(''/'', HTTP_GET, root_handler H), (''/health'', HTTP_GET, health_handler), (''/push'', HTTP_POST, push_handler H),
      (''/pushbin'', HTTP_POST, pushbin_handler H), (''/shell'', HTTP_POST, shell_handler H), (''/log'', HTTP_POST, log_handler),
      (''/ota'', HTTP_POST, ota_handler H)]"

definition webos_http_init :: "('n \<Rightarrow> int \<times> 'n) \<Rightarrow> 'n \<Rightarrow> int \<times> 'n" where
  "webos_http_init http_server_start n = http_server_start n"

section \<open>Start-up\<close>

text \<open>The static variables at start-up; the dummy shell's buffer has \<open>n\<close> bytes.\<close>

definition empty_body :: body_buffer where
  "empty_body = \<lparr>bb_body = replicate WEBOS_HTTP_BODY_MAX NUL, bb_cursor = 0\<rparr>"

definition http_boot ::
    "nat \<Rightarrow> 'f \<Rightarrow> 'b \<Rightarrow> 'i ota_state \<Rightarrow> ('l, 'c) log_state \<Rightarrow> ('f, 'b, 'i, 'l, 'c) http_state" where
  "http_boot n f b i l =
     \<lparr>health_status = \<lparr>filesystem = 0, devfs = 0, gpio = 0, led = 0, iwasm = 0, wifi = 0\<rparr>,
      root_body = replicate 96 NUL, health_body = replicate 224 NUL,
      push_buffer = empty_body, push_response = replicate 96 NUL,
      pushbin_path = replicate 128 NUL, pushbin_buffer = empty_body, pushbin_response = replicate 96 NUL,
      shell_buffer = empty_body, shell_cmd = replicate 256 NUL, shell_input = replicate 256 NUL,
      shell_response = replicate (n * 2 + 96) NUL, shell_escaped = replicate (n * 2) NUL, shell_output = replicate n NUL,
      log_body_buffer = empty_body, log_response = replicate WEBOS_HTTP_BODY_MAX NUL,
      log_messages = replicate WEBOS_HTTP_BODY_MAX NUL, log_escaped = replicate (WEBOS_HTTP_BODY_MAX * 2) NUL,
      ota_response = replicate 96 NUL, h_storage = f, h_shell = b, h_ota = i, h_log = l\<rparr>"

end
