(* ===== verification/Http_Inv.thy ===== *)
theory Http_Inv
  imports Http
begin

text \<open>
  How the handlers of app/src/services/http/http_handlers.c treat a request whose body arrives in
  pieces, and what a firmware upload through them leaves in flash.
\<close>

section \<open>A body in pieces\<close>

text \<open>
  A request whose body arrives in pieces: each piece but the last is announced as one with more to
  come; a response ends the exchange.
\<close>

fun send_pieces ::
    "(http_transaction_status \<Rightarrow> http_request_ctx \<Rightarrow> 's \<Rightarrow> http_response_ctx option \<times> 's) \<Rightarrow> http_header list option \<Rightarrow>
     byte list list \<Rightarrow> byte list \<Rightarrow> 's \<Rightarrow> http_response_ctx option \<times> 's" where
  "send_pieces handle hs [] fin h = handle HTTP_SERVER_REQUEST_DATA_FINAL \<lparr>rq_data = fin, rq_headers = hs\<rparr> h"
| "send_pieces handle hs (d # ds) fin h =
     (case handle HTTP_SERVER_REQUEST_DATA_MORE \<lparr>rq_data = d, rq_headers = hs\<rparr> h of
        (None, h) \<Rightarrow> send_pieces handle hs ds fin h
      | (Some r, h) \<Rightarrow> (Some r, h))"

lemma collect_more: "bb_cursor bb + length d < length (bb_body bb) \<Longrightarrow>
    collect_body HTTP_SERVER_REQUEST_DATA_MORE d bb =
      (Body_more, bb\<lparr>bb_body := memcpy (bb_body bb) (bb_cursor bb) d, bb_cursor := bb_cursor bb + length d\<rparr>)"
  by (simp add: collect_body_def)

lemma collect_append: "bb_cursor bb + length d + length e < length (bb_body bb) \<Longrightarrow> status = HTTP_SERVER_REQUEST_DATA_MORE \<or> status = HTTP_SERVER_REQUEST_DATA_FINAL \<Longrightarrow>
    collect_body status e (bb\<lparr>bb_body := memcpy (bb_body bb) (bb_cursor bb) d, bb_cursor := bb_cursor bb + length d\<rparr>) =
      collect_body status (d @ e) bb"
  by (auto simp: collect_body_def memcpy_append add.assoc)

text \<open>
  The handlers that collect the whole body before they act: what they do with a piece is determined by
  the collected body, and \<open>act\<close> is what they do with the complete one.
\<close>

locale body_collector =
  fixes handle :: "http_transaction_status \<Rightarrow> http_request_ctx \<Rightarrow> 's \<Rightarrow> http_response_ctx option \<times> 's"
    and buffer :: "'s \<Rightarrow> body_buffer" and put :: "body_buffer \<Rightarrow> 's \<Rightarrow> 's"
    and act :: "string \<Rightarrow> 's \<Rightarrow> http_response_ctx option \<times> 's"
  assumes handle: "handle status rq h =
      (let (event, bb) = collect_body status (rq_data rq) (buffer h) in
       case event of Body_complete body \<Rightarrow> act body (put bb h) | Body_too_large \<Rightarrow> (Some too_large, put bb h) | _ \<Rightarrow> (None, put bb h))"
    and buffer_put: "buffer (put bb h) = bb" and put_put: "put bb (put bb' h) = put bb h"
begin

lemma more:
  assumes "bb_cursor (buffer h) + length d < length (bb_body (buffer h))"
  shows "handle HTTP_SERVER_REQUEST_DATA_MORE \<lparr>rq_data = d, rq_headers = hs\<rparr> h =
    (None, put ((buffer h)\<lparr>bb_body := memcpy (bb_body (buffer h)) (bb_cursor (buffer h)) d, bb_cursor := bb_cursor (buffer h) + length d\<rparr>) h)"
  using assms by (simp add: handle collect_more)

lemma same_collect: "collect_body status d (buffer h) = collect_body status' d' (buffer h') \<Longrightarrow> (\<And>bb. put bb h = put bb h') \<Longrightarrow>
    handle status \<lparr>rq_data = d, rq_headers = hs\<rparr> h = handle status' \<lparr>rq_data = d', rq_headers = hs\<rparr> h'"
  by (cases "collect_body status' d' (buffer h')") (simp add: handle split: body_event.splits)

lemma handler_keeps:
  assumes "\<And>e bb. collect_body status (rq_data rq) (buffer h) = (e, bb) \<Longrightarrow> I (put bb h)" and "\<And>b h. I h \<Longrightarrow> I (snd (act b h))"
  shows "I (snd (handle status rq h))"
  using assms by (cases "collect_body status (rq_data rq) (buffer h)") (simp add: handle split: body_event.splits)

lemma pieces:
  "bb_cursor (buffer h) + length (concat ds) + length fin < length (bb_body (buffer h)) \<Longrightarrow>
    send_pieces handle hs ds fin h = handle HTTP_SERVER_REQUEST_DATA_FINAL \<lparr>rq_data = concat ds @ fin, rq_headers = hs\<rparr> h"
proof (induction ds arbitrary: h)
  case (Cons d ds)
  let ?h = "put ((buffer h)\<lparr>bb_body := memcpy (bb_body (buffer h)) (bb_cursor (buffer h)) d, bb_cursor := bb_cursor (buffer h) + length d\<rparr>) h"
  have "send_pieces handle hs (d # ds) fin h = send_pieces handle hs ds fin ?h"
    using more [of h d hs] Cons.prems by simp
  also have "\<dots> = handle HTTP_SERVER_REQUEST_DATA_FINAL \<lparr>rq_data = concat ds @ fin, rq_headers = hs\<rparr> ?h"
    using Cons.prems by (intro Cons.IH) (simp add: buffer_put)
  also have "\<dots> = handle HTTP_SERVER_REQUEST_DATA_FINAL \<lparr>rq_data = d @ concat ds @ fin, rq_headers = hs\<rparr> h"
    using Cons.prems collect_append [of "buffer h" d "concat ds @ fin"]
    by (intro same_collect) (simp_all add: buffer_put put_put add.assoc)
  finally show ?case by simp
qed simp

lemma pieces_too_large:
  "bb_cursor (buffer h) < length (bb_body (buffer h)) \<Longrightarrow>
    length (bb_body (buffer h)) \<le> bb_cursor (buffer h) + length (concat ds) + length fin \<Longrightarrow>
    \<exists>h'. send_pieces handle hs ds fin h = (Some too_large, h') \<and> bb_cursor (buffer h') = 0"
proof (induction ds arbitrary: h)
  case Nil
  then show ?case by (simp add: handle collect_body_def buffer_put)
next
  case (Cons d ds)
  show ?case
  proof (cases "bb_cursor (buffer h) + length d < length (bb_body (buffer h))")
    case True
    then show ?thesis using more [of h d hs] Cons.IH [of "put ((buffer h)\<lparr>bb_body := memcpy (bb_body (buffer h)) (bb_cursor (buffer h)) d,
        bb_cursor := bb_cursor (buffer h) + length d\<rparr>) h"] Cons.prems by (simp add: buffer_put add.assoc)
  next
    case False
    then show ?thesis by (simp add: handle collect_body_def buffer_put)
  qed
qed

end

interpretation push_body: body_collector "push_handler H" push_buffer "\<lambda>bb h. h\<lparr>push_buffer := bb\<rparr>" "push_complete H"
  by unfold_locales (simp_all add: push_handler_def Let_def)

interpretation shell_body: body_collector "shell_handler H" shell_buffer "\<lambda>bb h. h\<lparr>shell_buffer := bb\<rparr>" "shell_complete H"
  by unfold_locales (simp_all add: shell_handler_def Let_def)

interpretation log_body: body_collector log_handler log_body_buffer "\<lambda>bb h. h\<lparr>log_body_buffer := bb\<rparr>" log_complete
  by unfold_locales (simp_all add: log_handler_def Let_def)

text \<open>
  A device for the examples: the storage in memory, a shell that prints the command it is given, and an
  image writer with blocks of four bytes, whose state is the flash, the buffer and the upgrade request.
\<close>

definition demo_shell :: "byte list zephyr_shell" where
  "demo_shell =
     \<lparr>SHELL_PROMPT_DUMMY = ''> '', shell_lock = (\<lambda>b. (0, b)), shell_unlock = (\<lambda>b. b), shell_backend_dummy_clear_output = (\<lambda>_. []),
      shell_backend_dummy_get_output = (\<lambda>b. (b, [])), shell_backend_dummy_push_input = (\<lambda>d b. (0, b @ d)),
      shell_execute_cmd = (\<lambda>c b. (0, b @ c)), shell_sleep = (\<lambda>b. b)\<rparr>"

definition block_flash :: "(byte list \<times> byte list \<times> bool) flash_api" where
  "block_flash =
     \<lparr>flash_img_init = (\<lambda>(f, b, p). (0, ([], [], p))),
      flash_img_buffered_write = (\<lambda>d fin (f, b, p).
        let all = b @ d; k = (if fin then length all else length all div 4 * 4) in (0, (f @ take k all, drop k all, p))),
      flash_img_bytes_written = (\<lambda>(f, b, p). length f),
      boot_request_upgrade = (\<lambda>(f, b, p). (0, (f, b, True)))\<rparr>"

definition demo_http :: "(memstore, byte list, byte list \<times> byte list \<times> bool) http_env" where
  "demo_http = \<lparr>he_fs = memstore, he_shell = demo_shell, he_flash = block_flash, APP_VERSION_STRING = ''1.0''\<rparr>"

definition demo_boot :: "(unit, unit) log_state \<Rightarrow> (memstore, byte list, byte list \<times> byte list \<times> bool, unit, unit) http_state" where
  "demo_boot l = http_boot 64 (Map.empty, [], []) [] \<lparr>ota_flash_ctx = ([], [], False), ota_active = False, ota_reboot_work = False\<rparr> l"

lemma block_flash_lawful: "flash_lawful block_flash fst (\<lambda>i. fst (snd i)) (\<lambda>i. snd (snd i))"
  by (auto simp: flash_lawful_def block_flash_def Let_def simp del: take_append drop_append)

text \<open>
  C20: How a request body is cut does not matter.  For the resources /push, /shell and /log, a body that
  fits the handler's array and arrives in any pieces has the effect and the response of the same body in
  one piece; a longer one is answered with 413 and leaves the cursor at the start for the next request.
\<close>

theorem request_pieces:
  assumes "bb_cursor (push_buffer h) = 0" "bb_cursor (shell_buffer h) = 0" "bb_cursor (log_body_buffer h) = 0"
    and "length (bb_body (push_buffer h)) = n" "length (bb_body (shell_buffer h)) = n" "length (bb_body (log_body_buffer h)) = n" "0 < n"
  shows "if length (concat ds @ fin) < n then
      send_pieces (push_handler H) hs ds fin h = push_handler H HTTP_SERVER_REQUEST_DATA_FINAL \<lparr>rq_data = concat ds @ fin, rq_headers = hs\<rparr> h \<and>
      send_pieces (shell_handler H) hs ds fin h = shell_handler H HTTP_SERVER_REQUEST_DATA_FINAL \<lparr>rq_data = concat ds @ fin, rq_headers = hs\<rparr> h \<and>
      send_pieces log_handler hs ds fin h = log_handler HTTP_SERVER_REQUEST_DATA_FINAL \<lparr>rq_data = concat ds @ fin, rq_headers = hs\<rparr> h
    else
      (\<exists>h'. send_pieces (push_handler H) hs ds fin h = (Some too_large, h') \<and> bb_cursor (push_buffer h') = 0) \<and>
      (\<exists>h'. send_pieces (shell_handler H) hs ds fin h = (Some too_large, h') \<and> bb_cursor (shell_buffer h') = 0) \<and>
      (\<exists>h'. send_pieces log_handler hs ds fin h = (Some too_large, h') \<and> bb_cursor (log_body_buffer h') = 0)"
proof (cases "length (concat ds @ fin) < n")
  case True
  then show ?thesis using assms by (simp add: push_body.pieces shell_body.pieces log_body.pieces)
next
  case False
  then show ?thesis using assms by (simp add: push_body.pieces_too_large shell_body.pieces_too_large log_body.pieces_too_large)
qed

theorem request_pieces_witness:
  "send_pieces (push_handler demo_http) None [''ab'', ''c''] ''d'' (demo_boot (log_state_init 16)) =
     push_handler demo_http HTTP_SERVER_REQUEST_DATA_FINAL \<lparr>rq_data = ''abcd'', rq_headers = None\<rparr> (demo_boot (log_state_init 16)) \<and>
   (\<exists>h'. send_pieces log_handler None [replicate 4000 CHR ''x''] (replicate 96 CHR ''x'') (demo_boot (log_state_init 16)) = (Some too_large, h'))"
proof -
  let ?h = "demo_boot (log_state_init 16)"
  have b: "bb_cursor (push_buffer ?h) = 0" "bb_cursor (shell_buffer ?h) = 0" "bb_cursor (log_body_buffer ?h) = 0"
    "length (bb_body (push_buffer ?h)) = 4096" "length (bb_body (shell_buffer ?h)) = 4096" "length (bb_body (log_body_buffer ?h)) = 4096" "0 < (4096 :: nat)"
    by (simp_all add: demo_boot_def http_boot_def empty_body_def WEBOS_HTTP_BODY_MAX_def)
  show ?thesis
    using request_pieces [OF b, of "[''ab'', ''c'']" "''d''" demo_http None]
      request_pieces [OF b, of "[replicate 4000 CHR ''x'']" "replicate 96 CHR ''x''" demo_http None]
    by (simp del: send_pieces.simps) blast
qed

section \<open>Firmware upload\<close>

text \<open>
  An upload under way has received \<open>acc\<close>, all of it in flash or in the writer's buffer; no upgrade was
  requested and no reboot scheduled meanwhile.
\<close>

definition ota_progress ::
    "('i \<Rightarrow> byte list) \<Rightarrow> ('i \<Rightarrow> byte list) \<Rightarrow> ('i \<Rightarrow> bool) \<Rightarrow> bool \<Rightarrow> bool \<Rightarrow> byte list \<Rightarrow> 'i ota_state \<Rightarrow> bool" where
  "ota_progress flashed buffered pending p r acc s \<longleftrightarrow>
     pending (ota_flash_ctx s) = p \<and> ota_reboot_work s = r \<and>
     (if ota_active s then flashed (ota_flash_ctx s) @ buffered (ota_flash_ctx s) = acc else acc = [])"

lemma ota_begin_progress:
  assumes law: "flash_lawful G flashed buffered pending" and p: "ota_progress flashed buffered pending p r acc s" and b: "ota_begin G s = (ret, s')"
  shows "pending (ota_flash_ctx s') = p \<and> ota_reboot_work s' = r \<and>
    (if ret = 0 then ota_active s' \<and> ota_progress flashed buffered pending p r acc s' else \<not> ota_active s')"
proof (cases "ota_active s")
  case False
  obtain r1 i where i: "flash_img_init G (ota_flash_ctx s) = (r1, i)" by fastforce
  have "(ret, s') = (if r1 \<noteq> 0 then (r1, s\<lparr>ota_flash_ctx := i\<rparr>) else (0, s\<lparr>ota_flash_ctx := i, ota_active := True\<rparr>))"
    using b i False by (auto simp: ota_begin_def Let_def)
  then show ?thesis using flash_lawfulD(1) [OF law i] p False by (auto simp: ota_progress_def split: if_splits)
qed (use b p in \<open>simp add: ota_begin_def ota_progress_def\<close>)

lemma ota_write_progress:
  assumes law: "flash_lawful G flashed buffered pending" and p: "ota_progress flashed buffered pending p r acc s" "ota_active s"
    and w: "ota_write G data fin s = (ret, s')"
  shows "pending (ota_flash_ctx s') = p \<and> ota_reboot_work s' = r \<and> ota_active s' \<and>
    (ret = 0 \<longrightarrow> ota_progress flashed buffered pending p r (acc @ data) s' \<and> (fin \<and> data \<noteq> [] \<longrightarrow> buffered (ota_flash_ctx s') = []))"
proof (cases "data = []")
  case False
  obtain r1 i where i: "flash_img_buffered_write G data fin (ota_flash_ctx s) = (r1, i)" by fastforce
  have "ret = r1" "s' = s\<lparr>ota_flash_ctx := i\<rparr>" using w i False p(2) by (simp_all add: ota_write_def)
  then show ?thesis using flash_lawfulD(2) [OF law i] p by (auto simp: ota_progress_def)
qed (use w p in \<open>simp add: ota_write_def ota_progress_def\<close>)

text \<open>One piece of an upload, by the status answered and the state of the upload.\<close>

definition ota_chunk :: "'i flash_api \<Rightarrow> bool \<Rightarrow> byte list \<Rightarrow> 'i ota_state \<Rightarrow> nat option \<times> 'i ota_state" where
  "ota_chunk G fin d s =
     (let (r, s) = ota_begin G s in
      if r \<noteq> 0 then (Some HTTP_500_INTERNAL_SERVER_ERROR, s)
      else let (r, s) = ota_write G d fin s in
        if r \<noteq> 0 then (Some HTTP_500_INTERNAL_SERVER_ERROR, ota_abort s)
        else if \<not> fin then (None, s)
        else let ((r, _), s) = ota_finish G s in (Some (if r = 0 then HTTP_200_OK else HTTP_500_INTERNAL_SERVER_ERROR), s))"

lemma ota_reply_spec:
  "map_prod (map_option rsp_status) h_ota (ota_reply status s h) = (Some status, h_ota h)"
  by (simp add: ota_reply_def set_json_response_def Let_def split: prod.splits)

lemma ota_write_guard: "(if d \<noteq> [] then ota_write G d fin s else (0, s)) = ota_write G d fin s"
  by (simp add: ota_write_def)

lemma ota_handler_chunk:
  "map_prod (map_option rsp_status) h_ota (ota_handler H (if fin then HTTP_SERVER_REQUEST_DATA_FINAL else HTTP_SERVER_REQUEST_DATA_MORE)
     \<lparr>rq_data = d, rq_headers = hs\<rparr> h) = ota_chunk (he_flash H) fin d (h_ota h)"
proof -
  obtain r1 s1 where b: "ota_begin (he_flash H) (h_ota h) = (r1, s1)" by fastforce
  obtain r2 s2 where w: "ota_write (he_flash H) d fin s1 = (r2, s2)" by fastforce
  obtain r3 n s3 where f: "ota_finish (he_flash H) s2 = ((r3, n), s3)" by (metis prod.exhaust)
  show ?thesis
  proof (cases "d = []")
    case True
    then have e: "r2 = 0" "s2 = s1" "ota_write (he_flash H) [] fin s1 = (0, s1)" using w by (simp_all add: ota_write_def)
    show ?thesis
      by (cases fin; cases "r1 = 0"; cases "r3 = 0")
        (use True b f e in \<open>simp_all add: ota_handler_def ota_chunk_def ota_reply_spec\<close>)
  next
    case False
    show ?thesis
      by (cases fin; cases "r1 = 0"; cases "r2 = 0"; cases "r3 = 0")
        (use False b w f in \<open>simp_all add: ota_handler_def ota_chunk_def ota_reply_spec\<close>)
  qed
qed

fun ota_chunks :: "'i flash_api \<Rightarrow> byte list list \<Rightarrow> byte list \<Rightarrow> 'i ota_state \<Rightarrow> nat option \<times> 'i ota_state" where
  "ota_chunks G [] fin s = ota_chunk G True fin s"
| "ota_chunks G (d # ds) fin s =
     (case ota_chunk G False d s of (None, s) \<Rightarrow> ota_chunks G ds fin s | (Some c, s) \<Rightarrow> (Some c, s))"

lemma ota_handler_chunks:
  "map_prod (map_option rsp_status) h_ota (send_pieces (ota_handler H) hs ds fin h) = ota_chunks (he_flash H) ds fin (h_ota h)"
proof (induction ds arbitrary: h)
  case Nil
  then show ?case using ota_handler_chunk [of H True fin hs h] by simp
next
  case (Cons d ds)
  obtain x h' where x: "ota_handler H HTTP_SERVER_REQUEST_DATA_MORE \<lparr>rq_data = d, rq_headers = hs\<rparr> h = (x, h')" by fastforce
  then have "ota_chunk (he_flash H) False d (h_ota h) = (map_option rsp_status x, h_ota h')"
    using ota_handler_chunk [of H False d hs h] by simp
  then show ?case using x Cons.IH [of h'] by (cases x) simp_all
qed

text \<open>Where an upload ends: the answer is 200 exactly when the image was accepted.\<close>

definition ota_ended ::
    "('i \<Rightarrow> byte list) \<Rightarrow> ('i \<Rightarrow> byte list) \<Rightarrow> ('i \<Rightarrow> bool) \<Rightarrow> bool \<Rightarrow> bool \<Rightarrow> byte list \<Rightarrow> bool \<Rightarrow> nat option \<times> 'i ota_state \<Rightarrow> bool" where
  "ota_ended flashed buffered pending p r img flush res \<longleftrightarrow>
     (case res of (c, s) \<Rightarrow> \<not> ota_active s \<and>
       (if c = Some HTTP_200_OK
        then pending (ota_flash_ctx s) \<and> ota_reboot_work s \<and> flashed (ota_flash_ctx s) @ buffered (ota_flash_ctx s) = img \<and>
          (flush \<longrightarrow> buffered (ota_flash_ctx s) = [])
        else c = Some HTTP_500_INTERNAL_SERVER_ERROR \<and> pending (ota_flash_ctx s) = p \<and> ota_reboot_work s = r))"

lemma http_codes: "HTTP_500_INTERNAL_SERVER_ERROR \<noteq> HTTP_200_OK" "HTTP_200_OK \<noteq> HTTP_500_INTERNAL_SERVER_ERROR"
  by (simp_all add: HTTP_500_INTERNAL_SERVER_ERROR_def HTTP_200_OK_def)

lemma ota_finish_ended:
  assumes law: "flash_lawful G flashed buffered pending" and p: "ota_progress flashed buffered pending p r acc s" "ota_active s"
    and e: "flush \<longrightarrow> buffered (ota_flash_ctx s) = []" and f: "ota_finish G s = ((ret, n), s')"
  shows "ota_ended flashed buffered pending p r acc flush (Some (if ret = 0 then HTTP_200_OK else HTTP_500_INTERNAL_SERVER_ERROR), s')"
proof -
  obtain r1 i where i: "boot_request_upgrade G (ota_flash_ctx s) = (r1, i)" by fastforce
  have "ret = r1" "s' = (if r1 = 0 then s\<lparr>ota_active := False, ota_flash_ctx := i, ota_reboot_work := True\<rparr> else s\<lparr>ota_active := False, ota_flash_ctx := i\<rparr>)"
    using f i by (auto simp: ota_finish_def Let_def)
  then show ?thesis using flash_lawfulD(4) [OF law i] p e by (auto simp: ota_ended_def ota_progress_def http_codes)
qed

lemma ota_chunk_ended:
  assumes law: "flash_lawful G flashed buffered pending" and p: "ota_progress flashed buffered pending p r acc s"
    and c: "ota_chunk G fin d s = (c, s')"
  shows "if c = None then \<not> fin \<and> ota_progress flashed buffered pending p r (acc @ d) s'
    else (c = Some HTTP_200_OK \<longrightarrow> fin) \<and> ota_ended flashed buffered pending p r (acc @ d) (d \<noteq> []) (c, s')"
proof -
  obtain r1 s1 where b: "ota_begin G s = (r1, s1)" by fastforce
  obtain r2 s2 where w: "ota_write G d fin s1 = (r2, s2)" by fastforce
  obtain r3 n s3 where f: "ota_finish G s2 = ((r3, n), s3)" by (metis prod.exhaust)
  note B = ota_begin_progress [OF law p b]
  consider "r1 \<noteq> 0" | "r1 = 0" "r2 \<noteq> 0" | "r1 = 0" "r2 = 0" by blast
  then show ?thesis
  proof cases
    case 1
    then show ?thesis using c b B by (auto simp: ota_chunk_def ota_ended_def http_codes)
  next
    case 2
    then show ?thesis using c b w ota_write_progress [OF law _ _ w] B
      by (auto simp: ota_chunk_def ota_ended_def http_codes ota_abort_def)
  next
    case 3
    note W = ota_write_progress [OF law _ _ w]
    have P: "ota_progress flashed buffered pending p r (acc @ d) s2" "ota_active s2" "fin \<and> d \<noteq> [] \<longrightarrow> buffered (ota_flash_ctx s2) = []"
      using W [of p r acc] B 3 by auto
    show ?thesis
    proof (cases fin)
      case True
      then show ?thesis using c b w f 3 ota_finish_ended [OF law P(1,2) _ f, of "d \<noteq> []"] P(3) by (auto simp: ota_chunk_def)
    next
      case False
      then show ?thesis using c b w 3 P(1) by (auto simp: ota_chunk_def)
    qed
  qed
qed

lemma ota_chunks_ended:
  assumes law: "flash_lawful G flashed buffered pending"
  shows "ota_progress flashed buffered pending p r acc s \<Longrightarrow>
    ota_ended flashed buffered pending p r (acc @ concat ds @ fin) (fin \<noteq> []) (ota_chunks G ds fin s)"
proof (induction ds arbitrary: acc s)
  case Nil
  obtain c s' where c: "ota_chunk G True fin s = (c, s')" by fastforce
  then show ?case using ota_chunk_ended [OF law Nil c] by (auto split: if_splits)
next
  case (Cons d ds)
  obtain c s' where c: "ota_chunk G False d s = (c, s')" by fastforce
  then show ?case using ota_chunk_ended [OF law Cons.prems c] Cons.IH [of "acc @ d" s']
    by (cases c) (auto simp: ota_ended_def)
qed



end
