(* ===== verification/Http_Bounds.thy ===== *)
theory Http_Bounds
  imports Http_Inv
begin

text \<open>
  The memory of the handlers of app/src/services/http/http_handlers.c: the sizes of their static arrays
  as an invariant of every handler, and what the replies of /shell and /log hold and announce.
\<close>

section \<open>The handlers' arrays\<close>

lemma length_format_into: "0 < length dst \<Longrightarrow> length (fst (format_into dst s)) = length dst"
  by (cases dst) (simp_all add: format_into_def snprintk_def)

lemma format_into_fits: "length s < length dst \<Longrightarrow> format_into dst s = (memcpy dst 0 (s @ [NUL]), length s)"
  by (simp add: format_into_def snprintk_def)

lemma format_into_len: "snd (format_into dst s) = length s"
  by (simp add: format_into_def snprintk_def)

lemma length_json_copy: "i < n \<Longrightarrow> n = length out \<Longrightarrow> length (snd (json_copy n p i out)) = length out"
  by (induction n p i out rule: json_copy.induct) (auto split: list.splits)

lemma length_json_get_string: "0 < length out \<Longrightarrow> length (snd (json_get_string json key out (length out))) = length out"
  by (auto simp: json_get_string_def length_json_copy Let_def split: option.splits prod.splits)

text \<open>The escaper never writes anything but a NUL into the last byte.\<close>

lemma append_json_loop_last:
  "length dst = n \<Longrightarrow> pos < n \<Longrightarrow> dst ! (n - 1) = NUL \<Longrightarrow>
    length (snd (append_json_loop n src pos dst)) = n \<and> snd (append_json_loop n src pos dst) ! (n - 1) = NUL"
proof (induction src arbitrary: pos dst)
  case Nil
  then show ?case by (auto simp: nth_memcpy)
next
  case (Cons c cs)
  let ?e = "json_escape c"
  let ?x = "if length ?e = 6 then ?e @ [NUL] else ?e"
  show ?case
  proof (cases "n \<le> pos + 1 \<or> n \<le> pos + length ?e")
    case True
    then show ?thesis using Cons.prems by (auto simp: append_json_loop_step nth_memcpy simp del: append_json_loop.simps)
  next
    case False
    then have "length (memcpy dst pos ?x) = n" using Cons.prems by auto
    moreover have "memcpy dst pos ?x ! (n - 1) = NUL" using Cons.prems False by (auto simp: nth_memcpy nth_append)
    ultimately show ?thesis using Cons.IH [of "memcpy dst pos ?x" "pos + length ?e"] False
      by (simp add: append_json_loop_step del: append_json_loop.simps)
  qed
qed

definition json_sink :: "nat \<Rightarrow> byte list \<Rightarrow> bool" where
  "json_sink n dst \<longleftrightarrow> length dst = n \<and> 0 < n \<and> dst ! (n - 1) = NUL"

lemma append_json_sink: "json_sink n dst \<Longrightarrow> append_json_string dst (length dst) src k = (m, dst') \<Longrightarrow> json_sink n dst'"
  using append_json_loop_last [of dst n 0 "take k src"] by (auto simp: json_sink_def append_json_string_def)

lemma c_string_less: "NUL \<in> set b \<Longrightarrow> length (c_string b) < length b"
  by (induction b) (auto simp: c_string_def)

lemma json_sink_string: "json_sink n dst \<Longrightarrow> length (c_string dst) < n"
  using c_string_less [of dst] nth_mem [of "n - 1" dst] by (auto simp: json_sink_def)

definition body_ok :: "body_buffer \<Rightarrow> bool" where
  "body_ok bb \<longleftrightarrow> length (bb_body bb) = WEBOS_HTTP_BODY_MAX \<and> bb_cursor bb < WEBOS_HTTP_BODY_MAX"

definition replies_ok :: "('f, 'b, 'i, 'l, 'c) http_state \<Rightarrow> bool" where
  "replies_ok h \<longleftrightarrow> length (root_body h) = 96 \<and> length (health_body h) = 224 \<and> length (push_response h) = 96 \<and>
     length (pushbin_response h) = 96 \<and> length (ota_response h) = 96"

definition bodies_ok :: "('f, 'b, 'i, 'l, 'c) http_state \<Rightarrow> bool" where
  "bodies_ok h \<longleftrightarrow> body_ok (push_buffer h) \<and> body_ok (pushbin_buffer h) \<and> body_ok (shell_buffer h) \<and> body_ok (log_body_buffer h) \<and>
     length (pushbin_path h) = 128 \<and> NUL \<in> set (pushbin_path h)"

definition shell_arrays_ok :: "nat \<Rightarrow> ('f, 'b, 'i, 'l, 'c) http_state \<Rightarrow> bool" where
  "shell_arrays_ok n h \<longleftrightarrow> 0 < n \<and> length (shell_cmd h) = 256 \<and> length (shell_input h) = 256 \<and> length (shell_output h) = n \<and>
     length (shell_response h) = n * 2 + 96 \<and> json_sink (n * 2) (shell_escaped h)"

definition log_arrays_ok :: "('f, 'b, 'i, 'l, 'c) http_state \<Rightarrow> bool" where
  "log_arrays_ok h \<longleftrightarrow> length (log_response h) = WEBOS_HTTP_BODY_MAX \<and> length (log_messages h) = WEBOS_HTTP_BODY_MAX \<and>
     json_sink (WEBOS_HTTP_BODY_MAX * 2) (log_escaped h) \<and> log_inv (h_log h)"

text \<open>
  The invariant of the server: every array has its declared size, a cursor is inside its array, the
  path and the two escaped texts are terminated inside theirs, and the log's ring is well formed.
\<close>

definition http_inv :: "nat \<Rightarrow> ('f, 'b, 'i, 'l, 'c) http_state \<Rightarrow> bool" where
  "http_inv n h \<longleftrightarrow> replies_ok h \<and> bodies_ok h \<and> shell_arrays_ok n h \<and> log_arrays_ok h"

lemmas http_inv_defs = http_inv_def replies_ok_def bodies_ok_def shell_arrays_ok_def log_arrays_ok_def

lemma http_boot_inv: "0 < n \<Longrightarrow> log_inv l \<Longrightarrow> http_inv n (http_boot n f b i l)"
  by (simp add: http_inv_defs http_boot_def body_ok_def empty_body_def json_sink_def WEBOS_HTTP_BODY_MAX_def)

lemma collect_body_ok: "body_ok bb \<Longrightarrow> collect_body status d bb = (e, bb') \<Longrightarrow> body_ok bb'"
  by (auto simp: collect_body_def body_ok_def Let_def WEBOS_HTTP_BODY_MAX_def split: if_splits)

lemma push_complete_inv:
  assumes "http_inv n h"
  shows "http_inv n (snd (push_complete H body h))"
proof -
  obtain f t where "snd (push_complete H body h) = h\<lparr>h_storage := f, push_response := fst (format_into (push_response h) t)\<rparr>"
    unfolding push_complete_def Let_def split_beta by simp
  then show ?thesis using assms by (simp add: http_inv_defs length_format_into)
qed

lemma put_body_inv:
  assumes "http_inv n h"
  shows "body_ok bb \<Longrightarrow> http_inv n (h\<lparr>push_buffer := bb\<rparr>)" "body_ok bb \<Longrightarrow> http_inv n (h\<lparr>shell_buffer := bb\<rparr>)"
    "body_ok bb \<Longrightarrow> http_inv n (h\<lparr>log_body_buffer := bb\<rparr>)" "body_ok bb \<Longrightarrow> http_inv n (h\<lparr>pushbin_buffer := bb\<rparr>)"
  using assms by (simp_all add: http_inv_defs)

lemma http_inv_bodies:
  assumes "http_inv n h"
  shows "body_ok (push_buffer h)" "body_ok (shell_buffer h)" "body_ok (log_body_buffer h)" "body_ok (pushbin_buffer h)"
  using assms by (simp_all add: http_inv_defs)

lemma push_inv: "http_inv n h \<Longrightarrow> http_inv n (snd (push_handler H status rq h))"
  by (rule push_body.handler_keeps) (blast intro: put_body_inv(1) collect_body_ok http_inv_bodies(1), rule push_complete_inv)

lemma root_inv: 
  assumes "http_inv n h"
  shows "http_inv n (snd (root_handler H status rq h))"
proof (cases "status = HTTP_SERVER_REQUEST_DATA_FINAL")
  case True
  then obtain t where "snd (root_handler H status rq h) = h\<lparr>root_body := fst (format_into (root_body h) t)\<rparr>"
    unfolding root_handler_def Let_def split_beta by simp
  then show ?thesis using assms by (simp add: http_inv_defs length_format_into)
qed (use assms in \<open>simp add: root_handler_def\<close>)

lemma health_inv: 
  assumes "http_inv n h"
  shows "http_inv n (snd (health_handler status rq h))"
proof (cases "status = HTTP_SERVER_REQUEST_DATA_FINAL")
  case True
  then obtain t where "snd (health_handler status rq h) = h\<lparr>health_body := fst (format_into (health_body h) t)\<rparr>"
    unfolding health_handler_def Let_def split_beta by simp
  then show ?thesis using assms by (simp add: http_inv_defs length_format_into)
qed (use assms in \<open>simp add: health_handler_def\<close>)

lemma ota_set_inv: "http_inv n h \<Longrightarrow> http_inv n (h\<lparr>h_ota := s\<rparr>)"
  by (simp add: http_inv_defs)

lemma ota_reply_inv: "http_inv n h \<Longrightarrow> http_inv n (snd (ota_reply st t h))"
  by (simp add: ota_reply_def Let_def split_beta http_inv_defs length_format_into)

lemma ota_inv: "http_inv n h \<Longrightarrow> http_inv n (snd (ota_handler H status rq h))"
  unfolding ota_handler_def Let_def split_beta
  by (simp add: ota_set_inv ota_reply_inv del: fst_conv)

section \<open>Files\<close>

lemma path_header_ok: "length p = 128 \<Longrightarrow> NUL \<in> set p \<Longrightarrow> length (path_header hs p) = 128 \<and> NUL \<in> set (path_header hs p)"
  by (induction hs) (auto simp: copy_path_def Let_def split: option.splits)

lemma clear_path_ok: "length p = 128 \<Longrightarrow> length (clear_path p) = 128 \<and> NUL \<in> set (clear_path p)"
  by (cases p) (simp_all add: clear_path_def)

lemma set_path_inv: "http_inv n h \<Longrightarrow> length p = 128 \<Longrightarrow> NUL \<in> set p \<Longrightarrow> http_inv n (h\<lparr>pushbin_path := p\<rparr>)"
  by (simp add: http_inv_defs)

lemma path_length: "http_inv n h \<Longrightarrow> length (pushbin_path h) = 128 \<and> NUL \<in> set (pushbin_path h) \<and> body_ok (pushbin_buffer h)"
  by (simp add: http_inv_defs)

lemma pushbin_write_inv:
  assumes "http_inv n h"
  shows "http_inv n (snd (pushbin_write H h))"
proof -
  have c: "length (clear_path (pushbin_path h)) = 128" "NUL \<in> set (clear_path (pushbin_path h))"
    using assms clear_path_ok by (simp_all add: http_inv_defs)
  have z: "body_ok ((pushbin_buffer h)\<lparr>bb_cursor := 0\<rparr>)" using assms by (simp add: http_inv_defs body_ok_def WEBOS_HTTP_BODY_MAX_def)
  show ?thesis using assms
    by (simp add: pushbin_write_def Let_def split_beta http_inv_defs c z length_format_into)
qed

lemma split_first_take:
  assumes "split_first c (take k b) = Some (p, r)" "k \<le> length b"
  shows "length p + 1 + length r = k"
  using arg_cong [OF conjunct1 [OF split_first_Some [OF assms(1)]], of length] assms(2) by simp

lemma pushbin_split_inv:
  assumes "http_inv n h"
  shows "http_inv n (snd (pushbin_split H h))"
proof -
  let ?bb = "pushbin_buffer h"
  have bb: "body_ok ?bb" using assms by (simp add: http_inv_defs)
  have z: "http_inv n (h\<lparr>pushbin_buffer := ?bb\<lparr>bb_cursor := 0\<rparr>\<rparr>)"
    using bb by (intro put_body_inv [OF assms]) (simp add: body_ok_def WEBOS_HTTP_BODY_MAX_def)
  show ?thesis
  proof (cases "split_first CHR 0x0A (take (bb_cursor ?bb) (bb_body ?bb))")
    case None
    then show ?thesis using z by (simp add: pushbin_split_def)
  next
    case (Some pr)
    obtain p r where pr: "pr = (p, r)" by fastforce
    have l: "length p + 1 + length r = bb_cursor ?bb" "bb_cursor ?bb < length (bb_body ?bb)"
      using split_first_take [OF Some [unfolded pr]] bb by (auto simp: body_ok_def)
    let ?h = "h\<lparr>pushbin_path := (memcpy (pushbin_path h) 0 p)[length p := NUL],
      pushbin_buffer := ?bb\<lparr>bb_body := memcpy (bb_body ?bb) 0 r, bb_cursor := bb_cursor ?bb - (length p + 1)\<rparr>\<rparr>"
    have "http_inv n ?h" if "length p < length (pushbin_path h)"
      using assms bb l that by (auto simp: http_inv_defs body_ok_def set_update_memI)
    then show ?thesis using z Some pr pushbin_write_inv [of n ?h H] by (auto simp: pushbin_split_def Let_def)
  qed
qed

lemma pushbin_inv:
  assumes "http_inv n h"
  shows "http_inv n (snd (pushbin_handler H status rq h))"
proof -
  let ?bb = "pushbin_buffer h"
  define h1 where "h1 = (case rq_headers rq of
      Some hs \<Rightarrow> if pushbin_path h ! 0 = NUL then h\<lparr>pushbin_path := path_header hs (pushbin_path h)\<rparr> else h | None \<Rightarrow> h)"
  have bb: "body_ok ?bb" using assms by (simp add: http_inv_defs)
  have i1: "http_inv n h1" using assms path_header_ok path_length [OF assms] by (auto simp: h1_def intro: set_path_inv split: option.splits)
  have reset: "http_inv n (g\<lparr>pushbin_buffer := ?bb\<lparr>bb_cursor := 0\<rparr>, pushbin_path := clear_path (pushbin_path g)\<rparr>)" if "http_inv n g" for g
    using that bb clear_path_ok [of "pushbin_path g"] by (simp add: http_inv_defs body_ok_def WEBOS_HTTP_BODY_MAX_def)
  define h2 where "h2 = h1\<lparr>pushbin_buffer :=
    ?bb\<lparr>bb_body := memcpy (bb_body ?bb) (bb_cursor ?bb) (rq_data rq), bb_cursor := bb_cursor ?bb + length (rq_data rq)\<rparr>\<rparr>"
  have i2: "http_inv n h2" if "\<not> length (bb_body ?bb) \<le> bb_cursor ?bb + length (rq_data rq)"
    unfolding h2_def using that bb by (intro put_body_inv [OF i1]) (simp add: body_ok_def)
  have "pushbin_handler H status rq h =
    (if status = HTTP_SERVER_TRANSACTION_ABORTED \<or> status = HTTP_SERVER_TRANSACTION_COMPLETE
     then (None, h\<lparr>pushbin_buffer := ?bb\<lparr>bb_cursor := 0\<rparr>, pushbin_path := clear_path (pushbin_path h)\<rparr>)
     else if length (bb_body ?bb) \<le> bb_cursor ?bb + length (rq_data rq)
     then (Some (set_json_response HTTP_413_PAYLOAD_TOO_LARGE (literal (brief_error ''too large'')) 20),
       h1\<lparr>pushbin_buffer := ?bb\<lparr>bb_cursor := 0\<rparr>, pushbin_path := clear_path (pushbin_path h1)\<rparr>)
     else if status \<noteq> HTTP_SERVER_REQUEST_DATA_FINAL then (None, h2)
     else if pushbin_path h2 ! 0 = NUL then pushbin_split H h2 else pushbin_write H h2)"
    unfolding pushbin_handler_def Let_def h1_def h2_def by simp
  then show ?thesis using reset [OF assms] reset [OF i1] i2 pushbin_split_inv [of n h2 H] pushbin_write_inv [of n h2 H] by simp
qed

section \<open>The shell's reply\<close>

lemma shell_outcome_inv:
  assumes "http_inv n h" "\<And>ret out m t b. r = ((ret, Some (out, m, t)), b) \<Longrightarrow> length out = n" "shell_outcome r h = (ret, k, h')"
  shows "http_inv n h'"
  using assms by (auto simp: shell_outcome_def http_inv_defs split: prod.splits option.splits)

lemma shell_output_kept:
  assumes "http_inv n h"
  shows "webos_shell_execute Z c (Some (shell_output h)) (length (shell_output h)) b = ((ret, Some (out, m, t)), b') \<Longrightarrow> length out = n"
    and "webos_shell_push_input Z i k (Some (shell_output h)) (length (shell_output h)) b = ((ret, Some (out, m, t)), b') \<Longrightarrow> length out = n"
proof -
  have l: "0 < length (shell_output h)" "length (shell_output h) = n" using assms by (auto simp: http_inv_defs)
  show "length out = n" if "webos_shell_execute Z c (Some (shell_output h)) (length (shell_output h)) b = ((ret, Some (out, m, t)), b')"
    using shell_execute_bounded [OF l(1) order_refl that] bounded_copy_length l(2) by blast
  show "length out = n" if "webos_shell_push_input Z i k (Some (shell_output h)) (length (shell_output h)) b = ((ret, Some (out, m, t)), b')"
    using shell_push_bounded [OF l(1) order_refl that] bounded_copy_length l(2) by blast
qed

lemma set_text_inv:
  assumes "http_inv n h"
  shows "length c = 256 \<Longrightarrow> http_inv n (h\<lparr>shell_cmd := c\<rparr>)" "length c = 256 \<Longrightarrow> http_inv n (h\<lparr>shell_input := c\<rparr>)"
  using assms by (simp_all add: http_inv_defs)

lemma shell_run_inv:
  assumes i: "http_inv n h" and r: "shell_run Z body h = (ret, k, h')"
  shows "http_inv n h'"
proof -
  obtain r1 c where c: "json_get_string body ''cmd'' (shell_cmd h) (length (shell_cmd h)) = (r1, c)" by fastforce
  obtain r2 p where p: "json_get_string body ''input'' (shell_input h) (length (shell_input h)) = (r2, p)" by fastforce
  have s: "length (shell_cmd h) = 256" "length (shell_input h) = 256" using i by (simp_all add: http_inv_defs)
  have l: "length c = 256" "length p = 256"
    using length_json_get_string [of "shell_cmd h" body "''cmd''"] length_json_get_string [of "shell_input h" body "''input''"] c p
    unfolding s by simp_all
  note ic = set_text_inv(1) [OF i l(1)] and ip = set_text_inv(2) [OF i l(2)]
  have c': "http_inv n h'" if "shell_outcome (webos_shell_execute Z (Some (c_string c)) (Some (shell_output h)) (length (shell_output h)) (h_shell h))
      (h\<lparr>shell_cmd := c\<rparr>) = (ret, k, h')"
    by (rule shell_outcome_inv [OF ic _ that], rule shell_output_kept(1) [OF i])
  have p': "http_inv n h'" if "shell_outcome (webos_shell_push_input Z (Some (c_string p)) (length (c_string p)) (Some (shell_output h))
      (length (shell_output h)) (h_shell h)) (h\<lparr>shell_input := p\<rparr>) = (ret, k, h')"
    by (rule shell_outcome_inv [OF ip _ that], rule shell_output_kept(2) [OF i])
  consider (cmd) "json_has_key body ''cmd''" | (inp) "\<not> json_has_key body ''cmd''" "json_has_key body ''input''"
    | (none) "\<not> json_has_key body ''cmd''" "\<not> json_has_key body ''input''" by blast
  then show ?thesis
  proof cases
    case cmd
    then show ?thesis using r c ic c' by (auto simp: shell_run_def Let_def split: if_splits)
  next
    case inp
    then show ?thesis using r p ip p' by (auto simp: shell_run_def Let_def split: if_splits)
  next
    case none
    then show ?thesis using r i by (auto simp: shell_run_def http_inv_defs)
  qed
qed

lemma shell_complete_inv: "http_inv n h \<Longrightarrow> http_inv n (snd (shell_complete H body h))"
proof -
  assume i: "http_inv n h"
  obtain ret k h1 where r: "shell_run (he_shell H) body h = (ret, k, h1)" by (metis prod.exhaust)
  obtain m e where e: "append_json_string (shell_escaped h1) (length (shell_escaped h1)) (shell_output h1) k = (m, e)" by fastforce
  note i1 = shell_run_inv [OF i r]
  then have "json_sink (n * 2) e" using append_json_sink [OF _ e] by (auto simp: http_inv_defs)
  then show ?thesis using i1 by (simp add: shell_complete_def r e split_beta Let_def http_inv_defs length_format_into)
qed

lemma shell_inv: "http_inv n h \<Longrightarrow> http_inv n (snd (shell_handler H status rq h))"
  by (rule shell_body.handler_keeps) (blast intro: put_body_inv(2) collect_body_ok http_inv_bodies(2), rule shell_complete_inv)

section \<open>The log's reply\<close>

lemma log_read:
  assumes "http_inv n h"
  shows "log_buffer_read (h_log h) (Some (log_messages h)) (length (log_messages h)) =
    (length (take (WEBOS_HTTP_BODY_MAX - 1) (log_contents (h_log h))),
     Some (memcpy (log_messages h) 0 (take (WEBOS_HTTP_BODY_MAX - 1) (log_contents (h_log h)) @ [NUL])))"
  using assms copy_log [of "h_log h" WEBOS_HTTP_BODY_MAX "log_messages h"]
  by (auto simp: http_inv_defs log_buffer_read_def WEBOS_HTTP_BODY_MAX_def log_contents_def)

lemma log_clear_inv: "log_inv s \<Longrightarrow> log_inv (log_buffer_clear s)"
  by (auto simp: log_inv_def ring_ok_def log_buffer_clear_def)

definition log_text :: "string \<Rightarrow> string" where
  "log_text e = ''{'' @ quoted ''messages'' @ '':'' @ quoted e @ ''}'' @ [CHR 0x0A]"

lemma log_complete_eq:
  assumes i: "http_inv n h" and m: "m = take (WEBOS_HTTP_BODY_MAX - 1) (log_contents (h_log h))"
    and e: "append_json_string (log_escaped h) (length (log_escaped h)) (memcpy (log_messages h) 0 (m @ [NUL])) (length m) = (k, e)"
    and r: "format_into (log_response h) (log_text (c_string e)) = (r, len)"
  shows "log_complete body h = (Some (set_json_response HTTP_200_OK r len),
    h\<lparr>log_messages := memcpy (log_messages h) 0 (m @ [NUL]), h_log := if json_has_key body ''clear'' then log_buffer_clear (h_log h) else h_log h,
      log_escaped := e, log_response := r\<rparr>)"
  using e r unfolding log_complete_def log_text_def by (simp add: log_read [OF i, folded m])

lemma log_complete_inv: "http_inv n h \<Longrightarrow> http_inv n (snd (log_complete body h))"
proof -
  assume i: "http_inv n h"
  define m where "m = take (WEBOS_HTTP_BODY_MAX - 1) (log_contents (h_log h))"
  obtain k e where e: "append_json_string (log_escaped h) (length (log_escaped h)) (memcpy (log_messages h) 0 (m @ [NUL])) (length m) = (k, e)" by fastforce
  obtain r len where r: "format_into (log_response h) (log_text (c_string e)) = (r, len)" by fastforce
  have "json_sink (WEBOS_HTTP_BODY_MAX * 2) e" using append_json_sink [OF _ e] i by (auto simp: http_inv_defs)
  moreover have "length (memcpy (log_messages h) 0 (m @ [NUL])) = WEBOS_HTTP_BODY_MAX"
    using i by (simp add: http_inv_defs WEBOS_HTTP_BODY_MAX_def m_def)
  moreover have "0 < length (log_response h)" using i by (simp add: http_inv_defs WEBOS_HTTP_BODY_MAX_def)
  then have "length r = length (log_response h)" using length_format_into [of "log_response h" "log_text (c_string e)"] r by simp
  ultimately show ?thesis using i by (simp add: log_complete_eq [OF i m_def e r] http_inv_defs log_clear_inv)
qed

lemma log_inv_kept: "http_inv n h \<Longrightarrow> http_inv n (snd (log_handler status rq h))"
  by (rule log_body.handler_keeps) (blast intro: put_body_inv(3) collect_body_ok http_inv_bodies(3), rule log_complete_inv)

lemma demo_inv: "log_inv l \<Longrightarrow> http_inv 64 (demo_boot l)"
  by (simp add: demo_boot_def http_boot_inv)

text \<open>
  C15: The server's memory is safe from requests.  Whatever pieces of whatever requests arrive at whatever
  resource, every handler keeps each of its arrays at its declared size and each cursor inside its array,
  and keeps the path and the two escaped texts terminated; so does the state at start-up.
\<close>

theorem http_arrays_safe:
  assumes "0 < n" "log_inv l"
    and "(\<lambda>h h'. \<exists>(url, m, handle)\<in>set (http_resources H). \<exists>status rq. h' = snd (handle status rq h))\<^sup>*\<^sup>* (http_boot n f b i l) h"
  shows "http_inv n h"
  using assms(3)
proof (induction rule: rtranclp_induct)
  case base
  then show ?case by (rule http_boot_inv [OF assms(1,2)])
next
  case (step h h')
  then show ?case
    by (auto simp: http_resources_def root_inv health_inv push_inv pushbin_inv shell_inv log_inv_kept ota_inv)
qed

theorem http_arrays_safe_witness:
  "http_inv 64 (snd (pushbin_handler demo_http HTTP_SERVER_REQUEST_DATA_FINAL \<lparr>rq_data = ''/x'', rq_headers = None\<rparr> (demo_boot (log_state_init 16))))"
proof -
  have l: "log_inv (log_state_init 16 :: (unit, unit) log_state)" by (simp add: init_inv)
  show ?thesis
    by (rule http_arrays_safe [OF _ l, of _ demo_http], simp, rule r_into_rtranclp, unfold demo_boot_def) (auto simp: http_resources_def)
qed

section \<open>What the replies hold\<close>

lemma length_dec_digits: "n < 10 ^ k \<Longrightarrow> 0 < k \<Longrightarrow> length (dec_digits n) \<le> k"
proof (induction k arbitrary: n)
  case (Suc k)
  show ?case
  proof (cases "n < 10")
    case False
    then have "n div 10 < 10 ^ k" "0 < k" using Suc.prems by (auto simp: div_less_iff_less_mult mult.commute intro: gr0I)
    then show ?thesis using Suc.IH [of "n div 10"] False by (simp add: dec_digits.simps [of n])
  qed (simp add: dec_digits.simps [of n])
qed simp

lemma length_dec_int:
  assumes "- (2 ^ 31) \<le> i" "i < 2 ^ 31"
  shows "length (dec_int i) \<le> 11"
proof -
  have "nat (- i) < 10 ^ 10" "nat i < 10 ^ 10" using assms by auto
  then show ?thesis using length_dec_digits [of "nat (- i)" 10] length_dec_digits [of "nat i" 10] by (simp add: dec_int_def)
qed

lemma hex_digit_not_NUL: "k < 16 \<Longrightarrow> hex_digit k \<noteq> NUL"
  by (auto simp: hex_digit_def char_of_eq_iff take_bit_eq_mod)

lemma json_escape_no_NUL: "NUL \<notin> set (json_escape c)"
proof -
  have "byte_val c mod 16 < 16" "byte_val c < 32 \<Longrightarrow> byte_val c div 16 < 16" by auto
  moreover have "c \<noteq> NUL" if "\<not> byte_val c < 32" using that by auto
  ultimately show ?thesis
    using hex_digit_not_NUL [of "byte_val c mod 16"] hex_digit_not_NUL [of "byte_val c div 16"]
    by (auto simp: json_escape_def short_escape_def unicode_escape_def split: if_splits)
qed

lemma json_encode_no_NUL: "NUL \<notin> set (json_encode s)"
  by (induction s) (auto simp: json_escape_no_NUL)

lemma c_string_terminated:
  assumes "NUL \<notin> set s" "take (length s) b = s" "length s < length b" "b ! length s = NUL"
  shows "c_string b = s"
proof -
  have "b = s @ NUL # drop (Suc (length s)) b" using id_take_nth_drop [OF assms(3)] assms(2,4) by simp
  moreover have "takeWhile (\<lambda>c. c \<noteq> NUL) (s @ NUL # x) = s" for x using assms(1) by (induction s) auto
  ultimately show ?thesis unfolding c_string_def by metis
qed

lemma escaped_text:
  assumes "json_sink n dst" "append_json_string dst (length dst) src k = (m, dst')" "length (json_encode (take k src)) < n"
  shows "c_string dst' = json_encode (take k src)"
proof -
  define s where "s = take k src"
  have n: "0 < n" "length dst = n" using assms(1) by (auto simp: json_sink_def)
  have "append_json_loop n s 0 dst = (m, dst')" using assms(2) n by (simp add: append_json_string_def s_def)
  from append_json_loop_spec [OF this n(2,1)] obtain j where j: "take m dst' = take 0 dst @ json_encode (take j s)"
    "m = 0 + length (json_encode (take j s))" "m < n" "length dst' = n" "0 + length (json_encode s) < n \<longrightarrow> j = length s \<and> dst' ! m = NUL" by blast
  have "j = length s \<and> dst' ! m = NUL" using j(5) assms(3) by (simp add: s_def)
  then have "c_string dst' = json_encode s" using j(1-4) by (intro c_string_terminated) (auto simp: json_encode_no_NUL)
  then show ?thesis by (simp add: s_def)
qed

definition shell_text :: "int \<Rightarrow> string \<Rightarrow> string \<Rightarrow> string" where
  "shell_text ret e body = ''{'' @ json_number ''rc'' ret @ '','' @ quoted ''output'' @ '':'' @ quoted e @ '','' @
     quoted ''attached'' @ '':'' @ (if json_has_key body ''cmd'' then ''false'' else ''true'') @ ''}'' @ [CHR 0x0A]"

lemma length_shell_text: "- (2 ^ 31) \<le> ret \<Longrightarrow> ret < 2 ^ 31 \<Longrightarrow> length (shell_text ret e body) < length e + 96"
  using length_dec_int [of ret] by (simp add: shell_text_def json_number_def quoted_def)



text \<open>
  C22: The reply of /log says more than its array holds.  The response announces the length of the whole
  text, which is the log's oldest bytes escaped; the announced bytes are that text exactly when it is
  shorter than the array, and when it is longer the announced length reaches beyond the array, whose
  end is then sent with whatever memory follows it.  The log is emptied exactly when the body names
  the key clear.
\<close>

theorem log_reply_overruns:
  assumes "http_inv n h" "t = log_text (json_encode (take (WEBOS_HTTP_BODY_MAX - 1) (log_contents (h_log h))))"
    and "length (json_encode (take (WEBOS_HTTP_BODY_MAX - 1) (log_contents (h_log h)))) < WEBOS_HTTP_BODY_MAX * 2"
  shows "\<exists>x h'. log_complete body h = (Some x, h') \<and> rsp_body_len x = length t \<and> length (rsp_body x) = WEBOS_HTTP_BODY_MAX \<and>
    (take (rsp_body_len x) (rsp_body x) = t \<longleftrightarrow> length t < WEBOS_HTTP_BODY_MAX) \<and>
    (WEBOS_HTTP_BODY_MAX < length t \<longrightarrow> length (rsp_body x) < rsp_body_len x) \<and>
    log_contents (h_log h') = (if json_has_key body ''clear'' then [] else log_contents (h_log h))"
proof -
  define m where "m = take (WEBOS_HTTP_BODY_MAX - 1) (log_contents (h_log h))"
  let ?M = "memcpy (log_messages h) 0 (m @ [NUL])"
  obtain k e where e: "append_json_string (log_escaped h) (length (log_escaped h)) ?M (length m) = (k, e)" by fastforce
  have s: "json_sink (WEBOS_HTTP_BODY_MAX * 2) (log_escaped h)" "length (log_response h) = WEBOS_HTTP_BODY_MAX" "0 < WEBOS_HTTP_BODY_MAX"
    using assms(1) by (auto simp: http_inv_defs WEBOS_HTTP_BODY_MAX_def)
  have "take (length m) ?M = m" by (simp add: memcpy_def)
  then have c: "c_string e = json_encode m" using escaped_text [OF s(1) e] assms(3) [folded m_def] by simp
  have t: "log_text (c_string e) = t" using assms(2) by (simp add: c m_def)
  obtain r len where r: "format_into (log_response h) (log_text (c_string e)) = (r, len)" by fastforce
  have len: "len = length t" "length r = WEBOS_HTTP_BODY_MAX"
    using format_into_len [of "log_response h" t] length_format_into [of "log_response h" t] s(2,3) r t by auto
  have fits: "take len r = t \<longleftrightarrow> length t < WEBOS_HTTP_BODY_MAX"
  proof (cases "length t < WEBOS_HTTP_BODY_MAX")
    case True
    then show ?thesis using format_into_fits [of t "log_response h"] r t s(2) len by (auto simp: memcpy_def)
  next
    case False
    then have "r ! (WEBOS_HTTP_BODY_MAX - 1) = NUL" using r t s(2,3)
      by (auto simp: format_into_def snprintk_def memcpy_def nth_append)
    moreover have "NUL \<notin> set t" using json_encode_no_NUL assms(2) by (simp add: log_text_def quoted_def)
    ultimately have "take len r \<noteq> t" using False len s(3) by (metis Suc_diff_1 Suc_le_lessD in_set_conv_nth linorder_not_less nth_take)
    then show ?thesis using False by simp
  qed
  show ?thesis
    using log_complete_eq [OF assms(1) m_def e r, of body] len fits
    by (simp add: set_json_response_def log_contents_def log_buffer_clear_def ring_contents_def)
qed

theorem log_reply_overruns_witness:
  "\<exists>l x h'. log_contents l = replicate 4090 CHR ''a'' \<and> log_complete [] (demo_boot l) = (Some x, h') \<and>
     length (rsp_body x) = 4096 \<and> rsp_body_len x = 4106"
proof -
  define l :: "(unit, unit) log_state" where
    "l = \<lparr>log_buf = replicate 4090 CHR ''a'', log_head = 0, log_len = 4090, log_listener = None, log_listener_context = None\<rparr>"
  have l: "log_contents l = replicate 4090 CHR ''a''" "log_inv l"
    by (auto simp: l_def log_contents_def log_inv_def ring_ok_def intro!: nth_equalityI)
  have e: "json_encode (replicate n CHR ''a'') = replicate n CHR ''a''" for n
    by (induction n) (simp_all add: json_escape_def short_escape_def)
  have m: "take (WEBOS_HTTP_BODY_MAX - 1) (log_contents (h_log (demo_boot l))) = replicate 4090 CHR ''a''"
    by (simp add: demo_boot_def http_boot_def l WEBOS_HTTP_BODY_MAX_def)
  show ?thesis
    using log_reply_overruns [OF demo_inv [OF l(2)] refl, of "[]", unfolded m e] l(1)
    by (auto simp: WEBOS_HTTP_BODY_MAX_def log_text_def quoted_def)
qed

end
