(* ===== verification/Http_Client.thy ===== *)
theory Http_Client
  imports Zephyr_Http C_Strings
begin

text \<open>
  app/src/services/http_client/http_client.c: the HTTP and HTTPS requests that applications make.
  Zephyr's URL parser, sockets and HTTP client are a record of functions on a state \<open>'n\<close>; an address
  of the resolver is an element of \<open>'a\<close>.  The callback that collects the response is passed to the
  library's request function as in the source.
\<close>

unbundle bit_operations_syntax

section \<open>Types and constants\<close>

definition WEB_HTTP_CA_TAG :: nat where "WEB_HTTP_CA_TAG = 42"
definition WEB_HTTP_MAX_HOST_LEN :: nat where "WEB_HTTP_MAX_HOST_LEN = 128"
definition WEB_HTTP_MAX_URI_LEN :: nat where "WEB_HTTP_MAX_URI_LEN = 512"
definition WEB_HTTP_MAX_HEADER_LINES :: nat where "WEB_HTTP_MAX_HEADER_LINES = 16"
definition WEB_HTTP_DEFAULT_TIMEOUT_MS :: u32 where "WEB_HTTP_DEFAULT_TIMEOUT_MS = 10000"

definition WEB_HTTP_OK :: int where [errno_simps]: "WEB_HTTP_OK = 0"
definition WEB_HTTP_ERR_INVALID :: int where [errno_simps]: "WEB_HTTP_ERR_INVALID = - 1"
definition WEB_HTTP_ERR_NO_NETWORK :: int where [errno_simps]: "WEB_HTTP_ERR_NO_NETWORK = - 2"
definition WEB_HTTP_ERR_DNS :: int where [errno_simps]: "WEB_HTTP_ERR_DNS = - 3"
definition WEB_HTTP_ERR_CONNECT :: int where [errno_simps]: "WEB_HTTP_ERR_CONNECT = - 4"
definition WEB_HTTP_ERR_TLS :: int where [errno_simps]: "WEB_HTTP_ERR_TLS = - 5"
definition WEB_HTTP_ERR_TIMEOUT :: int where [errno_simps]: "WEB_HTTP_ERR_TIMEOUT = - 6"
definition WEB_HTTP_ERR_TOO_LARGE :: int where [errno_simps]: "WEB_HTTP_ERR_TOO_LARGE = - 7"
definition WEB_HTTP_ERR_IO :: int where [errno_simps]: "WEB_HTTP_ERR_IO = - 8"
definition WEB_HTTP_ERR_DENIED :: int where [errno_simps]: "WEB_HTTP_ERR_DENIED = - 9"
definition WEB_HTTP_ERR_BUSY :: int where [errno_simps]: "WEB_HTTP_ERR_BUSY = - 10"
definition WEB_HTTP_ERR_UNSUPPORTED :: int where [errno_simps]: "WEB_HTTP_ERR_UNSUPPORTED = - 11"

definition WEB_HTTP_RESPONSE_TRUNCATED :: u32 where "WEB_HTTP_RESPONSE_TRUNCATED = 1"
definition WEB_HTTP_RESPONSE_LENGTH_UNKNOWN :: u32 where "WEB_HTTP_RESPONSE_LENGTH_UNKNOWN = 2"
definition UINT16_MAX :: int where "UINT16_MAX = 65535"

record web_http_response =
  struct_size :: u32
  status_code :: u32
  body_len :: u32
  content_length :: u32
  rsp_flags :: u32

record response_context =
  rc_response :: web_http_response
  rc_body :: "byte list option"
  rc_capacity :: u32

record parsed_url =
  pu_host :: "byte list"
  pu_port :: "byte list"
  pu_uri :: "byte list"
  pu_tls :: bool
  pu_explicit_port :: bool

definition parsed_url_zero :: parsed_url where
  "parsed_url_zero =
     \<lparr>pu_host = replicate WEB_HTTP_MAX_HOST_LEN NUL, pu_port = replicate 6 NUL, pu_uri = replicate WEB_HTTP_MAX_URI_LEN NUL,
      pu_tls = False, pu_explicit_port = False\<rparr>"

text \<open>The part of Zephyr's interfaces that the client uses.\<close>

datatype http_parser_url_fields = UF_SCHEMA | UF_HOST | UF_PORT | UF_PATH | UF_QUERY | UF_FRAGMENT | UF_USERINFO

record http_parser_url =
  url_field_set :: "http_parser_url_fields \<Rightarrow> bool"
  url_field_off :: "http_parser_url_fields \<Rightarrow> nat"
  url_field_len :: "http_parser_url_fields \<Rightarrow> nat"
  url_port :: nat

record http_response =
  rsp_http_status_code :: nat
  rsp_cl_present :: bool
  rsp_content_length :: nat
  rsp_body_frag :: "byte list"

record http_request =
  rq_method :: http_method
  rq_url :: string
  rq_host :: string
  rq_port :: "string option"
  rq_header_fields :: "string list"
  rq_payload :: "byte list"

datatype sockopt = SO_RCVTIMEO u32 u32 | SO_SNDTIMEO u32 u32 | TLS_SEC_TAG_LIST "nat list" | TLS_HOSTNAME string | TLS_PEER_VERIFY_REQUIRED

record ('a, 'n) net_api =
  http_parser_parse_url :: "string \<Rightarrow> int \<times> http_parser_url"
  tls_credential_add :: "nat \<Rightarrow> 'n \<Rightarrow> int \<times> 'n"
  request_lock_take :: "'n \<Rightarrow> int \<times> 'n"
  request_lock_give :: "'n \<Rightarrow> 'n"
  zsock_getaddrinfo :: "string \<Rightarrow> string \<Rightarrow> 'n \<Rightarrow> int \<times> 'a list option \<times> 'n"
  zsock_freeaddrinfo :: "'a list \<Rightarrow> 'n \<Rightarrow> 'n"
  zsock_socket :: "'a \<Rightarrow> bool \<Rightarrow> 'n \<Rightarrow> int \<times> 'n"
  zsock_setsockopt :: "int \<Rightarrow> sockopt \<Rightarrow> 'n \<Rightarrow> int \<times> 'n"
  zsock_connect :: "int \<Rightarrow> 'a \<Rightarrow> 'n \<Rightarrow> int \<times> int \<times> 'n"
  zsock_close :: "int \<Rightarrow> 'n \<Rightarrow> 'n"
  http_client_req :: "int \<Rightarrow> http_request \<Rightarrow> u32 \<Rightarrow> (http_response \<Rightarrow> response_context \<Rightarrow> int \<times> response_context) \<Rightarrow>
    response_context \<Rightarrow> 'n \<Rightarrow> int \<times> response_context \<times> 'n"

section \<open>URLs\<close>

definition copy_url_field :: "string \<Rightarrow> http_parser_url \<Rightarrow> http_parser_url_fields \<Rightarrow> byte list \<Rightarrow> int \<times> byte list" where
  "copy_url_field url parsed field output =
     (let off = url_field_off parsed field; len = url_field_len parsed field in
      if len = 0 \<or> length output \<le> len then (- EINVAL, output)
      else (0, (memcpy output 0 (take len (drop off url)))[len := NUL]))"

text \<open>The scheme decides about TLS and the default port.\<close>

definition url_scheme :: "string \<Rightarrow> parsed_url \<Rightarrow> int \<times> parsed_url" where
  "url_scheme scheme u =
     (if strcmp scheme ''https'' = 0 then (0, u\<lparr>pu_tls := True, pu_port := memcpy (pu_port u) 0 (''443'' @ [NUL])\<rparr>)
      else if strcmp scheme ''http'' = 0 then (0, u\<lparr>pu_tls := False, pu_port := memcpy (pu_port u) 0 (''80'' @ [NUL])\<rparr>)
      else (- EPROTONOSUPPORT, u))"

definition url_uri :: "string \<Rightarrow> http_parser_url \<Rightarrow> parsed_url \<Rightarrow> int \<times> parsed_url" where
  "url_uri url parsed u =
     (if url_field_set parsed UF_PATH then
        let uri = drop (url_field_off parsed UF_PATH) url in
        if length (pu_uri u) \<le> length url - url_field_off parsed UF_PATH then (- ENAMETOOLONG, u)
        else (0, u\<lparr>pu_uri := (memcpy (pu_uri u) 0 uri)[length uri := NUL]\<rparr>)
      else if url_field_set parsed UF_QUERY then
        let len = url_field_len parsed UF_QUERY in
        if length (pu_uri u) \<le> len + 2 then (- ENAMETOOLONG, u)
        else (0, u\<lparr>pu_uri := (memcpy (pu_uri u) 0 (''/?'' @ take len (drop (url_field_off parsed UF_QUERY) url)))[len + 2 := NUL]\<rparr>)
      else (0, u\<lparr>pu_uri := memcpy (pu_uri u) 0 (''/'' @ [NUL])\<rparr>))"

definition url_port_field :: "http_parser_url \<Rightarrow> parsed_url \<Rightarrow> int \<times> parsed_url" where
  "url_port_field parsed u =
     (if url_field_set parsed UF_PORT then
        let u = u\<lparr>pu_explicit_port := True\<rparr> in
        if url_port parsed = 0 then (- EINVAL, u)
        else (0, u\<lparr>pu_port := memcpy (pu_port u) 0 (fst (snprintk (length (pu_port u)) (dec_digits (url_port parsed))) @ [NUL])\<rparr>)
      else (0, u))"

definition parse_url :: "('a, 'n) net_api \<Rightarrow> string \<Rightarrow> parsed_url \<Rightarrow> int \<times> parsed_url" where
  "parse_url N url u =
     (if length url = 0 \<or> UINT16_MAX \<le> int (length url) \<or> CHR ''#'' \<in> set url then (- EINVAL, u)
      else
        let (ret, parsed) = http_parser_parse_url N url in
        if ret \<noteq> 0 then (- EINVAL, u)
        else
          let (ret, scheme) = copy_url_field url parsed UF_SCHEMA (replicate 6 NUL) in
          if ret \<noteq> 0 then (ret, u)
          else
            let (ret, u) = url_scheme (c_string scheme) u in
            if ret \<noteq> 0 then (ret, u)
            else if url_field_set parsed UF_USERINFO then (- EINVAL, u)
            else
              let (ret, host) = copy_url_field url parsed UF_HOST (pu_host u); u = u\<lparr>pu_host := host\<rparr> in
              if ret \<noteq> 0 \<or> CHR '':'' \<in> set (c_string host) then (- EINVAL, u)
              else
                let (ret, u) = url_port_field parsed u in
                if ret \<noteq> 0 then (ret, u) else url_uri url parsed u)"

section \<open>Header lines\<close>

definition forbidden_headers :: "string list" where
  "forbidden_headers = [''host'', ''content-length'', ''connection'', ''transfer-encoding'']"

definition is_forbidden_header :: "string \<Rightarrow> bool" where
  "is_forbidden_header name = list_ex (\<lambda>f. length f = length name \<and> map tolower name = map tolower f) forbidden_headers"

definition header_name_char :: "byte \<Rightarrow> bool" where
  "header_name_char c \<longleftrightarrow> (97 \<le> byte_val c \<and> byte_val c \<le> 122) \<or> (65 \<le> byte_val c \<and> byte_val c \<le> 90) \<or>
     (48 \<le> byte_val c \<and> byte_val c \<le> 57) \<or> c = CHR ''-''"

definition header_value_char :: "byte \<Rightarrow> bool" where
  "header_value_char c \<longleftrightarrow> \<not> (byte_val c < 32 \<and> c \<noteq> CHR 0x09) \<and> byte_val c \<noteq> 127"

text \<open>One line, without its end.\<close>

definition header_line_ok :: "string \<Rightarrow> bool" where
  "header_line_ok line =
     (case split_first CHR '':'' line of
        None \<Rightarrow> False
      | Some (name, val) \<Rightarrow> name \<noteq> [] \<and> \<not> is_forbidden_header name \<and> list_all header_name_char name \<and> list_all header_value_char val)"

definition CRLF :: string where "CRLF = [CHR 0x0D, CHR 0x0A]"

lemma rest_shorter: "strstr line CRLF = Some rest \<Longrightarrow> length (drop 2 rest) < length line"
  by (auto dest!: strstr_split simp: CRLF_def prefix_def)

function header_lines :: "nat \<Rightarrow> string \<Rightarrow> int" where
  "header_lines line_count line =
     (if line = [] then 0
      else case strstr line CRLF of
        None \<Rightarrow> - EINVAL
      | Some rest \<Rightarrow>
          let len = length line - length rest in
          if len = 0 \<or> WEB_HTTP_MAX_HEADER_LINES < line_count + 1 then - EINVAL
          else if \<not> header_line_ok (take len line) then - EINVAL
          else header_lines (line_count + 1) (drop 2 rest))"
  by auto
termination
  by (relation "measure (\<lambda>(n, line). length line)") (auto dest: rest_shorter)

declare header_lines.simps [simp del]

definition validate_headers :: "string option \<Rightarrow> int" where
  "validate_headers headers =
     (case headers of None \<Rightarrow> 0 | Some s \<Rightarrow> if s = [] then 0 else header_lines 0 s)"

section \<open>Requests\<close>

definition map_method :: "nat \<Rightarrow> http_method" where
  "map_method m =
     (if m = 0 then HTTP_GET else if m = 1 then HTTP_POST else if m = 2 then HTTP_PUT else if m = 3 then HTTP_DELETE
      else if m = 4 then HTTP_PATCH else if m = 5 then HTTP_HEAD else HTTP_METHOD_END_VALUE)"

definition put_body :: "byte list \<Rightarrow> response_context \<Rightarrow> response_context" where
  "put_body d x =
     x\<lparr>rc_body := map_option (\<lambda>b. memcpy b (unat (body_len (rc_response x))) d) (rc_body x),
       rc_response := (rc_response x)\<lparr>body_len := body_len (rc_response x) + of_nat (length d)\<rparr>\<rparr>"

definition response_cb :: "http_response \<Rightarrow> response_context \<Rightarrow> int \<times> response_context" where
  "response_cb rsp x =
     (let r = (rc_response x)\<lparr>status_code := of_nat (rsp_http_status_code rsp)\<rparr>;
          r = (if rsp_cl_present rsp
               then r\<lparr>content_length := (if unat UINT32_MAX < rsp_content_length rsp then UINT32_MAX else of_nat (rsp_content_length rsp)),
                      rsp_flags := rsp_flags r AND NOT WEB_HTTP_RESPONSE_LENGTH_UNKNOWN\<rparr>
               else r\<lparr>content_length := UINT32_MAX, rsp_flags := rsp_flags r OR WEB_HTTP_RESPONSE_LENGTH_UNKNOWN\<rparr>);
          x = x\<lparr>rc_response := r\<rparr>;
          remaining = unat (rc_capacity x - body_len r)
      in if remaining < length (rsp_body_frag rsp) then
           let x = (if 0 < remaining then put_body (take remaining (rsp_body_frag rsp)) x else x)
           in (- ENOSPC, x\<lparr>rc_response := (rc_response x)\<lparr>rsp_flags := rsp_flags (rc_response x) OR WEB_HTTP_RESPONSE_TRUNCATED\<rparr>\<rparr>)
         else (0, if 0 < length (rsp_body_frag rsp) then put_body (rsp_body_frag rsp) x else x))"

definition map_request_error :: "int \<Rightarrow> bool \<Rightarrow> web_http_response \<Rightarrow> int" where
  "map_request_error ret tls response =
     (if rsp_flags response AND WEB_HTTP_RESPONSE_TRUNCATED \<noteq> 0 \<or> ret = - ENOSPC then WEB_HTTP_ERR_TOO_LARGE
      else if ret = - ETIMEDOUT \<or> ret = - EAGAIN then WEB_HTTP_ERR_TIMEOUT
      else if ret = - ENETDOWN \<or> ret = - ENETUNREACH then WEB_HTTP_ERR_NO_NETWORK
      else if tls \<and> (ret = - ECONNABORTED \<or> ret = - ECONNRESET \<or> ret = - EIO) then WEB_HTTP_ERR_TLS
      else WEB_HTTP_ERR_IO)"

definition webos_http_client_init :: "('a, 'n) net_api \<Rightarrow> 'n \<Rightarrow> int \<times> 'n" where
  "webos_http_client_init N n =
     (let (ret, n) = tls_credential_add N WEB_HTTP_CA_TAG n
      in if ret \<noteq> 0 \<and> ret \<noteq> - EEXIST then (ret, n) else (0, n))"

text \<open>A chain of \<open>zsock_setsockopt\<close> calls joined by \<open>||\<close>: whether all succeeded.\<close>

fun set_options :: "('a, 'n) net_api \<Rightarrow> int \<Rightarrow> sockopt list \<Rightarrow> 'n \<Rightarrow> bool \<times> 'n" where
  "set_options N fd [] n = (True, n)"
| "set_options N fd (x # xs) n =
     (let (ret, n) = zsock_setsockopt N fd x n in if ret < 0 then (False, n) else set_options N fd xs n)"

definition timeout_options :: "u32 \<Rightarrow> sockopt list" where
  "timeout_options ms = [SO_RCVTIMEO (ms div 1000) (ms mod 1000 * 1000), SO_SNDTIMEO (ms div 1000) (ms mod 1000 * 1000)]"

definition tls_options :: "parsed_url \<Rightarrow> sockopt list" where
  "tls_options u = [TLS_SEC_TAG_LIST [WEB_HTTP_CA_TAG], TLS_HOSTNAME (c_string (pu_host u)), TLS_PEER_VERIFY_REQUIRED]"

text \<open>The loop over the addresses: the socket or a negative number, and whether a connection timed out.\<close>

fun connect_loop :: "('a, 'n) net_api \<Rightarrow> parsed_url \<Rightarrow> u32 \<Rightarrow> 'a list \<Rightarrow> int \<Rightarrow> bool \<Rightarrow> 'n \<Rightarrow> int \<times> bool \<times> 'n" where
  "connect_loop N u ms [] fd timed n = (fd, timed, n)"
| "connect_loop N u ms (a # as) fd timed n =
     (let (fd, n) = zsock_socket N a (pu_tls u) n in
      if fd < 0 then connect_loop N u ms as fd timed n
      else
        let (ok, n) = set_options N fd (timeout_options ms) n in
        if \<not> ok then connect_loop N u ms as (- 1) timed (zsock_close N fd n)
        else
          let (ok, n) = (if pu_tls u then set_options N fd (tls_options u) n else (True, n)) in
          if \<not> ok then connect_loop N u ms as (- 1) timed (zsock_close N fd n)
          else
            let (ret, errno, n) = zsock_connect N fd a n in
            if ret = 0 then (fd, timed, n)
            else connect_loop N u ms as (- 1) (timed \<or> errno = ETIMEDOUT \<or> errno = EAGAIN) (zsock_close N fd n))"

text \<open>The request on a connected socket, and the end of the function from the label \<open>cleanup\<close> on.\<close>

definition make_request :: "http_method \<Rightarrow> parsed_url \<Rightarrow> string option \<Rightarrow> byte list \<Rightarrow> http_request" where
  "make_request m u headers payload =
     \<lparr>rq_method = m, rq_url = c_string (pu_uri u), rq_host = c_string (pu_host u),
      rq_port = (if pu_explicit_port u then Some (c_string (pu_port u)) else None),
      rq_header_fields = (case headers of None \<Rightarrow> [] | Some h \<Rightarrow> if h = [] then [] else [h]),
      rq_payload = payload\<rparr>"

definition request_cleanup :: "('a, 'n) net_api \<Rightarrow> int \<Rightarrow> 'a list option \<Rightarrow> 'n \<Rightarrow> 'n" where
  "request_cleanup N fd addresses n =
     (let n = (if 0 \<le> fd then zsock_close N fd n else n);
          n = (case addresses of None \<Rightarrow> n | Some as \<Rightarrow> zsock_freeaddrinfo N as n)
      in request_lock_give N n)"

definition request_on_socket ::
    "('a, 'n) net_api \<Rightarrow> http_method \<Rightarrow> parsed_url \<Rightarrow> string option \<Rightarrow> byte list \<Rightarrow> u32 \<Rightarrow> 'a list \<Rightarrow> response_context \<Rightarrow> 'n \<Rightarrow>
     int \<times> int \<times> response_context \<times> 'n" where
  "request_on_socket N m u headers payload ms as x n =
     (let (fd, timed, n) = connect_loop N u ms as (- 1) False n in
      if fd < 0 then (if timed then WEB_HTTP_ERR_TIMEOUT else if pu_tls u then WEB_HTTP_ERR_TLS else WEB_HTTP_ERR_CONNECT, fd, x, n)
      else
        let (ret, x, n) = http_client_req N fd (make_request m u headers payload) ms response_cb x n
        in (if ret < 0 then map_request_error ret (pu_tls u) (rc_response x) else WEB_HTTP_OK, fd, x, n))"

text \<open>
  The result is the return value, the response and the body array, and the state.  \<open>response\<close> is
  \<open>None\<close> for a null pointer.
\<close>

definition webos_http_request ::
    "('a, 'n) net_api \<Rightarrow> nat \<Rightarrow> string option \<Rightarrow> string option \<Rightarrow> byte list option \<Rightarrow> nat \<Rightarrow> byte list option \<Rightarrow> u32 \<Rightarrow>
     web_http_response option \<Rightarrow> u32 \<Rightarrow> 'n \<Rightarrow> int \<times> web_http_response option \<times> byte list option \<times> 'n" where
  "webos_http_request N m url headers request_body request_body_len response_body response_capacity response timeout_ms n =
     (case (url, response) of
        (Some url, Some r) \<Rightarrow>
          if (0 < request_body_len \<and> request_body = None) \<or> (0 < response_capacity \<and> response_body = None)
          then (WEB_HTTP_ERR_INVALID, response, response_body, n)
          else if map_method m = HTTP_METHOD_END_VALUE then (WEB_HTTP_ERR_UNSUPPORTED, response, response_body, n)
          else
            let (ret, u) = parse_url N url parsed_url_zero in
            if ret = - EPROTONOSUPPORT then (WEB_HTTP_ERR_UNSUPPORTED, response, response_body, n)
            else if ret \<noteq> 0 \<or> validate_headers headers \<noteq> 0 then (WEB_HTTP_ERR_INVALID, response, response_body, n)
            else
              let ms = (if timeout_ms = 0 then WEB_HTTP_DEFAULT_TIMEOUT_MS else timeout_ms);
                  r = r\<lparr>status_code := 0, body_len := 0, content_length := UINT32_MAX, rsp_flags := WEB_HTTP_RESPONSE_LENGTH_UNKNOWN\<rparr>;
                  (ret, n) = request_lock_take N n
              in if ret \<noteq> 0 then (WEB_HTTP_ERR_BUSY, Some r, response_body, n)
                 else
                   let (ret, addresses, n) = zsock_getaddrinfo N (c_string (pu_host u)) (c_string (pu_port u)) n;
                       x = \<lparr>rc_response = r, rc_body = response_body, rc_capacity = response_capacity\<rparr>
                   in case addresses of
                        None \<Rightarrow> (WEB_HTTP_ERR_DNS, Some r, response_body, request_cleanup N (- 1) None n)
                      | Some as \<Rightarrow>
                          if ret \<noteq> 0 then (WEB_HTTP_ERR_DNS, Some r, response_body, request_cleanup N (- 1) addresses n)
                          else
                            let (ret, fd, x, n) = request_on_socket N (map_method m) u headers (bytes_of request_body request_body_len) ms as x n
                            in (ret, Some (rc_response x), rc_body x, request_cleanup N fd addresses n)
      | _ \<Rightarrow> (WEB_HTTP_ERR_INVALID, response, response_body, n))"

end
