(* ===== verification/Iwasm.thy ===== *)
theory Iwasm
  imports App_Context App_Storage Http_Client Adb_Wire
begin

text \<open>
  app/src/services/iwasm/iwasm.c: the WebAssembly runtime's host side.  The runtime (WAMR), the external
  heap and the kernel's heap are parameters.  Memory that a module shares with the host is a function
  from addresses to bytes; a pointer is an address or \<open>None\<close>, and a string argument is the string the
  runtime checked.  Running a module is a function on the whole state, because the module calls back
  into the host.  Log lines are kept as a list.
\<close>

section \<open>State\<close>

record mem_header =
  hdr_raw :: nat
  hdr_size :: nat

record iwasm_exec_request =
  xr_shell :: nat
  xr_path :: string
  xr_argv :: "string list"
  xr_result :: int

text \<open>
  \<open>'f\<close> is the file system, \<open>'n\<close> the network, \<open>'r\<close> the runtime and \<open>'m\<close> the external heap.  \<open>iw_live\<close>
  counts the blocks taken from the kernel's heap.
\<close>

record ('f, 'n, 'r, 'm) iwasm =
  runtime_ready :: bool
  active_shell :: "nat option"
  exec_locked :: bool
  exec_request_ready :: nat
  exec_request_done :: nat
  exec_request :: iwasm_exec_request
  thread_env_ready :: bool
  iw_fs :: 'f
  iw_net :: 'n
  iw_rt :: 'r
  iw_eh :: 'm
  iw_ram :: "nat \<Rightarrow> byte"
  iw_headers :: "nat \<Rightarrow> mem_header"
  iw_context :: "webos_app_context option"
  iw_live :: nat
  iw_log :: "(nat \<times> string \<times> byte list) list"

record ('f, 'a, 'n, 'r, 'm) iwasm_env =
  ie_fs :: "'f app_fs"
  ie_net :: "('a, 'n) net_api"
  WASM_HTTP_MAX_URL_LEN :: nat
  WASM_HTTP_MAX_HEADERS_LEN :: nat
  WASM_HTTP_MAX_REQUEST_BODY :: nat
  WASM_HTTP_MAX_RESPONSE_BODY :: nat
  WASM_HTTP_MAX_TIMEOUT_MS :: nat
  ie_malloc_ok :: "nat \<Rightarrow> nat \<Rightarrow> bool"
  shared_multi_heap_aligned_alloc :: "nat \<Rightarrow> 'm \<Rightarrow> nat option \<times> 'm"
  shared_multi_heap_free :: "nat \<Rightarrow> 'm \<Rightarrow> 'm"
  wasm_runtime_full_init :: "string list \<Rightarrow> 'r \<Rightarrow> bool \<times> 'r"
  wasm_runtime_init_thread_env :: "'r \<Rightarrow> bool \<times> 'r"
  wasm_runtime_validate_native_addr :: "'r \<Rightarrow> nat \<Rightarrow> nat \<Rightarrow> bool"
  wasm_runtime_load :: "byte list \<Rightarrow> 'r \<Rightarrow> nat option \<times> 'r"
  wasm_runtime_get_custom_section :: "nat \<Rightarrow> string \<Rightarrow> 'r \<Rightarrow> byte list option"
  wasm_runtime_instantiate :: "nat \<Rightarrow> u32 \<Rightarrow> u32 \<Rightarrow> 'r \<Rightarrow> nat option \<times> 'r"
  wasm_runtime_deinstantiate :: "nat \<Rightarrow> 'r \<Rightarrow> 'r"
  wasm_runtime_unload :: "nat \<Rightarrow> 'r \<Rightarrow> 'r"
  wasm_application_execute_main :: "nat \<Rightarrow> string list \<Rightarrow> ('f, 'n, 'r, 'm) iwasm \<Rightarrow> bool \<times> ('f, 'n, 'r, 'm) iwasm"

definition peek :: "nat \<Rightarrow> nat \<Rightarrow> ('f, 'n, 'r, 'm) iwasm \<Rightarrow> byte list" where
  "peek a n s = map (iw_ram s) [a..<a + n]"

definition poke :: "nat \<Rightarrow> byte list \<Rightarrow> ('f, 'n, 'r, 'm) iwasm \<Rightarrow> ('f, 'n, 'r, 'm) iwasm" where
  "poke a bs s = s\<lparr>iw_ram := (\<lambda>i. if a \<le> i \<and> i < a + length bs then bs ! (i - a) else iw_ram s i)\<rparr>"

section \<open>The runtime's allocator\<close>

text \<open>A header of two words of four bytes precedes a block; sizes are computed in 32 bits.\<close>

definition HEADER_SZ :: nat where "HEADER_SZ = 8"

definition iwasm_malloc ::
    "('f, 'a, 'n, 'r, 'm) iwasm_env \<Rightarrow> u32 \<Rightarrow> ('f, 'n, 'r, 'm) iwasm \<Rightarrow> nat option \<times> ('f, 'n, 'r, 'm) iwasm" where
  "iwasm_malloc E sz s =
     (let total = word_of_nat HEADER_SZ + sz; (raw, m) = shared_multi_heap_aligned_alloc E (unat total) (iw_eh s); s = s\<lparr>iw_eh := m\<rparr> in
      case raw of
        None \<Rightarrow> (None, s)
      | Some raw \<Rightarrow> (Some (raw + HEADER_SZ), s\<lparr>iw_headers := (iw_headers s)(raw := \<lparr>hdr_raw = raw, hdr_size = unat sz\<rparr>)\<rparr>))"

definition iwasm_free :: "('f, 'a, 'n, 'r, 'm) iwasm_env \<Rightarrow> nat option \<Rightarrow> ('f, 'n, 'r, 'm) iwasm \<Rightarrow> ('f, 'n, 'r, 'm) iwasm" where
  "iwasm_free E ptr s =
     (case ptr of
        None \<Rightarrow> s
      | Some p \<Rightarrow> s\<lparr>iw_eh := shared_multi_heap_free E (hdr_raw (iw_headers s (p - HEADER_SZ))) (iw_eh s)\<rparr>)"

definition iwasm_realloc ::
    "('f, 'a, 'n, 'r, 'm) iwasm_env \<Rightarrow> nat option \<Rightarrow> u32 \<Rightarrow> ('f, 'n, 'r, 'm) iwasm \<Rightarrow> nat option \<times> ('f, 'n, 'r, 'm) iwasm" where
  "iwasm_realloc E ptr sz s =
     (case ptr of
        None \<Rightarrow> iwasm_malloc E sz s
      | Some p \<Rightarrow>
          if sz = 0 then (None, iwasm_free E ptr s)
          else
            let old_size = hdr_size (iw_headers s (p - HEADER_SZ)); (new_ptr, s) = iwasm_malloc E sz s in
            case new_ptr of
              None \<Rightarrow> (None, s)
            | Some q \<Rightarrow> (Some q, iwasm_free E ptr (poke q (peek p (min old_size (unat sz)) s) s)))"

section \<open>Host functions\<close>

definition valid_range :: "('f, 'a, 'n, 'r, 'm) iwasm_env \<Rightarrow> nat option \<Rightarrow> u32 \<Rightarrow> ('f, 'n, 'r, 'm) iwasm \<Rightarrow> bool" where
  "valid_range E data len s \<longleftrightarrow> len = 0 \<or> (data \<noteq> None \<and> wasm_runtime_validate_native_addr E (iw_rt s) (the data) (unat len))"

definition bytes_at :: "nat option \<Rightarrow> u32 \<Rightarrow> ('f, 'n, 'r, 'm) iwasm \<Rightarrow> byte list" where
  "bytes_at data len s = (case data of None \<Rightarrow> [] | Some a \<Rightarrow> peek a (unat len) s)"

definition WEBOS_LOG_INFO :: nat where "WEBOS_LOG_INFO = 3"

text \<open>The level other than error, warning and debug is information.\<close>

definition host_webos_log ::
    "('f, 'a, 'n, 'r, 'm) iwasm_env \<Rightarrow> nat \<Rightarrow> nat option \<Rightarrow> u32 \<Rightarrow> ('f, 'n, 'r, 'm) iwasm \<Rightarrow> ('f, 'n, 'r, 'm) iwasm" where
  "host_webos_log E level data len s =
     (case iw_context s of
        None \<Rightarrow> s
      | Some x \<Rightarrow>
          if max_io_bytes x < len \<or> \<not> valid_range E data len s then s
          else s\<lparr>iw_log := iw_log s @ [(if level \<in> {1, 2, 4} then level else WEBOS_LOG_INFO, app_id x,
                   if len = 0 then [] else bytes_at data len s)]\<rparr>)"

definition host_webos_write ::
    "('f, 'a, 'n, 'r, 'm) iwasm_env \<Rightarrow> string option \<Rightarrow> nat option \<Rightarrow> u32 \<Rightarrow> ('f, 'n, 'r, 'm) iwasm \<Rightarrow> int \<times> ('f, 'n, 'r, 'm) iwasm" where
  "host_webos_write E path data len s =
     (case iw_context s of
        None \<Rightarrow> (WEBOS_TOO_LARGE, s)
      | Some x \<Rightarrow>
          if max_io_bytes x < len then (WEBOS_TOO_LARGE, s)
          else if \<not> webos_app_path_allowed (Some x) path then (WEBOS_DENIED, s)
          else if \<not> valid_range E data len s then (WEBOS_INVALID, s)
          else
            let flags = FS_O_CREATE + FS_O_WRITE + (if strncmp (the path) ''/dev/'' 5 \<noteq> 0 then FS_O_TRUNC else 0);
                (ret, h, f) = fs_open (ie_fs E) (the path) flags (iw_fs s);
                (ret, f) = (if ret = 0 then fs_write (ie_fs E) h (bytes_at data len s) f else (ret, f));
                f = (if fs_filep (ie_fs E) h f then snd (fs_close (ie_fs E) h f) else f)
            in (webos_abi_map_errno ret, s\<lparr>iw_fs := f\<rparr>))"

definition host_webos_read ::
    "('f, 'a, 'n, 'r, 'm) iwasm_env \<Rightarrow> string option \<Rightarrow> nat option \<Rightarrow> u32 \<Rightarrow> ('f, 'n, 'r, 'm) iwasm \<Rightarrow> int \<times> ('f, 'n, 'r, 'm) iwasm" where
  "host_webos_read E path data capacity s =
     (case iw_context s of
        None \<Rightarrow> (WEBOS_TOO_LARGE, s)
      | Some x \<Rightarrow>
          if max_io_bytes x < capacity then (WEBOS_TOO_LARGE, s)
          else if \<not> webos_app_path_allowed (Some x) path then (WEBOS_DENIED, s)
          else if \<not> valid_range E data capacity s then (WEBOS_INVALID, s)
          else
            let (ret, h, f) = fs_open (ie_fs E) (the path) FS_O_READ (iw_fs s);
                (ret, bs, f) = (if ret = 0 then fs_read (ie_fs E) h (unat capacity) f else (ret, [], f));
                s = (case data of None \<Rightarrow> s | Some a \<Rightarrow> poke a bs s);
                f = (if fs_filep (ie_fs E) h f then snd (fs_close (ie_fs E) h f) else f)
            in (webos_abi_map_errno ret, s\<lparr>iw_fs := f\<rparr>))"

definition host_webos_ready :: "int \<Rightarrow> ('f, 'n, 'r, 'm) iwasm \<Rightarrow> ('f, 'n, 'r, 'm) iwasm" where
  "host_webos_ready now s = s\<lparr>iw_context := webos_app_mark_ready (iw_context s) now\<rparr>"

definition host_webos_heartbeat :: "int \<Rightarrow> ('f, 'n, 'r, 'm) iwasm \<Rightarrow> ('f, 'n, 'r, 'm) iwasm" where
  "host_webos_heartbeat now s = s\<lparr>iw_context := webos_app_mark_heartbeat (iw_context s) now\<rparr>"

text \<open>Sleeping changes nothing that is modelled; the pre-v1 names call the functions above.\<close>

definition host_webos_sleep_ms :: "nat \<Rightarrow> ('f, 'n, 'r, 'm) iwasm \<Rightarrow> ('f, 'n, 'r, 'm) iwasm" where
  "host_webos_sleep_ms ms s = s"

definition log_print ::
    "('f, 'a, 'n, 'r, 'm) iwasm_env \<Rightarrow> (nat \<times> string) option \<Rightarrow> ('f, 'n, 'r, 'm) iwasm \<Rightarrow> ('f, 'n, 'r, 'm) iwasm" where
  "log_print E msg s =
     host_webos_log E WEBOS_LOG_INFO (map_option fst msg) (case msg of None \<Rightarrow> 0 | Some (_, text_arg) \<Rightarrow> word_of_nat (length text_arg)) s"

text \<open>The response record in the memory of the module.\<close>

definition RESPONSE_SIZE :: nat where "RESPONSE_SIZE = 20"

definition load_response :: "nat \<Rightarrow> ('f, 'n, 'r, 'm) iwasm \<Rightarrow> web_http_response" where
  "load_response a s =
     \<lparr>struct_size = sys_get_le32 (peek a 4 s), status_code = sys_get_le32 (peek (a + 4) 4 s), body_len = sys_get_le32 (peek (a + 8) 4 s),
      content_length = sys_get_le32 (peek (a + 12) 4 s), rsp_flags = sys_get_le32 (peek (a + 16) 4 s)\<rparr>"

definition store_response :: "nat \<Rightarrow> web_http_response \<Rightarrow> ('f, 'n, 'r, 'm) iwasm \<Rightarrow> ('f, 'n, 'r, 'm) iwasm" where
  "store_response a r s =
     poke a (sys_put_le32 (struct_size r) @ sys_put_le32 (status_code r) @ sys_put_le32 (body_len r) @
       sys_put_le32 (content_length r) @ sys_put_le32 (rsp_flags r)) s"

text \<open>The arguments of a request, and the checks before anything is copied.\<close>

record http_call =
  hc_method :: nat
  hc_url :: "nat option"
  hc_url_len :: u32
  hc_headers :: "nat option"
  hc_headers_len :: u32
  hc_body :: "nat option"
  hc_body_len :: u32
  hc_response_body :: "nat option"
  hc_response_capacity :: u32
  hc_response :: "nat option"
  hc_response_size :: u32
  hc_timeout_ms :: u32

definition http_limits_ok :: "('f, 'a, 'n, 'r, 'm) iwasm_env \<Rightarrow> http_call \<Rightarrow> bool" where
  "http_limits_ok E q \<longleftrightarrow>
     \<not> (hc_url q = None \<or> hc_url_len q = 0 \<or> WASM_HTTP_MAX_URL_LEN E < unat (hc_url_len q) \<or>
        WASM_HTTP_MAX_HEADERS_LEN E < unat (hc_headers_len q) \<or> WASM_HTTP_MAX_REQUEST_BODY E < unat (hc_body_len q) \<or>
        WASM_HTTP_MAX_RESPONSE_BODY E < unat (hc_response_capacity q) \<or> unat (hc_response_size q) < RESPONSE_SIZE \<or>
        WASM_HTTP_MAX_TIMEOUT_MS E < unat (hc_timeout_ms q))"

definition http_ranges_ok :: "('f, 'a, 'n, 'r, 'm) iwasm_env \<Rightarrow> http_call \<Rightarrow> ('f, 'n, 'r, 'm) iwasm \<Rightarrow> bool" where
  "http_ranges_ok E q s \<longleftrightarrow>
     wasm_runtime_validate_native_addr E (iw_rt s) (the (hc_url q)) (unat (hc_url_len q)) \<and>
     valid_range E (hc_headers q) (hc_headers_len q) s \<and> valid_range E (hc_body q) (hc_body_len q) s \<and>
     valid_range E (hc_response_body q) (hc_response_capacity q) s \<and>
     hc_response q \<noteq> None \<and> wasm_runtime_validate_native_addr E (iw_rt s) (the (hc_response q)) RESPONSE_SIZE"

definition http_overlap :: "http_call \<Rightarrow> bool" where
  "http_overlap q \<longleftrightarrow>
     (let response_start = the (hc_response q); response_end = response_start + RESPONSE_SIZE;
          body_start = (case hc_response_body q of None \<Rightarrow> 0 | Some a \<Rightarrow> a); body_end = body_start + unat (hc_response_capacity q)
      in 0 < hc_response_capacity q \<and> response_start < body_end \<and> body_start < response_end)"

definition http_refusal :: "('f, 'a, 'n, 'r, 'm) iwasm_env \<Rightarrow> http_call \<Rightarrow> ('f, 'n, 'r, 'm) iwasm \<Rightarrow> int option" where
  "http_refusal E q s =
     (if \<not> http_limits_ok E q then Some WEB_HTTP_ERR_INVALID
      else if \<not> http_ranges_ok E q s then Some WEB_HTTP_ERR_INVALID
      else if http_overlap q then Some WEB_HTTP_ERR_INVALID
      else if NUL \<in> set (bytes_at (hc_url q) (hc_url_len q) s) \<or> NUL \<in> set (bytes_at (hc_headers q) (hc_headers_len q) s) then Some WEB_HTTP_ERR_INVALID
      else if \<not> webos_app_url_allowed (iw_context s) (Some (bytes_at (hc_url q) (hc_url_len q) s)) (unat (hc_url_len q)) then Some WEB_HTTP_ERR_DENIED
      else if unat (struct_size (load_response (the (hc_response q)) s)) < RESPONSE_SIZE then Some WEB_HTTP_ERR_INVALID
      else None)"

definition k_malloc :: "('f, 'a, 'n, 'r, 'm) iwasm_env \<Rightarrow> nat \<Rightarrow> ('f, 'n, 'r, 'm) iwasm \<Rightarrow> bool \<times> ('f, 'n, 'r, 'm) iwasm" where
  "k_malloc E n s = (if ie_malloc_ok E (iw_live s) n then (True, s\<lparr>iw_live := iw_live s + 1\<rparr>) else (False, s))"

definition k_free :: "('f, 'n, 'r, 'm) iwasm \<Rightarrow> ('f, 'n, 'r, 'm) iwasm" where
  "k_free s = s\<lparr>iw_live := iw_live s - 1\<rparr>"

text \<open>The request with its copies of the URL and the headers made.\<close>

definition http_forward :: "('f, 'a, 'n, 'r, 'm) iwasm_env \<Rightarrow> http_call \<Rightarrow> ('f, 'n, 'r, 'm) iwasm \<Rightarrow> int \<times> ('f, 'n, 'r, 'm) iwasm" where
  "http_forward E q s =
     (let url_copy = bytes_at (hc_url q) (hc_url_len q) s;
          headers_copy = (if 0 < hc_headers_len q then Some (bytes_at (hc_headers q) (hc_headers_len q) s) else None);
          (ret, r, body, n) = webos_http_request (ie_net E) (hc_method q) (Some url_copy) headers_copy
            (map_option (\<lambda>_. bytes_at (hc_body q) (hc_body_len q) s) (hc_body q)) (unat (hc_body_len q))
            (map_option (\<lambda>_. bytes_at (hc_response_body q) (hc_response_capacity q) s) (hc_response_body q)) (hc_response_capacity q)
            (Some (load_response (the (hc_response q)) s)) (hc_timeout_ms q) (iw_net s);
          s = s\<lparr>iw_net := n\<rparr>;
          s = (case (hc_response_body q, body) of (Some a, Some b) \<Rightarrow> poke a b s | _ \<Rightarrow> s)
      in (ret, store_response (the (hc_response q)) (the r) s))"

definition host_web_http_request :: "('f, 'a, 'n, 'r, 'm) iwasm_env \<Rightarrow> http_call \<Rightarrow> ('f, 'n, 'r, 'm) iwasm \<Rightarrow> int \<times> ('f, 'n, 'r, 'm) iwasm" where
  "host_web_http_request E q s =
     (case http_refusal E q s of
        Some e \<Rightarrow> (e, s)
      | None \<Rightarrow>
          let (ok, s) = k_malloc E (unat (hc_url_len q) + 1) s in
          if \<not> ok then (WEB_HTTP_ERR_BUSY, s)
          else
            let (ok, s) = (if 0 < hc_headers_len q then k_malloc E (unat (hc_headers_len q) + 1) s else (True, s)) in
            if \<not> ok then (WEB_HTTP_ERR_BUSY, k_free s)
            else let (ret, s) = http_forward E q s in (ret, k_free (if 0 < hc_headers_len q then k_free s else s)))"

definition native_symbols :: "string list" where
  "native_symbols = [''webos_log'', ''webos_sleep_ms'', ''webos_write'', ''webos_read'', ''webos_ready'', ''webos_heartbeat'',
     ''sleep_ms'', ''log_print'', ''dev_fs_write'', ''dev_fs_read'', ''web_http_request'']"

section \<open>Running a module\<close>

definition iwasm_init :: "('f, 'a, 'n, 'r, 'm) iwasm_env \<Rightarrow> ('f, 'n, 'r, 'm) iwasm \<Rightarrow> int \<times> ('f, 'n, 'r, 'm) iwasm" where
  "iwasm_init E s =
     (let (ok, r) = wasm_runtime_full_init E native_symbols (iw_rt s); s = s\<lparr>iw_rt := r\<rparr>
      in if \<not> ok then (- EIO, s) else (0, s\<lparr>runtime_ready := True\<rparr>))"

definition validate_module_abi :: "('f, 'a, 'n, 'r, 'm) iwasm_env \<Rightarrow> nat \<Rightarrow> 'r \<Rightarrow> int" where
  "validate_module_abi E module_ptr r =
     (case wasm_runtime_get_custom_section E module_ptr ''.custom_section.webos.abi'' r of
        None \<Rightarrow> WEBOS_UNSUPPORTED
      | Some metadata \<Rightarrow> if length metadata \<noteq> 4 then WEBOS_UNSUPPORTED else webos_abi_check_version (sys_get_le32 metadata))"

definition shell_app_context :: "webos_app_context \<Rightarrow> webos_app_context" where
  "shell_app_context x =
     x\<lparr>path_grants := (path_grants x)[0 := Some ''/dev'', 1 := Some ''/STORAGE:/apps''], path_grant_count := 2,
       http_origins := (http_origins x)[0 := Some ''*''], http_origin_count := 1\<rparr>"

text \<open>The part between \<open>wasm_runtime_instantiate\<close> and the label \<open>cleanup_instance\<close>.\<close>

definition run_instance ::
    "('f, 'a, 'n, 'r, 'm) iwasm_env \<Rightarrow> nat \<Rightarrow> nat \<Rightarrow> string list \<Rightarrow> ('f, 'n, 'r, 'm) iwasm \<Rightarrow> int \<times> ('f, 'n, 'r, 'm) iwasm" where
  "run_instance E sh inst argv s =
     (let (ret, context) = webos_app_context_init (Some app_context_zero) (Some ''shell-app'') (Some ''development'') in
      if ret \<noteq> WEBOS_OK then (ret, s)
      else
        let s = s\<lparr>iw_context := Some (shell_app_context (the context)), active_shell := Some sh\<rparr>;
            (ok, s) = wasm_application_execute_main E inst argv s;
            s = s\<lparr>active_shell := None\<rparr>
        in (if ok then 0 else - EIO, s))"

text \<open>From \<open>wasm_runtime_load\<close> to the label \<open>cleanup_buf\<close>.\<close>

definition run_module ::
    "('f, 'a, 'n, 'r, 'm) iwasm_env \<Rightarrow> nat \<Rightarrow> byte list \<Rightarrow> string list \<Rightarrow> ('f, 'n, 'r, 'm) iwasm \<Rightarrow> int \<times> ('f, 'n, 'r, 'm) iwasm" where
  "run_module E sh image_bytes argv s =
     (let (m, r) = wasm_runtime_load E image_bytes (iw_rt s); s = s\<lparr>iw_rt := r\<rparr> in
      case m of
        None \<Rightarrow> (- EINVAL, s)
      | Some m \<Rightarrow>
          let ret = validate_module_abi E m (iw_rt s);
              (ret, s) =
                (if ret \<noteq> WEBOS_OK then (ret, s)
                 else
                   let (inst, r) = wasm_runtime_instantiate E m 65536 65536 (iw_rt s); s = s\<lparr>iw_rt := r\<rparr> in
                   case inst of
                     None \<Rightarrow> (- EINVAL, s)
                   | Some i \<Rightarrow> let (ret, s) = run_instance E sh i argv s in (ret, s\<lparr>iw_rt := wasm_runtime_deinstantiate E i (iw_rt s)\<rparr>))
          in (ret, s\<lparr>iw_rt := wasm_runtime_unload E m (iw_rt s)\<rparr>))"

definition close_file :: "('f, 'a, 'n, 'r, 'm) iwasm_env \<Rightarrow> nat \<Rightarrow> ('f, 'n, 'r, 'm) iwasm \<Rightarrow> ('f, 'n, 'r, 'm) iwasm" where
  "close_file E h s = s\<lparr>iw_fs := snd (fs_close (ie_fs E) h (iw_fs s))\<rparr>"

definition iwasm_exec_file ::
    "('f, 'a, 'n, 'r, 'm) iwasm_env \<Rightarrow> nat \<Rightarrow> string \<Rightarrow> string list \<Rightarrow> ('f, 'n, 'r, 'm) iwasm \<Rightarrow> int \<times> ('f, 'n, 'r, 'm) iwasm" where
  "iwasm_exec_file E sh path argv s =
     (if \<not> runtime_ready s then (- EIO, s)
      else
        let (ret, h, f) = fs_open (ie_fs E) path FS_O_READ (iw_fs s); s = s\<lparr>iw_fs := f\<rparr> in
        if ret \<noteq> 0 then (ret, s)
        else
          let (ret, f) = fs_seek (ie_fs E) h 0 FS_SEEK_END (iw_fs s); s = s\<lparr>iw_fs := f\<rparr> in
          if ret \<noteq> 0 then (ret, close_file E h s)
          else
            let file_size = fs_tell (ie_fs E) h (iw_fs s) in
            if file_size \<le> 0 then (- EINVAL, close_file E h s)
            else
              let s = s\<lparr>iw_fs := snd (fs_seek (ie_fs E) h 0 FS_SEEK_SET (iw_fs s))\<rparr>; (buf, s) = iwasm_malloc E (word_of_int file_size) s in
              case buf of
                None \<Rightarrow> (- ENOMEM, close_file E h s)
              | Some b \<Rightarrow>
                  let (ret, bs, f) = fs_read (ie_fs E) h (nat file_size) (iw_fs s); s = poke b bs (close_file E h (s\<lparr>iw_fs := f\<rparr>));
                      (ret, s) = (if ret < 0 then (ret, s) else run_module E sh (peek b (nat file_size) s) argv s)
                  in (ret, iwasm_free E buf s))"

section \<open>The execution thread and the command\<close>

text \<open>One round of the thread's loop, which begins when it has taken the semaphore.\<close>

definition iwasm_exec_thread :: "('f, 'a, 'n, 'r, 'm) iwasm_env \<Rightarrow> ('f, 'n, 'r, 'm) iwasm \<Rightarrow> ('f, 'n, 'r, 'm) iwasm" where
  "iwasm_exec_thread E s =
     (let s = s\<lparr>exec_request_ready := exec_request_ready s - 1\<rparr>;
          s = (if thread_env_ready s then s
               else let (ok, r) = wasm_runtime_init_thread_env E (iw_rt s) in s\<lparr>thread_env_ready := ok, iw_rt := r\<rparr>);
          (ret, s) = (if thread_env_ready s
                      then iwasm_exec_file E (xr_shell (exec_request s)) (xr_path (exec_request s)) (xr_argv (exec_request s)) s
                      else (- EIO, s))
      in s\<lparr>exec_request := (exec_request s)\<lparr>xr_result := ret\<rparr>, exec_request_done := 1\<rparr>)"

definition cmd_begin :: "nat \<Rightarrow> string list \<Rightarrow> ('f, 'n, 'r, 'm) iwasm \<Rightarrow> ('f, 'n, 'r, 'm) iwasm" where
  "cmd_begin sh argv s =
     s\<lparr>exec_locked := True, exec_request := (exec_request s)\<lparr>xr_shell := sh, xr_path := argv ! 1, xr_argv := drop 1 argv\<rparr>,
       exec_request_done := 0, exec_request_ready := 1\<rparr>"

definition cmd_end :: "('f, 'n, 'r, 'm) iwasm \<Rightarrow> int \<times> ('f, 'n, 'r, 'm) iwasm" where
  "cmd_end s = (xr_result (exec_request s), s\<lparr>exec_request_done := exec_request_done s - 1, exec_locked := False\<rparr>)"

text \<open>
  The shell command waits without a limit between handing over the request and reading the result, so
  the thread's round comes in between.
\<close>

definition cmd_iwasm_exec :: "('f, 'a, 'n, 'r, 'm) iwasm_env \<Rightarrow> nat \<Rightarrow> string list \<Rightarrow> ('f, 'n, 'r, 'm) iwasm \<Rightarrow> int \<times> ('f, 'n, 'r, 'm) iwasm" where
  "cmd_iwasm_exec E sh argv s =
     (if length argv < 2 then (- EINVAL, s)
      else if exec_locked s then (- EBUSY, s)
      else cmd_end (iwasm_exec_thread E (cmd_begin sh argv s)))"

end
