(* ===== verification/Http_Client_Inv.thy ===== *)
theory Http_Client_Inv
  imports Http_Client
begin

text \<open>
  What app/src/services/http_client/http_client.c guarantees: which header texts it sends, what of a
  response it keeps, and that a request leaves no socket, address list or lock behind.
\<close>

unbundle bit_operations_syntax

section \<open>Header lines\<close>

text \<open>The text of one header and what makes it acceptable.\<close>

definition header_text :: "string \<times> string \<Rightarrow> string" where
  "header_text h = fst h @ CHR '':'' # snd h @ CRLF"

definition header_good :: "string \<times> string \<Rightarrow> bool" where
  "header_good h \<longleftrightarrow> fst h \<noteq> [] \<and> \<not> is_forbidden_header (fst h) \<and> list_all header_name_char (fst h) \<and> list_all header_value_char (snd h)"

lemma name_no_colon: "list_all header_name_char s \<Longrightarrow> CHR '':'' \<notin> set s \<and> CHR 0x0D \<notin> set s"
  by (induction s) (auto simp: header_name_char_def)

lemma value_no_CR: "list_all header_value_char s \<Longrightarrow> CHR 0x0D \<notin> set s"
  by (induction s) (auto simp: header_value_char_def)

lemma header_line_ok_good: "header_line_ok line \<longleftrightarrow> (\<exists>h. line = fst h @ CHR '':'' # snd h \<and> header_good h)"
proof
  assume "header_line_ok line"
  then obtain name val where "split_first CHR '':'' line = Some (name, val)" "header_good (name, val)"
    by (auto simp: header_line_ok_def header_good_def split: option.splits)
  then show "\<exists>h. line = fst h @ CHR '':'' # snd h \<and> header_good h" using split_first_Some by (metis fst_conv snd_conv)
next
  assume "\<exists>h. line = fst h @ CHR '':'' # snd h \<and> header_good h"
  then obtain h where h: "line = fst h @ CHR '':'' # snd h" "header_good h" by blast
  then have "split_first CHR '':'' line = Some h"
    using split_first_append [of "CHR '':''" "fst h" "snd h"] name_no_colon [of "fst h"] by (simp add: header_good_def)
  then show "header_line_ok line" using h(2) by (simp add: header_line_ok_def header_good_def split_beta)
qed

lemma strstr_CRLF: "CHR 0x0D \<notin> set b \<Longrightarrow> strstr (b @ CRLF @ t) CRLF = Some (CRLF @ t)"
  by (induction b) (auto simp: CRLF_def prefix_def)

lemma header_lines_accepts:
  "k + length hs \<le> WEB_HTTP_MAX_HEADER_LINES \<Longrightarrow> list_all header_good hs \<Longrightarrow> header_lines k (concat (map header_text hs)) = 0"
proof (induction hs arbitrary: k)
  case (Cons h hs)
  let ?l = "fst h @ CHR '':'' # snd h" and ?t = "concat (map header_text hs)"
  have "header_good h" using Cons.prems by simp
  then have "CHR 0x0D \<notin> set ?l" "header_line_ok ?l"
    using name_no_colon [of "fst h"] value_no_CR [of "snd h"] header_line_ok_good by (auto simp: header_good_def)
  moreover have "concat (map header_text (h # hs)) = ?l @ CRLF @ ?t" by (simp add: header_text_def)
  ultimately have "header_lines k (concat (map header_text (h # hs))) = header_lines (k + 1) ?t"
    using Cons.prems strstr_CRLF [of ?l ?t] header_lines.simps [of k "?l @ CRLF @ ?t"] by (simp add: CRLF_def)
  then show ?case using Cons.IH [of "k + 1"] Cons.prems by simp
qed (simp add: header_lines.simps)

lemma header_lines_only:
  "header_lines k s = 0 \<Longrightarrow> k \<le> WEB_HTTP_MAX_HEADER_LINES \<Longrightarrow>
    \<exists>hs. k + length hs \<le> WEB_HTTP_MAX_HEADER_LINES \<and> list_all header_good hs \<and> s = concat (map header_text hs)"
proof (induction k s rule: header_lines.induct)
  case (1 k s)
  show ?case
  proof (cases "s = []")
    case True
    then show ?thesis using 1(3) by (intro exI [of _ "[]"]) simp
  next
    case False
    with 1(2) obtain r where r: "strstr s CRLF = Some r" by (auto simp: header_lines.simps [of k s] errno_simps split: option.splits)
    from strstr_split [OF this] obtain b t where b: "s = b @ CRLF @ t" "r = CRLF @ t" by (auto simp: prefix_def)
    have n: "length s - length r \<noteq> 0" "\<not> WEB_HTTP_MAX_HEADER_LINES < k + 1" "header_line_ok (take (length s - length r) s)"
      "header_lines (k + 1) (drop 2 r) = 0"
      using 1(2) False r by (auto simp: header_lines.simps [of k s] errno_simps Let_def split: if_splits)
    from n(3) b obtain h where h: "b = fst h @ CHR '':'' # snd h" "header_good h" by (auto simp: header_line_ok_good)
    obtain hs where "k + 1 + length hs \<le> WEB_HTTP_MAX_HEADER_LINES" "list_all header_good hs" "drop 2 r = concat (map header_text hs)"
      using 1(1) [OF False r refl] n by auto
    then show ?thesis using b h by (intro exI [of _ "h # hs"]) (auto simp: header_text_def [of h] CRLF_def)
  qed
qed


section \<open>Collecting the response\<close>

text \<open>
  The library hands the callback a sequence of responses and stops at the first that it refuses;
  \<open>None\<close> for a sequence that would go on after a refusal.
\<close>

fun feed :: "(http_response \<Rightarrow> response_context \<Rightarrow> int \<times> response_context) \<Rightarrow> http_response list \<Rightarrow> response_context \<Rightarrow> (int \<times> response_context) option" where
  "feed cb [] x = Some (0, x)"
| "feed cb (r # rs) x = (let (k, x) = cb r x in if k < 0 then (if rs = [] then Some (k, x) else None) else feed cb rs x)"

text \<open>What the context holds after the bytes \<open>d\<close> have arrived; \<open>m\<close> is the size of the body array, if there is one.\<close>

definition got :: "nat option \<Rightarrow> u32 \<Rightarrow> byte list \<Rightarrow> response_context \<Rightarrow> bool" where
  "got m cap d x \<longleftrightarrow>
     map_option length (rc_body x) = m \<and> rc_capacity x = cap \<and> unat (body_len (rc_response x)) = min (unat cap) (length d) \<and>
     (case rc_body x of None \<Rightarrow> cap = 0 | Some b \<Rightarrow> unat cap \<le> length b \<and> take (unat (body_len (rc_response x))) b = take (unat cap) d) \<and>
     (bit (rsp_flags (rc_response x)) 0 \<longleftrightarrow> unat cap < length d)"

lemma truncated_bit: "(w AND WEB_HTTP_RESPONSE_TRUNCATED \<noteq> 0) = bit w 0"
  by (simp add: WEB_HTTP_RESPONSE_TRUNCATED_def and_one_eq bit_0 odd_iff_mod_2_eq_one)

lemma flag_bits:
  "bit (w OR WEB_HTTP_RESPONSE_TRUNCATED) 0" "bit (w OR WEB_HTTP_RESPONSE_LENGTH_UNKNOWN) 0 = bit w 0"
  "bit (w AND NOT WEB_HTTP_RESPONSE_LENGTH_UNKNOWN) 0 = bit w 0"
  by (simp_all add: WEB_HTTP_RESPONSE_TRUNCATED_def WEB_HTTP_RESPONSE_LENGTH_UNKNOWN_def bit_simps)

lemma put_body_got:
  assumes "got m cap d x" "length d + length e \<le> unat cap"
  shows "got m cap (d @ e) (put_body e x)"
proof -
  have l: "unat (body_len (rc_response x)) = length d" using assms by (simp add: got_def)
  have "unat cap < 2 ^ 32" using unsigned_less [where w = cap] by simp
  then have s: "unat (body_len (rc_response x) + of_nat (length e)) = length d + length e"
    using assms(2) l by (simp add: unat_word_ariths unat_of_nat)
  show ?thesis
  proof (cases "rc_body x")
    case None
    then show ?thesis using assms s l by (auto simp: got_def put_body_def)
  next
    case (Some b)
    have "take (length d + length e) (memcpy b (length d) e) = d @ e"
      using assms Some l take_memcpy [of "length d" b e] by (auto simp: got_def)
    then show ?thesis using assms s l Some by (auto simp: got_def put_body_def)
  qed
qed

lemma response_cb_got:
  assumes g: "got m cap d x" "length d \<le> unat cap" and c: "response_cb r x = (k, x')"
  shows "got m cap (d @ rsp_body_frag r) x'" "k < 0 \<longleftrightarrow> unat cap < length (d @ rsp_body_frag r)"
proof -
  define w where "w = (let v = (rc_response x)\<lparr>status_code := of_nat (rsp_http_status_code r)\<rparr> in
    if rsp_cl_present r
    then v\<lparr>content_length := (if unat UINT32_MAX < rsp_content_length r then UINT32_MAX else of_nat (rsp_content_length r)),
           rsp_flags := rsp_flags v AND NOT WEB_HTTP_RESPONSE_LENGTH_UNKNOWN\<rparr>
    else v\<lparr>content_length := UINT32_MAX, rsp_flags := rsp_flags v OR WEB_HTTP_RESPONSE_LENGTH_UNKNOWN\<rparr>)"
  define y where "y = x\<lparr>rc_response := w\<rparr>"
  define e where "e = rsp_body_frag r"
  have w: "body_len w = body_len (rc_response x)" "bit (rsp_flags w) 0 = bit (rsp_flags (rc_response x)) 0"
    by (simp_all add: w_def Let_def flag_bits)
  have gy: "got m cap d y" using g(1) w by (auto simp: got_def y_def split: option.splits)
  have rem: "unat (rc_capacity y - body_len w) = unat cap - length d"
    using g w by (simp add: got_def y_def unat_sub word_le_nat_alt)
  have eq: "response_cb r x =
    (if unat cap - length d < length e then
       let z = (if 0 < unat cap - length d then put_body (take (unat cap - length d) e) y else y)
       in (- ENOSPC, z\<lparr>rc_response := (rc_response z)\<lparr>rsp_flags := rsp_flags (rc_response z) OR WEB_HTTP_RESPONSE_TRUNCATED\<rparr>\<rparr>)
     else (0, if 0 < length e then put_body e y else y))"
    unfolding response_cb_def w_def [symmetric] Let_def y_def [symmetric] e_def [symmetric] using rem by (simp add: w_def y_def Let_def)
  have "got m cap (d @ e) x' \<and> (k < 0 \<longleftrightarrow> unat cap < length (d @ e))"
  proof (cases "unat cap - length d < length e")
    case True
    let ?z = "if 0 < unat cap - length d then put_body (take (unat cap - length d) e) y else y"
    have z: "got m cap (d @ take (unat cap - length d) e) ?z"
      using put_body_got [OF gy, of "take (unat cap - length d) e"] gy g(2) by auto
    have x': "x' = ?z\<lparr>rc_response := (rc_response ?z)\<lparr>rsp_flags := rsp_flags (rc_response ?z) OR WEB_HTTP_RESPONSE_TRUNCATED\<rparr>\<rparr>" "k = - ENOSPC"
      using c eq True by (simp_all add: Let_def)
    show ?thesis using z True g(2) unfolding x' by (auto simp: got_def flag_bits errno_simps split: option.splits)
  next
    case False
    then show ?thesis using c eq put_body_got [OF gy, of e] gy g(2) by (auto split: if_splits)
  qed
  then show "got m cap (d @ rsp_body_frag r) x'" "k < 0 \<longleftrightarrow> unat cap < length (d @ rsp_body_frag r)" by (simp_all add: e_def)
qed

lemma feed_got:
  "got m cap d x \<Longrightarrow> length d \<le> unat cap \<Longrightarrow> feed response_cb rs x = Some (k, x') \<Longrightarrow>
    got m cap (d @ concat (map rsp_body_frag rs)) x' \<and> (k < 0 \<longleftrightarrow> unat cap < length (d @ concat (map rsp_body_frag rs)))"
proof (induction rs arbitrary: d x)
  case (Cons r rs)
  obtain k1 x1 where c: "response_cb r x = (k1, x1)" by fastforce
  note g = response_cb_got [OF Cons.prems(1,2) c]
  show ?case
  proof (cases "k1 < 0")
    case True
    then show ?thesis using Cons.prems(3) c g by (auto split: if_splits)
  next
    case False
    then show ?thesis using Cons.prems(3) c g Cons.IH [of "d @ rsp_body_frag r" x1] by auto
  qed
qed simp

section \<open>Sockets, addresses and the lock\<close>

text \<open>
  What can be seen of the network library: the open sockets and their options, the address lists that
  are not freed, the lock, the requests sent with the options of their socket, and the responses that
  were handed to the callback.
\<close>

record 'n net_view =
  v_open :: "'n \<Rightarrow> int set"
  v_opts :: "'n \<Rightarrow> int \<Rightarrow> sockopt set"
  v_addrs :: "'n \<Rightarrow> nat"
  v_locked :: "'n \<Rightarrow> bool"
  v_sent :: "'n \<Rightarrow> (http_request \<times> sockopt set) list"
  v_delivered :: "'n \<Rightarrow> http_response list"

definition same_books :: "'n net_view \<Rightarrow> 'n \<Rightarrow> 'n \<Rightarrow> bool" where
  "same_books V n n' \<longleftrightarrow> v_addrs V n' = v_addrs V n \<and> v_locked V n' = v_locked V n \<and> v_sent V n' = v_sent V n \<and> v_delivered V n' = v_delivered V n"

lemma same_books_trans: "same_books V n n' \<Longrightarrow> same_books V n' n'' \<Longrightarrow> same_books V n n''"
  by (simp add: same_books_def)

definition socket_law :: "('a, 'n) net_api \<Rightarrow> 'n net_view \<Rightarrow> bool" where
  "socket_law N V \<longleftrightarrow>
     (\<forall>a tls n fd n'. zsock_socket N a tls n = (fd, n') \<longrightarrow> same_books V n n' \<and>
        (if fd < 0 then v_open V n' = v_open V n else fd \<notin> v_open V n \<and> v_open V n' = insert fd (v_open V n))) \<and>
     (\<forall>fd x n r n'. zsock_setsockopt N fd x n = (r, n') \<longrightarrow> same_books V n n' \<and> v_open V n' = v_open V n \<and>
        v_opts V n fd \<subseteq> v_opts V n' fd \<and> (0 \<le> r \<longrightarrow> x \<in> v_opts V n' fd)) \<and>
     (\<forall>fd a n r e n'. zsock_connect N fd a n = (r, e, n') \<longrightarrow> same_books V n n' \<and> v_open V n' = v_open V n \<and> v_opts V n' = v_opts V n) \<and>
     (\<forall>fd n. same_books V n (zsock_close N fd n) \<and> v_open V (zsock_close N fd n) = v_open V n - {fd})"

definition books_law :: "('a, 'n) net_api \<Rightarrow> 'n net_view \<Rightarrow> bool" where
  "books_law N V \<longleftrightarrow>
     (\<forall>n r n'. request_lock_take N n = (r, n') \<longrightarrow> v_open V n' = v_open V n \<and> v_addrs V n' = v_addrs V n \<and> v_sent V n' = v_sent V n \<and>
        v_delivered V n' = v_delivered V n \<and> (if r = 0 then \<not> v_locked V n \<and> v_locked V n' else v_locked V n' = v_locked V n)) \<and>
     (\<forall>n n'. request_lock_give N n = n' \<longrightarrow> v_open V n' = v_open V n \<and> v_addrs V n' = v_addrs V n \<and> v_sent V n' = v_sent V n \<and>
        v_delivered V n' = v_delivered V n \<and> \<not> v_locked V n') \<and>
     (\<forall>host port n r as n'. zsock_getaddrinfo N host port n = (r, as, n') \<longrightarrow> v_open V n' = v_open V n \<and> v_locked V n' = v_locked V n \<and>
        v_sent V n' = v_sent V n \<and> v_delivered V n' = v_delivered V n \<and> v_addrs V n' = v_addrs V n + (if as = None then 0 else 1)) \<and>
     (\<forall>as n n'. zsock_freeaddrinfo N as n = n' \<longrightarrow> v_open V n' = v_open V n \<and> v_locked V n' = v_locked V n \<and>
        v_sent V n' = v_sent V n \<and> v_delivered V n' = v_delivered V n \<and> v_addrs V n' = v_addrs V n - 1)"

definition client_law :: "('a, 'n) net_api \<Rightarrow> 'n net_view \<Rightarrow> bool" where
  "client_law N V \<longleftrightarrow>
     (\<forall>fd rq ms cb x n r x' n'. http_client_req N fd rq ms cb x n = (r, x', n') \<longrightarrow>
        v_open V n' = v_open V n \<and> v_locked V n' = v_locked V n \<and> v_addrs V n' = v_addrs V n \<and>
        v_sent V n' = v_sent V n @ [(rq, v_opts V n fd)] \<and>
        (\<exists>rs k. v_delivered V n' = v_delivered V n @ rs \<and> feed cb rs x = Some (k, x') \<and> (k < 0 \<longrightarrow> r < 0)))"

definition net_lawful :: "('a, 'n) net_api \<Rightarrow> 'n net_view \<Rightarrow> bool" where
  "net_lawful N V \<longleftrightarrow> socket_law N V \<and> books_law N V \<and> client_law N V"

lemma socket_lawD:
  assumes "net_lawful N V"
  shows "zsock_socket N a tls n = (fd, n') \<Longrightarrow> same_books V n n' \<and>
      (if fd < 0 then v_open V n' = v_open V n else fd \<notin> v_open V n \<and> v_open V n' = insert fd (v_open V n))"
    and "zsock_setsockopt N fd x n = (r, n') \<Longrightarrow> same_books V n n' \<and> v_open V n' = v_open V n \<and>
      v_opts V n fd \<subseteq> v_opts V n' fd \<and> (0 \<le> r \<longrightarrow> x \<in> v_opts V n' fd)"
    and "zsock_connect N fd a n = (r, e, n') \<Longrightarrow> same_books V n n' \<and> v_open V n' = v_open V n \<and> v_opts V n' = v_opts V n"
    and "same_books V n (zsock_close N fd n) \<and> v_open V (zsock_close N fd n) = v_open V n - {fd}"
proof -
  have law: "socket_law N V" using assms by (simp add: net_lawful_def)
  note s = law [unfolded socket_law_def, THEN conjunct1, rule_format]
    and o = law [unfolded socket_law_def, THEN conjunct2, THEN conjunct1, rule_format]
    and c = law [unfolded socket_law_def, THEN conjunct2, THEN conjunct2, THEN conjunct1, rule_format]
    and d = law [unfolded socket_law_def, THEN conjunct2, THEN conjunct2, THEN conjunct2, rule_format]
  show "zsock_socket N a tls n = (fd, n') \<Longrightarrow> same_books V n n' \<and>
      (if fd < 0 then v_open V n' = v_open V n else fd \<notin> v_open V n \<and> v_open V n' = insert fd (v_open V n))" by (rule s)
  show "zsock_setsockopt N fd x n = (r, n') \<Longrightarrow> same_books V n n' \<and> v_open V n' = v_open V n \<and>
      v_opts V n fd \<subseteq> v_opts V n' fd \<and> (0 \<le> r \<longrightarrow> x \<in> v_opts V n' fd)" using o by simp
  show "zsock_connect N fd a n = (r, e, n') \<Longrightarrow> same_books V n n' \<and> v_open V n' = v_open V n \<and> v_opts V n' = v_opts V n" by (rule c)
  show "same_books V n (zsock_close N fd n) \<and> v_open V (zsock_close N fd n) = v_open V n - {fd}" by (rule d)
qed

lemma set_options_effect:
  assumes "net_lawful N V"
  shows "set_options N fd xs n = (ok, n') \<Longrightarrow> same_books V n n' \<and> v_open V n' = v_open V n \<and> v_opts V n fd \<subseteq> v_opts V n' fd \<and>
    (ok \<longrightarrow> set xs \<subseteq> v_opts V n' fd)"
proof (induction xs arbitrary: n)
  case (Cons x xs)
  obtain r n1 where s: "zsock_setsockopt N fd x n = (r, n1)" by fastforce
  note e = socket_lawD(2) [OF assms s]
  show ?case
  proof (cases "r < 0")
    case True
    then show ?thesis using Cons.prems s e by auto
  next
    case False
    then have "set_options N fd xs n1 = (ok, n')" using Cons.prems s by simp
    from Cons.IH [OF this] e False show ?thesis by (auto intro: same_books_trans)
  qed
qed (simp add: same_books_def)

text \<open>A socket that the loop returns is the only one left open, and carries the options it was given.\<close>

definition connected :: "'n net_view \<Rightarrow> parsed_url \<Rightarrow> u32 \<Rightarrow> 'n \<Rightarrow> int \<Rightarrow> 'n \<Rightarrow> bool" where
  "connected V u ms n fd n' \<longleftrightarrow> same_books V n n' \<and>
     (if fd < 0 then v_open V n' = v_open V n
      else fd \<notin> v_open V n \<and> v_open V n' = insert fd (v_open V n) \<and> set (timeout_options ms) \<subseteq> v_opts V n' fd \<and>
        (pu_tls u \<longrightarrow> set (tls_options u) \<subseteq> v_opts V n' fd))"

lemma closed_again:
  assumes "net_lawful N V" "zsock_socket N a tls n = (fd, n1)" "\<not> fd < 0" "same_books V n1 n2" "v_open V n2 = v_open V n1"
  shows "same_books V n (zsock_close N fd n2) \<and> v_open V (zsock_close N fd n2) = v_open V n"
  using socket_lawD(1) [OF assms(1,2)] socket_lawD(4) [OF assms(1), of n2 fd] assms(3-5) by (auto simp: same_books_def)

lemma connected_later: "same_books V n n1 \<Longrightarrow> v_open V n1 = v_open V n \<Longrightarrow> connected V u ms n1 fd n' \<Longrightarrow> connected V u ms n fd n'"
  by (auto simp: connected_def same_books_def)

lemma connect_loop_effect:
  assumes law: "net_lawful N V"
  shows "connect_loop N u ms as fd timed n = (fd', timed', n') \<Longrightarrow> fd < 0 \<Longrightarrow> connected V u ms n fd' n'"
proof (induction as arbitrary: fd timed n)
  case Nil
  then show ?case by (auto simp: connected_def same_books_def)
next
  case (Cons a as)
  obtain f n1 where s: "zsock_socket N a (pu_tls u) n = (f, n1)" by fastforce
  obtain ok1 n2 where o1: "set_options N f (timeout_options ms) n1 = (ok1, n2)" by fastforce
  obtain ok2 n3 where o2: "(if pu_tls u then set_options N f (tls_options u) n2 else (True, n2)) = (ok2, n3)" by fastforce
  obtain r e n4 where c: "zsock_connect N f a n3 = (r, e, n4)" by (metis prod.exhaust)
  note S = socket_lawD(1) [OF law s] and O1 = set_options_effect [OF law o1]
  have O2: "same_books V n2 n3 \<and> v_open V n3 = v_open V n2 \<and> v_opts V n2 f \<subseteq> v_opts V n3 f \<and>
      (ok2 \<and> pu_tls u \<longrightarrow> set (tls_options u) \<subseteq> v_opts V n3 f)"
    using o2 set_options_effect [OF law, of f "tls_options u" n2 ok2 n3] by (auto simp: same_books_def split: if_splits)
  note C = socket_lawD(3) [OF law c]
  have b: "same_books V n1 n2" "v_open V n2 = v_open V n1" "same_books V n1 n3" "v_open V n3 = v_open V n1" "same_books V n1 n4" "v_open V n4 = v_open V n1"
    using O1 O2 C by (auto simp: same_books_def)
  have again: "connected V u ms n fd' n'" if "connect_loop N u ms as (- 1) t (zsock_close N f k) = (fd', timed', n')"
      "\<not> f < 0" "same_books V n1 k" "v_open V k = v_open V n1" for t k
    using Cons.IH [OF that(1)] closed_again [OF law s that(2-4)] connected_later by auto
  consider (none) "f < 0" | (timeout) "\<not> f < 0" "\<not> ok1" | (tls) "\<not> f < 0" "ok1" "\<not> ok2" | (refused) "\<not> f < 0" "ok1" "ok2" "r \<noteq> 0"
    | (found) "\<not> f < 0" "ok1" "ok2" "r = 0" by blast
  then show ?case
  proof cases
    case none
    then have "connect_loop N u ms as f timed n1 = (fd', timed', n')" using Cons.prems s by simp
    from Cons.IH [OF this none] show ?thesis using S none connected_later by auto
  next
    case timeout
    then show ?thesis using Cons.prems s o1 again b by simp
  next
    case tls
    then show ?thesis using Cons.prems s o1 o2 again b by simp
  next
    case refused
    then show ?thesis using Cons.prems s o1 o2 c again b by simp
  next
    case found
    then have "fd' = f" "n' = n4" using Cons.prems s o1 o2 c by simp_all
    then show ?thesis using S O1 O2 C found b(5) by (auto simp: connected_def same_books_def)
  qed
qed

lemma books_lawD:
  assumes "net_lawful N V"
  shows "request_lock_take N n = (r, n') \<Longrightarrow> v_open V n' = v_open V n \<and> v_addrs V n' = v_addrs V n \<and> v_sent V n' = v_sent V n \<and>
        v_delivered V n' = v_delivered V n \<and> (if r = 0 then \<not> v_locked V n \<and> v_locked V n' else v_locked V n' = v_locked V n)"
    and "v_open V (request_lock_give N n) = v_open V n \<and> v_addrs V (request_lock_give N n) = v_addrs V n \<and> v_sent V (request_lock_give N n) = v_sent V n \<and>
        v_delivered V (request_lock_give N n) = v_delivered V n \<and> \<not> v_locked V (request_lock_give N n)"
    and "zsock_getaddrinfo N host port n = (r, as, n') \<Longrightarrow> v_open V n' = v_open V n \<and> v_locked V n' = v_locked V n \<and>
        v_sent V n' = v_sent V n \<and> v_delivered V n' = v_delivered V n \<and> v_addrs V n' = v_addrs V n + (if as = None then 0 else 1)"
    and "v_open V (zsock_freeaddrinfo N xs n) = v_open V n \<and> v_locked V (zsock_freeaddrinfo N xs n) = v_locked V n \<and>
        v_sent V (zsock_freeaddrinfo N xs n) = v_sent V n \<and> v_delivered V (zsock_freeaddrinfo N xs n) = v_delivered V n \<and>
        v_addrs V (zsock_freeaddrinfo N xs n) = v_addrs V n - 1"
proof -
  have law: "books_law N V" using assms by (simp add: net_lawful_def)
  note b = law [unfolded books_law_def]
  show "request_lock_take N n = (r, n') \<Longrightarrow> v_open V n' = v_open V n \<and> v_addrs V n' = v_addrs V n \<and> v_sent V n' = v_sent V n \<and>
        v_delivered V n' = v_delivered V n \<and> (if r = 0 then \<not> v_locked V n \<and> v_locked V n' else v_locked V n' = v_locked V n)"
    by (rule b [THEN conjunct1, rule_format])
  show "v_open V (request_lock_give N n) = v_open V n \<and> v_addrs V (request_lock_give N n) = v_addrs V n \<and> v_sent V (request_lock_give N n) = v_sent V n \<and>
        v_delivered V (request_lock_give N n) = v_delivered V n \<and> \<not> v_locked V (request_lock_give N n)"
    by (rule b [THEN conjunct2, THEN conjunct1, rule_format, OF refl])
  show "zsock_getaddrinfo N host port n = (r, as, n') \<Longrightarrow> v_open V n' = v_open V n \<and> v_locked V n' = v_locked V n \<and>
        v_sent V n' = v_sent V n \<and> v_delivered V n' = v_delivered V n \<and> v_addrs V n' = v_addrs V n + (if as = None then 0 else 1)"
    by (rule b [THEN conjunct2, THEN conjunct2, THEN conjunct1, rule_format])
  show "v_open V (zsock_freeaddrinfo N xs n) = v_open V n \<and> v_locked V (zsock_freeaddrinfo N xs n) = v_locked V n \<and>
        v_sent V (zsock_freeaddrinfo N xs n) = v_sent V n \<and> v_delivered V (zsock_freeaddrinfo N xs n) = v_delivered V n \<and>
        v_addrs V (zsock_freeaddrinfo N xs n) = v_addrs V n - 1"
    by (rule b [THEN conjunct2, THEN conjunct2, THEN conjunct2, rule_format, OF refl])
qed

lemma client_lawD:
  assumes "net_lawful N V" "http_client_req N fd rq ms cb x n = (r, x', n')"
  shows "v_open V n' = v_open V n \<and> v_locked V n' = v_locked V n \<and> v_addrs V n' = v_addrs V n \<and>
    v_sent V n' = v_sent V n @ [(rq, v_opts V n fd)] \<and>
    (\<exists>rs k. v_delivered V n' = v_delivered V n @ rs \<and> feed cb rs x = Some (k, x') \<and> (k < 0 \<longrightarrow> r < 0))"
  using assms(1) [unfolded net_lawful_def client_law_def, THEN conjunct2, THEN conjunct2, rule_format, OF assms(2)] .

text \<open>What one run of the part between the lock and the label \<open>cleanup\<close> leaves.\<close>

definition ran ::
    "'n net_view \<Rightarrow> http_request \<Rightarrow> parsed_url \<Rightarrow> response_context \<Rightarrow> 'n \<Rightarrow> int \<times> int \<times> response_context \<times> 'n \<Rightarrow> bool" where
  "ran V rq u x n res \<longleftrightarrow> (case res of (ret, fd, x', n') \<Rightarrow>
     v_addrs V n' = v_addrs V n \<and> v_locked V n' = v_locked V n \<and>
     (if fd < 0 then v_open V n' = v_open V n \<and> v_sent V n' = v_sent V n \<and> v_delivered V n' = v_delivered V n \<and> x' = x \<and> ret < 0
      else fd \<notin> v_open V n \<and> v_open V n' = insert fd (v_open V n) \<and>
        (\<exists>os. v_sent V n' = v_sent V n @ [(rq, os)] \<and> (pu_tls u \<longrightarrow> set (tls_options u) \<subseteq> os)) \<and>
        (\<exists>rs k. v_delivered V n' = v_delivered V n @ rs \<and> feed response_cb rs x = Some (k, x') \<and>
           (k < 0 \<longrightarrow> (\<exists>e. ret = map_request_error e (pu_tls u) (rc_response x'))))))"

lemma request_on_socket_ran:
  assumes law: "net_lawful N V"
  shows "ran V (make_request m u headers payload) u x n (request_on_socket N m u headers payload ms as x n)"
proof -
  obtain fd timed n1 where c: "connect_loop N u ms as (- 1) False n = (fd, timed, n1)" by (metis prod.exhaust)
  have C: "connected V u ms n fd n1" using connect_loop_effect [OF law c] by simp
  show ?thesis
  proof (cases "fd < 0")
    case True
    then show ?thesis using C c by (simp add: request_on_socket_def ran_def connected_def same_books_def errno_simps)
  next
    case False
    obtain r x' n2 where h: "http_client_req N fd (make_request m u headers payload) ms response_cb x n1 = (r, x', n2)" by (metis prod.exhaust)
    show ?thesis using C c False h client_lawD [OF law h] by (auto simp: request_on_socket_def ran_def connected_def same_books_def)
  qed
qed

lemma cleanup_effect:
  assumes "net_lawful N V"
  shows "v_open V (request_cleanup N fd as n) = (if 0 \<le> fd then v_open V n - {fd} else v_open V n)"
    "v_addrs V (request_cleanup N fd as n) = v_addrs V n - (if as = None then 0 else 1)"
    "\<not> v_locked V (request_cleanup N fd as n)" "v_sent V (request_cleanup N fd as n) = v_sent V n"
    "v_delivered V (request_cleanup N fd as n) = v_delivered V n"
  using socket_lawD(4) [OF assms] books_lawD(2,4) [OF assms]
  by (auto simp: request_cleanup_def Let_def same_books_def split: option.splits)

text \<open>The two ways a call ends: refused without a request, or after a run between lock and cleanup.\<close>

definition refused :: "'n net_view \<Rightarrow> 'n \<Rightarrow> int \<Rightarrow> 'n \<Rightarrow> bool" where
  "refused V n ret n' \<longleftrightarrow> ret < 0 \<and> v_open V n' = v_open V n \<and> same_books V n n'"

lemma request_outcome:
  assumes law: "net_lawful N V"
    and q: "webos_http_request N m url headers rb rbl body cap response ms n = (ret, response', body', n')"
  obtains (refused) "refused V n ret n'" "body' = body"
  | (ran) u r as n1 x fd n2 where "parse_url N (the url) parsed_url_zero = (0, u)" "validate_headers headers = 0" "map_method m \<noteq> HTTP_METHOD_END_VALUE"
      "body_len r = 0" "rsp_flags r = WEB_HTTP_RESPONSE_LENGTH_UNKNOWN" "0 < cap \<longrightarrow> body \<noteq> None"
      "\<not> v_locked V n" "v_locked V n1" "v_open V n1 = v_open V n" "v_sent V n1 = v_sent V n" "v_delivered V n1 = v_delivered V n" "v_addrs V n1 = v_addrs V n + 1"
      "ran V (make_request (map_method m) u headers (bytes_of rb rbl)) u \<lparr>rc_response = r, rc_body = body, rc_capacity = cap\<rparr> n1 (ret, fd, x, n2)"
      "n' = request_cleanup N fd (Some as) n2" "response' = Some (rc_response x)" "body' = rc_body x"
proof (cases "\<exists>url' r0. url = Some url' \<and> response = Some r0 \<and> \<not> ((0 < rbl \<and> rb = None) \<or> (0 < cap \<and> body = None)) \<and>
    map_method m \<noteq> HTTP_METHOD_END_VALUE \<and> fst (parse_url N url' parsed_url_zero) = 0 \<and> validate_headers headers = 0")
  case False
  then have "ret < 0 \<and> n' = n \<and> body' = body"
    using q by (auto simp: webos_http_request_def errno_simps Let_def split: option.splits prod.splits if_splits)
  then show thesis using refused by (simp add: refused_def same_books_def)
next
  case True
  then obtain url' r0 where g: "url = Some url'" "response = Some r0" "\<not> ((0 < rbl \<and> rb = None) \<or> (0 < cap \<and> body = None))"
    "map_method m \<noteq> HTTP_METHOD_END_VALUE" "fst (parse_url N url' parsed_url_zero) = 0" "validate_headers headers = 0" by blast
  then obtain u where u: "parse_url N url' parsed_url_zero = (0, u)" by (metis prod.collapse)
  define r where "r = r0\<lparr>status_code := 0, body_len := 0, content_length := UINT32_MAX, rsp_flags := WEB_HTTP_RESPONSE_LENGTH_UNKNOWN\<rparr>"
  define t where "t = (if ms = 0 then WEB_HTTP_DEFAULT_TIMEOUT_MS else ms)"
  obtain l n0 where l: "request_lock_take N n = (l, n0)" by fastforce
  obtain d as n1 where d: "zsock_getaddrinfo N (c_string (pu_host u)) (c_string (pu_port u)) n0 = (d, as, n1)" by (metis prod.exhaust)
  note L = books_lawD(1) [OF law l] and D = books_lawD(3) [OF law d]
  have eq: "webos_http_request N m url headers rb rbl body cap response ms n =
    (if l \<noteq> 0 then (WEB_HTTP_ERR_BUSY, Some r, body, n0)
     else case as of None \<Rightarrow> (WEB_HTTP_ERR_DNS, Some r, body, request_cleanup N (- 1) None n1)
       | Some xs \<Rightarrow> if d \<noteq> 0 then (WEB_HTTP_ERR_DNS, Some r, body, request_cleanup N (- 1) as n1)
         else let (ret, fd, x, n) = request_on_socket N (map_method m) u headers (bytes_of rb rbl) t xs
                \<lparr>rc_response = r, rc_body = body, rc_capacity = cap\<rparr> n1
              in (ret, Some (rc_response x), rc_body x, request_cleanup N fd as n))"
    using g by (auto simp: webos_http_request_def u l d r_def t_def errno_simps Let_def split: option.splits)
  show thesis
  proof (cases "l = 0 \<and> as \<noteq> None \<and> d = 0")
    case False
    then have "refused V n ret n' \<and> body' = body"
      using q eq L D cleanup_effect [OF law, of "- 1" as n1]
      by (auto simp: refused_def same_books_def errno_simps split: option.splits if_splits)
    then show thesis using refused by simp
  next
    case ok: True
    then obtain xs where xs: "as = Some xs" by auto
    obtain ret1 fd x n2 where s: "request_on_socket N (map_method m) u headers (bytes_of rb rbl) t xs
        \<lparr>rc_response = r, rc_body = body, rc_capacity = cap\<rparr> n1 = (ret1, fd, x, n2)" by (metis prod.exhaust)
    have "ret1 = ret" "response' = Some (rc_response x)" "body' = rc_body x" "n' = request_cleanup N fd (Some xs) n2"
      using q eq ok xs s by simp_all
    then show thesis
      using ran [of u r n1 fd x n2 xs] request_on_socket_ran [OF law, of "map_method m" u headers "bytes_of rb rbl"
          "\<lparr>rc_response = r, rc_body = body, rc_capacity = cap\<rparr>" n1 t xs] s g u L D ok xs by (simp add: r_def)
  qed
qed

section \<open>Requests as a whole\<close>

text \<open>
  A network for the examples: one address, sockets that always connect, a server that answers with two
  pieces, and a parser for URLs of the form scheme, colon, two slashes, host, path.
\<close>

record demo_net =
  dn_open :: "int list"
  dn_opts :: "(int \<times> sockopt) list"
  dn_addrs :: nat
  dn_locked :: bool
  dn_sent :: "(http_request \<times> sockopt list) list"
  dn_delivered :: "http_response list"

fun deliver :: "(http_response \<Rightarrow> response_context \<Rightarrow> int \<times> response_context) \<Rightarrow> http_response list \<Rightarrow> response_context \<Rightarrow>
    http_response list \<times> int \<times> response_context" where
  "deliver cb [] x = ([], 0, x)"
| "deliver cb (r # rs) x =
     (let (k, x) = cb r x in if k < 0 then ([r], k, x) else let (ds, k, x) = deliver cb rs x in (r # ds, k, x))"

lemma deliver_feed: "deliver cb rs x = (ds, k, x') \<Longrightarrow> feed cb ds x = Some (k, x')"
  by (induction rs arbitrary: x ds) (auto simp: Let_def split: if_splits prod.splits)

definition demo_response :: "string \<Rightarrow> http_response" where
  "demo_response d = \<lparr>rsp_http_status_code = 200, rsp_cl_present = False, rsp_content_length = 0, rsp_body_frag = d\<rparr>"

definition demo_parse :: "string \<Rightarrow> int \<times> http_parser_url" where
  "demo_parse url =
     (let s = length (takeWhile (\<lambda>c. c \<noteq> CHR '':'') url); h = length (takeWhile (\<lambda>c. c \<noteq> CHR ''/'') (drop (s + 3) url))
      in (0, \<lparr>url_field_set = (\<lambda>f. f = UF_SCHEMA \<or> f = UF_HOST \<or> f = UF_PATH),
              url_field_off = (\<lambda>f. if f = UF_SCHEMA then 0 else if f = UF_HOST then s + 3 else s + 3 + h),
              url_field_len = (\<lambda>f. if f = UF_SCHEMA then s else if f = UF_HOST then h else length url - (s + 3 + h)), url_port = 0\<rparr>))"

definition demo_api :: "(unit, demo_net) net_api" where
  "demo_api =
     \<lparr>http_parser_parse_url = demo_parse, tls_credential_add = (\<lambda>_ n. (0, n)),
      request_lock_take = (\<lambda>n. if dn_locked n then (- EBUSY, n) else (0, n\<lparr>dn_locked := True\<rparr>)),
      request_lock_give = (\<lambda>n. n\<lparr>dn_locked := False\<rparr>),
      zsock_getaddrinfo = (\<lambda>_ _ n. (0, Some [()], n\<lparr>dn_addrs := dn_addrs n + 1\<rparr>)),
      zsock_freeaddrinfo = (\<lambda>_ n. n\<lparr>dn_addrs := dn_addrs n - 1\<rparr>),
      zsock_socket = (\<lambda>_ _ n. let fd = fold max (dn_open n) 2 + 1 in (fd, n\<lparr>dn_open := fd # dn_open n\<rparr>)),
      zsock_setsockopt = (\<lambda>fd x n. (0, n\<lparr>dn_opts := (fd, x) # dn_opts n\<rparr>)),
      zsock_connect = (\<lambda>_ _ n. (0, 0, n)),
      zsock_close = (\<lambda>fd n. n\<lparr>dn_open := filter (\<lambda>i. i \<noteq> fd) (dn_open n)\<rparr>),
      http_client_req = (\<lambda>fd rq ms cb x n. let (rs, k, x) = deliver cb [demo_response ''hel'', demo_response ''lo''] x
        in (k, x, n\<lparr>dn_sent := dn_sent n @ [(rq, map snd (filter (\<lambda>p. fst p = fd) (dn_opts n)))], dn_delivered := dn_delivered n @ rs\<rparr>))\<rparr>"

definition demo_view :: "demo_net net_view" where
  "demo_view =
     \<lparr>v_open = (\<lambda>n. set (dn_open n)), v_opts = (\<lambda>n fd. {x. (fd, x) \<in> set (dn_opts n)}), v_addrs = dn_addrs, v_locked = dn_locked,
      v_sent = (\<lambda>n. map (\<lambda>(rq, os). (rq, set os)) (dn_sent n)), v_delivered = dn_delivered\<rparr>"

definition quiet_net :: demo_net where
  "quiet_net = \<lparr>dn_open = [], dn_opts = [], dn_addrs = 0, dn_locked = False, dn_sent = [], dn_delivered = []\<rparr>"

lemma fold_max_bound: "i \<in> set xs \<Longrightarrow> i \<le> fold max xs (k :: int)" "k \<le> fold max xs k"
  by (induction xs arbitrary: k) (auto, (meson max.bounded_iff order_trans)+)

lemma demo_lawful: "net_lawful demo_api demo_view"
proof -
  have "fold max xs 2 + 1 \<notin> set xs" "\<not> fold max xs 2 + 1 < 0" for xs :: "int list"
    using fold_max_bound(1) [of "fold max xs 2 + 1" xs 2] fold_max_bound(2) [of 2 xs] by auto
  then have "socket_law demo_api demo_view"
    by (auto simp: socket_law_def demo_api_def demo_view_def same_books_def Let_def)
  moreover have "books_law demo_api demo_view"
    by (auto simp: books_law_def demo_api_def demo_view_def errno_simps)
  moreover have "client_law demo_api demo_view"
    by (force simp: client_law_def demo_api_def demo_view_def Let_def dest!: deliver_feed split: prod.splits)
  ultimately show ?thesis by (simp add: net_lawful_def)
qed

definition demo_request :: "u32 \<Rightarrow> int \<times> web_http_response option \<times> byte list option \<times> demo_net" where
  "demo_request cap = webos_http_request demo_api 0 (Some ''https://h/a'') (Some (''X:1'' @ CRLF)) None 0 (Some ''........'') cap
     (Some \<lparr>struct_size = 20, status_code = 0, body_len = 0, content_length = 0, rsp_flags = 0\<rparr>) 0 quiet_net"

text \<open>A request as the device may send it: for https only on a socket that verifies the certificate for the host.\<close>

definition request_secure ::
    "('a, 'n) net_api \<Rightarrow> nat \<Rightarrow> string \<Rightarrow> string option \<Rightarrow> byte list \<Rightarrow> http_request \<times> sockopt set \<Rightarrow> bool" where
  "request_secure N m url headers payload s \<longleftrightarrow>
     (\<exists>u. parse_url N url parsed_url_zero = (0, u) \<and> fst s = make_request (map_method m) u headers payload \<and>
        rq_method (fst s) \<noteq> HTTP_METHOD_END_VALUE \<and> validate_headers headers = 0 \<and>
        (pu_tls u \<longrightarrow> {TLS_SEC_TAG_LIST [WEB_HTTP_CA_TAG], TLS_HOSTNAME (rq_host (fst s)), TLS_PEER_VERIFY_REQUIRED} \<subseteq> snd s))"

lemma request_effect:
  assumes "net_lawful N V"
    and "webos_http_request N m url headers rb rbl body cap response ms n = (ret, response', body', n')"
  shows "v_open V n' = v_open V n \<and> v_addrs V n' = v_addrs V n \<and> v_locked V n' = v_locked V n \<and>
    (\<exists>sent. v_sent V n' = v_sent V n @ sent \<and> length sent \<le> 1 \<and> list_all (request_secure N m (the url) headers (bytes_of rb rbl)) sent)"
  using assms
proof (cases rule: request_outcome)
  case refused
  then show ?thesis by (auto simp: refused_def same_books_def)
next
  case (ran u r as n1 x fd n2)
  note cl = cleanup_effect [OF assms(1), of fd "Some as" n2]
  show ?thesis
  proof (cases "fd < 0")
    case True
    then show ?thesis using ran cl by (auto simp: ran_def)
  next
    case False
    then obtain os where "v_sent V n2 = v_sent V n1 @ [(make_request (map_method m) u headers (bytes_of rb rbl), os)]"
      "pu_tls u \<longrightarrow> set (tls_options u) \<subseteq> os" "v_open V n2 = insert fd (v_open V n1)" "fd \<notin> v_open V n1"
      using ran(13) by (auto simp: ran_def)
    then show ?thesis using ran False cl
      by (auto simp: ran_def request_secure_def tls_options_def make_request_def intro!: exI [of _ "[(make_request (map_method m) u headers (bytes_of rb rbl), os)]"])
  qed
qed



text \<open>
  C18: The response never overruns the application's buffer and is never silently cut.  The body array
  keeps its size; a return of \<open>WEB_HTTP_OK\<close> means that the whole body that arrived is at its start and
  \<open>body_len\<close> is its length; a body longer than the capacity gives \<open>WEB_HTTP_ERR_TOO_LARGE\<close>, with the
  buffer filled up to the capacity.
\<close>

theorem http_response_bounded:
  assumes "net_lawful N V" "body = None \<or> unat cap \<le> length (the body)"
    and "webos_http_request N m url headers rb rbl body cap response ms n = (ret, Some r', body', n')"
  shows "\<exists>rs d. v_delivered V n' = v_delivered V n @ rs \<and> d = concat (map rsp_body_frag rs) \<and>
    map_option length body' = map_option length body \<and>
    (ret = WEB_HTTP_OK \<longrightarrow> unat (body_len r') = length d \<and> length d \<le> unat cap \<and> take (length d) (case body' of None \<Rightarrow> [] | Some b \<Rightarrow> b) = d) \<and>
    (unat cap < length d \<longrightarrow> ret = WEB_HTTP_ERR_TOO_LARGE \<and> body_len r' = cap \<and>
       take (unat cap) (case body' of None \<Rightarrow> [] | Some b \<Rightarrow> b) = take (unat cap) d)"
  using assms(1,3)
proof (cases rule: request_outcome)
  case refused
  then show ?thesis by (intro exI [of _ "[]"]) (auto simp: refused_def same_books_def errno_simps)
next
  case (ran u r as n1 x fd n2)
  note cl = cleanup_effect [OF assms(1), of fd "Some as" n2]
  let ?x = "\<lparr>rc_response = r, rc_body = body, rc_capacity = cap\<rparr>"
  show ?thesis
  proof (cases "fd < 0")
    case True
    then show ?thesis using ran cl by (intro exI [of _ "[]"]) (auto simp: ran_def errno_simps)
  next
    case False
    then obtain rs k where f: "v_delivered V n2 = v_delivered V n1 @ rs" "feed response_cb rs ?x = Some (k, x)"
      "k < 0 \<longrightarrow> (\<exists>e. ret = map_request_error e (pu_tls u) (rc_response x))" using ran(13) by (auto simp: ran_def)
    define m0 where "m0 = map_option length body"
    have "got m0 cap [] ?x"
      using ran(4-6) assms(2) by (auto simp: got_def m0_def WEB_HTTP_RESPONSE_LENGTH_UNKNOWN_def bit_0 word_gt_0 split: option.splits)
    then have g: "got m0 cap (concat (map rsp_body_frag rs)) x" "k < 0 \<longleftrightarrow> unat cap < length (concat (map rsp_body_frag rs))"
      using feed_got [of m0 cap "[]" ?x rs k x] f(2) by auto
    let ?d = "concat (map rsp_body_frag rs)"
    have len: "map_option length (rc_body x) = map_option length body" "unat (body_len (rc_response x)) = min (unat cap) (length ?d)"
      and body: "take (min (unat cap) (length ?d)) (case rc_body x of None \<Rightarrow> [] | Some b \<Rightarrow> b) = take (unat cap) ?d"
      using g(1) by (auto simp: got_def m0_def split: option.splits)
    have cut: "ret = WEB_HTTP_ERR_TOO_LARGE" if "unat cap < length ?d"
      using that g f(3) truncated_bit [of "rsp_flags (rc_response x)"] by (auto simp: got_def map_request_error_def)
    have "v_delivered V n' = v_delivered V n @ rs" using ran(11,14) f(1) cl(5) by simp
    moreover have "body_len (rc_response x) = cap" if "unat cap < length ?d" using len(2) that by (simp add: word_unat_eq_iff)
    ultimately show ?thesis using len body cut ran(15,16)
      by (intro exI [of _ rs] exI [of _ ?d]; cases "unat cap < length ?d") (simp_all add: errno_simps)
  qed
qed

theorem http_response_bounded_witness:
  "\<exists>r' b' n'. demo_request 8 = (WEB_HTTP_OK, Some r', b', n') \<and> b' = Some ''hello...'' \<and> unat (body_len r') = 5 \<and>
     (\<exists>r'' b'' n''. demo_request 4 = (WEB_HTTP_ERR_TOO_LARGE, Some r'', b'', n'') \<and> body_len r'' = 4 \<and> take 4 (the b'') = ''hell'')"
proof -
  obtain ret r' b' n' where q: "demo_request 8 = (ret, r', b', n')" by (metis prod.exhaust)
  obtain ret2 r2 b2 n2 where q2: "demo_request 4 = (ret2, r2, b2, n2)" by (metis prod.exhaust)
  have e: "fst (demo_request 8) = WEB_HTTP_OK" "fst (snd (demo_request 8)) \<noteq> None" "fst (snd (snd (demo_request 8))) = Some ''hello...''"
    "map rsp_body_frag (dn_delivered (snd (snd (snd (demo_request 8))))) = [''hel'', ''lo'']"
    "fst (snd (demo_request 4)) \<noteq> None" "fst (snd (snd (demo_request 4))) \<noteq> None"
    "map rsp_body_frag (dn_delivered (snd (snd (snd (demo_request 4))))) = [''hel'', ''lo'']" by code_simp+
  then obtain r'' s'' b'' where v: "r' = Some r''" "r2 = Some s''" "b2 = Some b''" using q q2 by auto
  show ?thesis
    using http_response_bounded [OF demo_lawful _ q [unfolded demo_request_def v]] http_response_bounded [OF demo_lawful _ q2 [unfolded demo_request_def v]] e q q2 v
    by (auto simp: demo_view_def quiet_net_def)
qed

end
