(* ===== verification/Iwasm_Inv.thy ===== *)
theory Iwasm_Inv
  imports Iwasm Http_Client_Inv
begin

text \<open>
  What an application can do to the host: every call it makes goes through the host functions of
  services/iwasm/iwasm.c, and these leave alone all that the context of the application does not grant.
\<close>

section \<open>Calls into the host\<close>

text \<open>What a module can ask of the host.\<close>

datatype host_call = Call_log nat "nat option" u32 | Call_sleep nat | Call_write "string option" "nat option" u32
  | Call_read "string option" "nat option" u32 | Call_ready int | Call_heartbeat int | Call_http http_call

fun serve :: "('f, 'a, 'n, 'r, 'm) iwasm_env \<Rightarrow> host_call \<Rightarrow> ('f, 'n, 'r, 'm) iwasm \<Rightarrow> ('f, 'n, 'r, 'm) iwasm" where
  "serve E (Call_log level data len) s = host_webos_log E level data len s"
| "serve E (Call_sleep ms) s = host_webos_sleep_ms ms s"
| "serve E (Call_write path data len) s = snd (host_webos_write E path data len s)"
| "serve E (Call_read path data len) s = snd (host_webos_read E path data len s)"
| "serve E (Call_ready now) s = host_webos_ready now s"
| "serve E (Call_heartbeat now) s = host_webos_heartbeat now s"
| "serve E (Call_http q) s = snd (host_web_http_request E q s)"

text \<open>
  A run of a module from one state of the host to another: calls into the host, and between them steps
  of the runtime, which may change the module's memory and its own state but not the set of loaded
  modules and instances.
\<close>

inductive app_run ::
    "('f, 'a, 'n, 'r, 'm) iwasm_env \<Rightarrow> ('r \<Rightarrow> nat set) \<Rightarrow> ('r \<Rightarrow> nat set) \<Rightarrow> ('f, 'n, 'r, 'm) iwasm \<Rightarrow> ('f, 'n, 'r, 'm) iwasm \<Rightarrow> bool"
  for E modules insts s where
  app_start: "app_run E modules insts s s"
| app_call: "app_run E modules insts s t \<Longrightarrow> app_run E modules insts s (serve E c t)"
| app_internal: "app_run E modules insts s t \<Longrightarrow> modules r = modules (iw_rt t) \<Longrightarrow> insts r = insts (iw_rt t) \<Longrightarrow>
    app_run E modules insts s (t\<lparr>iw_rt := r, iw_ram := ram\<rparr>)"

section \<open>Documented behaviour\<close>

definition app_open_law :: "'f app_fs \<Rightarrow> 'f file_view \<Rightarrow> 'f open_view \<Rightarrow> bool" where
  "app_open_law A files opened \<longleftrightarrow>
     (\<forall>p flags f ret h f'. fs_open A p flags f = (ret, h, f') \<longrightarrow> opened f h = None \<and>
        (if ret = 0 then opened f' = (opened f)(h \<mapsto> p) \<and> (\<forall>q. q \<noteq> p \<longrightarrow> files f' q = files f q) \<and> (flags = FS_O_READ \<longrightarrow> files f' = files f)
         else files f' = files f \<and> opened f' = opened f)) \<and>
     (\<forall>h f. fs_filep A h f = (opened f h \<noteq> None))"

definition app_io_law :: "'f app_fs \<Rightarrow> 'f file_view \<Rightarrow> 'f open_view \<Rightarrow> bool" where
  "app_io_law A files opened \<longleftrightarrow>
     (\<forall>h p bs f ret f'. opened f h = Some p \<longrightarrow> fs_write A h bs f = (ret, f') \<longrightarrow> opened f' = opened f \<and> (\<forall>q. q \<noteq> p \<longrightarrow> files f' q = files f q)) \<and>
     (\<forall>h n f ret bs f'. fs_read A h n f = (ret, bs, f') \<longrightarrow> opened f' = opened f \<and> files f' = files f) \<and>
     (\<forall>h n w f ret f'. fs_seek A h n w f = (ret, f') \<longrightarrow> opened f' = opened f \<and> files f' = files f) \<and>
     (\<forall>h f ret f'. fs_close A h f = (ret, f') \<longrightarrow> files f' = files f \<and> opened f' = (opened f)(h := None))"

definition app_fs_lawful :: "'f app_fs \<Rightarrow> 'f file_view \<Rightarrow> 'f open_view \<Rightarrow> bool" where
  "app_fs_lawful A files opened \<longleftrightarrow> app_open_law A files opened \<and> app_io_law A files opened"

lemma app_open:
  assumes "app_fs_lawful A files opened" "fs_open A p flags f = (ret, h, f')"
  shows "opened f h = None \<and>
    (if ret = 0 then opened f' = (opened f)(h \<mapsto> p) \<and> (\<forall>q. q \<noteq> p \<longrightarrow> files f' q = files f q) \<and> (flags = FS_O_READ \<longrightarrow> files f' = files f)
     else files f' = files f \<and> opened f' = opened f)" "fs_filep A h g = (opened g h \<noteq> None)"
proof -
  have law: "app_open_law A files opened" using assms(1) by (simp add: app_fs_lawful_def)
  show "opened f h = None \<and>
    (if ret = 0 then opened f' = (opened f)(h \<mapsto> p) \<and> (\<forall>q. q \<noteq> p \<longrightarrow> files f' q = files f q) \<and> (flags = FS_O_READ \<longrightarrow> files f' = files f)
     else files f' = files f \<and> opened f' = opened f)"
    by (rule law [unfolded app_open_law_def, THEN conjunct1, rule_format, OF assms(2)])
  show "fs_filep A h g = (opened g h \<noteq> None)" by (rule law [unfolded app_open_law_def, THEN conjunct2, rule_format])
qed

lemma app_io:
  assumes "app_fs_lawful A files opened"
  shows "opened f h = Some p \<Longrightarrow> fs_write A h bs f = (ret, f') \<Longrightarrow> opened f' = opened f \<and> (\<forall>q. q \<noteq> p \<longrightarrow> files f' q = files f q)"
    and "fs_read A h n f = (ret, bs, f') \<Longrightarrow> opened f' = opened f \<and> files f' = files f"
    and "opened (snd (fs_seek A h n w f)) = opened f \<and> files (snd (fs_seek A h n w f)) = files f"
    and "files (snd (fs_close A h f)) = files f \<and> opened (snd (fs_close A h f)) = (opened f)(h := None)"
proof -
  have law: "app_io_law A files opened" using assms by (simp add: app_fs_lawful_def)
  note l = law [unfolded app_io_law_def]
  show "opened f h = Some p \<Longrightarrow> fs_write A h bs f = (ret, f') \<Longrightarrow> opened f' = opened f \<and> (\<forall>q. q \<noteq> p \<longrightarrow> files f' q = files f q)"
    using l [THEN conjunct1] by blast
  show "fs_read A h n f = (ret, bs, f') \<Longrightarrow> opened f' = opened f \<and> files f' = files f"
    by (rule l [THEN conjunct2, THEN conjunct1, rule_format])
  show "opened (snd (fs_seek A h n w f)) = opened f \<and> files (snd (fs_seek A h n w f)) = files f"
    by (rule l [THEN conjunct2, THEN conjunct2, THEN conjunct1, rule_format, of h n w f "fst (fs_seek A h n w f)"]) simp
  show "files (snd (fs_close A h f)) = files f \<and> opened (snd (fs_close A h f)) = (opened f)(h := None)"
    by (rule l [THEN conjunct2, THEN conjunct2, THEN conjunct2, rule_format, of h f "fst (fs_close A h f)"]) simp
qed

section \<open>Confinement\<close>

text \<open>The part of a context that decides what the application may do.\<close>

definition same_policy :: "webos_app_context \<Rightarrow> webos_app_context \<Rightarrow> bool" where
  "same_policy x y \<longleftrightarrow> storage_root y = storage_root x \<and> path_grants y = path_grants x \<and> path_grant_count y = path_grant_count x \<and>
     http_origins y = http_origins x \<and> http_origin_count y = http_origin_count x \<and> max_io_bytes y = max_io_bytes x"

lemma same_policy_allows:
  assumes "same_policy x y"
  shows "webos_app_path_allowed (Some y) p = webos_app_path_allowed (Some x) p" "webos_app_url_allowed (Some y) u n = webos_app_url_allowed (Some x) u n"
  using assms by (cases u; simp add: same_policy_def webos_app_path_allowed_def webos_app_url_allowed_def)+

text \<open>A request that the policy of a context covers.\<close>

definition request_granted :: "('a, 'n) net_api \<Rightarrow> webos_app_context \<Rightarrow> http_request \<times> sockopt set \<Rightarrow> bool" where
  "request_granted N x r \<longleftrightarrow> (\<exists>m url headers payload. webos_app_url_allowed (Some x) (Some url) (length url) \<and> request_secure N m url headers payload r)"

text \<open>What the host's state has in common with an earlier one while an application runs.\<close>

definition confined ::
    "('a, 'n) net_api \<Rightarrow> 'f file_view \<Rightarrow> 'f open_view \<Rightarrow> 'n net_view \<Rightarrow> webos_app_context \<Rightarrow>
     ('f, 'n, 'r, 'm) iwasm \<Rightarrow> ('f, 'n, 'r, 'm) iwasm \<Rightarrow> bool" where
  "confined N files opened V x s t \<longleftrightarrow>
     (\<exists>y. iw_context t = Some y \<and> same_policy x y) \<and>
     opened (iw_fs t) = opened (iw_fs s) \<and> (\<forall>q. \<not> webos_app_path_allowed (Some x) (Some q) \<longrightarrow> files (iw_fs t) q = files (iw_fs s) q) \<and>
     v_open V (iw_net t) = v_open V (iw_net s) \<and> v_addrs V (iw_net t) = v_addrs V (iw_net s) \<and> v_locked V (iw_net t) = v_locked V (iw_net s) \<and>
     iw_live t = iw_live s \<and> (\<exists>sent. v_sent V (iw_net t) = v_sent V (iw_net s) @ sent \<and> list_all (request_granted N x) sent)"

lemma confined_files:
  assumes "iw_context s = Some x" "webos_app_path_allowed (Some x) (Some p)" "opened f = opened (iw_fs s)" "\<And>q. q \<noteq> p \<Longrightarrow> files f q = files (iw_fs s) q"
  shows "confined N files opened V x s (s\<lparr>iw_fs := f, iw_ram := r\<rparr>)"
proof -
  have "files f q = files (iw_fs s) q" if "\<not> webos_app_path_allowed (Some x) (Some q)" for q
    using assms(2,4) that by (cases "q = p") simp_all
  then show ?thesis using assms(1,3) by (simp add: confined_def same_policy_def)
qed

lemma write_confined:
  assumes law: "app_fs_lawful (ie_fs E) files opened" and x: "iw_context s = Some x"
  shows "confined N files opened V x s (snd (host_webos_write E path data len s))"
proof (cases "max_io_bytes x < len \<or> \<not> webos_app_path_allowed (Some x) path \<or> \<not> valid_range E data len s")
  case True
  then show ?thesis using x by (auto simp: host_webos_write_def confined_def same_policy_def)
next
  case False
  then obtain p where p: "path = Some p" by (cases path) (auto simp: webos_app_path_allowed_def valid_path_def)
  let ?fl = "FS_O_CREATE + FS_O_WRITE + (if strncmp p ''/dev/'' 5 \<noteq> 0 then FS_O_TRUNC else 0)"
  obtain ret h f where o: "fs_open (ie_fs E) p ?fl (iw_fs s) = (ret, h, f)" by (metis prod.exhaust)
  obtain ret2 f2 where w: "(if ret = 0 then fs_write (ie_fs E) h (bytes_at data len s) f else (ret, f)) = (ret2, f2)" by fastforce
  let ?f3 = "if fs_filep (ie_fs E) h f2 then snd (fs_close (ie_fs E) h f2) else f2"
  note O = app_open [OF law o]
  have "opened f2 = opened f \<and> (\<forall>q. q \<noteq> p \<longrightarrow> files f2 q = files f q)"
    using w O(1) app_io(1) [OF law, of f h p "bytes_at data len s" ret2 f2] by (auto split: if_splits)
  then have "opened ?f3 = opened (iw_fs s) \<and> (\<forall>q. q \<noteq> p \<longrightarrow> files ?f3 q = files (iw_fs s) q)"
    using O app_io(4) [OF law, of h f2] by (auto split: if_splits)
  moreover have "snd (host_webos_write E path data len s) = s\<lparr>iw_fs := ?f3\<rparr>"
    using False x p o w by (simp add: host_webos_write_def Let_def)
  ultimately show ?thesis using confined_files [OF x, of p opened ?f3 files N V "iw_ram s"] False p by simp
qed

lemma read_confined:
  assumes law: "app_fs_lawful (ie_fs E) files opened" and x: "iw_context s = Some x"
  shows "confined N files opened V x s (snd (host_webos_read E path data cap s))"
proof (cases "max_io_bytes x < cap \<or> \<not> webos_app_path_allowed (Some x) path \<or> \<not> valid_range E data cap s")
  case True
  then show ?thesis using x by (auto simp: host_webos_read_def confined_def same_policy_def)
next
  case False
  then obtain p where p: "path = Some p" by (cases path) (auto simp: webos_app_path_allowed_def valid_path_def)
  obtain ret h f where o: "fs_open (ie_fs E) p FS_O_READ (iw_fs s) = (ret, h, f)" by (metis prod.exhaust)
  obtain ret2 bs f2 where w: "(if ret = 0 then fs_read (ie_fs E) h (unat cap) f else (ret, [], f)) = (ret2, bs, f2)" by (metis prod.exhaust)
  let ?f3 = "if fs_filep (ie_fs E) h f2 then snd (fs_close (ie_fs E) h f2) else f2"
  note O = app_open [OF law o]
  have "opened f2 = opened f \<and> files f2 = files f"
    using w app_io(2) [OF law, of h "unat cap" f ret2 bs f2] by (auto split: if_splits)
  then have "opened ?f3 = opened (iw_fs s) \<and> files ?f3 = files (iw_fs s)"
    using O app_io(4) [OF law, of h f2] by (auto split: if_splits)
  moreover have "snd (host_webos_read E path data cap s) = s\<lparr>iw_fs := ?f3, iw_ram := iw_ram (case data of None \<Rightarrow> s | Some a \<Rightarrow> poke a bs s)\<rparr>"
    using False x p o w by (cases data; cases s) (simp_all add: host_webos_read_def Let_def poke_def)
  ultimately show ?thesis using confined_files [OF x, of p opened ?f3 files N V] False p by auto
qed

lemma host_state_simps [simp]:
  "iw_net (poke a bs s) = iw_net s" "iw_fs (poke a bs s) = iw_fs s" "iw_context (poke a bs s) = iw_context s" "iw_live (poke a bs s) = iw_live s"
  "iw_net (store_response a r s) = iw_net s" "iw_fs (store_response a r s) = iw_fs s" "iw_context (store_response a r s) = iw_context s"
  "iw_live (store_response a r s) = iw_live s" "bytes_at d len (s\<lparr>iw_live := k\<rparr>) = bytes_at d len s" "load_response a (s\<lparr>iw_live := k\<rparr>) = load_response a s"
  by (simp_all add: poke_def store_response_def bytes_at_def load_response_def peek_def split: option.split)

lemma forward_effect:
  assumes law: "net_lawful (ie_net E) V" and ok: "http_refusal E q s = None" and x: "iw_context s = Some x" "same_policy x0 x"
    and f: "http_forward E q s = (ret, t)"
  shows "iw_fs t = iw_fs s \<and> iw_context t = iw_context s \<and> iw_live t = iw_live s \<and>
    v_open V (iw_net t) = v_open V (iw_net s) \<and> v_addrs V (iw_net t) = v_addrs V (iw_net s) \<and> v_locked V (iw_net t) = v_locked V (iw_net s) \<and>
    (\<exists>sent. v_sent V (iw_net t) = v_sent V (iw_net s) @ sent \<and> list_all (request_granted (ie_net E) x0) sent)"
proof -
  let ?url = "bytes_at (hc_url q) (hc_url_len q) s"
  let ?h = "if 0 < hc_headers_len q then Some (bytes_at (hc_headers q) (hc_headers_len q) s) else None"
  let ?b = "map_option (\<lambda>_. bytes_at (hc_body q) (hc_body_len q) s) (hc_body q)"
  obtain ret1 r body n where w: "webos_http_request (ie_net E) (hc_method q) (Some ?url) ?h ?b (unat (hc_body_len q))
      (map_option (\<lambda>_. bytes_at (hc_response_body q) (hc_response_capacity q) s) (hc_response_body q)) (hc_response_capacity q)
      (Some (load_response (the (hc_response q)) s)) (hc_timeout_ms q) (iw_net s) = (ret1, r, body, n)" by (metis prod.exhaust)
  have t: "iw_net t = n" "iw_fs t = iw_fs s" "iw_context t = iw_context s" "iw_live t = iw_live s"
    using f w by (auto simp: http_forward_def Let_def split: option.splits)
  obtain sent where e: "v_open V n = v_open V (iw_net s)" "v_addrs V n = v_addrs V (iw_net s)" "v_locked V n = v_locked V (iw_net s)"
    "v_sent V n = v_sent V (iw_net s) @ sent" "list_all (request_secure (ie_net E) (hc_method q) ?url ?h (bytes_of ?b (unat (hc_body_len q)))) sent"
    using request_effect [OF law w] by auto
  have "hc_url q \<noteq> None" "webos_app_url_allowed (Some x) (Some ?url) (unat (hc_url_len q))"
    using ok x by (auto simp: http_refusal_def http_limits_ok_def split: if_splits)
  then have "webos_app_url_allowed (Some x0) (Some ?url) (length ?url)"
    using same_policy_allows(2) [OF x(2)] by (auto simp: bytes_at_def peek_def)
  then have "request_granted (ie_net E) x0 r" if "request_secure (ie_net E) (hc_method q) ?url ?h (bytes_of ?b (unat (hc_body_len q))) r" for r
    unfolding request_granted_def using that by blast
  then have "list_all (request_granted (ie_net E) x0) sent" using e(5) by (simp add: list_all_iff)
  then show ?thesis using t e by auto
qed

lemma refusal_frame: "http_ranges_ok E q (s\<lparr>iw_live := k\<rparr>) = http_ranges_ok E q s" "http_refusal E q (s\<lparr>iw_live := k\<rparr>) = http_refusal E q s"
proof -
  show "http_ranges_ok E q (s\<lparr>iw_live := k\<rparr>) = http_ranges_ok E q s" by (simp add: http_ranges_ok_def valid_range_def)
  then show "http_refusal E q (s\<lparr>iw_live := k\<rparr>) = http_refusal E q s" by (simp add: http_refusal_def)
qed

lemma http_confined:
  assumes law: "net_lawful (ie_net E) V" and x: "iw_context s = Some y" "same_policy x y"
  shows "let t = snd (host_web_http_request E q s) in iw_fs t = iw_fs s \<and> iw_context t = iw_context s \<and> iw_live t = iw_live s \<and>
    v_open V (iw_net t) = v_open V (iw_net s) \<and> v_addrs V (iw_net t) = v_addrs V (iw_net s) \<and> v_locked V (iw_net t) = v_locked V (iw_net s) \<and>
    (\<exists>sent. v_sent V (iw_net t) = v_sent V (iw_net s) @ sent \<and> list_all (request_granted (ie_net E) x) sent)"
proof (cases "http_refusal E q s")
  case (Some e)
  then show ?thesis by (simp add: host_web_http_request_def)
next
  case None
  have ref: "http_refusal E q (s\<lparr>iw_live := k\<rparr>) = None" for k
    using None by (simp only: refusal_frame)
  have c: "iw_context (s\<lparr>iw_live := k\<rparr>) = Some y" for k using x(1) by simp
  define k where "k = iw_live s + (if 0 < hc_headers_len q then 2 else 1)"
  obtain ret t where f: "http_forward E q (s\<lparr>iw_live := k\<rparr>) = (ret, t)" by fastforce
  have F: "iw_fs t = iw_fs s" "iw_context t = iw_context s" "iw_live t = k" "v_open V (iw_net t) = v_open V (iw_net s)"
    "v_addrs V (iw_net t) = v_addrs V (iw_net s)" "v_locked V (iw_net t) = v_locked V (iw_net s)"
    "\<exists>sent. v_sent V (iw_net t) = v_sent V (iw_net s) @ sent \<and> list_all (request_granted (ie_net E) x) sent"
    using forward_effect [OF law ref c x(2) f] by simp_all
  have "snd (host_web_http_request E q s) \<in> {s, s\<lparr>iw_live := iw_live s\<rparr>, t\<lparr>iw_live := iw_live s\<rparr>}"
  proof (cases "0 < hc_headers_len q")
    case True
    then have "http_forward E q (s\<lparr>iw_live := Suc (Suc (iw_live s))\<rparr>) = (ret, t)" "iw_live t = Suc (Suc (iw_live s))" using f F(3) by (simp_all add: k_def)
    then show ?thesis using None True by (simp add: host_web_http_request_def k_malloc_def k_free_def)
  next
    case False
    then have "http_forward E q (s\<lparr>iw_live := Suc (iw_live s)\<rparr>) = (ret, t)" "iw_live t = Suc (iw_live s)" using f F(3) by (simp_all add: k_def)
    then show ?thesis using None False by (simp add: host_web_http_request_def k_malloc_def k_free_def)
  qed
  then consider "snd (host_web_http_request E q s) = s" | "snd (host_web_http_request E q s) = s\<lparr>iw_live := iw_live s\<rparr>"
    | "snd (host_web_http_request E q s) = t\<lparr>iw_live := iw_live s\<rparr>" by blast
  then show ?thesis by cases (simp_all add: Let_def F)
qed

lemma granted_same: "same_policy x y \<Longrightarrow> request_granted N y = request_granted N x"
  by (rule ext) (simp add: request_granted_def same_policy_allows)

lemma confined_trans:
  assumes "confined N files opened V x s t" "iw_context t = Some y" "confined N files opened V y t t'"
  shows "confined N files opened V x s t'"
proof -
  have p: "same_policy x y" using assms(1,2) by (simp add: confined_def)
  obtain sent sent' where "v_sent V (iw_net t) = v_sent V (iw_net s) @ sent" "list_all (request_granted N x) sent"
    "v_sent V (iw_net t') = v_sent V (iw_net t) @ sent'" "list_all (request_granted N y) sent'"
    using assms(1,3) unfolding confined_def by blast
  then have "\<exists>new. v_sent V (iw_net t') = v_sent V (iw_net s) @ new \<and> list_all (request_granted N x) new"
    by (intro exI [of _ "sent @ sent'"]) (simp add: granted_same [OF p])
  moreover have "\<exists>z. iw_context t' = Some z \<and> same_policy x z" using p assms(3) by (auto simp: confined_def same_policy_def)
  ultimately show ?thesis using assms(1,3) by (simp add: confined_def same_policy_allows [OF p])
qed

lemma serve_confined:
  assumes "app_fs_lawful (ie_fs E) files opened" "net_lawful (ie_net E) V" "iw_context t = Some y"
  shows "confined (ie_net E) files opened V y t (serve E c t)"
proof (cases c)
  case (Call_http q)
  have "same_policy y y" by (simp add: same_policy_def)
  then show ?thesis using http_confined [OF assms(2,3), of y q] assms(3) by (simp add: Call_http confined_def Let_def)
qed (use assms(3) write_confined [OF assms(1,3)] read_confined [OF assms(1,3)] in
    \<open>simp_all add: confined_def host_webos_log_def host_webos_sleep_ms_def host_webos_ready_def host_webos_heartbeat_def
        webos_app_mark_ready_def webos_app_mark_heartbeat_def same_policy_def\<close>)

lemma app_run_confined:
  assumes "app_run E modules insts s t" "app_fs_lawful (ie_fs E) files opened" "net_lawful (ie_net E) V" "iw_context s = Some x"
  shows "confined (ie_net E) files opened V x s t"
  using assms(1)
proof (induction rule: app_run.induct)
  case app_start
  then show ?case using assms(4) by (auto simp: confined_def same_policy_def)
next
  case (app_call t c)
  then obtain y where y: "iw_context t = Some y" unfolding confined_def by blast
  then show ?case using confined_trans [OF app_call.IH y] serve_confined [OF assms(2,3) y] by blast
next
  case (app_internal t r ram)
  then show ?case by (simp add: confined_def)
qed

end
