(* ===== verification/Iwasm_Exec.thy ===== *)
theory Iwasm_Exec
  imports Iwasm_Inv
begin

text \<open>
  The command \<open>iwasm exec\<close> from end to end: whatever the module does and wherever the command fails, the
  file, the block, the module and the instance it took are released, and the service is idle again.
\<close>

section \<open>The frame of a run\<close>

text \<open>What no call touches.\<close>

definition host_frame :: "('f, 'n, 'r, 'm) iwasm \<Rightarrow> ('f, 'n, 'r, 'm) iwasm \<Rightarrow> bool" where
  "host_frame s t \<longleftrightarrow> iw_rt t = iw_rt s \<and> iw_eh t = iw_eh s \<and> iw_headers t = iw_headers s \<and> runtime_ready t = runtime_ready s \<and>
     active_shell t = active_shell s \<and> exec_locked t = exec_locked s \<and> exec_request t = exec_request s \<and>
     exec_request_ready t = exec_request_ready s \<and> exec_request_done t = exec_request_done s \<and> thread_env_ready t = thread_env_ready s"

lemma forward_frame: "host_frame s (snd (http_forward E q s))"
  by (simp add: host_frame_def http_forward_def store_response_def poke_def Let_def split: option.split prod.split)

lemma io_frame: "host_frame s (snd (host_webos_write E p d n s))" "host_frame s (snd (host_webos_read E p d n s))"
  by (simp_all add: host_frame_def host_webos_write_def host_webos_read_def poke_def Let_def split: option.split prod.split)

lemma http_frame: "host_frame s (snd (host_web_http_request E q s))"
proof (cases "http_refusal E q s")
  case (Some e)
  then show ?thesis by (simp add: host_web_http_request_def host_frame_def)
next
  case None
  have f: "host_frame s (snd (http_forward E q (s\<lparr>iw_live := k\<rparr>)))" for k
    using forward_frame [of "s\<lparr>iw_live := k\<rparr>" E q] by (simp add: host_frame_def)
  show ?thesis using None f [of "iw_live s + 1"] f [of "iw_live s + 1 + 1"]
    by (simp add: host_web_http_request_def k_malloc_def k_free_def host_frame_def case_prod_unfold Let_def)
qed

lemma serve_frame: "host_frame s (serve E c s)"
proof (cases c)
  case (Call_http q)
  then show ?thesis by (simp add: http_frame)
next
  case (Call_write p d n)
  then show ?thesis by (simp add: io_frame)
next
  case (Call_read p d n)
  then show ?thesis by (simp add: io_frame)
qed (auto simp: host_frame_def host_webos_log_def host_webos_sleep_ms_def host_webos_ready_def host_webos_heartbeat_def
    split: option.split)

text \<open>A run keeps the loaded modules, the instances, the external heap and the hand-over of the request.\<close>

lemma app_run_frame:
  assumes "app_run E modules insts s t"
  shows "modules (iw_rt t) = modules (iw_rt s) \<and> insts (iw_rt t) = insts (iw_rt s) \<and> host_frame s (t\<lparr>iw_rt := iw_rt s\<rparr>)"
  using assms
proof (induction rule: app_run.induct)
  case (app_call t c)
  then show ?case using serve_frame [of t E c] by (simp add: host_frame_def)
qed (simp_all add: host_frame_def)

section \<open>Documented behaviour of the runtime and the heap\<close>

text \<open>
  Loading and instantiating hand out what was not handed out before, unloading and deinstantiating take
  it back, and running \<open>main\<close> is a run of the application.  Blocks that the runtime takes for itself are
  part of its state; \<open>blocks\<close> are the ones of the host.
\<close>

definition modules_law :: "('f, 'a, 'n, 'r, 'm) iwasm_env \<Rightarrow> ('r \<Rightarrow> nat set) \<Rightarrow> ('r \<Rightarrow> nat set) \<Rightarrow> bool" where
  "modules_law E modules insts \<longleftrightarrow>
     (\<forall>bs r m r'. wasm_runtime_load E bs r = (m, r') \<longrightarrow> insts r' = insts r \<and> set_option m \<inter> modules r = {} \<and> modules r' = modules r \<union> set_option m) \<and>
     (\<forall>m r. insts (wasm_runtime_unload E m r) = insts r \<and> modules (wasm_runtime_unload E m r) = modules r - {m})"

definition insts_law :: "('f, 'a, 'n, 'r, 'm) iwasm_env \<Rightarrow> ('r \<Rightarrow> nat set) \<Rightarrow> ('r \<Rightarrow> nat set) \<Rightarrow> bool" where
  "insts_law E modules insts \<longleftrightarrow>
     (\<forall>m a b r i r'. wasm_runtime_instantiate E m a b r = (i, r') \<longrightarrow> modules r' = modules r \<and> set_option i \<inter> insts r = {} \<and> insts r' = insts r \<union> set_option i) \<and>
     (\<forall>i r. modules (wasm_runtime_deinstantiate E i r) = modules r \<and> insts (wasm_runtime_deinstantiate E i r) = insts r - {i})"

definition main_law :: "('f, 'a, 'n, 'r, 'm) iwasm_env \<Rightarrow> ('r \<Rightarrow> nat set) \<Rightarrow> ('r \<Rightarrow> nat set) \<Rightarrow> bool" where
  "main_law E modules insts \<longleftrightarrow>
     (\<forall>i argv s ok t. wasm_application_execute_main E i argv s = (ok, t) \<longrightarrow> app_run E modules insts s t) \<and>
     (\<forall>r ok r'. wasm_runtime_init_thread_env E r = (ok, r') \<longrightarrow> modules r' = modules r \<and> insts r' = insts r)"

definition heap_law :: "('f, 'a, 'n, 'r, 'm) iwasm_env \<Rightarrow> ('m \<Rightarrow> nat set) \<Rightarrow> bool" where
  "heap_law E blocks \<longleftrightarrow>
     (\<forall>n m raw m'. shared_multi_heap_aligned_alloc E n m = (raw, m') \<longrightarrow> set_option raw \<inter> blocks m = {} \<and> blocks m' = blocks m \<union> set_option raw) \<and>
     (\<forall>raw m. blocks (shared_multi_heap_free E raw m) = blocks m - {raw})"

definition runtime_lawful :: "('f, 'a, 'n, 'r, 'm) iwasm_env \<Rightarrow> ('r \<Rightarrow> nat set) \<Rightarrow> ('r \<Rightarrow> nat set) \<Rightarrow> ('m \<Rightarrow> nat set) \<Rightarrow> bool" where
  "runtime_lawful E modules insts blocks \<longleftrightarrow> modules_law E modules insts \<and> insts_law E modules insts \<and> main_law E modules insts \<and> heap_law E blocks"

lemma runtime_lawfulD:
  assumes "runtime_lawful E modules insts blocks"
  shows "wasm_runtime_load E bs r = (m, r') \<Longrightarrow> insts r' = insts r \<and> set_option m \<inter> modules r = {} \<and> modules r' = modules r \<union> set_option m"
    and "insts (wasm_runtime_unload E n r) = insts r \<and> modules (wasm_runtime_unload E n r) = modules r - {n}"
    and "wasm_runtime_instantiate E n a b r = (m, r') \<Longrightarrow> modules r' = modules r \<and> set_option m \<inter> insts r = {} \<and> insts r' = insts r \<union> set_option m"
    and "modules (wasm_runtime_deinstantiate E n r) = modules r \<and> insts (wasm_runtime_deinstantiate E n r) = insts r - {n}"
    and "wasm_application_execute_main E n argv s = (ok, t) \<Longrightarrow> app_run E modules insts s t"
    and "wasm_runtime_init_thread_env E r = (ok, r') \<Longrightarrow> modules r' = modules r \<and> insts r' = insts r"
    and "shared_multi_heap_aligned_alloc E n h = (m, h') \<Longrightarrow> set_option m \<inter> blocks h = {} \<and> blocks h' = blocks h \<union> set_option m"
    and "blocks (shared_multi_heap_free E n h) = blocks h - {n}"
proof -
  have l: "modules_law E modules insts" "insts_law E modules insts" "main_law E modules insts" "heap_law E blocks"
    using assms by (simp_all add: runtime_lawful_def)
  show "wasm_runtime_load E bs r = (m, r') \<Longrightarrow> insts r' = insts r \<and> set_option m \<inter> modules r = {} \<and> modules r' = modules r \<union> set_option m"
    by (rule l(1) [unfolded modules_law_def, THEN conjunct1, rule_format])
  show "insts (wasm_runtime_unload E n r) = insts r \<and> modules (wasm_runtime_unload E n r) = modules r - {n}"
    by (rule l(1) [unfolded modules_law_def, THEN conjunct2, rule_format])
  show "wasm_runtime_instantiate E n a b r = (m, r') \<Longrightarrow> modules r' = modules r \<and> set_option m \<inter> insts r = {} \<and> insts r' = insts r \<union> set_option m"
    by (rule l(2) [unfolded insts_law_def, THEN conjunct1, rule_format])
  show "modules (wasm_runtime_deinstantiate E n r) = modules r \<and> insts (wasm_runtime_deinstantiate E n r) = insts r - {n}"
    by (rule l(2) [unfolded insts_law_def, THEN conjunct2, rule_format])
  show "wasm_application_execute_main E n argv s = (ok, t) \<Longrightarrow> app_run E modules insts s t"
    by (rule l(3) [unfolded main_law_def, THEN conjunct1, rule_format])
  show "wasm_runtime_init_thread_env E r = (ok, r') \<Longrightarrow> modules r' = modules r \<and> insts r' = insts r"
    by (rule l(3) [unfolded main_law_def, THEN conjunct2, rule_format])
  show "shared_multi_heap_aligned_alloc E n h = (m, h') \<Longrightarrow> set_option m \<inter> blocks h = {} \<and> blocks h' = blocks h \<union> set_option m"
    by (rule l(4) [unfolded heap_law_def, THEN conjunct1, rule_format])
  show "blocks (shared_multi_heap_free E n h) = blocks h - {n}" by (rule l(4) [unfolded heap_law_def, THEN conjunct2, rule_format])
qed

section \<open>A module is run and released\<close>

definition shell_context :: webos_app_context where
  "shell_context = shell_app_context (the (snd (webos_app_context_init (Some app_context_zero) (Some ''shell-app'') (Some ''development''))))"

lemma shell_context_ok: "fst (webos_app_context_init (Some app_context_zero) (Some ''shell-app'') (Some ''development'')) = WEBOS_OK"
  by code_simp

text \<open>What a command leaves of the file system, of the network and of the kernel's heap.\<close>

definition kept ::
    "('a, 'n) net_api \<Rightarrow> 'f file_view \<Rightarrow> 'f open_view \<Rightarrow> 'n net_view \<Rightarrow> ('f, 'n, 'r, 'm) iwasm \<Rightarrow> ('f, 'n, 'r, 'm) iwasm \<Rightarrow> bool" where
  "kept N files opened V s t \<longleftrightarrow>
     opened (iw_fs t) = opened (iw_fs s) \<and> (\<forall>q. \<not> webos_app_path_allowed (Some shell_context) (Some q) \<longrightarrow> files (iw_fs t) q = files (iw_fs s) q) \<and>
     v_open V (iw_net t) = v_open V (iw_net s) \<and> v_addrs V (iw_net t) = v_addrs V (iw_net s) \<and> v_locked V (iw_net t) = v_locked V (iw_net s) \<and>
     iw_live t = iw_live s \<and> (\<exists>sent. v_sent V (iw_net t) = v_sent V (iw_net s) @ sent \<and> list_all (request_granted N shell_context) sent)"

text \<open>What it leaves of the runtime and of the hand-over.\<close>

definition runtime_kept :: "('r \<Rightarrow> nat set) \<Rightarrow> ('r \<Rightarrow> nat set) \<Rightarrow> ('f, 'n, 'r, 'm) iwasm \<Rightarrow> ('f, 'n, 'r, 'm) iwasm \<Rightarrow> bool" where
  "runtime_kept modules insts s t \<longleftrightarrow> modules (iw_rt t) = modules (iw_rt s) \<and> insts (iw_rt t) = insts (iw_rt s) \<and>
     host_frame s (t\<lparr>iw_rt := iw_rt s, active_shell := active_shell s\<rparr>) \<and> (active_shell t = active_shell s \<or> active_shell t = None)"

lemma run_instance_effect:
  assumes rt: "runtime_lawful E modules insts blocks" and fs: "app_fs_lawful (ie_fs E) files opened" and net: "net_lawful (ie_net E) V"
    and r: "run_instance E sh i argv s = (ret, t)"
  shows "kept (ie_net E) files opened V s t \<and> runtime_kept modules insts s t"
proof -
  let ?s = "s\<lparr>iw_context := Some shell_context, active_shell := Some sh\<rparr>"
  obtain x where x: "webos_app_context_init (Some app_context_zero) (Some ''shell-app'') (Some ''development'') = (WEBOS_OK, x)"
    using shell_context_ok by (metis fst_conv prod.exhaust)
  then have c: "shell_context = shell_app_context (the x)" by (simp add: shell_context_def)
  obtain ok u where u: "wasm_application_execute_main E i argv ?s = (ok, u)" by fastforce
  have t: "t = u\<lparr>active_shell := None\<rparr>" using r x u by (simp add: run_instance_def c Let_def)
  have run: "app_run E modules insts ?s u" by (rule runtime_lawfulD(5) [OF rt u])
  show ?thesis using app_run_confined [OF run fs net, of shell_context] app_run_frame [OF run]
    by (simp add: t kept_def confined_def runtime_kept_def host_frame_def)
qed

lemma kept_frame [simp]:
  "kept N files opened V (s\<lparr>iw_rt := r\<rparr>) t = kept N files opened V s t" "kept N files opened V s (t\<lparr>iw_rt := r\<rparr>) = kept N files opened V s t"
  "kept N files opened V s s"
  by (simp_all add: kept_def)

lemma run_inst_effect:
  assumes rt: "runtime_lawful E modules insts blocks" and fs: "app_fs_lawful (ie_fs E) files opened" and net: "net_lawful (ie_net E) V"
    and i: "wasm_runtime_instantiate E m a b (iw_rt s) = (Some i, r)"
  shows "let (ret, t) = run_instance E sh i argv (s\<lparr>iw_rt := r\<rparr>); t = t\<lparr>iw_rt := wasm_runtime_deinstantiate E i (iw_rt t)\<rparr>
    in kept (ie_net E) files opened V s t \<and> runtime_kept modules insts s t"
proof -
  obtain ret t where t: "run_instance E sh i argv (s\<lparr>iw_rt := r\<rparr>) = (ret, t)" by fastforce
  show ?thesis using run_instance_effect [OF rt fs net t] runtime_lawfulD(3) [OF rt i] runtime_lawfulD(4) [OF rt, of i "iw_rt t"]
    by (simp add: t runtime_kept_def host_frame_def)
qed

lemma run_module_effect:
  assumes rt: "runtime_lawful E modules insts blocks" and fs: "app_fs_lawful (ie_fs E) files opened" and net: "net_lawful (ie_net E) V"
    and r: "run_module E sh bs argv s = (ret, t)"
  shows "kept (ie_net E) files opened V s t \<and> runtime_kept modules insts s t"
proof -
  obtain mo r where l: "wasm_runtime_load E bs (iw_rt s) = (mo, r)" by fastforce
  note L = runtime_lawfulD(1) [OF rt l]
  show ?thesis
  proof (cases mo)
    case None
    then show ?thesis using r l L by (auto simp: run_module_def Let_def runtime_kept_def host_frame_def)
  next
    case (Some m)
    let ?s = "s\<lparr>iw_rt := r\<rparr>"
    obtain io r2 where i: "wasm_runtime_instantiate E m 65536 65536 r = (io, r2)" by fastforce
    define q where "q = (if validate_module_abi E m r \<noteq> WEBOS_OK then (validate_module_abi E m r, ?s)
      else case io of None \<Rightarrow> (- EINVAL, ?s\<lparr>iw_rt := r2\<rparr>)
        | Some i \<Rightarrow> let (ret, u) = run_instance E sh i argv (?s\<lparr>iw_rt := r2\<rparr>) in (ret, u\<lparr>iw_rt := wasm_runtime_deinstantiate E i (iw_rt u)\<rparr>))"
    have "kept (ie_net E) files opened V ?s (snd q) \<and> runtime_kept modules insts ?s (snd q)"
    proof (cases io)
      case None
      then show ?thesis using runtime_lawfulD(3) [OF rt i] by (simp add: q_def runtime_kept_def host_frame_def)
    next
      case (Some i')
      then have "wasm_runtime_instantiate E m 65536 65536 (iw_rt ?s) = (Some i', r2)" using i by simp
      from run_inst_effect [OF rt fs net this, of sh argv] show ?thesis
        by (simp add: q_def Some runtime_kept_def host_frame_def case_prod_unfold Let_def)
    qed
    moreover have "t = (snd q)\<lparr>iw_rt := wasm_runtime_unload E m (iw_rt (snd q))\<rparr>"
      using r l i Some by (simp add: run_module_def q_def Let_def case_prod_unfold split: if_splits option.splits)
    ultimately show ?thesis using L runtime_lawfulD(2) [OF rt, of m "iw_rt (snd q)"] Some by (simp add: runtime_kept_def host_frame_def)
  qed
qed

lemma iwasm_malloc_effect:
  assumes "runtime_lawful E modules insts blocks" "iwasm_malloc E sz s = (p, t)"
  obtains m where "p = None" "t = s\<lparr>iw_eh := m\<rparr>" "blocks m = blocks (iw_eh s)"
  | raw m H where "p = Some (raw + HEADER_SZ)" "t = s\<lparr>iw_eh := m, iw_headers := H\<rparr>" "hdr_raw (H raw) = raw" "raw \<notin> blocks (iw_eh s)"
      "blocks m = insert raw (blocks (iw_eh s))"
proof -
  obtain raw m where a: "shared_multi_heap_aligned_alloc E (unat (word_of_nat HEADER_SZ + sz)) (iw_eh s) = (raw, m)" by fastforce
  note A = runtime_lawfulD(7) [OF assms(1) a]
  show thesis
  proof (cases raw)
    case None
    then show ?thesis using that(1) [of m] assms(2) a A by (auto simp: iwasm_malloc_def Let_def)
  next
    case (Some b)
    then show ?thesis using that(2) [of b "(iw_headers s)(b := \<lparr>hdr_raw = b, hdr_size = unat sz\<rparr>)" m] assms(2) a A
      by (auto simp: iwasm_malloc_def Let_def)
  qed
qed

text \<open>What running a file leaves of everything, the external heap included.\<close>

definition exec_kept ::
    "('a, 'n) net_api \<Rightarrow> 'f file_view \<Rightarrow> 'f open_view \<Rightarrow> 'n net_view \<Rightarrow> ('r \<Rightarrow> nat set) \<Rightarrow> ('r \<Rightarrow> nat set) \<Rightarrow> ('m \<Rightarrow> nat set) \<Rightarrow>
     ('f, 'n, 'r, 'm) iwasm \<Rightarrow> ('f, 'n, 'r, 'm) iwasm \<Rightarrow> bool" where
  "exec_kept N files opened V modules insts blocks s t \<longleftrightarrow>
     kept N files opened V s t \<and> blocks (iw_eh t) = blocks (iw_eh s) \<and> runtime_kept modules insts s (t\<lparr>iw_eh := iw_eh s, iw_headers := iw_headers s\<rparr>)"

lemma exec_kept_file:
  assumes "opened f = opened (iw_fs s)" "files f = files (iw_fs s)" "blocks m = blocks (iw_eh s)"
  shows "exec_kept N files opened V modules insts blocks s (s\<lparr>iw_fs := f\<rparr>)"
    "exec_kept N files opened V modules insts blocks s (s\<lparr>iw_fs := f, iw_eh := m\<rparr>)"
  using assms by (simp_all add: exec_kept_def kept_def runtime_kept_def host_frame_def)

text \<open>From the block for the module to its release.\<close>

lemma run_buffer_effect:
  assumes rt: "runtime_lawful E modules insts blocks" and fs: "app_fs_lawful (ie_fs E) files opened" and net: "net_lawful (ie_net E) V"
    and m: "hdr_raw (H raw) = raw" "raw \<notin> blocks (iw_eh s)" "blocks m = insert raw (blocks (iw_eh s))"
    and f: "opened f = opened (iw_fs s)" "files f = files (iw_fs s)"
    and t: "(if rd < 0 then (rd, u) else run_module E sh bs argv u) = (ret, t)" and u: "u = s\<lparr>iw_fs := f, iw_eh := m, iw_headers := H, iw_ram := ram\<rparr>"
  shows "exec_kept (ie_net E) files opened V modules insts blocks s (iwasm_free E (Some (raw + HEADER_SZ)) t)"
proof -
  have k: "kept (ie_net E) files opened V u t \<and> runtime_kept modules insts u t"
  proof (cases "rd < 0")
    case True
    then show ?thesis using t by (simp add: runtime_kept_def host_frame_def)
  next
    case False
    then show ?thesis using t run_module_effect [OF rt fs net, of sh bs argv u ret t] by simp
  qed
  then have "kept (ie_net E) files opened V s t" using f by (simp add: u kept_def)
  moreover have "iw_eh t = m" "iw_headers t = H" using k by (simp_all add: u runtime_kept_def host_frame_def)
  moreover have "blocks (shared_multi_heap_free E raw m) = blocks (iw_eh s)" using runtime_lawfulD(8) [OF rt, of raw m] m by simp
  ultimately show ?thesis using k m(1) by (simp add: exec_kept_def iwasm_free_def u kept_def runtime_kept_def host_frame_def)
qed

lemma exec_file_effect:
  assumes rt: "runtime_lawful E modules insts blocks" and fs: "app_fs_lawful (ie_fs E) files opened" and net: "net_lawful (ie_net E) V"
    and r: "iwasm_exec_file E sh path argv s = (ret, t)"
  shows "exec_kept (ie_net E) files opened V modules insts blocks s t"
proof -
  let ?done = "exec_kept (ie_net E) files opened V modules insts blocks s"
  obtain ro h f where o: "fs_open (ie_fs E) path FS_O_READ (iw_fs s) = (ro, h, f)" by (metis prod.exhaust)
  obtain r1 f1 where e: "fs_seek (ie_fs E) h 0 FS_SEEK_END f = (r1, f1)" by fastforce
  obtain r2 f2 where b: "fs_seek (ie_fs E) h 0 FS_SEEK_SET f1 = (r2, f2)" by fastforce
  let ?size = "fs_tell (ie_fs E) h f1"
  note O = app_open(1) [OF fs o]
  show ?thesis
  proof (cases "runtime_ready s \<and> ro = 0")
    case False
    then have "t = s \<or> ro \<noteq> 0 \<and> t = s\<lparr>iw_fs := f\<rparr>" using r o by (cases "runtime_ready s") (simp_all add: iwasm_exec_file_def Let_def)
    then show ?thesis using O exec_kept_file(1) [of opened f s files blocks "iw_eh s"] exec_kept_file(1) [of opened "iw_fs s" s files blocks "iw_eh s"] by auto
  next
    case ready: True
    have c: "opened (snd (fs_close (ie_fs E) h g)) = opened (iw_fs s) \<and> files (snd (fs_close (ie_fs E) h g)) = files (iw_fs s)"
      if "opened g = opened f" "files g = files f" for g
      using that O ready app_io(4) [OF fs, of h g] by (simp add: fun_upd_idem)
    have f1: "opened f1 = opened f" "files f1 = files f" using app_io(3) [OF fs, of h 0 FS_SEEK_END f] e by simp_all
    have f2: "opened f2 = opened f" "files f2 = files f" using app_io(3) [OF fs, of h 0 FS_SEEK_SET f1] b f1 by simp_all
    show ?thesis
    proof (cases "r1 = 0 \<and> 0 < ?size")
      case False
      then have "t = s\<lparr>iw_fs := snd (fs_close (ie_fs E) h f1)\<rparr>"
        using r o e ready by (auto simp: iwasm_exec_file_def close_file_def Let_def split: if_splits)
      then show ?thesis using exec_kept_file(1) [of opened _ s files blocks "iw_eh s" "ie_net E"] c [OF f1] by simp
    next
      case size: True
      let ?s = "s\<lparr>iw_fs := f2\<rparr>"
      obtain p s3 where m: "iwasm_malloc E (word_of_int ?size) ?s = (p, s3)" by fastforce
      obtain rd bs f3 where rd: "fs_read (ie_fs E) h (nat ?size) f2 = (rd, bs, f3)" by (metis prod.exhaust)
      have f3: "opened f3 = opened f" "files f3 = files f" using app_io(2) [OF fs rd] f2 by simp_all
      show ?thesis using rt m
      proof (cases rule: iwasm_malloc_effect)
        case (1 m')
        then have "t = s\<lparr>iw_fs := snd (fs_close (ie_fs E) h f2), iw_eh := m'\<rparr>"
          using r o e b ready size m by (auto simp: iwasm_exec_file_def close_file_def Let_def)
        then show ?thesis using exec_kept_file(2) [of opened _ s files blocks m' "ie_net E"] c [OF f2] 1 by simp
      next
        case (2 raw m' H)
        define u where "u = poke (raw + HEADER_SZ) bs (close_file E h (s3\<lparr>iw_fs := f3\<rparr>))"
        obtain ret' t' where w: "(if rd < 0 then (rd, u) else run_module E sh (peek (raw + HEADER_SZ) (nat ?size) u) argv u) = (ret', t')" by fastforce
        have "iw_fs s3 = f2" by (simp add: 2(2))
        then have t: "t = iwasm_free E (Some (raw + HEADER_SZ)) t'"
          using r o e b ready size m rd w [unfolded u_def] 2(1) by (simp add: iwasm_exec_file_def Let_def)
        have u: "u = s\<lparr>iw_fs := snd (fs_close (ie_fs E) h f3), iw_eh := m', iw_headers := H, iw_ram := iw_ram u\<rparr>"
          by (simp add: u_def 2(2) poke_def close_file_def)
        show ?thesis using run_buffer_effect [OF rt fs net 2(3) _ _ _ _ w u] 2(4,5) c [OF f3] by (simp add: t)
      qed
    qed
  qed
qed

section \<open>The command\<close>

definition iwasm_idle :: "('f, 'n, 'r, 'm) iwasm \<Rightarrow> bool" where
  "iwasm_idle s \<longleftrightarrow> \<not> exec_locked s \<and> active_shell s = None \<and> exec_request_ready s = 0 \<and> exec_request_done s = 0"

lemma exec_command_effect:
  assumes rt: "runtime_lawful E modules insts blocks" and fs: "app_fs_lawful (ie_fs E) files opened" and net: "net_lawful (ie_net E) V"
    and s: "iwasm_idle s" and r: "cmd_iwasm_exec E sh argv s = (ret, t)"
  shows "iwasm_idle t \<and> kept (ie_net E) files opened V s t \<and>
    modules (iw_rt t) = modules (iw_rt s) \<and> insts (iw_rt t) = insts (iw_rt s) \<and> blocks (iw_eh t) = blocks (iw_eh s)"
proof (cases "length argv < 2")
  case True
  then show ?thesis using s r by (simp add: cmd_iwasm_exec_def)
next
  case False
  let ?b = "cmd_begin sh argv s"
  let ?b' = "?b\<lparr>exec_request_ready := 0\<rparr>"
  obtain ok r' where env: "(if thread_env_ready s then (True, iw_rt s) else wasm_runtime_init_thread_env E (iw_rt s)) = (ok, r')" by fastforce
  have R: "modules r' = modules (iw_rt s) \<and> insts r' = insts (iw_rt s)"
    using env runtime_lawfulD(6) [OF rt, of "iw_rt s" ok r'] by (auto split: if_splits)
  let ?c = "?b'\<lparr>thread_env_ready := ok, iw_rt := r'\<rparr>"
  obtain ret' u where u: "(if ok then iwasm_exec_file E sh (argv ! 1) (drop 1 argv) ?c else (- EIO, ?c)) = (ret', u)" by fastforce
  have "exec_kept (ie_net E) files opened V modules insts blocks ?c u"
  proof (cases ok)
    case True
    then show ?thesis using u exec_file_effect [OF rt fs net] by simp
  next
    case False
    then show ?thesis using u by (auto simp: exec_kept_def runtime_kept_def host_frame_def)
  qed
  then have k: "kept (ie_net E) files opened V s u" "blocks (iw_eh u) = blocks (iw_eh s)" "modules (iw_rt u) = modules (iw_rt s)"
    "insts (iw_rt u) = insts (iw_rt s)" "exec_request_ready u = 0" "active_shell u = active_shell s \<or> active_shell u = None"
    using R by (simp_all add: exec_kept_def kept_def runtime_kept_def host_frame_def cmd_begin_def)
  have "iwasm_exec_thread E ?b = u\<lparr>exec_request := (exec_request u)\<lparr>xr_result := ret'\<rparr>, exec_request_done := 1\<rparr>"
  proof (cases "thread_env_ready s")
    case True
    then have "?c = ?b'" using env by (simp add: cmd_begin_def)
    from u have "(if ok then iwasm_exec_file E sh (argv ! 1) (drop 1 argv) ?b' else (- EIO, ?b')) = (ret', u)" by (simp only: \<open>?c = ?b'\<close>)
    then show ?thesis using True env by (simp add: iwasm_exec_thread_def cmd_begin_def Let_def)
  next
    case False
    then show ?thesis using u env by (cases ok) (auto simp: iwasm_exec_thread_def cmd_begin_def Let_def)
  qed
  then have t: "t = u\<lparr>exec_request := (exec_request u)\<lparr>xr_result := ret'\<rparr>, exec_request_done := 0, exec_locked := False\<rparr>"
    using r s False by (auto simp: cmd_iwasm_exec_def cmd_end_def iwasm_idle_def)
  show ?thesis using k s by (auto simp: t iwasm_idle_def kept_def)
qed

section \<open>A host in memory\<close>

text \<open>
  Files as in \<open>memstore\<close>, except that opening a file to read needs it and keeps it; a runtime whose
  modules are lists of numbers; and a module whose \<open>main\<close> writes two bytes of its memory to a file.
\<close>

definition appstore :: "memstore app_fs" where
  "appstore = memstore\<lparr>
     fs_open := (\<lambda>p flags (m, ds, ob).
        if flags = FS_O_READ \<and> m p = None then (- ENOENT, store_next ob, m, ds, ob)
        else (0, store_next ob, if flags = FS_O_READ then m else m(p \<mapsto> []), ds, (store_next ob, p) # ob)),
     fs_tell := (\<lambda>h (m, ds, ob). case map_of ob h of None \<Rightarrow> 0 | Some p \<Rightarrow> (case m p of None \<Rightarrow> 0 | Some d \<Rightarrow> int (length d)))\<rparr>"

definition fresh_id :: "nat list \<Rightarrow> nat" where
  "fresh_id l = Suc (foldr max l 0)"

definition take_id :: "nat list \<Rightarrow> nat option \<times> nat list" where
  "take_id l = (Some (fresh_id l), fresh_id l # l)"

type_synonym demo_runtime = "nat list \<times> nat list"

definition demo_base :: "(memstore, unit, demo_net, demo_runtime, nat list) iwasm_env" where
  "demo_base =
     \<lparr>ie_fs = appstore, ie_net = demo_api, WASM_HTTP_MAX_URL_LEN = 64, WASM_HTTP_MAX_HEADERS_LEN = 64, WASM_HTTP_MAX_REQUEST_BODY = 64,
      WASM_HTTP_MAX_RESPONSE_BODY = 64, WASM_HTTP_MAX_TIMEOUT_MS = 100, ie_malloc_ok = (\<lambda>k n. True),
      shared_multi_heap_aligned_alloc = (\<lambda>n. take_id), shared_multi_heap_free = removeAll,
      wasm_runtime_full_init = (\<lambda>names r. (True, r)), wasm_runtime_init_thread_env = (\<lambda>r. (True, r)),
      wasm_runtime_validate_native_addr = (\<lambda>r a n. 64 \<le> a),
      wasm_runtime_load = (\<lambda>bs (ms, is). if bs = [] then (None, ms, is) else (Some (fresh_id ms), fresh_id ms # ms, is)),
      wasm_runtime_get_custom_section = (\<lambda>m name r. Some [NUL, NUL, CHR 0x01, NUL]),
      wasm_runtime_instantiate = (\<lambda>m a b (ms, is). (Some (fresh_id is), ms, fresh_id is # is)),
      wasm_runtime_deinstantiate = (\<lambda>i (ms, is). (ms, removeAll i is)), wasm_runtime_unload = (\<lambda>m (ms, is). (removeAll m ms, is)),
      wasm_application_execute_main = (\<lambda>i argv s. (True, s))\<rparr>"

definition demo_write :: host_call where
  "demo_write = Call_write (Some ''/STORAGE:/apps/log'') (Some 64) 2"

definition demo_env :: "(memstore, unit, demo_net, demo_runtime, nat list) iwasm_env" where
  "demo_env = demo_base\<lparr>wasm_application_execute_main := (\<lambda>i argv s. (True, serve demo_base demo_write s))\<rparr>"

definition demo_host :: "(memstore, demo_net, demo_runtime, nat list) iwasm" where
  "demo_host =
     \<lparr>runtime_ready = True, active_shell = None, exec_locked = False, exec_request_ready = 0, exec_request_done = 0,
      exec_request = \<lparr>xr_shell = 0, xr_path = [], xr_argv = [], xr_result = 0\<rparr>, thread_env_ready = False,
      iw_fs = ([''/STORAGE:/apps/m.wasm'' \<mapsto> ''asm'', ''/STORAGE:/keys'' \<mapsto> ''k''], [], []), iw_net = quiet_net,
      iw_rt = ([], []), iw_eh = [], iw_ram = (\<lambda>a. CHR ''h''), iw_headers = (\<lambda>a. \<lparr>hdr_raw = 0, hdr_size = 0\<rparr>),
      iw_context = Some shell_context, iw_live = 0, iw_log = []\<rparr>"

definition demo_exec :: "int \<times> (memstore, demo_net, demo_runtime, nat list) iwasm" where
  "demo_exec = cmd_iwasm_exec demo_env 1 [''exec'', ''/STORAGE:/apps/m.wasm''] demo_host"

abbreviation demo_files :: "memstore file_view" where "demo_files \<equiv> fst"
abbreviation demo_opened :: "memstore open_view" where "demo_opened \<equiv> \<lambda>f. map_of (snd (snd f))"

lemma fresh_id_fresh [simp]: "fresh_id l \<notin> set l"
proof -
  have "n \<in> set l \<Longrightarrow> n \<le> foldr max l (0 :: nat)" for n by (induction l) auto
  then show ?thesis by (fastforce simp: fresh_id_def)
qed

lemma appstore_lawful: "app_fs_lawful appstore demo_files demo_opened"
proof -
  have "app_open_law appstore demo_files demo_opened"
    by (auto simp: app_open_law_def appstore_def memstore_def store_next_fresh errno_simps split: if_splits)
  moreover have "app_io_law appstore demo_files demo_opened"
    by (auto simp: app_io_law_def appstore_def memstore_def map_of_filter_key Let_def split: option.splits)
  ultimately show ?thesis by (simp add: app_fs_lawful_def)
qed

lemma demo_main:
  "wasm_application_execute_main demo_env i argv s = (True, serve demo_env demo_write s)" "wasm_runtime_init_thread_env demo_env r = (True, r)"
proof -
  have e: "ie_fs demo_env = ie_fs demo_base" "wasm_runtime_validate_native_addr demo_env = wasm_runtime_validate_native_addr demo_base"
    by (simp_all add: demo_env_def)
  have "serve demo_base demo_write s = serve demo_env demo_write s"
    by (simp only: demo_write_def serve.simps host_webos_write_def valid_range_def e)
  moreover have "wasm_application_execute_main demo_env i argv s = (True, serve demo_base demo_write s)" by (simp add: demo_env_def)
  ultimately show "wasm_application_execute_main demo_env i argv s = (True, serve demo_env demo_write s)" by (simp only:)
  show "wasm_runtime_init_thread_env demo_env r = (True, r)" by (simp add: demo_env_def demo_base_def)
qed

lemma demo_runtime_lawful: "runtime_lawful demo_env (\<lambda>r. set (fst r)) (\<lambda>r. set (snd r)) set"
proof -
  have "modules_law demo_env (\<lambda>r. set (fst r)) (\<lambda>r. set (snd r))" "insts_law demo_env (\<lambda>r. set (fst r)) (\<lambda>r. set (snd r))"
    by (auto simp: modules_law_def insts_law_def demo_env_def demo_base_def split: if_splits)
  moreover have "heap_law demo_env set" by (auto simp: heap_law_def demo_env_def demo_base_def take_id_def)
  moreover have "app_run demo_env (\<lambda>r. set (fst r)) (\<lambda>r. set (snd r)) s (serve demo_env demo_write s)" for s
    by (rule app_run.intros(2) [OF app_run.intros(1)])
  then have "main_law demo_env (\<lambda>r. set (fst r)) (\<lambda>r. set (snd r))"
    by (simp add: main_law_def demo_main)
  ultimately show ?thesis by (simp add: runtime_lawful_def)
qed

lemma demo_write_effect:
  assumes "iw_context s = Some shell_context" "iw_fs s = (m, ds, [])"
  shows "serve demo_env demo_write s = s\<lparr>iw_fs := (m(''/STORAGE:/apps/log'' \<mapsto> peek 64 2 s), ds, [])\<rparr>"
proof -
  have ok: "webos_app_path_allowed (Some shell_context) (Some ''/STORAGE:/apps/log'')" "max_io_bytes shell_context = 65536" by code_simp+
  have e: "ie_fs demo_env = appstore" "wasm_runtime_validate_native_addr demo_env = (\<lambda>r a n. 64 \<le> a)"
    by (simp_all add: demo_env_def demo_base_def)
  have "strncmp ''/STORAGE:/apps/log'' ''/dev/'' 5 \<noteq> 0" by code_simp
  then show ?thesis using assms ok
    by (simp add: demo_write_def host_webos_write_def valid_range_def e Let_def appstore_def memstore_def FS_O_READ_def FS_O_CREATE_def FS_O_WRITE_def FS_O_TRUNC_def bytes_at_def peek_def)
qed

lemma demo_module:
  assumes "iw_fs s = (m, ds, [])" "bs \<noteq> []"
  shows "fst (run_module demo_env sh bs argv s) = 0" "iw_fs (snd (run_module demo_env sh bs argv s)) = (m(''/STORAGE:/apps/log'' \<mapsto> peek 64 2 s), ds, [])"
proof -
  obtain x where x: "webos_app_context_init (Some app_context_zero) (Some ''shell-app'') (Some ''development'') = (WEBOS_OK, x)"
    using shell_context_ok by (metis fst_conv prod.exhaust)
  then have c: "shell_app_context (the x) = shell_context" by (simp add: shell_context_def)
  have abi: "webos_abi_check_version (sys_get_le32 [NUL, NUL, CHR 0x01, NUL]) = WEBOS_OK"
    by (simp add: webos_abi_check_version_def sys_get_le32_def WEBOS_ABI_MAJOR_def WEBOS_ABI_MINOR_def)
  have e: "wasm_runtime_load demo_env bs r = (Some (fresh_id (fst r)), fresh_id (fst r) # fst r, snd r)"
    "wasm_runtime_get_custom_section demo_env = (\<lambda>m name r. Some [NUL, NUL, CHR 0x01, NUL])"
    "wasm_runtime_instantiate demo_env a b d r = (Some (fresh_id (snd r)), fst r, fresh_id (snd r) # snd r)" for r a b d
    using assms(2) by (simp_all add: demo_env_def demo_base_def case_prod_unfold)
  show "fst (run_module demo_env sh bs argv s) = 0" "iw_fs (snd (run_module demo_env sh bs argv s)) = (m(''/STORAGE:/apps/log'' \<mapsto> peek 64 2 s), ds, [])"
    using assms(1) by (simp_all add: run_module_def run_instance_def e validate_module_abi_def abi x c demo_main demo_write_effect peek_def Let_def)
qed

lemma demo_exec_run: "\<exists>t. demo_exec = (0, t) \<and> demo_files (iw_fs t) ''/STORAGE:/apps/log'' = Some ''hh''"
proof -
  have e: "ie_fs demo_env = appstore" "shared_multi_heap_aligned_alloc demo_env n m = take_id m" for n m
    by (simp_all add: demo_env_def demo_base_def)
  define u where "u = demo_host\<lparr>exec_locked := True, exec_request := \<lparr>xr_shell = 1, xr_path = ''/STORAGE:/apps/m.wasm'', xr_argv = [''/STORAGE:/apps/m.wasm''], xr_result = 0\<rparr>,
    thread_env_ready := True\<rparr>"
  have "iwasm_exec_thread demo_env (cmd_begin 1 [''exec'', ''/STORAGE:/apps/m.wasm''] demo_host) = 
    (let (ret, s) = iwasm_exec_file demo_env 1 ''/STORAGE:/apps/m.wasm'' [''/STORAGE:/apps/m.wasm''] u in s\<lparr>exec_request := (exec_request s)\<lparr>xr_result := ret\<rparr>, exec_request_done := 1\<rparr>)"
    by (simp add: iwasm_exec_thread_def cmd_begin_def demo_host_def u_def demo_main Let_def)
  moreover have "\<exists>t. iwasm_exec_file demo_env 1 ''/STORAGE:/apps/m.wasm'' [''/STORAGE:/apps/m.wasm''] u = (0, t) \<and> demo_files (iw_fs t) ''/STORAGE:/apps/log'' = Some ''hh''"
    by (simp add: iwasm_exec_file_def u_def demo_host_def e appstore_def memstore_def Let_def iwasm_malloc_def take_id_def store_next_def fresh_id_def close_file_def
      poke_def peek_def HEADER_SZ_def iwasm_free_def case_prod_unfold demo_module upt_rec)
  ultimately show ?thesis by (auto simp: demo_exec_def cmd_iwasm_exec_def cmd_end_def demo_host_def Let_def)
qed

section \<open>Claims\<close>

text \<open>
  CX: An application stays within its grants.  For every run of a module that the runtime can make,
  that is any sequence of calls of \<open>webos_log\<close>, \<open>webos_write\<close>, \<open>webos_read\<close>, \<open>webos_ready\<close>,
  \<open>webos_heartbeat\<close>, \<open>webos_sleep_ms\<close> and \<open>web_http_request\<close> with any arguments, mixed with any changes of
  the module's memory: no file changes whose path the context does not allow, no file object and no
  socket or address list stays open, the lock of the client and the kernel's heap are as before, the
  policy of the context is the same, and every request that left the device was to a URL that the
  context allows and passed the client's checks, certificate verification included.
\<close>

theorem app_confined:
  assumes "app_run E modules insts s t" "app_fs_lawful (ie_fs E) files opened" "net_lawful (ie_net E) V" "iw_context s = Some x"
  shows "confined (ie_net E) files opened V x s t"
  using assms by (rule app_run_confined)

theorem app_confined_witness:
  "let t = serve demo_env demo_write demo_host in confined demo_api demo_files demo_opened demo_view shell_context demo_host t \<and>
     demo_files (iw_fs t) ''/STORAGE:/apps/log'' = Some ''hh'' \<and> demo_files (iw_fs t) ''/STORAGE:/keys'' = Some ''k''"
proof -
  have e: "ie_fs demo_env = appstore" "ie_net demo_env = demo_api" by (simp_all add: demo_env_def demo_base_def)
  have h: "iw_context demo_host = Some shell_context" by (simp add: demo_host_def)
  have run: "app_run demo_env (\<lambda>r. set (fst r)) (\<lambda>r. set (snd r)) demo_host (serve demo_env demo_write demo_host)"
    by (rule app_run.intros(2) [OF app_run.intros(1)])
  have "iw_fs demo_host = (fst (iw_fs demo_host), [], [])" by (simp add: demo_host_def)
  from demo_write_effect [OF h this] have "demo_files (iw_fs (serve demo_env demo_write demo_host)) =
      (fst (iw_fs demo_host))(''/STORAGE:/apps/log'' \<mapsto> peek 64 2 demo_host)" by simp
  then show ?thesis using app_confined [OF run, unfolded e, OF appstore_lawful demo_lawful h]
    by (simp add: demo_host_def peek_def upt_rec)
qed

text \<open>
  CX: \<open>iwasm exec\<close> gives everything back.  Whatever the file holds, whatever the module does and whatever
  call fails on the way, when the command returns the file objects, the loaded modules, the instances,
  the blocks of the external heap, the sockets and the kernel's heap are those it started with, no
  shell is active, the execution lock is free and no request is pending, so that the command can be
  given again; and files outside the grants of the development context are untouched.
\<close>

theorem exec_releases_all:
  assumes "runtime_lawful E modules insts blocks" "app_fs_lawful (ie_fs E) files opened" "net_lawful (ie_net E) V"
    and "iwasm_idle s" "cmd_iwasm_exec E sh argv s = (ret, t)"
  shows "iwasm_idle t \<and> kept (ie_net E) files opened V s t \<and>
    modules (iw_rt t) = modules (iw_rt s) \<and> insts (iw_rt t) = insts (iw_rt s) \<and> blocks (iw_eh t) = blocks (iw_eh s)"
  using assms by (rule exec_command_effect)

theorem exec_releases_all_witness:
  "\<exists>t. demo_exec = (0, t) \<and> iwasm_idle t \<and> iw_rt t = ([], []) \<and> iw_eh t = [] \<and> demo_files (iw_fs t) ''/STORAGE:/apps/log'' = Some ''hh'' \<and>
     demo_files (iw_fs t) ''/STORAGE:/keys'' = Some ''k'' \<and> snd (snd (iw_fs t)) = []"
proof -
  obtain t where t: "demo_exec = (0, t)" "demo_files (iw_fs t) ''/STORAGE:/apps/log'' = Some ''hh''" using demo_exec_run by blast
  have e: "ie_fs demo_env = appstore" "ie_net demo_env = demo_api" by (simp_all add: demo_env_def demo_base_def)
  have idle: "iwasm_idle demo_host" by (simp add: iwasm_idle_def demo_host_def)
  have keys: "\<not> webos_app_path_allowed (Some shell_context) (Some ''/STORAGE:/keys'')" by code_simp
  have l: "map_of l = Map.empty \<Longrightarrow> l = []" for l :: "(nat \<times> string) list" by simp
  have "iwasm_idle t \<and> kept demo_api demo_files demo_opened demo_view demo_host t \<and> set (fst (iw_rt t)) = {} \<and> set (snd (iw_rt t)) = {} \<and> set (iw_eh t) = {}"
    using exec_releases_all [OF demo_runtime_lawful, unfolded e, OF appstore_lawful demo_lawful idle t(1) [unfolded demo_exec_def]] by (simp add: demo_host_def)
  then have "iwasm_idle t" "iw_rt t = ([], [])" "iw_eh t = []" "map_of (snd (snd (iw_fs t))) = Map.empty" "demo_files (iw_fs t) ''/STORAGE:/keys'' = Some ''k''"
    using keys by (auto simp: kept_def demo_host_def prod_eq_iff)
  then show ?thesis using t l by (intro exI [of _ t]) simp
qed

end
