(* ===== verification/Spec2Isabelle.thy ===== *)
theory Spec2Isabelle
  imports Adb_Usb_System Drivers Http_Bounds Iwasm_Exec
begin

text \<open>
  WebOS for ESP32: a verification development.
\<close>

end
